(* ===== verification/GoBase.thy ===== *)
theory GoBase
  imports Main "HOL-Library.Word" "HOL-Library.Signed_Division"
begin

section \<open>Prelude: what the Go source uses of its language and library\<close>

text \<open>
  Shared by every component: the domain's error values, Go's \<^verbatim>\<open>int\<close> and
  \<^verbatim>\<open>time.Duration\<close> as 64 bit two's complement integers, byte strings and the functions of
  package \<^verbatim>\<open>strings\<close> the source calls, lists with a distinguished open element, and
  chains of logged transitions. A Go \<^verbatim>\<open>string\<close> is a sequence of bytes, so it is a
  HOL \<open>string\<close> (a list of 8 bit characters).
\<close>

named_theorems guard_simps \<open>equations that decide a command's guards\<close>
named_theorems cmd_defs \<open>the definitions of an aggregate's commands\<close>

subsection \<open>Errors\<close>

text \<open>
  \<^verbatim>\<open>internal/resolution/errors.go\<close>: two sentinel errors, each wrapped with a detail.
  Callers branch on the sentinel only; the argument here is the format string of the
  call that built the error, which names the check that failed (its interpolated
  arguments are left out).
\<close>

datatype derr = Refused string | Invalid string

fun is_refused :: "derr \<Rightarrow> bool" where
  "is_refused (Refused _) = True"
| "is_refused (Invalid _) = False"

subsection \<open>64 bit integers\<close>

type_synonym Time = int
type_synonym Duration = int

definition i64 :: "int \<Rightarrow> int" where
  "i64 x = sint (word_of_int x :: 64 word)"

lemma i64_id: "- (2 ^ 63) \<le> x \<Longrightarrow> x < 2 ^ 63 \<Longrightarrow> i64 x = x"
  by (simp add: i64_def int_word_sint)

lemma i64_range: "- (2 ^ 63) \<le> i64 x \<and> i64 x < 2 ^ 63"
  using sint_range_size [of "word_of_int x :: 64 word"] by (simp add: i64_def word_size)

subsection \<open>Byte strings\<close>

definition HasPrefix :: "string \<Rightarrow> string \<Rightarrow> bool" where
  "HasPrefix s p = (take (length p) s = p)"

definition HasSuffix :: "string \<Rightarrow> string \<Rightarrow> bool" where
  "HasSuffix s p = HasPrefix (rev s) (rev p)"

definition TrimPrefix :: "string \<Rightarrow> string \<Rightarrow> string" where
  "TrimPrefix s p = (if HasPrefix s p then drop (length p) s else s)"

fun Contains :: "string \<Rightarrow> string \<Rightarrow> bool" where
  "Contains [] sub = (sub = [])"
| "Contains (c # s) sub = (HasPrefix (c # s) sub \<or> Contains s sub)"

text \<open>\<^verbatim>\<open>strings.Split\<close> and \<^verbatim>\<open>strings.Cut\<close> with a separator of one byte.\<close>

fun Split :: "string \<Rightarrow> char \<Rightarrow> string list" where
  "Split [] sep = [[]]"
| "Split (c # s) sep =
     (if c = sep then [] # Split s sep
      else (case Split s sep of [] \<Rightarrow> [[c]] | p # ps \<Rightarrow> (c # p) # ps))"

fun Cut :: "string \<Rightarrow> char \<Rightarrow> string \<times> string \<times> bool" where
  "Cut [] sep = ([], [], False)"
| "Cut (c # s) sep =
     (if c = sep then ([], s, True)
      else (case Cut s sep of (b, a, ok) \<Rightarrow> (c # b, a, ok)))"

fun Join :: "string list \<Rightarrow> string \<Rightarrow> string" where
  "Join [] sep = []"
| "Join [p] sep = p"
| "Join (p # q # ps) sep = p @ sep @ Join (q # ps) sep"

lemma HasPrefix_append [simp]: "HasPrefix (p @ s) p"
  by (simp add: HasPrefix_def)

lemma HasPrefix_Nil [simp]: "HasPrefix s []"
  by (simp add: HasPrefix_def)

lemma HasPrefix_Cons_Nil [simp]: "HasPrefix [] (c # p) = False"
  by (simp add: HasPrefix_def)

lemma HasPrefix_Cons [simp]: "HasPrefix (c # s) (d # p) = (c = d \<and> HasPrefix s p)"
  by (auto simp: HasPrefix_def)

lemma HasPrefix_iff: "HasPrefix s p = (\<exists>t. s = p @ t)"
  by (induction p arbitrary: s; case_tac s) (auto simp: HasPrefix_def)

lemma Contains_iff: "Contains s sub = (\<exists>a b. s = a @ sub @ b)"
proof (induction s)
  case Nil
  then show ?case by auto
next
  case (Cons c s)
  show ?case
  proof
    assume "Contains (c # s) sub"
    then consider "HasPrefix (c # s) sub" | "Contains s sub" by auto
    then show "\<exists>a b. c # s = a @ sub @ b"
    proof cases
      case 1
      then show ?thesis by (metis HasPrefix_iff append_Nil)
    next
      case 2
      then show ?thesis using Cons.IH by (metis append_Cons)
    qed
  next
    assume "\<exists>a b. c # s = a @ sub @ b"
    then obtain a b where e: "c # s = a @ sub @ b" by blast
    show "Contains (c # s) sub"
    proof (cases a)
      case Nil
      with e have "HasPrefix (c # s) sub" by (metis HasPrefix_append append_Nil)
      then show ?thesis by simp
    next
      case (Cons x xs)
      with e Cons.IH show ?thesis by auto
    qed
  qed
qed

text \<open>
  ASCII case folding of one byte. \<^verbatim>\<open>strings.ToLower\<close> also maps letters beyond ASCII.
  Two of them have an ASCII lower case, U+0130 (bytes C4 B0) to \<^verbatim>\<open>i\<close> and U+212A
  (E2 84 AA) to \<^verbatim>\<open>k\<close>; every other letter keeps a non-ASCII spelling, which no word of
  the vocabularies contains, so it is left as it is here.
\<close>

definition lower_byte :: "char \<Rightarrow> char" where
  "lower_byte c = (if 65 \<le> (of_char c :: nat) \<and> (of_char c :: nat) \<le> 90
                   then char_of (of_char c + 32 :: nat) else c)"

fun ToLower :: "string \<Rightarrow> string" where
  "ToLower (a # b # c # s) =
     (if a = CHR 0xC4 \<and> b = CHR 0xB0 then CHR ''i'' # ToLower (c # s)
      else if a = CHR 0xE2 \<and> b = CHR 0x84 \<and> c = CHR 0xAA then CHR ''k'' # ToLower s
      else lower_byte a # ToLower (b # c # s))"
| "ToLower [a, b] = (if a = CHR 0xC4 \<and> b = CHR 0xB0 then [CHR ''i''] else [lower_byte a, lower_byte b])"
| "ToLower [a] = [lower_byte a]"
| "ToLower [] = []"

text \<open>The sha pattern \<^verbatim>\<open>^[0-9a-f]{40}$\<close>.\<close>

definition hex_byte :: "char \<Rightarrow> bool" where
  "hex_byte c = (c \<in> set ''0123456789abcdef'')"

definition shaRe :: "string \<Rightarrow> bool" where
  "shaRe s = (length s = 40 \<and> list_all hex_byte s)"

lemma shaRe_not_Nil: "shaRe s \<Longrightarrow> s \<noteq> []"
  by (auto simp: shaRe_def)

text \<open>The decimal form \<^verbatim>\<open>%d\<close> prints.\<close>

definition digit_char :: "nat \<Rightarrow> char" where
  "digit_char d = char_of (48 + d)"

fun show_nat :: "nat \<Rightarrow> string" where
  "show_nat n = (if n < 10 then [digit_char n] else show_nat (n div 10) @ [digit_char (n mod 10)])"

declare show_nat.simps [simp del]

definition show_int :: "int \<Rightarrow> string" where
  "show_int i = (if i < 0 then CHR ''-'' # show_nat (nat (- i)) else show_nat (nat i))"

end
