(* ===== verification/ResVocab.thy ===== *)
theory ResVocab
  imports GoBase
begin

section \<open>Closed vocabularies of the Resolution context\<close>

text \<open>
  \<^verbatim>\<open>internal/resolution/enums.go\<close>. A Go string enumeration is a string type: its values
  are its constants and every other string, the zero value \<^verbatim>\<open>""\<close> among them. Each is a
  datatype with the source's constants as constructors and one more,
  \<open>T_other s\<close>, for a string outside the vocabulary; \<open>T_string\<close> is Go's conversion
  \<^verbatim>\<open>string(x)\<close>, \<open>T_of\<close> the conversion \<^verbatim>\<open>T(s)\<close>, and they are mutually inverse
  (\<open>T_of\<close> never builds \<open>T_other s\<close> for an \<open>s\<close> of the vocabulary). Comparing typed
  values is therefore comparing strings, which is what \<open>parseEnum\<close> does.
\<close>

definition parseEnum :: "string \<Rightarrow> 'a \<Rightarrow> 'a list \<Rightarrow> derr + 'a" where
  "parseEnum name v all =
     (case find (\<lambda>x. x = v) all of
        Some x \<Rightarrow> Inr x
      | None \<Rightarrow> Inl (Invalid ''unknown %s %q''))"

lemma parseEnum_Inr: "parseEnum name v all = Inr x \<longleftrightarrow> x = v \<and> v \<in> set all"
proof (cases "find (\<lambda>y. y = v) all")
  case None
  then have "v \<notin> set all" by (auto simp: find_None_iff)
  with None show ?thesis by (auto simp: parseEnum_def)
next
  case (Some y)
  then have "y = v" "v \<in> set all" by (auto simp: find_Some_iff)
  with Some show ?thesis by (auto simp: parseEnum_def)
qed

lemma parseEnum_Inl:
  "parseEnum name v all = Inl e \<longleftrightarrow> v \<notin> set all \<and> e = Invalid ''unknown %s %q''"
proof (cases "find (\<lambda>y. y = v) all")
  case None
  then have "v \<notin> set all" by (auto simp: find_None_iff)
  with None show ?thesis by (auto simp: parseEnum_def)
next
  case (Some y)
  then have "y = v" "v \<in> set all" by (auto simp: find_Some_iff)
  with Some show ?thesis by (auto simp: parseEnum_def)
qed

definition enum_of :: "('a \<Rightarrow> string) \<Rightarrow> 'a list \<Rightarrow> (string \<Rightarrow> 'a) \<Rightarrow> string \<Rightarrow> 'a" where
  "enum_of str all other s =
     (case find (\<lambda>x. str x = s) all of Some x \<Rightarrow> x | None \<Rightarrow> other s)"

lemma enum_of_string:
  assumes "\<And>s. str (other s) = s"
  shows "str (enum_of str all other s) = s"
  using assms by (auto simp: enum_of_def find_Some_iff split: option.splits)

lemma enum_of_member:
  assumes "distinct (map str all)" "x \<in> set all"
  shows "enum_of str all other (str x) = x"
proof -
  obtain y where y: "find (\<lambda>z. str z = str x) all = Some y"
    using assms(2) by (cases "find (\<lambda>z. str z = str x) all") (auto simp: find_None_iff)
  then have "str y = str x" "y \<in> set all"
    by (auto simp: find_Some_iff)
  with assms have "y = x" by (auto simp: distinct_map dest: inj_onD)
  with y show ?thesis by (simp add: enum_of_def)
qed


datatype CaseState =
    Received
  | Gated
  | Queued
  | Attempting
  | AwaitingApproval
  | Failed
  | Done
  | Closed
  | CaseState_other string

fun CaseState_string :: "CaseState \<Rightarrow> string" where
    "CaseState_string Received = ''received''"
  | "CaseState_string Gated = ''gated''"
  | "CaseState_string Queued = ''queued''"
  | "CaseState_string Attempting = ''attempting''"
  | "CaseState_string AwaitingApproval = ''awaiting_approval''"
  | "CaseState_string Failed = ''failed''"
  | "CaseState_string Done = ''done''"
  | "CaseState_string Closed = ''closed''"
  | "CaseState_string (CaseState_other s) = s"

definition AllCaseStates :: "CaseState list" where
  "AllCaseStates = [Received, Gated, Queued, Attempting, AwaitingApproval, Failed, Done, Closed]"

definition CaseState_of :: "string \<Rightarrow> CaseState" where
  "CaseState_of = enum_of CaseState_string AllCaseStates CaseState_other"

definition CaseState_Terminal :: "CaseState \<Rightarrow> bool" where
  "CaseState_Terminal s = (s = Done \<or> s = Closed)"

definition ParseCaseState :: "CaseState \<Rightarrow> derr + CaseState" where
  "ParseCaseState v = parseEnum ''case state'' v AllCaseStates"

lemma ParseCaseState_simps [simp]:
  "ParseCaseState Received = Inr Received"
  "ParseCaseState Gated = Inr Gated"
  "ParseCaseState Queued = Inr Queued"
  "ParseCaseState Attempting = Inr Attempting"
  "ParseCaseState AwaitingApproval = Inr AwaitingApproval"
  "ParseCaseState Failed = Inr Failed"
  "ParseCaseState Done = Inr Done"
  "ParseCaseState Closed = Inr Closed"
  "ParseCaseState (CaseState_other s) = Inl (Invalid ''unknown %s %q'')"
  by (simp_all add: ParseCaseState_def AllCaseStates_def parseEnum_def)

lemma ParseCaseState_Inr: "ParseCaseState v = Inr x \<longleftrightarrow> x = v \<and> v \<in> set AllCaseStates"
  by (cases v) (auto simp: AllCaseStates_def)

lemma ParseCaseState_Inl: "ParseCaseState v = Inl e \<longleftrightarrow>
    v \<notin> set AllCaseStates \<and> e = Invalid ''unknown %s %q''"
  by (cases v) (auto simp: AllCaseStates_def)

datatype Trust =
    Trusted
  | Untrusted
  | Trust_other string

fun Trust_string :: "Trust \<Rightarrow> string" where
    "Trust_string Trusted = ''trusted''"
  | "Trust_string Untrusted = ''untrusted''"
  | "Trust_string (Trust_other s) = s"

definition AllTrusts :: "Trust list" where
  "AllTrusts = [Trusted, Untrusted]"

definition Trust_of :: "string \<Rightarrow> Trust" where
  "Trust_of = enum_of Trust_string AllTrusts Trust_other"

definition ParseTrust :: "Trust \<Rightarrow> derr + Trust" where
  "ParseTrust v = parseEnum ''trust'' v AllTrusts"

lemma ParseTrust_simps [simp]:
  "ParseTrust Trusted = Inr Trusted"
  "ParseTrust Untrusted = Inr Untrusted"
  "ParseTrust (Trust_other s) = Inl (Invalid ''unknown %s %q'')"
  by (simp_all add: ParseTrust_def AllTrusts_def parseEnum_def)

lemma ParseTrust_Inr: "ParseTrust v = Inr x \<longleftrightarrow> x = v \<and> v \<in> set AllTrusts"
  by (cases v) (auto simp: AllTrusts_def)

lemma ParseTrust_Inl: "ParseTrust v = Inl e \<longleftrightarrow>
    v \<notin> set AllTrusts \<and> e = Invalid ''unknown %s %q''"
  by (cases v) (auto simp: AllTrusts_def)

datatype Association =
    AssociationOwner
  | AssociationMember
  | AssociationCollaborator
  | AssociationContributor
  | AssociationFirstTimeContributor
  | AssociationFirstTimer
  | AssociationMannequin
  | AssociationNone
  | Association_other string

fun Association_string :: "Association \<Rightarrow> string" where
    "Association_string AssociationOwner = ''owner''"
  | "Association_string AssociationMember = ''member''"
  | "Association_string AssociationCollaborator = ''collaborator''"
  | "Association_string AssociationContributor = ''contributor''"
  | "Association_string AssociationFirstTimeContributor = ''first_time_contributor''"
  | "Association_string AssociationFirstTimer = ''first_timer''"
  | "Association_string AssociationMannequin = ''mannequin''"
  | "Association_string AssociationNone = ''none''"
  | "Association_string (Association_other s) = s"

definition AllAssociations :: "Association list" where
  "AllAssociations = [AssociationOwner, AssociationMember, AssociationCollaborator, AssociationContributor, AssociationFirstTimeContributor, AssociationFirstTimer, AssociationMannequin, AssociationNone]"

definition Association_of :: "string \<Rightarrow> Association" where
  "Association_of = enum_of Association_string AllAssociations Association_other"

text \<open>Accepts GitHub's upper case spelling as well.\<close>

definition ParseAssociation :: "Association \<Rightarrow> derr + Association" where
  "ParseAssociation v =
     parseEnum ''association'' (Association_of (ToLower (Association_string v))) AllAssociations"

lemma ParseAssociation_simps [simp]:
  "ParseAssociation AssociationOwner = Inr AssociationOwner"
  "ParseAssociation AssociationMember = Inr AssociationMember"
  "ParseAssociation AssociationCollaborator = Inr AssociationCollaborator"
  "ParseAssociation AssociationContributor = Inr AssociationContributor"
  "ParseAssociation AssociationFirstTimeContributor = Inr AssociationFirstTimeContributor"
  "ParseAssociation AssociationFirstTimer = Inr AssociationFirstTimer"
  "ParseAssociation AssociationMannequin = Inr AssociationMannequin"
  "ParseAssociation AssociationNone = Inr AssociationNone"
  by (simp_all add: ParseAssociation_def AllAssociations_def parseEnum_def Association_of_def
      enum_of_def lower_byte_def)

lemma ParseAssociation_Inr: "ParseAssociation v = Inr x \<Longrightarrow> x \<in> set AllAssociations"
  by (auto simp: ParseAssociation_def parseEnum_Inr)

lemma ParseAssociation_Inl: "ParseAssociation v = Inl e \<Longrightarrow> e = Invalid ''unknown %s %q''"
  by (auto simp: ParseAssociation_def parseEnum_Inl)

datatype Size =
    Small
  | Large
  | Size_other string

fun Size_string :: "Size \<Rightarrow> string" where
    "Size_string Small = ''small''"
  | "Size_string Large = ''large''"
  | "Size_string (Size_other s) = s"

definition AllSizes :: "Size list" where
  "AllSizes = [Small, Large]"

definition Size_of :: "string \<Rightarrow> Size" where
  "Size_of = enum_of Size_string AllSizes Size_other"

definition ParseSize :: "Size \<Rightarrow> derr + Size" where
  "ParseSize v = parseEnum ''size'' v AllSizes"

lemma ParseSize_simps [simp]:
  "ParseSize Small = Inr Small"
  "ParseSize Large = Inr Large"
  "ParseSize (Size_other s) = Inl (Invalid ''unknown %s %q'')"
  by (simp_all add: ParseSize_def AllSizes_def parseEnum_def)

lemma ParseSize_Inr: "ParseSize v = Inr x \<longleftrightarrow> x = v \<and> v \<in> set AllSizes"
  by (cases v) (auto simp: AllSizes_def)

lemma ParseSize_Inl: "ParseSize v = Inl e \<longleftrightarrow>
    v \<notin> set AllSizes \<and> e = Invalid ''unknown %s %q''"
  by (cases v) (auto simp: AllSizes_def)

datatype AttemptKind =
    Auto
  | Approved
  | AttemptKind_other string

fun AttemptKind_string :: "AttemptKind \<Rightarrow> string" where
    "AttemptKind_string Auto = ''auto''"
  | "AttemptKind_string Approved = ''approved''"
  | "AttemptKind_string (AttemptKind_other s) = s"

definition AllAttemptKinds :: "AttemptKind list" where
  "AllAttemptKinds = [Auto, Approved]"

definition AttemptKind_of :: "string \<Rightarrow> AttemptKind" where
  "AttemptKind_of = enum_of AttemptKind_string AllAttemptKinds AttemptKind_other"

definition ParseAttemptKind :: "AttemptKind \<Rightarrow> derr + AttemptKind" where
  "ParseAttemptKind v = parseEnum ''attempt kind'' v AllAttemptKinds"

lemma ParseAttemptKind_simps [simp]:
  "ParseAttemptKind Auto = Inr Auto"
  "ParseAttemptKind Approved = Inr Approved"
  "ParseAttemptKind (AttemptKind_other s) = Inl (Invalid ''unknown %s %q'')"
  by (simp_all add: ParseAttemptKind_def AllAttemptKinds_def parseEnum_def)

lemma ParseAttemptKind_Inr: "ParseAttemptKind v = Inr x \<longleftrightarrow> x = v \<and> v \<in> set AllAttemptKinds"
  by (cases v) (auto simp: AllAttemptKinds_def)

lemma ParseAttemptKind_Inl: "ParseAttemptKind v = Inl e \<longleftrightarrow>
    v \<notin> set AllAttemptKinds \<and> e = Invalid ''unknown %s %q''"
  by (cases v) (auto simp: AllAttemptKinds_def)

datatype OutcomeKind =
    PullRequestOpened
  | BudgetExhausted
  | FailedOutcome
  | Aborted
  | OutcomeKind_other string

fun OutcomeKind_string :: "OutcomeKind \<Rightarrow> string" where
    "OutcomeKind_string PullRequestOpened = ''pull_request_opened''"
  | "OutcomeKind_string BudgetExhausted = ''budget_exhausted''"
  | "OutcomeKind_string FailedOutcome = ''failed''"
  | "OutcomeKind_string Aborted = ''aborted''"
  | "OutcomeKind_string (OutcomeKind_other s) = s"

definition AllOutcomeKinds :: "OutcomeKind list" where
  "AllOutcomeKinds = [PullRequestOpened, BudgetExhausted, FailedOutcome, Aborted]"

definition OutcomeKind_of :: "string \<Rightarrow> OutcomeKind" where
  "OutcomeKind_of = enum_of OutcomeKind_string AllOutcomeKinds OutcomeKind_other"

definition ParseOutcomeKind :: "OutcomeKind \<Rightarrow> derr + OutcomeKind" where
  "ParseOutcomeKind v = parseEnum ''outcome kind'' v AllOutcomeKinds"

lemma ParseOutcomeKind_simps [simp]:
  "ParseOutcomeKind PullRequestOpened = Inr PullRequestOpened"
  "ParseOutcomeKind BudgetExhausted = Inr BudgetExhausted"
  "ParseOutcomeKind FailedOutcome = Inr FailedOutcome"
  "ParseOutcomeKind Aborted = Inr Aborted"
  "ParseOutcomeKind (OutcomeKind_other s) = Inl (Invalid ''unknown %s %q'')"
  by (simp_all add: ParseOutcomeKind_def AllOutcomeKinds_def parseEnum_def)

lemma ParseOutcomeKind_Inr: "ParseOutcomeKind v = Inr x \<longleftrightarrow> x = v \<and> v \<in> set AllOutcomeKinds"
  by (cases v) (auto simp: AllOutcomeKinds_def)

lemma ParseOutcomeKind_Inl: "ParseOutcomeKind v = Inl e \<longleftrightarrow>
    v \<notin> set AllOutcomeKinds \<and> e = Invalid ''unknown %s %q''"
  by (cases v) (auto simp: AllOutcomeKinds_def)

datatype Limit =
    LimitTurns
  | LimitWallClock
  | LimitDiffLines
  | Limit_other string

fun Limit_string :: "Limit \<Rightarrow> string" where
    "Limit_string LimitTurns = ''turns''"
  | "Limit_string LimitWallClock = ''wall_clock''"
  | "Limit_string LimitDiffLines = ''diff_lines''"
  | "Limit_string (Limit_other s) = s"

definition AllLimits :: "Limit list" where
  "AllLimits = [LimitTurns, LimitWallClock, LimitDiffLines]"

definition Limit_of :: "string \<Rightarrow> Limit" where
  "Limit_of = enum_of Limit_string AllLimits Limit_other"

definition ParseLimit :: "Limit \<Rightarrow> derr + Limit" where
  "ParseLimit v = parseEnum ''limit'' v AllLimits"

lemma ParseLimit_simps [simp]:
  "ParseLimit LimitTurns = Inr LimitTurns"
  "ParseLimit LimitWallClock = Inr LimitWallClock"
  "ParseLimit LimitDiffLines = Inr LimitDiffLines"
  "ParseLimit (Limit_other s) = Inl (Invalid ''unknown %s %q'')"
  by (simp_all add: ParseLimit_def AllLimits_def parseEnum_def)

lemma ParseLimit_Inr: "ParseLimit v = Inr x \<longleftrightarrow> x = v \<and> v \<in> set AllLimits"
  by (cases v) (auto simp: AllLimits_def)

lemma ParseLimit_Inl: "ParseLimit v = Inl e \<longleftrightarrow>
    v \<notin> set AllLimits \<and> e = Invalid ''unknown %s %q''"
  by (cases v) (auto simp: AllLimits_def)

datatype FailureClass =
    FailureInfra
  | FailureModel
  | FailureAgent
  | FailureClass_other string

fun FailureClass_string :: "FailureClass \<Rightarrow> string" where
    "FailureClass_string FailureInfra = ''infra''"
  | "FailureClass_string FailureModel = ''model''"
  | "FailureClass_string FailureAgent = ''agent''"
  | "FailureClass_string (FailureClass_other s) = s"

definition AllFailureClasses :: "FailureClass list" where
  "AllFailureClasses = [FailureInfra, FailureModel, FailureAgent]"

definition FailureClass_of :: "string \<Rightarrow> FailureClass" where
  "FailureClass_of = enum_of FailureClass_string AllFailureClasses FailureClass_other"

definition ParseFailureClass :: "FailureClass \<Rightarrow> derr + FailureClass" where
  "ParseFailureClass v = parseEnum ''failure class'' v AllFailureClasses"

lemma ParseFailureClass_simps [simp]:
  "ParseFailureClass FailureInfra = Inr FailureInfra"
  "ParseFailureClass FailureModel = Inr FailureModel"
  "ParseFailureClass FailureAgent = Inr FailureAgent"
  "ParseFailureClass (FailureClass_other s) = Inl (Invalid ''unknown %s %q'')"
  by (simp_all add: ParseFailureClass_def AllFailureClasses_def parseEnum_def)

lemma ParseFailureClass_Inr: "ParseFailureClass v = Inr x \<longleftrightarrow> x = v \<and> v \<in> set AllFailureClasses"
  by (cases v) (auto simp: AllFailureClasses_def)

lemma ParseFailureClass_Inl: "ParseFailureClass v = Inl e \<longleftrightarrow>
    v \<notin> set AllFailureClasses \<and> e = Invalid ''unknown %s %q''"
  by (cases v) (auto simp: AllFailureClasses_def)

datatype AbortReason =
    AbortIssueClosed
  | AbortOperatorStop
  | AbortDaemonRestart
  | AbortReason_other string

fun AbortReason_string :: "AbortReason \<Rightarrow> string" where
    "AbortReason_string AbortIssueClosed = ''issue_closed''"
  | "AbortReason_string AbortOperatorStop = ''operator_stop''"
  | "AbortReason_string AbortDaemonRestart = ''daemon_restart''"
  | "AbortReason_string (AbortReason_other s) = s"

definition AllAbortReasons :: "AbortReason list" where
  "AllAbortReasons = [AbortIssueClosed, AbortOperatorStop, AbortDaemonRestart]"

definition AbortReason_of :: "string \<Rightarrow> AbortReason" where
  "AbortReason_of = enum_of AbortReason_string AllAbortReasons AbortReason_other"

definition ParseAbortReason :: "AbortReason \<Rightarrow> derr + AbortReason" where
  "ParseAbortReason v = parseEnum ''abort reason'' v AllAbortReasons"

lemma ParseAbortReason_simps [simp]:
  "ParseAbortReason AbortIssueClosed = Inr AbortIssueClosed"
  "ParseAbortReason AbortOperatorStop = Inr AbortOperatorStop"
  "ParseAbortReason AbortDaemonRestart = Inr AbortDaemonRestart"
  "ParseAbortReason (AbortReason_other s) = Inl (Invalid ''unknown %s %q'')"
  by (simp_all add: ParseAbortReason_def AllAbortReasons_def parseEnum_def)

lemma ParseAbortReason_Inr: "ParseAbortReason v = Inr x \<longleftrightarrow> x = v \<and> v \<in> set AllAbortReasons"
  by (cases v) (auto simp: AllAbortReasons_def)

lemma ParseAbortReason_Inl: "ParseAbortReason v = Inl e \<longleftrightarrow>
    v \<notin> set AllAbortReasons \<and> e = Invalid ''unknown %s %q''"
  by (cases v) (auto simp: AllAbortReasons_def)

datatype ApprovalSource =
    SourceLabel
  | SourceOperator
  | ApprovalSource_other string

fun ApprovalSource_string :: "ApprovalSource \<Rightarrow> string" where
    "ApprovalSource_string SourceLabel = ''label''"
  | "ApprovalSource_string SourceOperator = ''operator''"
  | "ApprovalSource_string (ApprovalSource_other s) = s"

definition AllApprovalSources :: "ApprovalSource list" where
  "AllApprovalSources = [SourceLabel, SourceOperator]"

definition ApprovalSource_of :: "string \<Rightarrow> ApprovalSource" where
  "ApprovalSource_of = enum_of ApprovalSource_string AllApprovalSources ApprovalSource_other"

definition ParseApprovalSource :: "ApprovalSource \<Rightarrow> derr + ApprovalSource" where
  "ParseApprovalSource v = parseEnum ''approval source'' v AllApprovalSources"

lemma ParseApprovalSource_simps [simp]:
  "ParseApprovalSource SourceLabel = Inr SourceLabel"
  "ParseApprovalSource SourceOperator = Inr SourceOperator"
  "ParseApprovalSource (ApprovalSource_other s) = Inl (Invalid ''unknown %s %q'')"
  by (simp_all add: ParseApprovalSource_def AllApprovalSources_def parseEnum_def)

lemma ParseApprovalSource_Inr: "ParseApprovalSource v = Inr x \<longleftrightarrow> x = v \<and> v \<in> set AllApprovalSources"
  by (cases v) (auto simp: AllApprovalSources_def)

lemma ParseApprovalSource_Inl: "ParseApprovalSource v = Inl e \<longleftrightarrow>
    v \<notin> set AllApprovalSources \<and> e = Invalid ''unknown %s %q''"
  by (cases v) (auto simp: AllApprovalSources_def)

datatype TransitionCause =
    CauseTriageSmall
  | CauseTriageLarge
  | CauseApproval
  | CauseAttemptStarted
  | CauseOutcomePullRequestOpened
  | CauseOutcomeBudgetExhausted
  | CauseOutcomeFailed
  | CauseOutcomeAbortedOperatorStop
  | CauseOutcomeAbortedRestartRequeue
  | CauseOutcomeAbortedRestartFailed
  | CauseClosed
  | TransitionCause_other string

fun TransitionCause_string :: "TransitionCause \<Rightarrow> string" where
    "TransitionCause_string CauseTriageSmall = ''triage_small''"
  | "TransitionCause_string CauseTriageLarge = ''triage_large''"
  | "TransitionCause_string CauseApproval = ''approval''"
  | "TransitionCause_string CauseAttemptStarted = ''attempt_started''"
  | "TransitionCause_string CauseOutcomePullRequestOpened = ''outcome_pull_request_opened''"
  | "TransitionCause_string CauseOutcomeBudgetExhausted = ''outcome_budget_exhausted''"
  | "TransitionCause_string CauseOutcomeFailed = ''outcome_failed''"
  | "TransitionCause_string CauseOutcomeAbortedOperatorStop = ''outcome_aborted_operator_stop''"
  | "TransitionCause_string CauseOutcomeAbortedRestartRequeue = ''outcome_aborted_daemon_restart_requeued''"
  | "TransitionCause_string CauseOutcomeAbortedRestartFailed = ''outcome_aborted_daemon_restart_failed''"
  | "TransitionCause_string CauseClosed = ''closed''"
  | "TransitionCause_string (TransitionCause_other s) = s"

definition AllTransitionCauses :: "TransitionCause list" where
  "AllTransitionCauses = [CauseTriageSmall, CauseTriageLarge, CauseApproval, CauseAttemptStarted, CauseOutcomePullRequestOpened, CauseOutcomeBudgetExhausted, CauseOutcomeFailed, CauseOutcomeAbortedOperatorStop, CauseOutcomeAbortedRestartRequeue, CauseOutcomeAbortedRestartFailed, CauseClosed]"

definition TransitionCause_of :: "string \<Rightarrow> TransitionCause" where
  "TransitionCause_of = enum_of TransitionCause_string AllTransitionCauses TransitionCause_other"

definition ParseTransitionCause :: "TransitionCause \<Rightarrow> derr + TransitionCause" where
  "ParseTransitionCause v = parseEnum ''transition cause'' v AllTransitionCauses"

lemma ParseTransitionCause_simps [simp]:
  "ParseTransitionCause CauseTriageSmall = Inr CauseTriageSmall"
  "ParseTransitionCause CauseTriageLarge = Inr CauseTriageLarge"
  "ParseTransitionCause CauseApproval = Inr CauseApproval"
  "ParseTransitionCause CauseAttemptStarted = Inr CauseAttemptStarted"
  "ParseTransitionCause CauseOutcomePullRequestOpened = Inr CauseOutcomePullRequestOpened"
  "ParseTransitionCause CauseOutcomeBudgetExhausted = Inr CauseOutcomeBudgetExhausted"
  "ParseTransitionCause CauseOutcomeFailed = Inr CauseOutcomeFailed"
  "ParseTransitionCause CauseOutcomeAbortedOperatorStop = Inr CauseOutcomeAbortedOperatorStop"
  "ParseTransitionCause CauseOutcomeAbortedRestartRequeue = Inr CauseOutcomeAbortedRestartRequeue"
  "ParseTransitionCause CauseOutcomeAbortedRestartFailed = Inr CauseOutcomeAbortedRestartFailed"
  "ParseTransitionCause CauseClosed = Inr CauseClosed"
  "ParseTransitionCause (TransitionCause_other s) = Inl (Invalid ''unknown %s %q'')"
  by (simp_all add: ParseTransitionCause_def AllTransitionCauses_def parseEnum_def)

lemma ParseTransitionCause_Inr: "ParseTransitionCause v = Inr x \<longleftrightarrow> x = v \<and> v \<in> set AllTransitionCauses"
  by (cases v) (auto simp: AllTransitionCauses_def)

lemma ParseTransitionCause_Inl: "ParseTransitionCause v = Inl e \<longleftrightarrow>
    v \<notin> set AllTransitionCauses \<and> e = Invalid ''unknown %s %q''"
  by (cases v) (auto simp: AllTransitionCauses_def)

lemma CaseState_string_of [simp]: "CaseState_string (CaseState_of s) = s"
  by (simp add: CaseState_of_def enum_of_string)

lemma CaseState_of_string: "x \<in> set AllCaseStates \<Longrightarrow> CaseState_of (CaseState_string x) = x"
  unfolding CaseState_of_def by (rule enum_of_member) (simp_all add: AllCaseStates_def)

lemma Trust_string_of [simp]: "Trust_string (Trust_of s) = s"
  by (simp add: Trust_of_def enum_of_string)

lemma Trust_of_string: "x \<in> set AllTrusts \<Longrightarrow> Trust_of (Trust_string x) = x"
  unfolding Trust_of_def by (rule enum_of_member) (simp_all add: AllTrusts_def)

lemma Association_string_of [simp]: "Association_string (Association_of s) = s"
  by (simp add: Association_of_def enum_of_string)

lemma Association_of_string: "x \<in> set AllAssociations \<Longrightarrow> Association_of (Association_string x) = x"
  unfolding Association_of_def by (rule enum_of_member) (simp_all add: AllAssociations_def)

lemma Size_string_of [simp]: "Size_string (Size_of s) = s"
  by (simp add: Size_of_def enum_of_string)

lemma Size_of_string: "x \<in> set AllSizes \<Longrightarrow> Size_of (Size_string x) = x"
  unfolding Size_of_def by (rule enum_of_member) (simp_all add: AllSizes_def)

lemma AttemptKind_string_of [simp]: "AttemptKind_string (AttemptKind_of s) = s"
  by (simp add: AttemptKind_of_def enum_of_string)

lemma AttemptKind_of_string: "x \<in> set AllAttemptKinds \<Longrightarrow> AttemptKind_of (AttemptKind_string x) = x"
  unfolding AttemptKind_of_def by (rule enum_of_member) (simp_all add: AllAttemptKinds_def)

lemma OutcomeKind_string_of [simp]: "OutcomeKind_string (OutcomeKind_of s) = s"
  by (simp add: OutcomeKind_of_def enum_of_string)

lemma OutcomeKind_of_string: "x \<in> set AllOutcomeKinds \<Longrightarrow> OutcomeKind_of (OutcomeKind_string x) = x"
  unfolding OutcomeKind_of_def by (rule enum_of_member) (simp_all add: AllOutcomeKinds_def)

lemma Limit_string_of [simp]: "Limit_string (Limit_of s) = s"
  by (simp add: Limit_of_def enum_of_string)

lemma Limit_of_string: "x \<in> set AllLimits \<Longrightarrow> Limit_of (Limit_string x) = x"
  unfolding Limit_of_def by (rule enum_of_member) (simp_all add: AllLimits_def)

lemma FailureClass_string_of [simp]: "FailureClass_string (FailureClass_of s) = s"
  by (simp add: FailureClass_of_def enum_of_string)

lemma FailureClass_of_string: "x \<in> set AllFailureClasses \<Longrightarrow> FailureClass_of (FailureClass_string x) = x"
  unfolding FailureClass_of_def by (rule enum_of_member) (simp_all add: AllFailureClasses_def)

lemma AbortReason_string_of [simp]: "AbortReason_string (AbortReason_of s) = s"
  by (simp add: AbortReason_of_def enum_of_string)

lemma AbortReason_of_string: "x \<in> set AllAbortReasons \<Longrightarrow> AbortReason_of (AbortReason_string x) = x"
  unfolding AbortReason_of_def by (rule enum_of_member) (simp_all add: AllAbortReasons_def)

lemma ApprovalSource_string_of [simp]: "ApprovalSource_string (ApprovalSource_of s) = s"
  by (simp add: ApprovalSource_of_def enum_of_string)

lemma ApprovalSource_of_string: "x \<in> set AllApprovalSources \<Longrightarrow> ApprovalSource_of (ApprovalSource_string x) = x"
  unfolding ApprovalSource_of_def by (rule enum_of_member) (simp_all add: AllApprovalSources_def)

lemma TransitionCause_string_of [simp]: "TransitionCause_string (TransitionCause_of s) = s"
  by (simp add: TransitionCause_of_def enum_of_string)

lemma TransitionCause_of_string: "x \<in> set AllTransitionCauses \<Longrightarrow> TransitionCause_of (TransitionCause_string x) = x"
  unfolding TransitionCause_of_def by (rule enum_of_member) (simp_all add: AllTransitionCauses_def)

end
