(* ===== verification/Kernel.thy ===== *)
theory Kernel
  imports ResVocab
begin

section \<open>Values of the Resolution context\<close>

text \<open>
  \<^verbatim>\<open>internal/resolution/requester.go\<close>, \<^verbatim>\<open>repository.go\<close>, \<^verbatim>\<open>budget.go\<close> and \<^verbatim>\<open>facts.go\<close>:
  the values an aggregate is made of and their constructors. A pointer that may be nil
  is an \<open>option\<close>. A Go \<^verbatim>\<open>int\<close> that is only stored and compared is an \<open>int\<close>; where the
  code computes on it the 64 bit wrap-around is written out (\<open>i64\<close>).
\<close>

subsection \<open>Requester\<close>

record Requester =
  rq_Login :: string
  rq_Association :: Association
  rq_Trust :: Trust

definition NewRequester :: "string \<Rightarrow> Association \<Rightarrow> derr + Requester" where
  "NewRequester login assoc =
     (if login = '''' then Inl (Invalid ''requester login is empty'')
      else case ParseAssociation assoc of
        Inl err \<Rightarrow> Inl err
      | Inr parsed \<Rightarrow>
          let trust = (case parsed of
                AssociationOwner \<Rightarrow> Trusted
              | AssociationMember \<Rightarrow> Trusted
              | AssociationCollaborator \<Rightarrow> Trusted
              | _ \<Rightarrow> Untrusted)
          in Inr \<lparr>rq_Login = login, rq_Association = parsed, rq_Trust = trust\<rparr>)"

subsection \<open>Repository\<close>

record Removal =
  rm_RemovedAt :: Time

record Repository =
  rp_FullName :: string
  rp_InstallationID :: int
  rp_DefaultBranch :: string
  rp_EnrolledAt :: Time
  rp_Removed :: "Removal option"

definition NewRepository :: "string \<Rightarrow> int \<Rightarrow> string \<Rightarrow> Time \<Rightarrow> derr + Repository" where
  "NewRepository fullName installationID defaultBranch at =
     (case Cut fullName CHR ''/'' of (owner, name, ok) \<Rightarrow>
        if \<not> ok \<or> owner = '''' \<or> name = '''' \<or> Contains name ''/''
        then Inl (Invalid ''repository full name %q'')
        else if installationID \<le> 0 then Inl (Invalid ''installation id %d'')
        else if defaultBranch = '''' then Inl (Invalid ''default branch is empty'')
        else Inr \<lparr>rp_FullName = fullName, rp_InstallationID = installationID,
                  rp_DefaultBranch = defaultBranch, rp_EnrolledAt = at, rp_Removed = None\<rparr>)"

definition Enrolled :: "Repository \<Rightarrow> bool" where
  "Enrolled r = (rp_Removed r = None)"

definition OwnerName :: "Repository \<Rightarrow> string \<times> string" where
  "OwnerName r = (case Cut (rp_FullName r) CHR ''/'' of (owner, name, _) \<Rightarrow> (owner, name))"

subsection \<open>Budget and usage\<close>

record Budget =
  bg_maxTurns :: int
  bg_maxWallClock :: Duration
  bg_maxDiffLines :: int

record Usage =
  us_Turns :: int
  us_InputTokens :: int
  us_OutputTokens :: int
  us_WallClock :: Duration
  us_DiffLines :: int

definition NewBudget :: "int \<Rightarrow> Duration \<Rightarrow> int \<Rightarrow> derr + Budget" where
  "NewBudget maxTurns maxWallClock maxDiffLines =
     (if maxTurns \<le> 0 \<or> maxWallClock \<le> 0 \<or> maxDiffLines \<le> 0
      then Inl (Invalid ''budget limits must be positive: turns %d, wall %s, diff %d'')
      else Inr \<lparr>bg_maxTurns = maxTurns, bg_maxWallClock = maxWallClock,
                bg_maxDiffLines = maxDiffLines\<rparr>)"

definition WarnAt :: "Budget \<Rightarrow> int \<times> Duration" where
  "WarnAt b = (i64 (bg_maxTurns b * 8) sdiv 10, i64 (bg_maxWallClock b * 8) sdiv 10)"

definition Exceeded :: "Budget \<Rightarrow> Usage \<Rightarrow> Limit \<times> bool" where
  "Exceeded b u =
     (if us_Turns u \<ge> bg_maxTurns b then (LimitTurns, True)
      else if us_WallClock u \<ge> bg_maxWallClock b then (LimitWallClock, True)
      else if us_DiffLines u \<ge> bg_maxDiffLines b then (LimitDiffLines, True)
      else (Limit_other '''', False))"

subsection \<open>Facts of a case\<close>

record Triage =
  tg_Size :: Size
  tg_Rationale :: string
  tg_Model :: string
  tg_TriagedAt :: Time

record Approval =
  ap_ID :: string
  ap_Approver :: Requester
  ap_Source :: ApprovalSource
  ap_ApprovedAt :: Time
  ap_DeliveryID :: string

record Closure =
  cl_DeliveryID :: string
  cl_ClosedAt :: Time

record Transition =
  tr_From :: CaseState
  tr_To :: CaseState
  tr_Cause :: TransitionCause
  tr_OccurredAt :: Time

record Run =
  rn_RunID :: string
  rn_Model :: string
  rn_BaseSha :: string
  rn_BeganAt :: Time

record Outcome =
  oc_Kind :: OutcomeKind
  oc_EndedAt :: Time
  oc_Usage :: Usage
  oc_Summary :: string
  oc_PRNumber :: int
  oc_HeadSha :: string
  oc_Limit :: Limit
  oc_Class :: FailureClass
  oc_Message :: string
  oc_Reason :: AbortReason

record Attempt =
  at_ID :: string
  at_Ordinal :: nat
  at_Kind :: AttemptKind
  at_Budget :: Budget
  at_Brief :: string
  at_StartedAt :: Time
  at_Run :: "Run option"
  at_Outcome :: "Outcome option"

definition Attempt_Open :: "Attempt \<Rightarrow> bool" where
  "Attempt_Open a = (at_Outcome a = None)"

text \<open>
  The outcome of a kind with the fields every outcome has; the fields of the other
  variants keep Go's zero values, as in a composite literal that does not name them.
\<close>

definition zero_outcome :: "OutcomeKind \<Rightarrow> Time \<Rightarrow> Usage \<Rightarrow> string \<Rightarrow> Outcome" where
  "zero_outcome kind at u summary =
     \<lparr>oc_Kind = kind, oc_EndedAt = at, oc_Usage = u, oc_Summary = summary, oc_PRNumber = 0,
      oc_HeadSha = '''', oc_Limit = Limit_other '''', oc_Class = FailureClass_other '''',
      oc_Message = '''', oc_Reason = AbortReason_other ''''\<rparr>"

definition OutcomePullRequest :: "int \<Rightarrow> string \<Rightarrow> string \<Rightarrow> Usage \<Rightarrow> Time \<Rightarrow> derr + Outcome" where
  "OutcomePullRequest prNumber headSha summary u at =
     (if prNumber < 1 then Inl (Invalid ''pull request number %d'')
      else if \<not> shaRe headSha then Inl (Invalid ''head sha %q'')
      else if summary = '''' then Inl (Invalid ''outcome summary is empty'')
      else Inr ((zero_outcome PullRequestOpened at u summary)
                  \<lparr>oc_PRNumber := prNumber, oc_HeadSha := headSha\<rparr>))"

definition OutcomeExhausted :: "Limit \<Rightarrow> string \<Rightarrow> Usage \<Rightarrow> Time \<Rightarrow> derr + Outcome" where
  "OutcomeExhausted limit summary u at =
     (case ParseLimit limit of Inl err \<Rightarrow> Inl err
      | Inr _ \<Rightarrow>
          if summary = '''' then Inl (Invalid ''outcome summary is empty'')
          else Inr ((zero_outcome BudgetExhausted at u summary)\<lparr>oc_Limit := limit\<rparr>))"

definition OutcomeExhaustedWithPullRequest ::
    "Limit \<Rightarrow> int \<Rightarrow> string \<Rightarrow> string \<Rightarrow> Usage \<Rightarrow> Time \<Rightarrow> derr + Outcome" where
  "OutcomeExhaustedWithPullRequest limit prNumber headSha summary u at =
     (case ParseLimit limit of Inl err \<Rightarrow> Inl err
      | Inr _ \<Rightarrow>
          if prNumber < 1 then Inl (Invalid ''pull request number %d'')
          else if \<not> shaRe headSha then Inl (Invalid ''head sha %q'')
          else if summary = '''' then Inl (Invalid ''outcome summary is empty'')
          else Inr ((zero_outcome BudgetExhausted at u summary)
                      \<lparr>oc_Limit := limit, oc_PRNumber := prNumber, oc_HeadSha := headSha\<rparr>))"

definition OutcomeFailed :: "FailureClass \<Rightarrow> string \<Rightarrow> Usage \<Rightarrow> Time \<Rightarrow> derr + Outcome" where
  "OutcomeFailed cls message u at =
     (case ParseFailureClass cls of Inl err \<Rightarrow> Inl err
      | Inr _ \<Rightarrow>
          if message = '''' then Inl (Invalid ''failure message is empty'')
          else Inr ((zero_outcome FailedOutcome at u message)
                      \<lparr>oc_Class := cls, oc_Message := message\<rparr>))"

definition OutcomeAborted :: "AbortReason \<Rightarrow> string \<Rightarrow> Usage \<Rightarrow> Time \<Rightarrow> derr + Outcome" where
  "OutcomeAborted reason summary u at =
     (case ParseAbortReason reason of Inl err \<Rightarrow> Inl err
      | Inr _ \<Rightarrow>
          if summary = '''' then Inl (Invalid ''outcome summary is empty'')
          else Inr ((zero_outcome Aborted at u summary)\<lparr>oc_Reason := reason\<rparr>))"

definition Outcome_cause :: "Outcome \<Rightarrow> bool \<Rightarrow> TransitionCause" where
  "Outcome_cause o' requeued =
     (case oc_Kind o' of
        PullRequestOpened \<Rightarrow> CauseOutcomePullRequestOpened
      | BudgetExhausted \<Rightarrow> CauseOutcomeBudgetExhausted
      | FailedOutcome \<Rightarrow> CauseOutcomeFailed
      | _ \<Rightarrow>
          (case oc_Reason o' of
             AbortOperatorStop \<Rightarrow> CauseOutcomeAbortedOperatorStop
           | AbortDaemonRestart \<Rightarrow>
               if requeued then CauseOutcomeAbortedRestartRequeue
               else CauseOutcomeAbortedRestartFailed
           | _ \<Rightarrow> CauseClosed))"

subsection \<open>Lemmas\<close>

lemma Cut_found:
  "Cut s sep = (b, a, True) \<Longrightarrow> s = b @ sep # a \<and> sep \<notin> set b"
proof (induction s arbitrary: b)
  case (Cons c s)
  then show ?case by (auto split: if_splits prod.splits)
qed simp

lemma Cut_append: "sep \<notin> set b \<Longrightarrow> Cut (b @ sep # a) sep = (b, a, True)"
  by (induction b) auto

lemma Contains_single: "Contains s [c] \<longleftrightarrow> c \<in> set s"
  by (induction s) auto

lemma NewBudget_Inr:
  "NewBudget t w d = Inr b \<longleftrightarrow> 0 < t \<and> 0 < w \<and> 0 < d \<and>
     b = \<lparr>bg_maxTurns = t, bg_maxWallClock = w, bg_maxDiffLines = d\<rparr>"
  by (auto simp: NewBudget_def)

lemma sdiv10: "0 \<le> x \<Longrightarrow> (x :: int) sdiv 10 = x div 10"
  by (cases "x = 0") (simp_all add: signed_divide_int_def)

lemma warn_bound:
  fixes m :: int
  assumes "0 < m" "m < 2 ^ 60"
  shows "i64 (m * 8) sdiv 10 = m * 8 div 10" "0 \<le> m * 8 div 10" "m * 8 div 10 < m"
proof -
  have "i64 (m * 8) = m * 8" using assms by (intro i64_id) simp_all
  with assms show "i64 (m * 8) sdiv 10 = m * 8 div 10" by (simp add: sdiv10)
qed (use assms in simp_all)

subsection \<open>Properties\<close>

text \<open>Trust is decided by the association alone, whatever its spelling: a requester is built
  exactly from a non-empty login and a known association, and is trusted exactly when that is
  owner, member or collaborator; a contributor is not.\<close>
theorem requester_trust:
  "NewRequester login assoc = Inr r \<longleftrightarrow>
     login \<noteq> '''' \<and>
     (\<exists>a \<in> set AllAssociations. ParseAssociation assoc = Inr a \<and>
        r = \<lparr>rq_Login = login, rq_Association = a,
             rq_Trust = (if a \<in> {AssociationOwner, AssociationMember, AssociationCollaborator}
                         then Trusted else Untrusted)\<rparr>)"
proof (cases "ParseAssociation assoc")
  case (Inl e)
  then show ?thesis by (auto simp: NewRequester_def)
next
  case (Inr a)
  then have "a \<in> set AllAssociations" by (rule ParseAssociation_Inr)
  with Inr show ?thesis
    by (cases a) (auto simp: NewRequester_def AllAssociations_def Let_def)
qed

theorem requester_trust_witness:
  "NewRequester ''bob'' (Association_of ''COLLABORATOR'') =
     Inr \<lparr>rq_Login = ''bob'', rq_Association = AssociationCollaborator, rq_Trust = Trusted\<rparr>"
proof -
  have "ParseAssociation (Association_of ''COLLABORATOR'') = Inr AssociationCollaborator"
    by code_simp
  then show ?thesis by (subst requester_trust) (auto simp: AllAssociations_def)
qed

text \<open>A repository is built exactly from a full name of the form owner/name with both parts
  non-empty and no further slash, a positive installation and a default branch, and
  splitting its full name gives back the two parts.\<close>
theorem repository_name_roundtrip:
  assumes "NewRepository fullName inst branch at = Inr r"
  shows "\<exists>ow nm. OwnerName r = (ow, nm) \<and> fullName = ow @ ''/'' @ nm \<and> ow \<noteq> '''' \<and> nm \<noteq> '''' \<and>
    CHR ''/'' \<notin> set ow \<and> CHR ''/'' \<notin> set nm \<and> 0 < inst \<and> branch \<noteq> '''' \<and> Enrolled r"
proof -
  obtain ow nm ok where c: "Cut fullName CHR ''/'' = (ow, nm, ok)" by (cases "Cut fullName CHR ''/''")
  with assms have "ok" "ow \<noteq> ''''" "nm \<noteq> ''''" "\<not> Contains nm ''/''" "0 < inst" "branch \<noteq> ''''"
    and r: "r = \<lparr>rp_FullName = fullName, rp_InstallationID = inst, rp_DefaultBranch = branch,
                 rp_EnrolledAt = at, rp_Removed = None\<rparr>"
    by (auto simp: NewRepository_def split: if_splits)
  moreover from c \<open>ok\<close> have "fullName = ow @ CHR ''/'' # nm" "CHR ''/'' \<notin> set ow"
    using Cut_found by fastforce+
  ultimately show ?thesis
    using c by (auto simp: OwnerName_def Contains_single Enrolled_def)
qed

theorem repository_name_roundtrip_witness:
  "let r = \<lparr>rp_FullName = ''o/r'', rp_InstallationID = 5, rp_DefaultBranch = ''main'',
            rp_EnrolledAt = 0, rp_Removed = None\<rparr>
   in \<exists>ow nm. OwnerName r = (ow, nm) \<and> ''o/r'' = ow @ ''/'' @ nm"
  using repository_name_roundtrip [of "''o/r''" 5 "''main''" 0]
  by (auto simp: NewRepository_def Contains_single)

text \<open>For any budget the constructor accepts with limits below 2^60 (so that eight times a limit
  still fits 64 bits), both warning points are four fifths of their limit rounded down and
  strictly below it: at the warning the budget is not yet exhausted by that limit.\<close>
theorem warning_before_limit:
  assumes "NewBudget t w d = Inr b" "t < 2 ^ 60" "w < 2 ^ 60"
  shows "WarnAt b = (t * 8 div 10, w * 8 div 10) \<and> fst (WarnAt b) < t \<and> snd (WarnAt b) < w \<and>
    (us_Turns u \<le> fst (WarnAt b) \<and> us_WallClock u \<le> snd (WarnAt b) \<and> us_DiffLines u < d \<longrightarrow>
      \<not> snd (Exceeded b u))"
proof -
  from assms(1) have b: "b = \<lparr>bg_maxTurns = t, bg_maxWallClock = w, bg_maxDiffLines = d\<rparr>"
    and pos: "0 < t" "0 < w" by (auto simp: NewBudget_Inr)
  have "WarnAt b = (t * 8 div 10, w * 8 div 10)"
    using warn_bound [OF pos(1) assms(2)] warn_bound [OF pos(2) assms(3)] by (simp add: WarnAt_def b)
  moreover have "t * 8 div 10 < t" "w * 8 div 10 < w"
    using warn_bound [OF pos(1) assms(2)] warn_bound [OF pos(2) assms(3)] by simp_all
  ultimately show ?thesis by (auto simp: Exceeded_def b)
qed

theorem warning_before_limit_witness:
  "WarnAt \<lparr>bg_maxTurns = 1, bg_maxWallClock = 1800000000000, bg_maxDiffLines = 400\<rparr> = (0, 1440000000000)"
  using warning_before_limit [of 1 1800000000000 400] by (simp add: NewBudget_Inr)

end
