(* ===== verification/Machine.thy ===== *)
theory Machine
  imports GoBase
begin

section \<open>Machines that log their transitions\<close>

text \<open>
  The contract the two aggregates share: a command leaves state and log alone or appends
  to the log one legal transition that leads from the old state to the new one. The
  locale derives what a reader of the log relies on: it is a connected path of legal
  transitions from the first state to the current one, and a state no legal transition
  leaves is never left.
\<close>

fun chain :: "('t \<Rightarrow> 's) \<Rightarrow> ('t \<Rightarrow> 's) \<Rightarrow> 's \<Rightarrow> 't list \<Rightarrow> 's \<Rightarrow> bool" where
  "chain src dst s [] s' = (s = s')"
| "chain src dst s (t # ts) s' = (src t = s \<and> chain src dst (dst t) ts s')"

lemma chain_snoc [simp]:
  "chain src dst s (ts @ [t]) s' \<longleftrightarrow> (\<exists>m. chain src dst s ts m \<and> src t = m \<and> dst t = s')"
  by (induction ts arbitrary: s) auto

locale logged_machine =
  fixes exec :: "'m \<Rightarrow> 'c \<Rightarrow> 'm"
    and st :: "'m \<Rightarrow> 's"
    and log :: "'m \<Rightarrow> 't list"
    and src :: "'t \<Rightarrow> 's"
    and dst :: "'t \<Rightarrow> 's"
    and edge :: "'t \<Rightarrow> bool"
    and inv :: "'m \<Rightarrow> bool"
  assumes inv_exec: "inv m \<Longrightarrow> inv (exec m c)"
    and exec_log: "inv m \<Longrightarrow> (st (exec m c) = st m \<and> log (exec m c) = log m) \<or>
      (\<exists>t. log (exec m c) = log m @ [t] \<and> src t = st m \<and> dst t = st (exec m c) \<and> edge t)"
begin

lemma run_inv: "inv m \<Longrightarrow> inv (foldl exec m cs)"
  by (induction cs arbitrary: m) (auto intro: inv_exec)

lemma run_log:
  assumes "inv m"
  shows "\<exists>ts. log (foldl exec m cs) = log m @ ts \<and>
           chain src dst (st m) ts (st (foldl exec m cs)) \<and> list_all edge ts"
proof (induction cs rule: rev_induct)
  case (snoc c cs)
  then obtain ts where ts: "log (foldl exec m cs) = log m @ ts"
      "chain src dst (st m) ts (st (foldl exec m cs))" "list_all edge ts"
    by blast
  have "inv (foldl exec m cs)" using assms by (rule run_inv)
  from exec_log [OF this, of c] show ?case
  proof
    assume "st (exec (foldl exec m cs) c) = st (foldl exec m cs) \<and>
      log (exec (foldl exec m cs) c) = log (foldl exec m cs)"
    with ts show ?thesis by (intro exI [of _ ts]) simp
  next
    assume "\<exists>t. log (exec (foldl exec m cs) c) = log (foldl exec m cs) @ [t] \<and>
      src t = st (foldl exec m cs) \<and> dst t = st (exec (foldl exec m cs) c) \<and> edge t"
    then obtain t where "log (exec (foldl exec m cs) c) = log (foldl exec m cs) @ [t]"
      "src t = st (foldl exec m cs)" "dst t = st (exec (foldl exec m cs) c)" "edge t" by blast
    with ts show ?thesis by (intro exI [of _ "ts @ [t]"]) simp
  qed
qed simp

lemma run_path:
  assumes "inv m" "log m = []"
  shows "chain src dst (st m) (log (foldl exec m cs)) (st (foldl exec m cs)) \<and>
         list_all edge (log (foldl exec m cs))"
  using run_log [OF assms(1), of cs] assms(2) by auto

lemma final_stays:
  assumes "inv m" "\<And>t. edge t \<Longrightarrow> src t \<noteq> st m"
  shows "st (foldl exec m cs) = st m \<and> log (foldl exec m cs) = log m"
proof -
  obtain ts where ts: "log (foldl exec m cs) = log m @ ts"
    "chain src dst (st m) ts (st (foldl exec m cs))" "list_all edge ts"
    using run_log [OF assms(1)] by blast
  then have "ts = []" using assms(2) by (cases ts) auto
  with ts show ?thesis by simp
qed

end

subsection \<open>Lists with at most one open element, the last\<close>

text \<open>
  The attempts of a case and the rounds of a bump are numbered from 1 and appended
  one at a time, each closed before the next; so the open one, if any, is the last.
\<close>

fun first_index :: "('a \<Rightarrow> bool) \<Rightarrow> 'a list \<Rightarrow> nat option" where
  "first_index P [] = None"
| "first_index P (x # xs) = (if P x then Some 0 else map_option Suc (first_index P xs))"

definition only_last :: "('a \<Rightarrow> bool) \<Rightarrow> 'a list \<Rightarrow> bool" where
  "only_last P xs = list_all (\<lambda>x. \<not> P x) (butlast xs)"

definition numbered :: "('a \<Rightarrow> nat) \<Rightarrow> 'a list \<Rightarrow> bool" where
  "numbered f xs = (map f xs = [1..<Suc (length xs)])"

lemma only_last_Nil [simp]: "only_last P []"
  by (simp add: only_last_def)

lemma only_last_snoc [simp]: "only_last P (xs @ [x]) = list_all (\<lambda>x. \<not> P x) xs"
  by (simp add: only_last_def)

lemma numbered_Nil [simp]: "numbered f []"
  by (simp add: numbered_def)

lemma numbered_snoc [simp]: "numbered f (xs @ [x]) \<longleftrightarrow> numbered f xs \<and> f x = Suc (length xs)"
  by (auto simp: numbered_def)

lemma first_index_None: "first_index P xs = None \<longleftrightarrow> list_all (\<lambda>x. \<not> P x) xs"
  by (induction xs) auto

lemma first_index_append:
  "first_index P (xs @ ys) = (case first_index P xs of Some i \<Rightarrow> Some i
     | None \<Rightarrow> map_option (\<lambda>i. length xs + i) (first_index P ys))"
  by (induction xs) (cases "first_index P ys"; auto split: option.splits)+

lemma first_index_only_last:
  assumes "only_last P xs" "first_index P xs = Some i"
  obtains ys y where "xs = ys @ [y]" "P y" "i = length ys" "list_all (\<lambda>x. \<not> P x) ys"
proof -
  have "xs \<noteq> []" using assms(2) by auto
  then obtain ys y where xs: "xs = ys @ [y]" by (metis rev_exhaust)
  with assms(1) have n: "list_all (\<lambda>x. \<not> P x) ys" by simp
  then have "first_index P ys = None" by (simp add: first_index_None)
  with assms(2) xs have "P y" "i = length ys" by (auto simp: first_index_append split: if_splits)
  with xs n that show thesis by blast
qed

lemma first_index_only_last_snoc [simp]:
  "only_last P (xs @ [x]) \<Longrightarrow>
     first_index P (xs @ [x]) = (if P x then Some (length xs) else None)"
  by (simp add: first_index_append first_index_None [THEN iffD2])

lemma numbered_less:
  "numbered f (xs @ [x]) \<Longrightarrow> list_all (\<lambda>y. f y < f x) xs"
proof -
  assume "numbered f (xs @ [x])"
  then have m: "map f xs = [1..<Suc (length xs)]" and x: "f x = Suc (length xs)"
    by (auto simp: numbered_def)
  have "f ` set xs = {1..<Suc (length xs)}" using arg_cong [OF m, of set] by (auto simp del: upt_Suc)
  with x show ?thesis by (auto simp: list_all_iff)
qed

end
