(* ===== verification/CaseAgg.thy ===== *)
theory CaseAgg
  imports Kernel Machine
begin

section \<open>The Case aggregate\<close>

text \<open>
  \<^verbatim>\<open>internal/resolution/case.go\<close>. A command of the Go aggregate mutates its receiver
  and returns an error or nil; here it returns the receiver's state after the call and
  the error (\<open>None\<close> is nil), so a branch that touches the aggregate before it refuses
  would show. The mutable pointer \<^verbatim>\<open>openAttempt\<close> returns is the index of that attempt in
  \<open>cs_attempts\<close>, and writing through it is a list update there. \<open>cs_changes\<close> is what the
  store persists next.
\<close>

record Changes =
  ch_Triage :: "Triage option"
  ch_Approvals :: "Approval list"
  ch_Attempts :: "Attempt list"
  ch_Runs :: "nat \<rightharpoonup> Run"
  ch_Outcomes :: "nat \<rightharpoonup> Outcome"
  ch_Closure :: "Closure option"
  ch_Transitions :: "Transition list"
  ch_State :: CaseState

definition no_changes :: "CaseState \<Rightarrow> Changes" where
  "no_changes s = \<lparr>ch_Triage = None, ch_Approvals = [], ch_Attempts = [], ch_Runs = Map.empty,
     ch_Outcomes = Map.empty, ch_Closure = None, ch_Transitions = [], ch_State = s\<rparr>"

record Case =
  cs_id :: string
  cs_repository :: string
  cs_number :: int
  cs_requester :: Requester
  cs_state :: CaseState
  cs_receivedAt :: Time
  cs_triage :: "Triage option"
  cs_approvals :: "Approval list"
  cs_attempts :: "Attempt list"
  cs_transitions :: "Transition list"
  cs_closure :: "Closure option"
  cs_changes :: Changes

record Snapshot =
  sn_ID :: string
  sn_Repository :: string
  sn_Number :: int
  sn_Requester :: Requester
  sn_State :: CaseState
  sn_ReceivedAt :: Time
  sn_Triage :: "Triage option"
  sn_Approvals :: "Approval list"
  sn_Attempts :: "Attempt list"
  sn_Transitions :: "Transition list"
  sn_Closure :: "Closure option"

subsection \<open>Construction\<close>

definition NewCase :: "string \<Rightarrow> int \<Rightarrow> Requester \<Rightarrow> Time \<Rightarrow> derr + Case" where
  "NewCase repository number requester receivedAt =
     (if repository = '''' then Inl (Invalid ''repository is empty'')
      else if number < 1 then Inl (Invalid ''issue number %d'')
      else if rq_Login requester = '''' then Inl (Invalid ''requester is empty'')
      else let state = (if rq_Trust requester = Trusted then Received else Gated)
           in Inr \<lparr>cs_id = '''', cs_repository = repository, cs_number = number,
                   cs_requester = requester, cs_state = state, cs_receivedAt = receivedAt,
                   cs_triage = None, cs_approvals = [], cs_attempts = [], cs_transitions = [],
                   cs_closure = None, cs_changes = no_changes state\<rparr>)"

definition LoadCase :: "Snapshot \<Rightarrow> derr + Case" where
  "LoadCase s =
     (if sn_Repository s = '''' \<or> sn_Number s < 1 \<or> rq_Login (sn_Requester s) = ''''
      then Inl (Invalid ''snapshot incomplete'')
      else if (sn_State s = Gated \<and> rq_Trust (sn_Requester s) = Trusted)
            \<or> (sn_State s = Received \<and> rq_Trust (sn_Requester s) = Untrusted)
      then Inl (Invalid ''state %s contradicts trust %s'')
      else if length (filter Attempt_Open (sn_Attempts s)) > 1
      then Inl (Invalid ''%d open attempts'')
      else Inr \<lparr>cs_id = sn_ID s, cs_repository = sn_Repository s, cs_number = sn_Number s,
                cs_requester = sn_Requester s, cs_state = sn_State s,
                cs_receivedAt = sn_ReceivedAt s, cs_triage = sn_Triage s,
                cs_approvals = sn_Approvals s, cs_attempts = sn_Attempts s,
                cs_transitions = sn_Transitions s, cs_closure = sn_Closure s,
                cs_changes = no_changes (sn_State s)\<rparr>)"

definition Case_AssignID :: "Case \<Rightarrow> string \<Rightarrow> Case \<times> derr option" where
  "Case_AssignID c id' =
     (if id' = '''' then (c, Some (Invalid ''id is empty''))
      else if cs_id c \<noteq> '''' then (c, Some (Refused ''id already assigned''))
      else (c\<lparr>cs_id := id'\<rparr>, None))"

subsection \<open>Queries\<close>

definition Case_Branch :: "Case \<Rightarrow> string" where
  "Case_Branch c = ''autophage/'' @ show_int (cs_number c)"

definition Case_openAttempt :: "Case \<Rightarrow> nat option" where
  "Case_openAttempt c = first_index Attempt_Open (cs_attempts c)"

definition Case_OpenAttempt :: "Case \<Rightarrow> Attempt option" where
  "Case_OpenAttempt c = map_option (\<lambda>i. cs_attempts c ! i) (Case_openAttempt c)"

definition Case_NextAttemptKind :: "Case \<Rightarrow> AttemptKind" where
  "Case_NextAttemptKind c =
     (if cs_approvals c = [] then Auto
      else if cs_attempts c = [] then Approved
      else let last' = at_StartedAt (cs_attempts c ! (length (cs_attempts c) - 1))
           in if list_ex (\<lambda>a. \<not> ap_ApprovedAt a < last') (cs_approvals c) then Approved else Auto)"

definition Case_ClearChanges :: "Case \<Rightarrow> Case" where
  "Case_ClearChanges c = c\<lparr>cs_changes := no_changes (cs_state c)\<rparr>"

subsection \<open>Commands\<close>

definition Case_move :: "Case \<Rightarrow> CaseState \<Rightarrow> TransitionCause \<Rightarrow> Time \<Rightarrow> Case" where
  "Case_move c to' cause at =
     (let tr = \<lparr>tr_From = cs_state c, tr_To = to', tr_Cause = cause, tr_OccurredAt = at\<rparr> in
      c\<lparr>cs_state := to',
        cs_transitions := cs_transitions c @ [tr],
        cs_changes := (cs_changes c)\<lparr>ch_Transitions := ch_Transitions (cs_changes c) @ [tr],
                                     ch_State := to'\<rparr>\<rparr>)"

definition Case_RecordTriage :: "Case \<Rightarrow> Triage \<Rightarrow> Case \<times> derr option" where
  "Case_RecordTriage c t =
     (case ParseSize (tg_Size t) of Inl err \<Rightarrow> (c, Some err)
      | Inr _ \<Rightarrow>
        if tg_Rationale t = '''' \<or> tg_Model t = ''''
        then (c, Some (Invalid ''triage rationale and model are required''))
        else if cs_state c \<noteq> Received then (c, Some (Refused ''triage in state %s''))
        else if cs_triage c \<noteq> None then (c, Some (Refused ''already triaged''))
        else let c1 = c\<lparr>cs_triage := Some t, cs_changes := (cs_changes c)\<lparr>ch_Triage := Some t\<rparr>\<rparr> in
             if tg_Size t = Small
             then (Case_move c1 Queued CauseTriageSmall (tg_TriagedAt t), None)
             else (Case_move c1 AwaitingApproval CauseTriageLarge (tg_TriagedAt t), None))"

definition Case_RecordApproval :: "Case \<Rightarrow> Approval \<Rightarrow> Case \<times> derr option" where
  "Case_RecordApproval c a =
     (if rq_Login (ap_Approver a) = '''' then (c, Some (Invalid ''approver is empty''))
      else case ParseApprovalSource (ap_Source a) of Inl err \<Rightarrow> (c, Some err)
      | Inr _ \<Rightarrow>
        if (ap_Source a = SourceLabel) \<noteq> (ap_DeliveryID a \<noteq> '''')
        then (c, Some (Invalid ''delivery id must be set exactly for label approvals''))
        else if CaseState_Terminal (cs_state c)
        then (c, Some (Refused ''approval in state %s''))
        else let c1 = c\<lparr>cs_approvals := cs_approvals c @ [a],
                        cs_changes := (cs_changes c)
                          \<lparr>ch_Approvals := ch_Approvals (cs_changes c) @ [a]\<rparr>\<rparr> in
             if cs_state c1 \<in> {Gated, AwaitingApproval, Failed}
             then (Case_move c1 Queued CauseApproval (ap_ApprovedAt a), None)
             else (c1, None))"

definition Case_StartAttempt ::
    "Case \<Rightarrow> AttemptKind \<Rightarrow> Budget \<Rightarrow> string \<Rightarrow> Time \<Rightarrow> Case \<times> (derr + Attempt)" where
  "Case_StartAttempt c kind budget brief at =
     (case ParseAttemptKind kind of Inl err \<Rightarrow> (c, Inl err)
      | Inr _ \<Rightarrow>
        if bg_maxTurns budget = 0 then (c, Inl (Invalid ''budget is zero''))
        else if brief = '''' then (c, Inl (Invalid ''brief is empty''))
        else if cs_state c \<noteq> Queued then (c, Inl (Refused ''start attempt in state %s''))
        else if Case_openAttempt c \<noteq> None then (c, Inl (Refused ''an attempt is already open''))
        else let a = \<lparr>at_ID = '''', at_Ordinal = length (cs_attempts c) + 1, at_Kind = kind,
                      at_Budget = budget, at_Brief = brief, at_StartedAt = at,
                      at_Run = None, at_Outcome = None\<rparr>;
                 c1 = c\<lparr>cs_attempts := cs_attempts c @ [a],
                        cs_changes := (cs_changes c)
                          \<lparr>ch_Attempts := ch_Attempts (cs_changes c) @ [a]\<rparr>\<rparr>
             in (Case_move c1 Attempting CauseAttemptStarted at, Inr a))"

text \<open>\<^verbatim>\<open>target\<close>: the open attempt, checked against the id when both are known.\<close>

definition Case_target :: "Case \<Rightarrow> string \<Rightarrow> derr + nat" where
  "Case_target c attemptID =
     (case Case_openAttempt c of
        None \<Rightarrow> Inl (Refused ''no open attempt'')
      | Some i \<Rightarrow>
          let a = cs_attempts c ! i in
          if attemptID \<noteq> '''' \<and> at_ID a \<noteq> '''' \<and> at_ID a \<noteq> attemptID
          then Inl (Refused ''attempt %s is not the open attempt'')
          else Inr i)"

definition Case_RecordRun :: "Case \<Rightarrow> string \<Rightarrow> Run \<Rightarrow> Case \<times> derr option" where
  "Case_RecordRun c attemptID r =
     (if rn_RunID r = '''' \<or> rn_Model r = '''' \<or> \<not> shaRe (rn_BaseSha r)
      then (c, Some (Invalid ''run needs run id, model and a 40-hex base sha''))
      else case Case_target c attemptID of Inl err \<Rightarrow> (c, Some err)
      | Inr i \<Rightarrow>
          let a = cs_attempts c ! i in
          if at_Run a \<noteq> None then (c, Some (Refused ''run already recorded for attempt %d''))
          else (c\<lparr>cs_attempts := (cs_attempts c)[i := a\<lparr>at_Run := Some r\<rparr>],
                  cs_changes := (cs_changes c)
                    \<lparr>ch_Runs := (ch_Runs (cs_changes c))(at_Ordinal a \<mapsto> r)\<rparr>\<rparr>, None))"

definition Case_restartedBefore :: "Case \<Rightarrow> nat \<Rightarrow> bool" where
  "Case_restartedBefore c ordinal =
     list_ex (\<lambda>a. at_Ordinal a < ordinal \<and>
        (case at_Outcome a of None \<Rightarrow> False
         | Some ou \<Rightarrow> oc_Kind ou = Aborted \<and> oc_Reason ou = AbortDaemonRestart)) (cs_attempts c)"

text \<open>
  The transition \<^verbatim>\<open>RecordOutcome\<close> decides before it touches anything: \<open>Inr None\<close> is
  \<^verbatim>\<open>moves == false\<close>. A kind outside the vocabulary has been refused before, so the last
  branch, which would move to the zero state, is not reached.
\<close>

definition outcome_transition ::
    "Case \<Rightarrow> nat \<Rightarrow> Outcome \<Rightarrow> derr + (CaseState \<times> TransitionCause) option" where
  "outcome_transition c ordinal ou =
     (if cs_state c = Closed then Inr None
      else case oc_Kind ou of
        PullRequestOpened \<Rightarrow> Inr (Some (Done, Outcome_cause ou False))
      | BudgetExhausted \<Rightarrow> Inr (Some (AwaitingApproval, Outcome_cause ou False))
      | FailedOutcome \<Rightarrow> Inr (Some (Failed, Outcome_cause ou False))
      | Aborted \<Rightarrow>
          (case oc_Reason ou of
             AbortOperatorStop \<Rightarrow> Inr (Some (AwaitingApproval, Outcome_cause ou False))
           | AbortDaemonRestart \<Rightarrow>
               if Case_restartedBefore c ordinal then Inr (Some (Failed, Outcome_cause ou False))
               else Inr (Some (Queued, Outcome_cause ou True))
           | _ \<Rightarrow> Inl (Refused ''abort reason %s outside Closed''))
      | OutcomeKind_other _ \<Rightarrow> Inr (Some (CaseState_other '''', TransitionCause_other '''')))"

definition Case_RecordOutcome :: "Case \<Rightarrow> string \<Rightarrow> Outcome \<Rightarrow> Case \<times> derr option" where
  "Case_RecordOutcome c attemptID ou =
     (case ParseOutcomeKind (oc_Kind ou) of Inl err \<Rightarrow> (c, Some err)
      | Inr _ \<Rightarrow>
        if oc_Summary ou = '''' then (c, Some (Invalid ''outcome summary is empty''))
        else case Case_target c attemptID of Inl err \<Rightarrow> (c, Some err)
        | Inr i \<Rightarrow>
          let a = cs_attempts c ! i in
          case outcome_transition c (at_Ordinal a) ou of Inl err \<Rightarrow> (c, Some err)
          | Inr moves \<Rightarrow>
            let c1 = c\<lparr>cs_attempts := (cs_attempts c)[i := a\<lparr>at_Outcome := Some ou\<rparr>],
                       cs_changes := (cs_changes c)
                         \<lparr>ch_Outcomes := (ch_Outcomes (cs_changes c))(at_Ordinal a \<mapsto> ou)\<rparr>\<rparr>
            in (case moves of None \<Rightarrow> (c1, None)
                | Some (to', cause) \<Rightarrow> (Case_move c1 to' cause (oc_EndedAt ou), None)))"

definition Case_Close :: "Case \<Rightarrow> Closure \<Rightarrow> Case \<times> derr option" where
  "Case_Close c cl =
     (if cl_DeliveryID cl = '''' then (c, Some (Invalid ''closure delivery id is empty''))
      else if CaseState_Terminal (cs_state c) then (c, Some (Refused ''close in state %s''))
      else let c1 = c\<lparr>cs_closure := Some cl, cs_changes := (cs_changes c)\<lparr>ch_Closure := Some cl\<rparr>\<rparr>
           in (Case_move c1 Closed CauseClosed (cl_ClosedAt cl), None))"

subsection \<open>Commands as data\<close>

text \<open>Every call that changes a case, and one call of each.\<close>

datatype case_cmd =
    CmdAssignID string
  | CmdTriage Triage
  | CmdApproval Approval
  | CmdStart AttemptKind Budget string Time
  | CmdRun string Run
  | CmdOutcome string Outcome
  | CmdClose Closure
  | CmdClear

fun case_exec :: "Case \<Rightarrow> case_cmd \<Rightarrow> Case \<times> derr option" where
  "case_exec c (CmdAssignID i) = Case_AssignID c i"
| "case_exec c (CmdTriage t) = Case_RecordTriage c t"
| "case_exec c (CmdApproval a) = Case_RecordApproval c a"
| "case_exec c (CmdStart k b br t) =
     (case Case_StartAttempt c k b br t of (c', Inl e) \<Rightarrow> (c', Some e) | (c', Inr _) \<Rightarrow> (c', None))"
| "case_exec c (CmdRun i r) = Case_RecordRun c i r"
| "case_exec c (CmdOutcome i ou) = Case_RecordOutcome c i ou"
| "case_exec c (CmdClose cl) = Case_Close c cl"
| "case_exec c CmdClear = (Case_ClearChanges c, None)"

definition case_run :: "Case \<Rightarrow> case_cmd list \<Rightarrow> Case" where
  "case_run = foldl (\<lambda>c x. fst (case_exec c x))"

lemmas [cmd_defs] =
  Case_AssignID_def Case_RecordTriage_def Case_RecordApproval_def Case_StartAttempt_def
  Case_RecordRun_def Case_RecordOutcome_def Case_Close_def Case_ClearChanges_def

end
