(* ===== verification/UpVocab.thy ===== *)
theory UpVocab
  imports ResVocab
begin

section \<open>Closed vocabularies of the Upkeep context\<close>

text \<open>
  \<^verbatim>\<open>internal/upkeep/enums.go\<close>, with the conventions of \<^verbatim>\<open>ResVocab\<close>. The two Go packages
  have constants of the same name; here Upkeep's are \<open>BumpQueued\<close> (\<^verbatim>\<open>upkeep.Queued\<close>),
  \<open>BumpClosed\<close>, \<open>RepairBudgetExhausted\<close>, \<open>RepairAbortOperatorStop\<close> and
  \<open>RepairAbortDaemonRestart\<close>. Upkeep's own copy of \<open>parseEnum\<close> is the same function.
\<close>


datatype BumpState =
    AwaitingChecks
  | BumpQueued
  | Repairing
  | Green
  | Abandoned
  | BumpClosed
  | BumpState_other string

fun BumpState_string :: "BumpState \<Rightarrow> string" where
    "BumpState_string AwaitingChecks = ''awaiting_checks''"
  | "BumpState_string BumpQueued = ''queued''"
  | "BumpState_string Repairing = ''repairing''"
  | "BumpState_string Green = ''green''"
  | "BumpState_string Abandoned = ''abandoned''"
  | "BumpState_string BumpClosed = ''closed''"
  | "BumpState_string (BumpState_other s) = s"

definition AllBumpStates :: "BumpState list" where
  "AllBumpStates = [AwaitingChecks, BumpQueued, Repairing, Green, Abandoned, BumpClosed]"

definition BumpState_of :: "string \<Rightarrow> BumpState" where
  "BumpState_of = enum_of BumpState_string AllBumpStates BumpState_other"

definition BumpState_Terminal :: "BumpState \<Rightarrow> bool" where
  "BumpState_Terminal s = (s = BumpClosed)"

definition ParseBumpState :: "BumpState \<Rightarrow> derr + BumpState" where
  "ParseBumpState v = parseEnum ''bump state'' v AllBumpStates"

lemma ParseBumpState_simps [simp]:
  "ParseBumpState AwaitingChecks = Inr AwaitingChecks"
  "ParseBumpState BumpQueued = Inr BumpQueued"
  "ParseBumpState Repairing = Inr Repairing"
  "ParseBumpState Green = Inr Green"
  "ParseBumpState Abandoned = Inr Abandoned"
  "ParseBumpState BumpClosed = Inr BumpClosed"
  "ParseBumpState (BumpState_other s) = Inl (Invalid ''unknown %s %q'')"
  by (simp_all add: ParseBumpState_def AllBumpStates_def parseEnum_def)

lemma ParseBumpState_Inr: "ParseBumpState v = Inr x \<longleftrightarrow> x = v \<and> v \<in> set AllBumpStates"
  by (cases v) (auto simp: AllBumpStates_def)

lemma ParseBumpState_Inl: "ParseBumpState v = Inl e \<longleftrightarrow>
    v \<notin> set AllBumpStates \<and> e = Invalid ''unknown %s %q''"
  by (cases v) (auto simp: AllBumpStates_def)

datatype CheckConclusion =
    CheckSuccess
  | CheckFailure
  | CheckConclusion_other string

fun CheckConclusion_string :: "CheckConclusion \<Rightarrow> string" where
    "CheckConclusion_string CheckSuccess = ''success''"
  | "CheckConclusion_string CheckFailure = ''failure''"
  | "CheckConclusion_string (CheckConclusion_other s) = s"

definition AllCheckConclusions :: "CheckConclusion list" where
  "AllCheckConclusions = [CheckSuccess, CheckFailure]"

definition CheckConclusion_of :: "string \<Rightarrow> CheckConclusion" where
  "CheckConclusion_of = enum_of CheckConclusion_string AllCheckConclusions CheckConclusion_other"

definition ParseCheckConclusion :: "CheckConclusion \<Rightarrow> derr + CheckConclusion" where
  "ParseCheckConclusion v = parseEnum ''check conclusion'' v AllCheckConclusions"

lemma ParseCheckConclusion_simps [simp]:
  "ParseCheckConclusion CheckSuccess = Inr CheckSuccess"
  "ParseCheckConclusion CheckFailure = Inr CheckFailure"
  "ParseCheckConclusion (CheckConclusion_other s) = Inl (Invalid ''unknown %s %q'')"
  by (simp_all add: ParseCheckConclusion_def AllCheckConclusions_def parseEnum_def)

lemma ParseCheckConclusion_Inr: "ParseCheckConclusion v = Inr x \<longleftrightarrow> x = v \<and> v \<in> set AllCheckConclusions"
  by (cases v) (auto simp: AllCheckConclusions_def)

lemma ParseCheckConclusion_Inl: "ParseCheckConclusion v = Inl e \<longleftrightarrow>
    v \<notin> set AllCheckConclusions \<and> e = Invalid ''unknown %s %q''"
  by (cases v) (auto simp: AllCheckConclusions_def)

datatype RepairOutcomeKind =
    Pushed
  | NoChange
  | RepairBudgetExhausted
  | RepairFailed
  | RepairAborted
  | RepairOutcomeKind_other string

fun RepairOutcomeKind_string :: "RepairOutcomeKind \<Rightarrow> string" where
    "RepairOutcomeKind_string Pushed = ''pushed''"
  | "RepairOutcomeKind_string NoChange = ''no_change''"
  | "RepairOutcomeKind_string RepairBudgetExhausted = ''budget_exhausted''"
  | "RepairOutcomeKind_string RepairFailed = ''failed''"
  | "RepairOutcomeKind_string RepairAborted = ''aborted''"
  | "RepairOutcomeKind_string (RepairOutcomeKind_other s) = s"

definition AllRepairOutcomeKinds :: "RepairOutcomeKind list" where
  "AllRepairOutcomeKinds = [Pushed, NoChange, RepairBudgetExhausted, RepairFailed, RepairAborted]"

definition RepairOutcomeKind_of :: "string \<Rightarrow> RepairOutcomeKind" where
  "RepairOutcomeKind_of = enum_of RepairOutcomeKind_string AllRepairOutcomeKinds RepairOutcomeKind_other"

definition ParseRepairOutcomeKind :: "RepairOutcomeKind \<Rightarrow> derr + RepairOutcomeKind" where
  "ParseRepairOutcomeKind v = parseEnum ''repair outcome kind'' v AllRepairOutcomeKinds"

lemma ParseRepairOutcomeKind_simps [simp]:
  "ParseRepairOutcomeKind Pushed = Inr Pushed"
  "ParseRepairOutcomeKind NoChange = Inr NoChange"
  "ParseRepairOutcomeKind RepairBudgetExhausted = Inr RepairBudgetExhausted"
  "ParseRepairOutcomeKind RepairFailed = Inr RepairFailed"
  "ParseRepairOutcomeKind RepairAborted = Inr RepairAborted"
  "ParseRepairOutcomeKind (RepairOutcomeKind_other s) = Inl (Invalid ''unknown %s %q'')"
  by (simp_all add: ParseRepairOutcomeKind_def AllRepairOutcomeKinds_def parseEnum_def)

lemma ParseRepairOutcomeKind_Inr: "ParseRepairOutcomeKind v = Inr x \<longleftrightarrow> x = v \<and> v \<in> set AllRepairOutcomeKinds"
  by (cases v) (auto simp: AllRepairOutcomeKinds_def)

lemma ParseRepairOutcomeKind_Inl: "ParseRepairOutcomeKind v = Inl e \<longleftrightarrow>
    v \<notin> set AllRepairOutcomeKinds \<and> e = Invalid ''unknown %s %q''"
  by (cases v) (auto simp: AllRepairOutcomeKinds_def)

datatype RepairAbortReason =
    RepairAbortOperatorStop
  | RepairAbortDaemonRestart
  | AbortPullRequestClosed
  | RepairAbortReason_other string

fun RepairAbortReason_string :: "RepairAbortReason \<Rightarrow> string" where
    "RepairAbortReason_string RepairAbortOperatorStop = ''operator_stop''"
  | "RepairAbortReason_string RepairAbortDaemonRestart = ''daemon_restart''"
  | "RepairAbortReason_string AbortPullRequestClosed = ''pull_request_closed''"
  | "RepairAbortReason_string (RepairAbortReason_other s) = s"

definition AllRepairAbortReasons :: "RepairAbortReason list" where
  "AllRepairAbortReasons = [RepairAbortOperatorStop, RepairAbortDaemonRestart, AbortPullRequestClosed]"

definition RepairAbortReason_of :: "string \<Rightarrow> RepairAbortReason" where
  "RepairAbortReason_of = enum_of RepairAbortReason_string AllRepairAbortReasons RepairAbortReason_other"

definition ParseRepairAbortReason :: "RepairAbortReason \<Rightarrow> derr + RepairAbortReason" where
  "ParseRepairAbortReason v = parseEnum ''repair abort reason'' v AllRepairAbortReasons"

lemma ParseRepairAbortReason_simps [simp]:
  "ParseRepairAbortReason RepairAbortOperatorStop = Inr RepairAbortOperatorStop"
  "ParseRepairAbortReason RepairAbortDaemonRestart = Inr RepairAbortDaemonRestart"
  "ParseRepairAbortReason AbortPullRequestClosed = Inr AbortPullRequestClosed"
  "ParseRepairAbortReason (RepairAbortReason_other s) = Inl (Invalid ''unknown %s %q'')"
  by (simp_all add: ParseRepairAbortReason_def AllRepairAbortReasons_def parseEnum_def)

lemma ParseRepairAbortReason_Inr: "ParseRepairAbortReason v = Inr x \<longleftrightarrow> x = v \<and> v \<in> set AllRepairAbortReasons"
  by (cases v) (auto simp: AllRepairAbortReasons_def)

lemma ParseRepairAbortReason_Inl: "ParseRepairAbortReason v = Inl e \<longleftrightarrow>
    v \<notin> set AllRepairAbortReasons \<and> e = Invalid ''unknown %s %q''"
  by (cases v) (auto simp: AllRepairAbortReasons_def)

datatype AbandonReason =
    AbandonRoundsExhausted
  | AbandonBudgetExhausted
  | AbandonRepairFailed
  | AbandonNoChange
  | AbandonChecksNeverConcluded
  | AbandonOperatorStop
  | AbandonRestartFailed
  | AbandonReason_other string

fun AbandonReason_string :: "AbandonReason \<Rightarrow> string" where
    "AbandonReason_string AbandonRoundsExhausted = ''rounds_exhausted''"
  | "AbandonReason_string AbandonBudgetExhausted = ''budget_exhausted''"
  | "AbandonReason_string AbandonRepairFailed = ''repair_failed''"
  | "AbandonReason_string AbandonNoChange = ''no_change''"
  | "AbandonReason_string AbandonChecksNeverConcluded = ''checks_never_concluded''"
  | "AbandonReason_string AbandonOperatorStop = ''operator_stop''"
  | "AbandonReason_string AbandonRestartFailed = ''restart_failed''"
  | "AbandonReason_string (AbandonReason_other s) = s"

definition AllAbandonReasons :: "AbandonReason list" where
  "AllAbandonReasons = [AbandonRoundsExhausted, AbandonBudgetExhausted, AbandonRepairFailed, AbandonNoChange, AbandonChecksNeverConcluded, AbandonOperatorStop, AbandonRestartFailed]"

definition AbandonReason_of :: "string \<Rightarrow> AbandonReason" where
  "AbandonReason_of = enum_of AbandonReason_string AllAbandonReasons AbandonReason_other"

definition ParseAbandonReason :: "AbandonReason \<Rightarrow> derr + AbandonReason" where
  "ParseAbandonReason v = parseEnum ''abandon reason'' v AllAbandonReasons"

lemma ParseAbandonReason_simps [simp]:
  "ParseAbandonReason AbandonRoundsExhausted = Inr AbandonRoundsExhausted"
  "ParseAbandonReason AbandonBudgetExhausted = Inr AbandonBudgetExhausted"
  "ParseAbandonReason AbandonRepairFailed = Inr AbandonRepairFailed"
  "ParseAbandonReason AbandonNoChange = Inr AbandonNoChange"
  "ParseAbandonReason AbandonChecksNeverConcluded = Inr AbandonChecksNeverConcluded"
  "ParseAbandonReason AbandonOperatorStop = Inr AbandonOperatorStop"
  "ParseAbandonReason AbandonRestartFailed = Inr AbandonRestartFailed"
  "ParseAbandonReason (AbandonReason_other s) = Inl (Invalid ''unknown %s %q'')"
  by (simp_all add: ParseAbandonReason_def AllAbandonReasons_def parseEnum_def)

lemma ParseAbandonReason_Inr: "ParseAbandonReason v = Inr x \<longleftrightarrow> x = v \<and> v \<in> set AllAbandonReasons"
  by (cases v) (auto simp: AllAbandonReasons_def)

lemma ParseAbandonReason_Inl: "ParseAbandonReason v = Inl e \<longleftrightarrow>
    v \<notin> set AllAbandonReasons \<and> e = Invalid ''unknown %s %q''"
  by (cases v) (auto simp: AllAbandonReasons_def)

datatype ClosureKind =
    Merged
  | Discarded
  | ClosureKind_other string

fun ClosureKind_string :: "ClosureKind \<Rightarrow> string" where
    "ClosureKind_string Merged = ''merged''"
  | "ClosureKind_string Discarded = ''discarded''"
  | "ClosureKind_string (ClosureKind_other s) = s"

definition AllClosureKinds :: "ClosureKind list" where
  "AllClosureKinds = [Merged, Discarded]"

definition ClosureKind_of :: "string \<Rightarrow> ClosureKind" where
  "ClosureKind_of = enum_of ClosureKind_string AllClosureKinds ClosureKind_other"

definition ParseClosureKind :: "ClosureKind \<Rightarrow> derr + ClosureKind" where
  "ParseClosureKind v = parseEnum ''closure kind'' v AllClosureKinds"

lemma ParseClosureKind_simps [simp]:
  "ParseClosureKind Merged = Inr Merged"
  "ParseClosureKind Discarded = Inr Discarded"
  "ParseClosureKind (ClosureKind_other s) = Inl (Invalid ''unknown %s %q'')"
  by (simp_all add: ParseClosureKind_def AllClosureKinds_def parseEnum_def)

lemma ParseClosureKind_Inr: "ParseClosureKind v = Inr x \<longleftrightarrow> x = v \<and> v \<in> set AllClosureKinds"
  by (cases v) (auto simp: AllClosureKinds_def)

lemma ParseClosureKind_Inl: "ParseClosureKind v = Inl e \<longleftrightarrow>
    v \<notin> set AllClosureKinds \<and> e = Invalid ''unknown %s %q''"
  by (cases v) (auto simp: AllClosureKinds_def)

datatype BumpTransitionCause =
    CauseVerdictSuccess
  | CauseVerdictFailure
  | CauseVerdictFailureCapReached
  | CauseChecksNeverConcluded
  | CauseRepairStarted
  | CauseRepairPushed
  | CauseRepairNoChange
  | CauseRepairBudgetExhausted
  | CauseRepairFailedInfraRequeued
  | CauseRepairRequeueCapped
  | CauseRepairFailedAbandoned
  | CauseRepairAbortedOperatorStop
  | CauseRepairAbortedRestartRequeue
  | CauseRepairAbortedRestartAbandon
  | CauseHeadAdvanced
  | CauseOperatorRetry
  | CauseBumpClosed
  | BumpTransitionCause_other string

fun BumpTransitionCause_string :: "BumpTransitionCause \<Rightarrow> string" where
    "BumpTransitionCause_string CauseVerdictSuccess = ''verdict_success''"
  | "BumpTransitionCause_string CauseVerdictFailure = ''verdict_failure''"
  | "BumpTransitionCause_string CauseVerdictFailureCapReached = ''verdict_failure_cap_reached''"
  | "BumpTransitionCause_string CauseChecksNeverConcluded = ''checks_never_concluded''"
  | "BumpTransitionCause_string CauseRepairStarted = ''repair_started''"
  | "BumpTransitionCause_string CauseRepairPushed = ''repair_pushed''"
  | "BumpTransitionCause_string CauseRepairNoChange = ''repair_no_change''"
  | "BumpTransitionCause_string CauseRepairBudgetExhausted = ''repair_budget_exhausted''"
  | "BumpTransitionCause_string CauseRepairFailedInfraRequeued = ''repair_failed_infra_requeued''"
  | "BumpTransitionCause_string CauseRepairRequeueCapped = ''repair_requeue_capped''"
  | "BumpTransitionCause_string CauseRepairFailedAbandoned = ''repair_failed_abandoned''"
  | "BumpTransitionCause_string CauseRepairAbortedOperatorStop = ''repair_aborted_operator_stop''"
  | "BumpTransitionCause_string CauseRepairAbortedRestartRequeue = ''repair_aborted_restart_requeued''"
  | "BumpTransitionCause_string CauseRepairAbortedRestartAbandon = ''repair_aborted_restart_abandoned''"
  | "BumpTransitionCause_string CauseHeadAdvanced = ''head_advanced''"
  | "BumpTransitionCause_string CauseOperatorRetry = ''operator_retry''"
  | "BumpTransitionCause_string CauseBumpClosed = ''closed''"
  | "BumpTransitionCause_string (BumpTransitionCause_other s) = s"

definition AllBumpTransitionCauses :: "BumpTransitionCause list" where
  "AllBumpTransitionCauses = [CauseVerdictSuccess, CauseVerdictFailure, CauseVerdictFailureCapReached, CauseChecksNeverConcluded, CauseRepairStarted, CauseRepairPushed, CauseRepairNoChange, CauseRepairBudgetExhausted, CauseRepairFailedInfraRequeued, CauseRepairRequeueCapped, CauseRepairFailedAbandoned, CauseRepairAbortedOperatorStop, CauseRepairAbortedRestartRequeue, CauseRepairAbortedRestartAbandon, CauseHeadAdvanced, CauseOperatorRetry, CauseBumpClosed]"

definition BumpTransitionCause_of :: "string \<Rightarrow> BumpTransitionCause" where
  "BumpTransitionCause_of = enum_of BumpTransitionCause_string AllBumpTransitionCauses BumpTransitionCause_other"

definition ParseBumpTransitionCause :: "BumpTransitionCause \<Rightarrow> derr + BumpTransitionCause" where
  "ParseBumpTransitionCause v = parseEnum ''bump transition cause'' v AllBumpTransitionCauses"

lemma ParseBumpTransitionCause_simps [simp]:
  "ParseBumpTransitionCause CauseVerdictSuccess = Inr CauseVerdictSuccess"
  "ParseBumpTransitionCause CauseVerdictFailure = Inr CauseVerdictFailure"
  "ParseBumpTransitionCause CauseVerdictFailureCapReached = Inr CauseVerdictFailureCapReached"
  "ParseBumpTransitionCause CauseChecksNeverConcluded = Inr CauseChecksNeverConcluded"
  "ParseBumpTransitionCause CauseRepairStarted = Inr CauseRepairStarted"
  "ParseBumpTransitionCause CauseRepairPushed = Inr CauseRepairPushed"
  "ParseBumpTransitionCause CauseRepairNoChange = Inr CauseRepairNoChange"
  "ParseBumpTransitionCause CauseRepairBudgetExhausted = Inr CauseRepairBudgetExhausted"
  "ParseBumpTransitionCause CauseRepairFailedInfraRequeued = Inr CauseRepairFailedInfraRequeued"
  "ParseBumpTransitionCause CauseRepairRequeueCapped = Inr CauseRepairRequeueCapped"
  "ParseBumpTransitionCause CauseRepairFailedAbandoned = Inr CauseRepairFailedAbandoned"
  "ParseBumpTransitionCause CauseRepairAbortedOperatorStop = Inr CauseRepairAbortedOperatorStop"
  "ParseBumpTransitionCause CauseRepairAbortedRestartRequeue = Inr CauseRepairAbortedRestartRequeue"
  "ParseBumpTransitionCause CauseRepairAbortedRestartAbandon = Inr CauseRepairAbortedRestartAbandon"
  "ParseBumpTransitionCause CauseHeadAdvanced = Inr CauseHeadAdvanced"
  "ParseBumpTransitionCause CauseOperatorRetry = Inr CauseOperatorRetry"
  "ParseBumpTransitionCause CauseBumpClosed = Inr CauseBumpClosed"
  "ParseBumpTransitionCause (BumpTransitionCause_other s) = Inl (Invalid ''unknown %s %q'')"
  by (simp_all add: ParseBumpTransitionCause_def AllBumpTransitionCauses_def parseEnum_def)

lemma ParseBumpTransitionCause_Inr: "ParseBumpTransitionCause v = Inr x \<longleftrightarrow> x = v \<and> v \<in> set AllBumpTransitionCauses"
  by (cases v) (auto simp: AllBumpTransitionCauses_def)

lemma ParseBumpTransitionCause_Inl: "ParseBumpTransitionCause v = Inl e \<longleftrightarrow>
    v \<notin> set AllBumpTransitionCauses \<and> e = Invalid ''unknown %s %q''"
  by (cases v) (auto simp: AllBumpTransitionCauses_def)

lemma BumpState_string_of [simp]: "BumpState_string (BumpState_of s) = s"
  by (simp add: BumpState_of_def enum_of_string)

lemma BumpState_of_string: "x \<in> set AllBumpStates \<Longrightarrow> BumpState_of (BumpState_string x) = x"
  unfolding BumpState_of_def by (rule enum_of_member) (simp_all add: AllBumpStates_def)

lemma CheckConclusion_string_of [simp]: "CheckConclusion_string (CheckConclusion_of s) = s"
  by (simp add: CheckConclusion_of_def enum_of_string)

lemma CheckConclusion_of_string: "x \<in> set AllCheckConclusions \<Longrightarrow> CheckConclusion_of (CheckConclusion_string x) = x"
  unfolding CheckConclusion_of_def by (rule enum_of_member) (simp_all add: AllCheckConclusions_def)

lemma RepairOutcomeKind_string_of [simp]: "RepairOutcomeKind_string (RepairOutcomeKind_of s) = s"
  by (simp add: RepairOutcomeKind_of_def enum_of_string)

lemma RepairOutcomeKind_of_string: "x \<in> set AllRepairOutcomeKinds \<Longrightarrow> RepairOutcomeKind_of (RepairOutcomeKind_string x) = x"
  unfolding RepairOutcomeKind_of_def by (rule enum_of_member) (simp_all add: AllRepairOutcomeKinds_def)

lemma RepairAbortReason_string_of [simp]: "RepairAbortReason_string (RepairAbortReason_of s) = s"
  by (simp add: RepairAbortReason_of_def enum_of_string)

lemma RepairAbortReason_of_string: "x \<in> set AllRepairAbortReasons \<Longrightarrow> RepairAbortReason_of (RepairAbortReason_string x) = x"
  unfolding RepairAbortReason_of_def by (rule enum_of_member) (simp_all add: AllRepairAbortReasons_def)

lemma AbandonReason_string_of [simp]: "AbandonReason_string (AbandonReason_of s) = s"
  by (simp add: AbandonReason_of_def enum_of_string)

lemma AbandonReason_of_string: "x \<in> set AllAbandonReasons \<Longrightarrow> AbandonReason_of (AbandonReason_string x) = x"
  unfolding AbandonReason_of_def by (rule enum_of_member) (simp_all add: AllAbandonReasons_def)

lemma ClosureKind_string_of [simp]: "ClosureKind_string (ClosureKind_of s) = s"
  by (simp add: ClosureKind_of_def enum_of_string)

lemma ClosureKind_of_string: "x \<in> set AllClosureKinds \<Longrightarrow> ClosureKind_of (ClosureKind_string x) = x"
  unfolding ClosureKind_of_def by (rule enum_of_member) (simp_all add: AllClosureKinds_def)

lemma BumpTransitionCause_string_of [simp]: "BumpTransitionCause_string (BumpTransitionCause_of s) = s"
  by (simp add: BumpTransitionCause_of_def enum_of_string)

lemma BumpTransitionCause_of_string: "x \<in> set AllBumpTransitionCauses \<Longrightarrow> BumpTransitionCause_of (BumpTransitionCause_string x) = x"
  unfolding BumpTransitionCause_of_def by (rule enum_of_member) (simp_all add: AllBumpTransitionCauses_def)

subsection \<open>Properties\<close>

text \<open>Every enumeration of both contexts is faithful to its stored strings: converting any
  string to the type and back is the identity, and every constant survives the trip through
  its row, so no two constants of a type share one and an unknown row stays what it was.\<close>
theorem vocabularies_roundtrip:
  "CaseState_string (CaseState_of s) = s \<and> Trust_string (Trust_of s) = s \<and>
   Association_string (Association_of s) = s \<and> Size_string (Size_of s) = s \<and>
   OutcomeKind_string (OutcomeKind_of s) = s \<and> AbortReason_string (AbortReason_of s) = s \<and>
   TransitionCause_string (TransitionCause_of s) = s \<and> BumpState_string (BumpState_of s) = s \<and>
   AbandonReason_string (AbandonReason_of s) = s \<and>
   BumpTransitionCause_string (BumpTransitionCause_of s) = s \<and>
   map (CaseState_of \<circ> CaseState_string) AllCaseStates = AllCaseStates \<and>
   map (TransitionCause_of \<circ> TransitionCause_string) AllTransitionCauses = AllTransitionCauses \<and>
   map (BumpState_of \<circ> BumpState_string) AllBumpStates = AllBumpStates \<and>
   map (BumpTransitionCause_of \<circ> BumpTransitionCause_string) AllBumpTransitionCauses
     = AllBumpTransitionCauses \<and>
   map (AbandonReason_of \<circ> AbandonReason_string) AllAbandonReasons = AllAbandonReasons"
  by (auto simp: CaseState_of_string TransitionCause_of_string BumpState_of_string
      BumpTransitionCause_of_string AbandonReason_of_string intro!: map_idI)

end
