(* ===== verification/BumpAgg.thy ===== *)
theory BumpAgg
  imports UpVocab Kernel Machine
begin

section \<open>The Bump aggregate\<close>

text \<open>
  \<^verbatim>\<open>internal/upkeep/facts.go\<close> and \<^verbatim>\<open>bump.go\<close>, with the conventions of \<^verbatim>\<open>CaseAgg\<close>: a command
  returns the bump after the call and its error. The configured cap is an argument of the
  commands that read it, as in the code; \<open>bp_cap\<close> is an \<open>int\<close> sum of two small counts.
\<close>

subsection \<open>Facts\<close>

record CheckVerdict =
  cv_ID :: string
  cv_HeadSha :: string
  cv_Conclusion :: CheckConclusion
  cv_FailingContexts :: string
  cv_DetailsURL :: string
  cv_ConcludedAt :: Time

record RepairOutcome =
  ro_Kind :: RepairOutcomeKind
  ro_EndedAt :: Time
  ro_Usage :: Usage
  ro_Summary :: string
  ro_HeadSha :: string
  ro_Limit :: Limit
  ro_Class :: FailureClass
  ro_Message :: string
  ro_Reason :: RepairAbortReason

record RepairAttempt =
  ra_ID :: string
  ra_Round :: nat
  ra_BaseSha :: string
  ra_Budget :: Budget
  ra_Brief :: string
  ra_StartedAt :: Time
  ra_Run :: "Run option"
  ra_Outcome :: "RepairOutcome option"

definition RepairAttempt_Open :: "RepairAttempt \<Rightarrow> bool" where
  "RepairAttempt_Open a = (ra_Outcome a = None)"

record BumpAbandonment =
  ab_Reason :: AbandonReason
  ab_Detail :: string
  ab_AbandonedAt :: Time

record BumpClosure =
  bc_Kind :: ClosureKind
  bc_DeliveryID :: string
  bc_ClosedAt :: Time

record BumpTransition =
  bt_From :: BumpState
  bt_To :: BumpState
  bt_Cause :: BumpTransitionCause
  bt_OccurredAt :: Time

record Watch =
  wt_Repository :: string
  wt_WatchedAt :: Time

definition NewWatch :: "string \<Rightarrow> Time \<Rightarrow> derr + Watch" where
  "NewWatch repository at =
     (if repository = '''' then Inl (Invalid ''repository is empty'')
      else Inr \<lparr>wt_Repository = repository, wt_WatchedAt = at\<rparr>)"

subsection \<open>The aggregate\<close>

record BumpChanges =
  bh_Verdicts :: "CheckVerdict list"
  bh_Attempts :: "RepairAttempt list"
  bh_Runs :: "nat \<rightharpoonup> Run"
  bh_Outcomes :: "nat \<rightharpoonup> RepairOutcome"
  bh_Abandonment :: "BumpAbandonment option"
  bh_DropAbandon :: bool
  bh_Closure :: "BumpClosure option"
  bh_Transitions :: "BumpTransition list"
  bh_HeadSha :: string
  bh_State :: BumpState

definition no_bump_changes :: "BumpState \<Rightarrow> string \<Rightarrow> BumpChanges" where
  "no_bump_changes s sha = \<lparr>bh_Verdicts = [], bh_Attempts = [], bh_Runs = Map.empty,
     bh_Outcomes = Map.empty, bh_Abandonment = None, bh_DropAbandon = False, bh_Closure = None,
     bh_Transitions = [], bh_HeadSha = sha, bh_State = s\<rparr>"

record Bump =
  bp_id :: string
  bp_repository :: string
  bp_number :: int
  bp_branch :: string
  bp_baseBranch :: string
  bp_headSha :: string
  bp_state :: BumpState
  bp_openedAt :: Time
  bp_verdicts :: "CheckVerdict list"
  bp_attempts :: "RepairAttempt list"
  bp_transitions :: "BumpTransition list"
  bp_abandonment :: "BumpAbandonment option"
  bp_closure :: "BumpClosure option"
  bp_changes :: BumpChanges

definition NewBump ::
    "string \<Rightarrow> int \<Rightarrow> string \<Rightarrow> string \<Rightarrow> string \<Rightarrow> Time \<Rightarrow> derr + Bump" where
  "NewBump repository number branch baseBranch headSha openedAt =
     (if repository = '''' then Inl (Invalid ''repository is empty'')
      else if number < 1 then Inl (Invalid ''pull request number %d'')
      else if branch = '''' then Inl (Invalid ''branch is empty'')
      else if baseBranch = '''' then Inl (Invalid ''base branch is empty'')
      else if \<not> shaRe headSha then Inl (Invalid ''head sha %q'')
      else Inr \<lparr>bp_id = '''', bp_repository = repository, bp_number = number, bp_branch = branch,
                bp_baseBranch = baseBranch, bp_headSha = headSha, bp_state = AwaitingChecks,
                bp_openedAt = openedAt, bp_verdicts = [], bp_attempts = [], bp_transitions = [],
                bp_abandonment = None, bp_closure = None,
                bp_changes = no_bump_changes AwaitingChecks headSha\<rparr>)"

definition bp_Rounds :: "Bump \<Rightarrow> nat" where
  "bp_Rounds b = length (bp_attempts b)"

definition Bump_AssignID :: "Bump \<Rightarrow> string \<Rightarrow> Bump \<times> derr option" where
  "Bump_AssignID b id' =
     (if id' = '''' then (b, Some (Invalid ''id is empty''))
      else if bp_id b \<noteq> '''' then (b, Some (Refused ''id already assigned''))
      else (b\<lparr>bp_id := id'\<rparr>, None))"

definition Bump_ClearChanges :: "Bump \<Rightarrow> Bump" where
  "Bump_ClearChanges b = b\<lparr>bp_changes := no_bump_changes (bp_state b) (bp_headSha b)\<rparr>"

definition Bump_move :: "Bump \<Rightarrow> BumpState \<Rightarrow> BumpTransitionCause \<Rightarrow> Time \<Rightarrow> Bump" where
  "Bump_move b to' cause at =
     (let tr = \<lparr>bt_From = bp_state b, bt_To = to', bt_Cause = cause, bt_OccurredAt = at\<rparr> in
      b\<lparr>bp_state := to',
        bp_transitions := bp_transitions b @ [tr],
        bp_changes := (bp_changes b)\<lparr>bh_Transitions := bh_Transitions (bp_changes b) @ [tr],
                                     bh_State := to'\<rparr>\<rparr>)"

subsection \<open>Queries\<close>

definition Bump_CurrentVerdict :: "Bump \<Rightarrow> CheckVerdict option" where
  "Bump_CurrentVerdict b = find (\<lambda>v. cv_HeadSha v = bp_headSha b) (bp_verdicts b)"

definition Bump_openRepair :: "Bump \<Rightarrow> nat option" where
  "Bump_openRepair b = first_index RepairAttempt_Open (bp_attempts b)"

definition Bump_OpenRepair :: "Bump \<Rightarrow> RepairAttempt option" where
  "Bump_OpenRepair b = map_option (\<lambda>i. bp_attempts b ! i) (Bump_openRepair b)"

definition Bump_retryGrants :: "Bump \<Rightarrow> nat" where
  "Bump_retryGrants b = length (filter (\<lambda>tr. bt_Cause tr = CauseOperatorRetry) (bp_transitions b))"

definition bp_cap :: "Bump \<Rightarrow> int \<Rightarrow> int" where
  "bp_cap b maxRounds = maxRounds + int (Bump_retryGrants b)"

definition Bump_setAbandonment :: "Bump \<Rightarrow> AbandonReason \<Rightarrow> string \<Rightarrow> Time \<Rightarrow> Bump" where
  "Bump_setAbandonment b reason detail at =
     (let detail' = (if detail = '''' then AbandonReason_string reason else detail);
          a = \<lparr>ab_Reason = reason, ab_Detail = detail', ab_AbandonedAt = at\<rparr>
      in b\<lparr>bp_abandonment := Some a,
           bp_changes := (bp_changes b)\<lparr>bh_Abandonment := Some a, bh_DropAbandon := False\<rparr>\<rparr>)"

definition Bump_target :: "Bump \<Rightarrow> string \<Rightarrow> derr + nat" where
  "Bump_target b attemptID =
     (case Bump_openRepair b of
        None \<Rightarrow> Inl (Refused ''no open round'')
      | Some i \<Rightarrow>
          let a = bp_attempts b ! i in
          if attemptID \<noteq> '''' \<and> ra_ID a \<noteq> '''' \<and> ra_ID a \<noteq> attemptID
          then Inl (Refused ''round %s is not the open one'')
          else Inr i)"

definition Bump_restartedBefore :: "Bump \<Rightarrow> nat \<Rightarrow> bool" where
  "Bump_restartedBefore b round' =
     list_ex (\<lambda>a. ra_Round a < round' \<and>
        (case ra_Outcome a of None \<Rightarrow> False
         | Some ou \<Rightarrow> ro_Kind ou = RepairAborted \<and> ro_Reason ou = RepairAbortDaemonRestart))
       (bp_attempts b)"

subsection \<open>Commands\<close>

definition Bump_RecordVerdict :: "Bump \<Rightarrow> CheckVerdict \<Rightarrow> int \<Rightarrow> Bump \<times> derr option" where
  "Bump_RecordVerdict b v maxRounds =
     (case ParseCheckConclusion (cv_Conclusion v) of Inl err \<Rightarrow> (b, Some err)
      | Inr _ \<Rightarrow>
        if \<not> shaRe (cv_HeadSha v) then (b, Some (Invalid ''verdict head sha %q''))
        else if (cv_Conclusion v = CheckSuccess) \<noteq> (cv_FailingContexts v = '''')
        then (b, Some (Invalid ''failing contexts must be set exactly for a failure''))
        else if bp_state b \<noteq> AwaitingChecks then (b, Some (Refused ''verdict in state %s''))
        else if cv_HeadSha v \<noteq> bp_headSha b
        then (b, Some (Refused ''verdict for %s is not the current head %s''))
        else if list_ex (\<lambda>seen. cv_HeadSha seen = cv_HeadSha v) (bp_verdicts b)
        then (b, Some (Refused ''head %s already has a verdict''))
        else let b1 = b\<lparr>bp_verdicts := bp_verdicts b @ [v],
                        bp_changes := (bp_changes b)
                          \<lparr>bh_Verdicts := bh_Verdicts (bp_changes b) @ [v]\<rparr>\<rparr> in
             if cv_Conclusion v = CheckSuccess
             then (Bump_move b1 Green CauseVerdictSuccess (cv_ConcludedAt v), None)
             else if int (bp_Rounds b1) < bp_cap b1 maxRounds
             then (Bump_move b1 BumpQueued CauseVerdictFailure (cv_ConcludedAt v), None)
             else (Bump_move
                     (Bump_setAbandonment b1 AbandonRoundsExhausted (cv_FailingContexts v)
                        (cv_ConcludedAt v))
                     Abandoned CauseVerdictFailureCapReached (cv_ConcludedAt v), None))"

definition Bump_AdvanceHead :: "Bump \<Rightarrow> string \<Rightarrow> Time \<Rightarrow> Bump \<times> derr option" where
  "Bump_AdvanceHead b sha at =
     (if \<not> shaRe sha then (b, Some (Invalid ''head sha %q''))
      else if bp_state b = BumpClosed \<or> bp_state b = Abandoned
      then (b, Some (Refused ''advance head in state %s''))
      else if sha = bp_headSha b then (b, Some (Refused ''head is already %s''))
      else let b1 = b\<lparr>bp_headSha := sha, bp_changes := (bp_changes b)\<lparr>bh_HeadSha := sha\<rparr>\<rparr> in
           if bp_state b1 \<noteq> AwaitingChecks
           then (Bump_move b1 AwaitingChecks CauseHeadAdvanced at, None)
           else (b1, None))"

definition Bump_StartRepair ::
    "Bump \<Rightarrow> Budget \<Rightarrow> string \<Rightarrow> Time \<Rightarrow> int \<Rightarrow> Bump \<times> (derr + RepairAttempt)" where
  "Bump_StartRepair b budget brief at maxRounds =
     (if bg_maxTurns budget = 0 then (b, Inl (Invalid ''budget is zero''))
      else if brief = '''' then (b, Inl (Invalid ''brief is empty''))
      else if bp_state b \<noteq> BumpQueued then (b, Inl (Refused ''start repair in state %s''))
      else if Bump_openRepair b \<noteq> None then (b, Inl (Refused ''a round is already open''))
      else if int (bp_Rounds b) \<ge> bp_cap b maxRounds
      then (b, Inl (Refused ''round cap %d reached''))
      else let a = \<lparr>ra_ID = '''', ra_Round = bp_Rounds b + 1, ra_BaseSha = bp_headSha b,
                    ra_Budget = budget, ra_Brief = brief, ra_StartedAt = at,
                    ra_Run = None, ra_Outcome = None\<rparr>;
               b1 = b\<lparr>bp_attempts := bp_attempts b @ [a],
                      bp_changes := (bp_changes b)
                        \<lparr>bh_Attempts := bh_Attempts (bp_changes b) @ [a]\<rparr>\<rparr>
           in (Bump_move b1 Repairing CauseRepairStarted at, Inr a))"

definition Bump_RecordRun :: "Bump \<Rightarrow> string \<Rightarrow> Run \<Rightarrow> Bump \<times> derr option" where
  "Bump_RecordRun b attemptID r =
     (if rn_RunID r = '''' \<or> rn_Model r = '''' \<or> \<not> shaRe (rn_BaseSha r)
      then (b, Some (Invalid ''run needs run id, model and a 40-hex base sha''))
      else case Bump_target b attemptID of Inl err \<Rightarrow> (b, Some err)
      | Inr i \<Rightarrow>
          let a = bp_attempts b ! i in
          if ra_Run a \<noteq> None then (b, Some (Refused ''run already recorded for round %d''))
          else (b\<lparr>bp_attempts := (bp_attempts b)[i := a\<lparr>ra_Run := Some r\<rparr>],
                  bp_changes := (bp_changes b)
                    \<lparr>bh_Runs := (bh_Runs (bp_changes b))(ra_Round a \<mapsto> r)\<rparr>\<rparr>, None))"

definition validateOutcome :: "RepairOutcome \<Rightarrow> derr option" where
  "validateOutcome ou =
     (case ParseRepairOutcomeKind (ro_Kind ou) of Inl err \<Rightarrow> Some err
      | Inr _ \<Rightarrow>
        if ro_Summary ou = '''' then Some (Invalid ''outcome summary is empty'')
        else case ro_Kind ou of
          Pushed \<Rightarrow> if \<not> shaRe (ro_HeadSha ou) then Some (Invalid ''pushed head sha %q'') else None
        | RepairBudgetExhausted \<Rightarrow>
            (case ParseLimit (ro_Limit ou) of Inl err \<Rightarrow> Some err | Inr _ \<Rightarrow> None)
        | RepairFailed \<Rightarrow>
            (case ParseFailureClass (ro_Class ou) of Inl err \<Rightarrow> Some err
             | Inr _ \<Rightarrow> if ro_Message ou = '''' then Some (Invalid ''failure message is empty'')
                       else None)
        | RepairAborted \<Rightarrow>
            (case ParseRepairAbortReason (ro_Reason ou) of Inl err \<Rightarrow> Some err | Inr _ \<Rightarrow> None)
        | _ \<Rightarrow> None)"

text \<open>
  \<^verbatim>\<open>outcomeMove\<close> returns a reason that is \<^verbatim>\<open>""\<close> when nothing is abandoned, \<open>no_reason\<close> here;
  \<open>requeue\<close> is its local closure.
\<close>

definition no_reason :: AbandonReason where
  "no_reason = AbandonReason_other ''''"

definition requeue ::
    "Bump \<Rightarrow> int \<Rightarrow> BumpTransitionCause \<Rightarrow> BumpState \<times> BumpTransitionCause \<times> AbandonReason" where
  "requeue b maxRounds cause =
     (if int (bp_Rounds b) < bp_cap b maxRounds then (BumpQueued, cause, no_reason)
      else (Abandoned, CauseRepairRequeueCapped, AbandonRoundsExhausted))"

definition Bump_outcomeMove ::
    "Bump \<Rightarrow> RepairAttempt \<Rightarrow> RepairOutcome \<Rightarrow> int \<Rightarrow> BumpState \<times> BumpTransitionCause \<times> AbandonReason" where
  "Bump_outcomeMove b a ou maxRounds =
     (case ro_Kind ou of
        Pushed \<Rightarrow> (AwaitingChecks, CauseRepairPushed, no_reason)
      | NoChange \<Rightarrow> (Abandoned, CauseRepairNoChange, AbandonNoChange)
      | RepairBudgetExhausted \<Rightarrow> (Abandoned, CauseRepairBudgetExhausted, AbandonBudgetExhausted)
      | RepairFailed \<Rightarrow>
          if ro_Class ou = FailureInfra then requeue b maxRounds CauseRepairFailedInfraRequeued
          else (Abandoned, CauseRepairFailedAbandoned, AbandonRepairFailed)
      | _ \<Rightarrow>
          (case ro_Reason ou of
             RepairAbortOperatorStop \<Rightarrow> (Abandoned, CauseRepairAbortedOperatorStop, AbandonOperatorStop)
           | RepairAbortDaemonRestart \<Rightarrow>
               if Bump_restartedBefore b (ra_Round a)
               then (Abandoned, CauseRepairAbortedRestartAbandon, AbandonRestartFailed)
               else requeue b maxRounds CauseRepairAbortedRestartRequeue
           | _ \<Rightarrow> (BumpClosed, CauseBumpClosed, no_reason)))"

definition Bump_RecordOutcome ::
    "Bump \<Rightarrow> string \<Rightarrow> RepairOutcome \<Rightarrow> int \<Rightarrow> Bump \<times> derr option" where
  "Bump_RecordOutcome b attemptID ou maxRounds =
     (case validateOutcome ou of Some err \<Rightarrow> (b, Some err)
      | None \<Rightarrow>
        (case Bump_target b attemptID of Inl err \<Rightarrow> (b, Some err)
         | Inr i \<Rightarrow>
           let a = bp_attempts b ! i in
           if ro_Kind ou = Pushed \<and> ro_HeadSha ou = ra_BaseSha a
           then (b, Some (Invalid ''a pushed outcome must advance the head; %s is the base''))
           else if ro_Kind ou = RepairAborted \<and> ro_Reason ou = AbortPullRequestClosed
                 \<and> bp_state b \<noteq> BumpClosed
           then (b, Some (Refused ''abort reason %s in state %s''))
           else
             let moves = (bp_state b = Repairing);
                 (to', cause, reason) = Bump_outcomeMove b a ou maxRounds;
                 b1 = b\<lparr>bp_attempts := (bp_attempts b)[i := a\<lparr>ra_Outcome := Some ou\<rparr>],
                        bp_changes := (bp_changes b)
                          \<lparr>bh_Outcomes := (bh_Outcomes (bp_changes b))(ra_Round a \<mapsto> ou)\<rparr>\<rparr>;
                 b2 = (if ro_Kind ou = Pushed
                       then b1\<lparr>bp_headSha := ro_HeadSha ou,
                               bp_changes := (bp_changes b1)\<lparr>bh_HeadSha := ro_HeadSha ou\<rparr>\<rparr>
                       else b1)
             in if moves
                then let b3 = (if reason \<noteq> no_reason
                               then Bump_setAbandonment b2 reason (ro_Summary ou) (ro_EndedAt ou)
                               else b2)
                     in (Bump_move b3 to' cause (ro_EndedAt ou), None)
                else (b2, None)))"

definition Bump_Abandon :: "Bump \<Rightarrow> BumpAbandonment \<Rightarrow> Bump \<times> derr option" where
  "Bump_Abandon b a =
     (case ParseAbandonReason (ab_Reason a) of Inl err \<Rightarrow> (b, Some err)
      | Inr _ \<Rightarrow>
        if ab_Detail a = '''' then (b, Some (Invalid ''abandonment detail is empty''))
        else if ab_Reason a \<noteq> AbandonChecksNeverConcluded
        then (b, Some (Refused ''reason %s is recorded by the outcome that caused it''))
        else if bp_state b = BumpClosed \<or> bp_state b = Abandoned
        then (b, Some (Refused ''abandon in state %s''))
        else (Bump_move (Bump_setAbandonment b (ab_Reason a) (ab_Detail a) (ab_AbandonedAt a))
                Abandoned CauseChecksNeverConcluded (ab_AbandonedAt a), None))"

definition Bump_Retry :: "Bump \<Rightarrow> Time \<Rightarrow> Bump \<times> derr option" where
  "Bump_Retry b at =
     (if bp_state b \<noteq> Abandoned \<and> bp_state b \<noteq> Green then (b, Some (Refused ''retry in state %s''))
      else
        let dropped = (if bp_abandonment b \<noteq> None
              then b\<lparr>bp_abandonment := None,
                     bp_changes := (bp_changes b)\<lparr>bh_Abandonment := None, bh_DropAbandon := True\<rparr>\<rparr>
              else b)
        in (case Bump_CurrentVerdict b of
              Some v \<Rightarrow>
                if cv_Conclusion v = CheckSuccess
                then (b, Some (Refused ''the checks on %s passed; there is nothing to repair''))
                else (Bump_move dropped BumpQueued CauseOperatorRetry at, None)
            | None \<Rightarrow> (Bump_move dropped AwaitingChecks CauseOperatorRetry at, None)))"

definition Bump_Close :: "Bump \<Rightarrow> BumpClosure \<Rightarrow> Bump \<times> derr option" where
  "Bump_Close b cl =
     (case ParseClosureKind (bc_Kind cl) of Inl err \<Rightarrow> (b, Some err)
      | Inr _ \<Rightarrow>
        if bc_DeliveryID cl = '''' then (b, Some (Invalid ''closure delivery id is empty''))
        else if BumpState_Terminal (bp_state b) then (b, Some (Refused ''close in state %s''))
        else let b1 = b\<lparr>bp_closure := Some cl, bp_changes := (bp_changes b)\<lparr>bh_Closure := Some cl\<rparr>\<rparr>
             in (Bump_move b1 BumpClosed CauseBumpClosed (bc_ClosedAt cl), None))"

subsection \<open>Loading\<close>

record BumpSnapshot =
  bs_ID :: string
  bs_Repository :: string
  bs_Number :: int
  bs_Branch :: string
  bs_BaseBranch :: string
  bs_HeadSha :: string
  bs_State :: BumpState
  bs_OpenedAt :: Time
  bs_Verdicts :: "CheckVerdict list"
  bs_Attempts :: "RepairAttempt list"
  bs_Transitions :: "BumpTransition list"
  bs_Abandonment :: "BumpAbandonment option"
  bs_Closure :: "BumpClosure option"

definition LoadBump :: "BumpSnapshot \<Rightarrow> derr + Bump" where
  "LoadBump s =
     (if bs_Repository s = '''' \<or> bs_Number s < 1 \<or> bs_Branch s = '''' \<or> bs_BaseBranch s = ''''
      then Inl (Invalid ''snapshot incomplete'')
      else if \<not> shaRe (bs_HeadSha s) then Inl (Invalid ''head sha %q'')
      else case ParseBumpState (bs_State s) of Inl err \<Rightarrow> Inl err
      | Inr _ \<Rightarrow>
        if length (filter RepairAttempt_Open (bs_Attempts s)) > 1
        then Inl (Invalid ''%d open rounds'')
        else if \<not> distinct (map cv_HeadSha (bs_Verdicts s))
        then Inl (Invalid ''head %s has two verdicts'')
        else if bs_State s = Abandoned \<and> bs_Abandonment s = None
        then Inl (Invalid ''state abandoned with no abandonment'')
        else if bs_State s = BumpClosed \<and> bs_Closure s = None
        then Inl (Invalid ''state closed with no closure'')
        else Inr (Bump_ClearChanges
               \<lparr>bp_id = bs_ID s, bp_repository = bs_Repository s, bp_number = bs_Number s,
                bp_branch = bs_Branch s, bp_baseBranch = bs_BaseBranch s,
                bp_headSha = bs_HeadSha s, bp_state = bs_State s, bp_openedAt = bs_OpenedAt s,
                bp_verdicts = bs_Verdicts s, bp_attempts = bs_Attempts s,
                bp_transitions = bs_Transitions s, bp_abandonment = bs_Abandonment s,
                bp_closure = bs_Closure s, bp_changes = no_bump_changes (bs_State s) (bs_HeadSha s)\<rparr>))"

subsection \<open>Commands as data\<close>

datatype bump_cmd =
    BAssignID string
  | BVerdict CheckVerdict
  | BAdvance string Time
  | BStart Budget string Time
  | BRun string Run
  | BOutcome string RepairOutcome
  | BAbandon BumpAbandonment
  | BRetry Time
  | BClose BumpClosure
  | BClear

fun bump_exec :: "int \<Rightarrow> Bump \<Rightarrow> bump_cmd \<Rightarrow> Bump \<times> derr option" where
  "bump_exec mr b (BAssignID i) = Bump_AssignID b i"
| "bump_exec mr b (BVerdict v) = Bump_RecordVerdict b v mr"
| "bump_exec mr b (BAdvance sha t) = Bump_AdvanceHead b sha t"
| "bump_exec mr b (BStart bg br t) =
     (case Bump_StartRepair b bg br t mr of (b', Inl e) \<Rightarrow> (b', Some e) | (b', Inr _) \<Rightarrow> (b', None))"
| "bump_exec mr b (BRun i r) = Bump_RecordRun b i r"
| "bump_exec mr b (BOutcome i ou) = Bump_RecordOutcome b i ou mr"
| "bump_exec mr b (BAbandon a) = Bump_Abandon b a"
| "bump_exec mr b (BRetry t) = Bump_Retry b t"
| "bump_exec mr b (BClose cl) = Bump_Close b cl"
| "bump_exec mr b BClear = (Bump_ClearChanges b, None)"

text \<open>
  A run with one configured cap, and one where the cap is another number at every
  command, as when the daemon is reconfigured between sweeps.
\<close>

definition bump_run :: "int \<Rightarrow> Bump \<Rightarrow> bump_cmd list \<Rightarrow> Bump" where
  "bump_run mr = foldl (\<lambda>b x. fst (bump_exec mr b x))"

definition bump_runs :: "Bump \<Rightarrow> (int \<times> bump_cmd) list \<Rightarrow> Bump" where
  "bump_runs = foldl (\<lambda>b x. fst (bump_exec (fst x) b (snd x)))"

end
