(* ===== verification/BumpInv.thy ===== *)
theory BumpInv
  imports BumpAgg
begin

section \<open>What a bump never does\<close>

text \<open>
  The transition table of the Bump aggregate as a relation, the diagram of
  \<^verbatim>\<open>docs/specs/2026-09-17-autophage-upkeep-domain-model.md\<close> beside it, the invariant every
  command preserves, and the properties of a bump that was created by \<^verbatim>\<open>NewBump\<close> and
  received any sequence of commands, under one configured cap or a changing one.
\<close>

subsection \<open>The transition table and the documented diagram\<close>

inductive bump_edge :: "BumpState \<Rightarrow> BumpTransitionCause \<Rightarrow> BumpState \<Rightarrow> bool" where
  v_success: "bump_edge AwaitingChecks CauseVerdictSuccess Green"
| v_failure: "bump_edge AwaitingChecks CauseVerdictFailure BumpQueued"
| v_capped: "bump_edge AwaitingChecks CauseVerdictFailureCapReached Abandoned"
| never: "s \<in> {AwaitingChecks, BumpQueued, Repairing, Green} \<Longrightarrow>
    bump_edge s CauseChecksNeverConcluded Abandoned"
| started: "bump_edge BumpQueued CauseRepairStarted Repairing"
| pushed: "bump_edge Repairing CauseRepairPushed AwaitingChecks"
| gave_up: "k \<in> {CauseRepairNoChange, CauseRepairBudgetExhausted, CauseRepairFailedAbandoned,
      CauseRepairRequeueCapped, CauseRepairAbortedOperatorStop, CauseRepairAbortedRestartAbandon} \<Longrightarrow>
    bump_edge Repairing k Abandoned"
| requeued: "k \<in> {CauseRepairFailedInfraRequeued, CauseRepairAbortedRestartRequeue} \<Longrightarrow>
    bump_edge Repairing k BumpQueued"
| advanced: "s \<in> {BumpQueued, Repairing, Green} \<Longrightarrow> bump_edge s CauseHeadAdvanced AwaitingChecks"
| retried: "s \<in> {Abandoned, Green} \<Longrightarrow> s' \<in> {BumpQueued, AwaitingChecks} \<Longrightarrow>
    bump_edge s CauseOperatorRetry s'"
| bclose: "s \<in> {AwaitingChecks, BumpQueued, Repairing, Green, Abandoned} \<Longrightarrow>
    bump_edge s CauseBumpClosed BumpClosed"

code_pred bump_edge .

inductive_simps bump_edge_from: "bump_edge s k s'"

subsection \<open>The invariant\<close>

definition bump_restart_abort :: "RepairAttempt \<Rightarrow> bool" where
  "bump_restart_abort a = (case ra_Outcome a of None \<Rightarrow> False
     | Some ou \<Rightarrow> ro_Kind ou = RepairAborted \<and> ro_Reason ou = RepairAbortDaemonRestart)"

definition count_cause :: "BumpTransitionCause \<Rightarrow> BumpTransition list \<Rightarrow> nat" where
  "count_cause k ts = length (filter (\<lambda>t. bt_Cause t = k) ts)"

definition rounds_ok :: "Bump \<Rightarrow> bool" where
  "rounds_ok b = (numbered ra_Round (bp_attempts b) \<and> only_last RepairAttempt_Open (bp_attempts b) \<and>
     (bp_state b = Repairing \<longrightarrow> list_ex RepairAttempt_Open (bp_attempts b)))"

definition verdicts_ok :: "Bump \<Rightarrow> bool" where
  "verdicts_ok b = (distinct (map cv_HeadSha (bp_verdicts b)) \<and> shaRe (bp_headSha b) \<and>
     list_all (\<lambda>v. shaRe (cv_HeadSha v)) (bp_verdicts b))"

definition facts_ok :: "Bump \<Rightarrow> bool" where
  "facts_ok b = (bp_state b \<in> set AllBumpStates \<and>
     ((bp_state b = BumpClosed) = (bp_closure b \<noteq> None)) \<and>
     (bp_state b = Abandoned \<longrightarrow> bp_abandonment b \<noteq> None) \<and>
     (bp_abandonment b \<noteq> None \<longrightarrow> bp_state b = Abandoned \<or> bp_state b = BumpClosed))"

definition bump_restart_ok :: "Bump \<Rightarrow> bool" where
  "bump_restart_ok b = (count_cause CauseRepairAbortedRestartRequeue (bp_transitions b) \<le> 1 \<and>
     (count_cause CauseRepairAbortedRestartRequeue (bp_transitions b) \<noteq> 0 \<longrightarrow>
        list_ex bump_restart_abort (bp_attempts b)))"

definition bump_identity_ok :: "Bump \<Rightarrow> bool" where
  "bump_identity_ok b = (bp_repository b \<noteq> '''' \<and> 1 \<le> bp_number b \<and> bp_branch b \<noteq> '''' \<and>
     bp_baseBranch b \<noteq> '''')"

definition bump_inv :: "Bump \<Rightarrow> bool" where
  "bump_inv b = (rounds_ok b \<and> verdicts_ok b \<and> facts_ok b \<and> bump_restart_ok b \<and> bump_identity_ok b)"

lemma bump_invD:
  assumes "bump_inv b"
  shows binv_numbered: "numbered ra_Round (bp_attempts b)"
    and binv_only_last: "only_last RepairAttempt_Open (bp_attempts b)"
    and binv_repairing: "bp_state b = Repairing \<Longrightarrow> list_ex RepairAttempt_Open (bp_attempts b)"
    and binv_distinct: "distinct (map cv_HeadSha (bp_verdicts b))"
    and binv_head: "shaRe (bp_headSha b)"
    and binv_vocab: "bp_state b \<in> set AllBumpStates"
    and binv_closed: "bp_state b = BumpClosed \<longleftrightarrow> bp_closure b \<noteq> None"
    and binv_abandoned: "bp_state b = Abandoned \<Longrightarrow> bp_abandonment b \<noteq> None"
    and binv_abandonment: "bp_abandonment b \<noteq> None \<Longrightarrow> bp_state b \<in> {Abandoned, BumpClosed}"
    and binv_restart: "bump_restart_ok b"
    and binv_identity: "bump_identity_ok b"
  using assms unfolding bump_inv_def rounds_ok_def verdicts_ok_def facts_ok_def by blast+

lemma binv_open:
  assumes "bump_inv b" "bp_state b \<noteq> BumpClosed"
  shows "bp_closure b = None" "bp_state b \<noteq> Abandoned \<Longrightarrow> bp_abandonment b = None"
  using binv_closed [OF assms(1)] binv_abandonment [OF assms(1)] assms(2) by blast+

subsection \<open>One command\<close>

lemma Bump_move_fields [simp]:
  "bp_id (Bump_move b s k t) = bp_id b"
  "bp_repository (Bump_move b s k t) = bp_repository b"
  "bp_number (Bump_move b s k t) = bp_number b"
  "bp_branch (Bump_move b s k t) = bp_branch b"
  "bp_baseBranch (Bump_move b s k t) = bp_baseBranch b"
  "bp_headSha (Bump_move b s k t) = bp_headSha b"
  "bp_state (Bump_move b s k t) = s"
  "bp_openedAt (Bump_move b s k t) = bp_openedAt b"
  "bp_verdicts (Bump_move b s k t) = bp_verdicts b"
  "bp_attempts (Bump_move b s k t) = bp_attempts b"
  "bp_abandonment (Bump_move b s k t) = bp_abandonment b"
  "bp_closure (Bump_move b s k t) = bp_closure b"
  "bp_transitions (Bump_move b s k t) = bp_transitions b @
     [\<lparr>bt_From = bp_state b, bt_To = s, bt_Cause = k, bt_OccurredAt = t\<rparr>]"
  by (simp_all add: Bump_move_def Let_def)

lemma setAbandonment_fields [simp]:
  "bp_repository (Bump_setAbandonment b r d t) = bp_repository b"
  "bp_number (Bump_setAbandonment b r d t) = bp_number b"
  "bp_branch (Bump_setAbandonment b r d t) = bp_branch b"
  "bp_baseBranch (Bump_setAbandonment b r d t) = bp_baseBranch b"
  "bp_headSha (Bump_setAbandonment b r d t) = bp_headSha b"
  "bp_state (Bump_setAbandonment b r d t) = bp_state b"
  "bp_verdicts (Bump_setAbandonment b r d t) = bp_verdicts b"
  "bp_attempts (Bump_setAbandonment b r d t) = bp_attempts b"
  "bp_abandonment (Bump_setAbandonment b r d t) = Some \<lparr>ab_Reason = r,
     ab_Detail = (if d = '''' then AbandonReason_string r else d), ab_AbandonedAt = t\<rparr>"
  "bp_closure (Bump_setAbandonment b r d t) = bp_closure b"
  "bp_transitions (Bump_setAbandonment b r d t) = bp_transitions b"
  by (simp_all add: Bump_setAbandonment_def Let_def)

lemma count_cause_snoc [simp]:
  "count_cause k [] = 0"
  "count_cause k (ts @ [t]) = count_cause k ts + (if bt_Cause t = k then 1 else 0)"
  by (simp_all add: count_cause_def)

lemma bump_restartedBefore_eq:
  assumes "numbered ra_Round (as @ [a])" "bp_attempts b = as @ [a]"
  shows "Bump_restartedBefore b (ra_Round a) = list_ex bump_restart_abort as"
  using numbered_less [OF assms(1)] assms(2)
  by (auto simp: Bump_restartedBefore_def list_ex_iff list_all_iff bump_restart_abort_def)

lemma bump_target_Inr:
  assumes "only_last RepairAttempt_Open (bp_attempts b)" "Bump_target b i = Inr j"
  obtains as a where "bp_attempts b = as @ [a]" "ra_Outcome a = None" "j = length as"
    "list_all (\<lambda>x. \<not> RepairAttempt_Open x) as"
proof -
  from assms(2) have "first_index RepairAttempt_Open (bp_attempts b) = Some j"
    by (auto simp: Bump_target_def Bump_openRepair_def Let_def split: option.splits if_splits)
  with assms(1) that show thesis
    by (elim first_index_only_last) (auto simp: RepairAttempt_Open_def)
qed

lemma Verdict_ok:
  assumes "Bump_RecordVerdict b v mr = (b', None)"
  obtains b1 where "b1 = b\<lparr>bp_verdicts := bp_verdicts b @ [v],
       bp_changes := (bp_changes b)\<lparr>bh_Verdicts := bh_Verdicts (bp_changes b) @ [v]\<rparr>\<rparr>"
    "bp_state b = AwaitingChecks" "shaRe (cv_HeadSha v)" "cv_HeadSha v = bp_headSha b"
    "cv_HeadSha v \<notin> set (map cv_HeadSha (bp_verdicts b))"
    "cv_Conclusion v \<in> {CheckSuccess, CheckFailure}"
    "b' = (if cv_Conclusion v = CheckSuccess then Bump_move b1 Green CauseVerdictSuccess (cv_ConcludedAt v)
       else if int (bp_Rounds b1) < bp_cap b1 mr
       then Bump_move b1 BumpQueued CauseVerdictFailure (cv_ConcludedAt v)
       else Bump_move (Bump_setAbandonment b1 AbandonRoundsExhausted (cv_FailingContexts v) (cv_ConcludedAt v))
              Abandoned CauseVerdictFailureCapReached (cv_ConcludedAt v))"
proof -
  have c: "cv_Conclusion v \<in> {CheckSuccess, CheckFailure}"
    using assms by (cases "cv_Conclusion v") (auto simp: Bump_RecordVerdict_def)
  show thesis
    by (rule that [OF refl]; use assms c in \<open>auto simp: Bump_RecordVerdict_def Let_def list_ex_iff
         split: if_splits sum.splits\<close>)
qed

lemma Advance_ok:
  "Bump_AdvanceHead b sha t = (b', None) \<longleftrightarrow> shaRe sha \<and> bp_state b \<noteq> BumpClosed \<and>
     bp_state b \<noteq> Abandoned \<and> sha \<noteq> bp_headSha b \<and>
     (let b1 = b\<lparr>bp_headSha := sha, bp_changes := (bp_changes b)\<lparr>bh_HeadSha := sha\<rparr>\<rparr>
      in b' = (if bp_state b \<noteq> AwaitingChecks then Bump_move b1 AwaitingChecks CauseHeadAdvanced t else b1))"
  by (auto simp: Bump_AdvanceHead_def Let_def)

lemma StartRepair_ok:
  "Bump_StartRepair b bg br t mr = (b', Inr a) \<longleftrightarrow>
     bg_maxTurns bg \<noteq> 0 \<and> br \<noteq> '''' \<and> bp_state b = BumpQueued \<and> Bump_openRepair b = None \<and>
     int (bp_Rounds b) < bp_cap b mr \<and>
     a = \<lparr>ra_ID = '''', ra_Round = bp_Rounds b + 1, ra_BaseSha = bp_headSha b, ra_Budget = bg,
          ra_Brief = br, ra_StartedAt = t, ra_Run = None, ra_Outcome = None\<rparr> \<and>
     b' = Bump_move (b\<lparr>bp_attempts := bp_attempts b @ [a],
            bp_changes := (bp_changes b)\<lparr>bh_Attempts := bh_Attempts (bp_changes b) @ [a]\<rparr>\<rparr>)
            Repairing CauseRepairStarted t"
  by (auto simp: Bump_StartRepair_def Let_def)

lemma BumpRun_ok:
  assumes "only_last RepairAttempt_Open (bp_attempts b)" "Bump_RecordRun b i r = (b', None)"
  obtains as a where "bp_attempts b = as @ [a]" "ra_Outcome a = None" "ra_Run a = None"
    "list_all (\<lambda>x. \<not> RepairAttempt_Open x) as" "shaRe (rn_BaseSha r)"
    "b' = b\<lparr>bp_attempts := as @ [a\<lparr>ra_Run := Some r\<rparr>],
            bp_changes := (bp_changes b)
              \<lparr>bh_Runs := (bh_Runs (bp_changes b))(ra_Round a \<mapsto> r)\<rparr>\<rparr>"
proof -
  from assms(2) obtain j where j: "Bump_target b i = Inr j" "shaRe (rn_BaseSha r)"
      "ra_Run (bp_attempts b ! j) = None"
      "b' = b\<lparr>bp_attempts := (bp_attempts b)[j := (bp_attempts b ! j)\<lparr>ra_Run := Some r\<rparr>],
            bp_changes := (bp_changes b)\<lparr>bh_Runs :=
              (bh_Runs (bp_changes b))(ra_Round (bp_attempts b ! j) \<mapsto> r)\<rparr>\<rparr>"
    by (auto simp: Bump_RecordRun_def Let_def split: if_splits sum.splits)
  show thesis
    by (rule bump_target_Inr [OF assms(1) j(1)], rule that) (use j in auto)
qed

definition push_head :: "Bump \<Rightarrow> RepairOutcome \<Rightarrow> Bump" where
  "push_head b ou = (if ro_Kind ou = Pushed
     then b\<lparr>bp_headSha := ro_HeadSha ou, bp_changes := (bp_changes b)\<lparr>bh_HeadSha := ro_HeadSha ou\<rparr>\<rparr>
     else b)"

lemma push_head_fields [simp]:
  "bp_id (push_head b ou) = bp_id b"
  "bp_repository (push_head b ou) = bp_repository b"
  "bp_number (push_head b ou) = bp_number b"
  "bp_branch (push_head b ou) = bp_branch b"
  "bp_baseBranch (push_head b ou) = bp_baseBranch b"
  "bp_headSha (push_head b ou) = (if ro_Kind ou = Pushed then ro_HeadSha ou else bp_headSha b)"
  "bp_state (push_head b ou) = bp_state b"
  "bp_verdicts (push_head b ou) = bp_verdicts b"
  "bp_attempts (push_head b ou) = bp_attempts b"
  "bp_abandonment (push_head b ou) = bp_abandonment b"
  "bp_closure (push_head b ou) = bp_closure b"
  "bp_transitions (push_head b ou) = bp_transitions b"
  by (simp_all add: push_head_def)

lemma validateOutcome_Pushed:
  "validateOutcome ou = None \<Longrightarrow> ro_Kind ou = Pushed \<Longrightarrow> shaRe (ro_HeadSha ou)"
  by (simp add: validateOutcome_def split: if_splits)

text \<open>
  A successful \<^verbatim>\<open>RecordOutcome\<close>: the open round, the last one, gets the outcome; a push
  moves the recorded head; the bump moves only from \<open>Repairing\<close>.
\<close>

lemma BumpOutcome_ok:
  assumes "only_last RepairAttempt_Open (bp_attempts b)" "Bump_RecordOutcome b i ou mr = (b', None)"
  obtains as a b2 s k r where "bp_attempts b = as @ [a]" "ra_Outcome a = None"
    "list_all (\<lambda>x. \<not> RepairAttempt_Open x) as" "validateOutcome ou = None"
    "\<not> (ro_Kind ou = Pushed \<and> ro_HeadSha ou = ra_BaseSha a)"
    "\<not> (ro_Kind ou = RepairAborted \<and> ro_Reason ou = AbortPullRequestClosed \<and> bp_state b \<noteq> BumpClosed)"
    "Bump_outcomeMove b a ou mr = (s, k, r)"
    "b2 = push_head (b\<lparr>bp_attempts := as @ [a\<lparr>ra_Outcome := Some ou\<rparr>],
            bp_changes := (bp_changes b)
              \<lparr>bh_Outcomes := (bh_Outcomes (bp_changes b))(ra_Round a \<mapsto> ou)\<rparr>\<rparr>) ou"
    "b' = (if bp_state b = Repairing
       then Bump_move (if r \<noteq> no_reason then Bump_setAbandonment b2 r (ro_Summary ou) (ro_EndedAt ou) else b2)
              s k (ro_EndedAt ou)
       else b2)"
proof -
  from assms(2) obtain j where j: "Bump_target b i = Inr j" "validateOutcome ou = None"
    by (auto simp: Bump_RecordOutcome_def Let_def split: option.splits sum.splits)
  obtain as a where as: "bp_attempts b = as @ [a]" "ra_Outcome a = None" "j = length as"
    "list_all (\<lambda>x. \<not> RepairAttempt_Open x) as"
    by (rule bump_target_Inr [OF assms(1) j(1)])
  obtain s k r where m: "Bump_outcomeMove b a ou mr = (s, k, r)"
    by (cases "Bump_outcomeMove b a ou mr") auto
  show thesis
    by (rule that [OF as(1,2,4) j(2) _ _ m refl])
       (use assms(2) j as m in \<open>auto simp: Bump_RecordOutcome_def Let_def push_head_def split: if_splits\<close>)
qed

lemma Abandon_ok:
  assumes "Bump_Abandon b a = (b', None)"
  shows "bp_state b \<noteq> BumpClosed" "bp_state b \<noteq> Abandoned"
    "b' = Bump_move (Bump_setAbandonment b AbandonChecksNeverConcluded (ab_Detail a) (ab_AbandonedAt a))
            Abandoned CauseChecksNeverConcluded (ab_AbandonedAt a)"
  using assms by (auto simp: Bump_Abandon_def split: sum.splits if_splits)

definition drop_abandonment :: "Bump \<Rightarrow> Bump" where
  "drop_abandonment b = (if bp_abandonment b \<noteq> None
     then b\<lparr>bp_abandonment := None,
            bp_changes := (bp_changes b)\<lparr>bh_Abandonment := None, bh_DropAbandon := True\<rparr>\<rparr>
     else b)"

lemma drop_abandonment_fields [simp]:
  "bp_repository (drop_abandonment b) = bp_repository b"
  "bp_number (drop_abandonment b) = bp_number b"
  "bp_branch (drop_abandonment b) = bp_branch b"
  "bp_baseBranch (drop_abandonment b) = bp_baseBranch b"
  "bp_headSha (drop_abandonment b) = bp_headSha b"
  "bp_state (drop_abandonment b) = bp_state b"
  "bp_verdicts (drop_abandonment b) = bp_verdicts b"
  "bp_attempts (drop_abandonment b) = bp_attempts b"
  "bp_abandonment (drop_abandonment b) = None"
  "bp_closure (drop_abandonment b) = bp_closure b"
  "bp_transitions (drop_abandonment b) = bp_transitions b"
  by (simp_all add: drop_abandonment_def)

lemma Retry_ok:
  "Bump_Retry b t = (b', None) \<longleftrightarrow> bp_state b \<in> {Abandoned, Green} \<and>
     (case Bump_CurrentVerdict b of
        None \<Rightarrow> b' = Bump_move (drop_abandonment b) AwaitingChecks CauseOperatorRetry t
      | Some v \<Rightarrow> cv_Conclusion v \<noteq> CheckSuccess \<and>
          b' = Bump_move (drop_abandonment b) BumpQueued CauseOperatorRetry t)"
  by (auto simp: Bump_Retry_def drop_abandonment_def Let_def split: option.splits)

lemma BumpClose_ok:
  assumes "Bump_Close b cl = (b', None)"
  shows "bp_state b \<noteq> BumpClosed"
    "b' = Bump_move (b\<lparr>bp_closure := Some cl, bp_changes := (bp_changes b)\<lparr>bh_Closure := Some cl\<rparr>\<rparr>)
            BumpClosed CauseBumpClosed (bc_ClosedAt cl)"
  using assms by (auto simp: Bump_Close_def BumpState_Terminal_def Let_def split: sum.splits if_splits)

lemma bump_exec_err: "bump_exec mr b x = (b', Some e) \<Longrightarrow> b' = b"
  by (cases x) (auto simp: Bump_AssignID_def Bump_RecordVerdict_def Bump_AdvanceHead_def
      Bump_StartRepair_def Bump_RecordRun_def Bump_RecordOutcome_def Bump_Abandon_def Bump_Retry_def
      Bump_Close_def Let_def split: if_splits prod.splits sum.splits option.splits)

lemma outcomeMove_cases:
  assumes "Bump_outcomeMove b a ou mr = (s, k, r)" "validateOutcome ou = None"
    "\<not> (ro_Kind ou = RepairAborted \<and> ro_Reason ou = AbortPullRequestClosed)"
  obtains (push) "ro_Kind ou = Pushed" "s = AwaitingChecks" "k = CauseRepairPushed" "r = no_reason"
  | (requeue) "ro_Kind ou \<noteq> Pushed" "s = BumpQueued" "r = no_reason" "int (bp_Rounds b) < bp_cap b mr"
      "k = CauseRepairFailedInfraRequeued \<or> (k = CauseRepairAbortedRestartRequeue \<and>
         ro_Kind ou = RepairAborted \<and> ro_Reason ou = RepairAbortDaemonRestart \<and>
         \<not> Bump_restartedBefore b (ra_Round a))"
  | (abandon) "ro_Kind ou \<noteq> Pushed" "s = Abandoned" "r \<noteq> no_reason"
      "k \<in> {CauseRepairNoChange, CauseRepairBudgetExhausted, CauseRepairFailedAbandoned,
        CauseRepairRequeueCapped, CauseRepairAbortedOperatorStop, CauseRepairAbortedRestartAbandon}"
  using assms
  by (cases "ro_Kind ou"; cases "ro_Reason ou")
     (auto simp: Bump_outcomeMove_def requeue_def no_reason_def validateOutcome_def split: if_splits)

lemma Verdict_inv:
  assumes inv: "bump_inv b" and ok: "Bump_RecordVerdict b v mr = (b', None)"
  shows "bump_inv b'"
proof -
  from ok obtain b1 where b1: "b1 = b\<lparr>bp_verdicts := bp_verdicts b @ [v],
       bp_changes := (bp_changes b)\<lparr>bh_Verdicts := bh_Verdicts (bp_changes b) @ [v]\<rparr>\<rparr>"
    and st: "bp_state b = AwaitingChecks" "shaRe (cv_HeadSha v)"
      "cv_HeadSha v \<notin> set (map cv_HeadSha (bp_verdicts b))"
    and b': "b' = (if cv_Conclusion v = CheckSuccess then Bump_move b1 Green CauseVerdictSuccess (cv_ConcludedAt v)
       else if int (bp_Rounds b1) < bp_cap b1 mr
       then Bump_move b1 BumpQueued CauseVerdictFailure (cv_ConcludedAt v)
       else Bump_move (Bump_setAbandonment b1 AbandonRoundsExhausted (cv_FailingContexts v) (cv_ConcludedAt v))
              Abandoned CauseVerdictFailureCapReached (cv_ConcludedAt v))"
    by (rule Verdict_ok)
  have none: "bp_closure b = None" "bp_abandonment b = None"
    using binv_open [OF inv] st by auto
  have "rounds_ok b \<Longrightarrow> rounds_ok b'" "bump_restart_ok b \<Longrightarrow> bump_restart_ok b'"
    "bump_identity_ok b \<Longrightarrow> bump_identity_ok b'"
    by (simp_all add: b' b1 rounds_ok_def bump_restart_ok_def bump_identity_ok_def)
  moreover have "verdicts_ok b \<Longrightarrow> verdicts_ok b'"
    using st by (simp add: b' b1 verdicts_ok_def)
  moreover have "facts_ok b'" using none by (simp add: b' b1 facts_ok_def AllBumpStates_def)
  ultimately show ?thesis using inv by (simp add: bump_inv_def)
qed

lemma Advance_inv:
  assumes inv: "bump_inv b" and ok: "Bump_AdvanceHead b sha t = (b', None)"
  shows "bump_inv b'"
proof -
  from ok have st: "shaRe sha" "bp_state b \<noteq> BumpClosed" "bp_state b \<noteq> Abandoned"
    and b': "b' = (let b1 = b\<lparr>bp_headSha := sha, bp_changes := (bp_changes b)\<lparr>bh_HeadSha := sha\<rparr>\<rparr>
      in if bp_state b \<noteq> AwaitingChecks then Bump_move b1 AwaitingChecks CauseHeadAdvanced t else b1)"
    by (simp_all add: Advance_ok Let_def)
  have none: "bp_closure b = None" "bp_abandonment b = None"
    using binv_open [OF inv] st by auto
  have "rounds_ok b \<Longrightarrow> rounds_ok b'" "bump_restart_ok b \<Longrightarrow> bump_restart_ok b'"
    "bump_identity_ok b \<Longrightarrow> bump_identity_ok b'" "verdicts_ok b \<Longrightarrow> verdicts_ok b'"
    using st by (simp_all add: b' Let_def rounds_ok_def bump_restart_ok_def bump_identity_ok_def verdicts_ok_def)
  moreover have "facts_ok b'" using none by (simp add: b' Let_def facts_ok_def AllBumpStates_def)
  ultimately show ?thesis using inv by (simp add: bump_inv_def)
qed

lemma StartRepair_inv:
  assumes inv: "bump_inv b" and ok: "Bump_StartRepair b bg br t mr = (b', Inr a)"
  shows "bump_inv b'"
proof -
  from ok have closed: "list_all (\<lambda>x. \<not> RepairAttempt_Open x) (bp_attempts b)"
    and st: "bp_state b = BumpQueued"
    and a: "ra_Round a = Suc (length (bp_attempts b))" "ra_Outcome a = None"
    and b': "b' = Bump_move (b\<lparr>bp_attempts := bp_attempts b @ [a],
            bp_changes := (bp_changes b)\<lparr>bh_Attempts := bh_Attempts (bp_changes b) @ [a]\<rparr>\<rparr>)
            Repairing CauseRepairStarted t"
    by (simp_all add: StartRepair_ok Bump_openRepair_def first_index_None bp_Rounds_def)
  have none: "bp_closure b = None" "bp_abandonment b = None"
    using binv_open [OF inv] st by auto
  have "bump_restart_abort a = False" using a by (simp add: bump_restart_abort_def)
  then have "rounds_ok b \<Longrightarrow> rounds_ok b'" "bump_restart_ok b \<Longrightarrow> bump_restart_ok b'"
    "bump_identity_ok b \<Longrightarrow> bump_identity_ok b'" "verdicts_ok b \<Longrightarrow> verdicts_ok b'"
    using a closed by (simp_all add: b' rounds_ok_def bump_restart_ok_def bump_identity_ok_def
        verdicts_ok_def RepairAttempt_Open_def)
  moreover have "facts_ok b'" using none by (simp add: b' facts_ok_def AllBumpStates_def)
  ultimately show ?thesis using inv by (simp add: bump_inv_def)
qed

lemma BumpRun_inv:
  assumes inv: "bump_inv b" and ok: "Bump_RecordRun b i r = (b', None)"
  shows "bump_inv b'"
proof -
  from ok obtain as a where as: "bp_attempts b = as @ [a]"
    and b': "b' = b\<lparr>bp_attempts := as @ [a\<lparr>ra_Run := Some r\<rparr>],
            bp_changes := (bp_changes b)
              \<lparr>bh_Runs := (bh_Runs (bp_changes b))(ra_Round a \<mapsto> r)\<rparr>\<rparr>"
    by (rule BumpRun_ok [OF binv_only_last [OF inv]])
  have "RepairAttempt_Open (a\<lparr>ra_Run := Some r\<rparr>) = RepairAttempt_Open a"
    "bump_restart_abort (a\<lparr>ra_Run := Some r\<rparr>) = bump_restart_abort a"
    by (simp_all add: RepairAttempt_Open_def bump_restart_abort_def)
  then have "rounds_ok b' = rounds_ok b" "bump_restart_ok b' = bump_restart_ok b"
    "bump_identity_ok b' = bump_identity_ok b" "verdicts_ok b' = verdicts_ok b" "facts_ok b' = facts_ok b"
    using as by (simp_all add: b' rounds_ok_def bump_restart_ok_def bump_identity_ok_def
        verdicts_ok_def facts_ok_def)
  then show ?thesis using inv by (simp add: bump_inv_def)
qed

lemma Abandon_inv:
  assumes inv: "bump_inv b" and ok: "Bump_Abandon b a = (b', None)"
  shows "bump_inv b'"
proof -
  note b' = Abandon_ok [OF ok]
  have none: "bp_closure b = None" using binv_closed [OF inv] b' by auto
  have "rounds_ok b \<Longrightarrow> rounds_ok b'" "bump_restart_ok b \<Longrightarrow> bump_restart_ok b'"
    "bump_identity_ok b \<Longrightarrow> bump_identity_ok b'" "verdicts_ok b \<Longrightarrow> verdicts_ok b'"
    by (simp_all add: b'(3) rounds_ok_def bump_restart_ok_def bump_identity_ok_def verdicts_ok_def)
  moreover have "facts_ok b'" using none by (simp add: b'(3) facts_ok_def AllBumpStates_def)
  ultimately show ?thesis using inv by (simp add: bump_inv_def)
qed

lemma Retry_inv:
  assumes inv: "bump_inv b" and ok: "Bump_Retry b t = (b', None)"
  shows "bump_inv b'"
proof -
  from ok have st: "bp_state b \<in> {Abandoned, Green}" by (simp add: Retry_ok)
  from ok obtain s where s: "s \<in> {BumpQueued, AwaitingChecks}"
    and b': "b' = Bump_move (drop_abandonment b) s CauseOperatorRetry t"
    by (auto simp: Retry_ok split: option.splits)
  have none: "bp_closure b = None" using binv_closed [OF inv] st by auto
  have "rounds_ok b \<Longrightarrow> rounds_ok b'" "bump_restart_ok b \<Longrightarrow> bump_restart_ok b'"
    "bump_identity_ok b \<Longrightarrow> bump_identity_ok b'" "verdicts_ok b \<Longrightarrow> verdicts_ok b'"
    using s by (auto simp: b' rounds_ok_def bump_restart_ok_def bump_identity_ok_def verdicts_ok_def)
  moreover have "facts_ok b'" using none s by (auto simp: b' facts_ok_def AllBumpStates_def)
  ultimately show ?thesis using inv by (simp add: bump_inv_def)
qed

lemma BumpClose_inv:
  assumes inv: "bump_inv b" and ok: "Bump_Close b cl = (b', None)"
  shows "bump_inv b'"
proof -
  note b' = BumpClose_ok [OF ok]
  have "rounds_ok b \<Longrightarrow> rounds_ok b'" "bump_restart_ok b \<Longrightarrow> bump_restart_ok b'"
    "bump_identity_ok b \<Longrightarrow> bump_identity_ok b'" "verdicts_ok b \<Longrightarrow> verdicts_ok b'"
    by (simp_all add: b'(2) rounds_ok_def bump_restart_ok_def bump_identity_ok_def verdicts_ok_def)
  moreover have "facts_ok b'" by (simp add: b'(2) facts_ok_def AllBumpStates_def)
  ultimately show ?thesis using inv by (simp add: bump_inv_def)
qed

lemma BumpOutcome_inv:
  assumes inv: "bump_inv b" and ok: "Bump_RecordOutcome b i ou mr = (b', None)"
  shows "bump_inv b'"
proof -
  from ok obtain as a b2 s k r where as: "bp_attempts b = as @ [a]" "ra_Outcome a = None"
      "list_all (\<lambda>x. \<not> RepairAttempt_Open x) as"
    and valid: "validateOutcome ou = None"
    and adm: "\<not> (ro_Kind ou = RepairAborted \<and> ro_Reason ou = AbortPullRequestClosed \<and> bp_state b \<noteq> BumpClosed)"
    and mv: "Bump_outcomeMove b a ou mr = (s, k, r)"
    and b2: "b2 = push_head (b\<lparr>bp_attempts := as @ [a\<lparr>ra_Outcome := Some ou\<rparr>],
            bp_changes := (bp_changes b)
              \<lparr>bh_Outcomes := (bh_Outcomes (bp_changes b))(ra_Round a \<mapsto> ou)\<rparr>\<rparr>) ou"
    and b': "b' = (if bp_state b = Repairing
       then Bump_move (if r \<noteq> no_reason then Bump_setAbandonment b2 r (ro_Summary ou) (ro_EndedAt ou) else b2)
              s k (ro_EndedAt ou)
       else b2)"
    by (rule BumpOutcome_ok [OF binv_only_last [OF inv]])
  have num: "numbered ra_Round (as @ [a])" using binv_numbered [OF inv] as by simp
  have att: "numbered ra_Round (bp_attempts b2)" "only_last RepairAttempt_Open (bp_attempts b2)"
    using num as by (simp_all add: b2)
  have sha: "ro_Kind ou = Pushed \<Longrightarrow> shaRe (ro_HeadSha ou)"
    using validateOutcome_Pushed [OF valid] by blast
  have restart: "bump_restart_ok b2"
    using binv_restart [OF inv] as by (auto simp: bump_restart_ok_def bump_restart_abort_def b2)
  have parts: "bump_identity_ok b2" "verdicts_ok b2"
    using binv_identity [OF inv] inv sha
    by (simp_all add: b2 bump_identity_ok_def bump_inv_def verdicts_ok_def)
  show ?thesis
  proof (cases "bp_state b = Repairing")
    case False
    then have "b' = b2" using b' by simp
    moreover have "rounds_ok b2" using att False by (simp add: rounds_ok_def b2)
    moreover have "facts_ok b2 = facts_ok b" by (simp add: facts_ok_def b2)
    ultimately show ?thesis using inv restart parts by (simp add: bump_inv_def)
  next
    case True
    have none: "bp_closure b = None" "bp_abandonment b = None"
      using binv_open [OF inv] True by auto
    have adm': "\<not> (ro_Kind ou = RepairAborted \<and> ro_Reason ou = AbortPullRequestClosed)"
      using adm True by simp
    from mv valid adm' show ?thesis
    proof (cases rule: outcomeMove_cases)
      case push
      have "facts_ok b'" "rounds_ok b'" "bump_restart_ok b'" "verdicts_ok b'" "bump_identity_ok b'"
        using push True none att restart parts
        by (simp_all add: b' b2 facts_ok_def rounds_ok_def AllBumpStates_def bump_restart_ok_def
            verdicts_ok_def bump_identity_ok_def)
      then show ?thesis by (simp add: bump_inv_def)
    next
      case requeue
      have "bump_restart_ok b'"
        using requeue True restart binv_restart [OF inv] bump_restartedBefore_eq [OF num as(1)] as
        by (auto simp: b' b2 bump_restart_ok_def bump_restart_abort_def)
      moreover have "facts_ok b'" "rounds_ok b'" "verdicts_ok b'" "bump_identity_ok b'"
        using requeue True none att parts
        by (simp_all add: b' b2 facts_ok_def rounds_ok_def AllBumpStates_def
            verdicts_ok_def bump_identity_ok_def)
      ultimately show ?thesis by (simp add: bump_inv_def)
    next
      case abandon
      have "bump_restart_ok b'"
        using abandon True restart by (auto simp: b' b2 bump_restart_ok_def)
      moreover have "facts_ok b'" "rounds_ok b'" "verdicts_ok b'" "bump_identity_ok b'"
        using abandon True none att parts
        by (simp_all add: b' b2 facts_ok_def rounds_ok_def AllBumpStates_def
            verdicts_ok_def bump_identity_ok_def)
      ultimately show ?thesis by (simp add: bump_inv_def)
    qed
  qed
qed

subsection \<open>Any sequence of commands\<close>

lemma bump_inv_id [simp]: "bump_inv (b\<lparr>bp_id := i\<rparr>) = bump_inv b"
  by (simp add: bump_inv_def rounds_ok_def verdicts_ok_def facts_ok_def bump_restart_ok_def
      bump_identity_ok_def)

lemma bump_inv_changes [simp]: "bump_inv (b\<lparr>bp_changes := x\<rparr>) = bump_inv b"
  by (simp add: bump_inv_def rounds_ok_def verdicts_ok_def facts_ok_def bump_restart_ok_def
      bump_identity_ok_def)

lemma bump_exec_inv:
  assumes "bump_inv b" shows "bump_inv (fst (bump_exec mr b x))"
proof (cases "bump_exec mr b x")
  case (Pair b' e)
  show ?thesis
  proof (cases e)
    case (Some er)
    with Pair assms bump_exec_err show ?thesis by fastforce
  next
    case None
    with Pair have ok: "bump_exec mr b x = (b', None)" by simp
    have "bump_inv b'"
    proof (cases x)
      case (BAssignID i)
      with ok assms show ?thesis by (auto simp: Bump_AssignID_def split: if_splits)
    next
      case BClear
      with ok assms show ?thesis by (auto simp: Bump_ClearChanges_def)
    next
      case (BStart bg br t)
      with ok obtain a where "Bump_StartRepair b bg br t mr = (b', Inr a)"
        by (auto split: prod.splits sum.splits)
      then show ?thesis using assms StartRepair_inv by blast
    qed (use ok assms in \<open>auto intro: Verdict_inv Advance_inv BumpRun_inv BumpOutcome_inv
        Abandon_inv Retry_inv BumpClose_inv\<close>)
    with Pair show ?thesis by simp
  qed
qed

lemma NewBump_inv: "NewBump r n br base sha t = Inr b \<Longrightarrow> bump_inv b \<and> bp_transitions b = []"
  by (auto simp: NewBump_def bump_inv_def rounds_ok_def verdicts_ok_def facts_ok_def
      bump_restart_ok_def bump_identity_ok_def AllBumpStates_def split: if_splits)

definition bump_logged :: "Bump \<Rightarrow> Bump \<Rightarrow> bool" where
  "bump_logged b b' = ((bp_state b' = bp_state b \<and> bp_transitions b' = bp_transitions b) \<or>
     (\<exists>t. bp_transitions b' = bp_transitions b @ [t] \<and> bt_From t = bp_state b \<and>
        bt_To t = bp_state b' \<and> bump_edge (bt_From t) (bt_Cause t) (bt_To t)))"

lemma bump_logged_move:
  "bp_state b1 = bp_state b \<Longrightarrow> bp_transitions b1 = bp_transitions b \<Longrightarrow>
     bump_edge (bp_state b) k s \<Longrightarrow> bump_logged b (Bump_move b1 s k t)"
  by (simp add: bump_logged_def)

lemma bump_logged_same [simp]:
  "bp_state b1 = bp_state b \<Longrightarrow> bp_transitions b1 = bp_transitions b \<Longrightarrow> bump_logged b b1"
  by (simp add: bump_logged_def)

lemma BumpOutcome_logged:
  assumes inv: "bump_inv b" and ok: "Bump_RecordOutcome b i ou mr = (b', None)"
  shows "bump_logged b b'"
proof -
  from ok obtain as a b2 s k r where valid: "validateOutcome ou = None"
    and adm: "\<not> (ro_Kind ou = RepairAborted \<and> ro_Reason ou = AbortPullRequestClosed \<and> bp_state b \<noteq> BumpClosed)"
    and mv: "Bump_outcomeMove b a ou mr = (s, k, r)"
    and b2: "b2 = push_head (b\<lparr>bp_attempts := as @ [a\<lparr>ra_Outcome := Some ou\<rparr>],
            bp_changes := (bp_changes b)
              \<lparr>bh_Outcomes := (bh_Outcomes (bp_changes b))(ra_Round a \<mapsto> ou)\<rparr>\<rparr>) ou"
    and b': "b' = (if bp_state b = Repairing
       then Bump_move (if r \<noteq> no_reason then Bump_setAbandonment b2 r (ro_Summary ou) (ro_EndedAt ou) else b2)
              s k (ro_EndedAt ou)
       else b2)"
    by (rule BumpOutcome_ok [OF binv_only_last [OF inv]])
  show ?thesis
  proof (cases "bp_state b = Repairing")
    case False
    then show ?thesis by (simp add: b' b2)
  next
    case True
    with adm have adm': "\<not> (ro_Kind ou = RepairAborted \<and> ro_Reason ou = AbortPullRequestClosed)" by simp
    from mv valid adm' have "bump_edge Repairing k s"
      by (cases rule: outcomeMove_cases) (auto intro: bump_edge.intros)
    with True show ?thesis by (auto simp: b' b2 intro!: bump_logged_move)
  qed
qed

lemma bump_exec_logged:
  assumes inv: "bump_inv b" and ok: "bump_exec mr b x = (b', None)"
  shows "bump_logged b b'"
proof (cases x)
  case (BVerdict v)
  with ok have "Bump_RecordVerdict b v mr = (b', None)" by simp
  then show ?thesis
    by (rule Verdict_ok) (auto intro!: bump_logged_move bump_edge.intros)
next
  case (BAdvance sha t)
  with ok binv_vocab [OF inv] show ?thesis
    by (auto simp: Advance_ok Let_def AllBumpStates_def intro!: bump_logged_move bump_edge.intros)
next
  case (BStart bg br t)
  with ok show ?thesis
    by (auto simp: StartRepair_ok intro!: bump_logged_move bump_edge.intros split: prod.splits sum.splits)
next
  case (BRun i r)
  with ok have "Bump_RecordRun b i r = (b', None)" by simp
  then show ?thesis by (rule BumpRun_ok [OF binv_only_last [OF inv]]) simp
next
  case (BOutcome i ou)
  with ok inv show ?thesis by (auto intro: BumpOutcome_logged)
next
  case (BAbandon a)
  with ok Abandon_ok [of b a b'] binv_vocab [OF inv] show ?thesis
    by (auto simp: AllBumpStates_def intro!: bump_logged_move bump_edge.intros)
next
  case (BRetry t)
  with ok show ?thesis
    by (auto simp: Retry_ok intro!: bump_logged_move bump_edge.intros split: option.splits)
next
  case (BClose cl)
  with ok BumpClose_ok [of b cl b'] binv_vocab [OF inv] show ?thesis
    by (auto simp: AllBumpStates_def intro!: bump_logged_move bump_edge.intros)
qed (use ok in \<open>auto simp: Bump_AssignID_def Bump_ClearChanges_def split: if_splits\<close>)

interpretation bump_machine: logged_machine
  "\<lambda>b x. fst (bump_exec (fst x) b (snd x))" bp_state bp_transitions bt_From bt_To
  "\<lambda>t. bump_edge (bt_From t) (bt_Cause t) (bt_To t)" bump_inv
proof
  fix b and x :: "int \<times> bump_cmd" assume inv: "bump_inv b"
  then show "bump_inv (fst (bump_exec (fst x) b (snd x)))" by (rule bump_exec_inv)
  obtain b' e where r: "bump_exec (fst x) b (snd x) = (b', e)"
    by (cases "bump_exec (fst x) b (snd x)")
  have "bump_logged b b'"
    using bump_exec_logged [OF inv] r bump_exec_err [of "fst x" b "snd x" b'] by (cases e) auto
  with r show "(bp_state (fst (bump_exec (fst x) b (snd x))) = bp_state b \<and>
      bp_transitions (fst (bump_exec (fst x) b (snd x))) = bp_transitions b) \<or>
    (\<exists>t. bp_transitions (fst (bump_exec (fst x) b (snd x))) = bp_transitions b @ [t] \<and>
      bt_From t = bp_state b \<and> bt_To t = bp_state (fst (bump_exec (fst x) b (snd x))) \<and>
      bump_edge (bt_From t) (bt_Cause t) (bt_To t))"
    by (simp add: bump_logged_def)
qed

lemma bump_runs_inv: "NewBump r n br base sha t = Inr b \<Longrightarrow> bump_inv (bump_runs b xs)"
  unfolding bump_runs_def using NewBump_inv bump_machine.run_inv by blast

lemma bump_run_runs: "bump_run mr b xs = bump_runs b (map (Pair mr) xs)"
  by (simp add: bump_run_def bump_runs_def foldl_map)

subsection \<open>Rounds and the cap\<close>

definition cap_ok :: "int \<Rightarrow> Bump \<Rightarrow> bool" where
  "cap_ok mr b = (int (bp_Rounds b) \<le> bp_cap b mr \<and>
     (bp_state b = BumpQueued \<longrightarrow> int (bp_Rounds b) < bp_cap b mr))"

lemma retryGrants_count: "Bump_retryGrants b = count_cause CauseOperatorRetry (bp_transitions b)"
  by (simp add: Bump_retryGrants_def count_cause_def)

lemmas cap_defs = cap_ok_def bp_cap_def retryGrants_count bp_Rounds_def

lemma bump_exec_cap:
  assumes inv: "bump_inv b" and ok: "bump_exec mr b x = (b', None)" and cap: "cap_ok mr b"
  shows "cap_ok mr b'"
proof (cases x)
  case (BVerdict v)
  with ok have "Bump_RecordVerdict b v mr = (b', None)" by simp
  then show ?thesis by (rule Verdict_ok) (use cap in \<open>auto simp: cap_defs\<close>)
next
  case (BAdvance sha t)
  with ok cap show ?thesis by (auto simp: Advance_ok cap_defs Let_def)
next
  case (BStart bg br t)
  with ok cap show ?thesis
    by (auto simp: StartRepair_ok cap_defs split: prod.splits sum.splits)
next
  case (BRun i r)
  with ok have "Bump_RecordRun b i r = (b', None)" by simp
  then show ?thesis by (rule BumpRun_ok [OF binv_only_last [OF inv]]) (use cap in \<open>auto simp: cap_defs\<close>)
next
  case (BOutcome i ou)
  with ok have "Bump_RecordOutcome b i ou mr = (b', None)" by simp
  then obtain as a b2 s k r where as: "bp_attempts b = as @ [a]" and valid: "validateOutcome ou = None"
    and adm: "\<not> (ro_Kind ou = RepairAborted \<and> ro_Reason ou = AbortPullRequestClosed \<and> bp_state b \<noteq> BumpClosed)"
    and mv: "Bump_outcomeMove b a ou mr = (s, k, r)"
    and b2: "b2 = push_head (b\<lparr>bp_attempts := as @ [a\<lparr>ra_Outcome := Some ou\<rparr>],
            bp_changes := (bp_changes b)
              \<lparr>bh_Outcomes := (bh_Outcomes (bp_changes b))(ra_Round a \<mapsto> ou)\<rparr>\<rparr>) ou"
    and b': "b' = (if bp_state b = Repairing
       then Bump_move (if r \<noteq> no_reason then Bump_setAbandonment b2 r (ro_Summary ou) (ro_EndedAt ou) else b2)
              s k (ro_EndedAt ou)
       else b2)"
    by (rule BumpOutcome_ok [OF binv_only_last [OF inv]])
  show ?thesis
  proof (cases "bp_state b = Repairing")
    case False
    with cap as show ?thesis by (auto simp: b' b2 cap_defs)
  next
    case True
    with adm have "\<not> (ro_Kind ou = RepairAborted \<and> ro_Reason ou = AbortPullRequestClosed)" by simp
    with mv valid show ?thesis
      by (cases rule: outcomeMove_cases) (use True cap as in \<open>auto simp: b' b2 cap_defs\<close>)
  qed
next
  case (BAbandon a)
  with ok Abandon_ok [of b a b'] cap show ?thesis by (auto simp: cap_defs)
next
  case (BRetry t)
  with ok cap show ?thesis by (auto simp: Retry_ok cap_defs split: option.splits)
next
  case (BClose cl)
  with ok BumpClose_ok [of b cl b'] cap show ?thesis by (auto simp: cap_defs)
qed (use ok cap in \<open>auto simp: Bump_AssignID_def Bump_ClearChanges_def cap_defs split: if_splits\<close>)

lemma bump_run_cap:
  assumes "NewBump r n br base sha t = Inr b" "0 < mr"
  shows "cap_ok mr (bump_run mr b xs)"
proof (induction xs rule: rev_induct)
  case Nil
  from assms show ?case by (auto simp: NewBump_def bump_run_def cap_defs split: if_splits)
next
  case (snoc x xs)
  have inv: "bump_inv (bump_run mr b xs)" using bump_runs_inv [OF assms(1)] by (simp add: bump_run_runs)
  obtain b' e where r: "bump_exec mr (bump_run mr b xs) x = (b', e)"
    by (cases "bump_exec mr (bump_run mr b xs) x")
  then have "bump_run mr b (xs @ [x]) = b'" by (simp add: bump_run_def)
  moreover have "cap_ok mr b'"
    using snoc bump_exec_cap [OF inv] r by (cases e) (auto dest: bump_exec_err)
  ultimately show ?case by simp
qed

subsection \<open>Heads and their verdicts\<close>

text \<open>
  A push recorded while the bump is no longer repairing overwrites the head with one that
  has been replaced since. Runs without such a stale push keep head and verdict together:
  a queued or repairing bump has a failing verdict on its head, a green one a passing one.
\<close>

fun stale_push :: "Bump \<Rightarrow> bump_cmd \<Rightarrow> bool" where
  "stale_push b (BOutcome _ ou) = (ro_Kind ou = Pushed \<and> bp_state b \<noteq> Repairing)"
| "stale_push b _ = False"

fun clean_runs :: "Bump \<Rightarrow> (int \<times> bump_cmd) list \<Rightarrow> bool" where
  "clean_runs b [] = True"
| "clean_runs b (x # xs) =
     (\<not> stale_push b (snd x) \<and> clean_runs (fst (bump_exec (fst x) b (snd x))) xs)"

definition judged :: "Bump \<Rightarrow> CheckConclusion \<Rightarrow> bool" where
  "judged b k = (\<exists>v. Bump_CurrentVerdict b = Some v \<and> cv_Conclusion v = k)"

definition heads_ok :: "Bump \<Rightarrow> bool" where
  "heads_ok b = (list_all (\<lambda>v. cv_Conclusion v \<in> {CheckSuccess, CheckFailure}) (bp_verdicts b) \<and>
     (bp_state b \<in> {BumpQueued, Repairing} \<longrightarrow> judged b CheckFailure) \<and>
     (bp_state b = Green \<longrightarrow> judged b CheckSuccess))"

lemma find_append:
  "find P (xs @ ys) = (case find P xs of Some x \<Rightarrow> Some x | None \<Rightarrow> find P ys)"
  by (induction xs) auto

lemma CurrentVerdict_append:
  "cv_HeadSha v \<notin> set (map cv_HeadSha (bp_verdicts b)) \<Longrightarrow> cv_HeadSha v = bp_headSha b \<Longrightarrow>
   bp_verdicts b1 = bp_verdicts b @ [v] \<Longrightarrow> bp_headSha b1 = bp_headSha b \<Longrightarrow>
   Bump_CurrentVerdict b1 = Some v"
proof -
  assume new: "cv_HeadSha v \<notin> set (map cv_HeadSha (bp_verdicts b))" "cv_HeadSha v = bp_headSha b"
    and b1: "bp_verdicts b1 = bp_verdicts b @ [v]" "bp_headSha b1 = bp_headSha b"
  have "find (\<lambda>w. cv_HeadSha w = bp_headSha b) (bp_verdicts b) = None"
    using new by (auto simp: find_None_iff image_iff)
  with new b1 show ?thesis by (simp add: Bump_CurrentVerdict_def find_append)
qed

lemma CurrentVerdict_Some:
  "Bump_CurrentVerdict b = Some v \<Longrightarrow> v \<in> set (bp_verdicts b) \<and> cv_HeadSha v = bp_headSha b"
  by (auto simp: Bump_CurrentVerdict_def find_Some_iff)

lemma judged_cong:
  "bp_verdicts b' = bp_verdicts b \<Longrightarrow> bp_headSha b' = bp_headSha b \<Longrightarrow> judged b' = judged b"
  by (simp add: judged_def Bump_CurrentVerdict_def fun_eq_iff)

lemma bump_exec_heads:
  assumes inv: "bump_inv b" and ok: "bump_exec mr b x = (b', None)" and heads: "heads_ok b"
    and clean: "\<not> stale_push b x"
  shows "heads_ok b'"
proof (cases x)
  case (BVerdict v)
  with ok have "Bump_RecordVerdict b v mr = (b', None)" by simp
  then show ?thesis
  proof (rule Verdict_ok)
    fix b1 assume b1: "b1 = b\<lparr>bp_verdicts := bp_verdicts b @ [v],
       bp_changes := (bp_changes b)\<lparr>bh_Verdicts := bh_Verdicts (bp_changes b) @ [v]\<rparr>\<rparr>"
      and new: "cv_HeadSha v \<notin> set (map cv_HeadSha (bp_verdicts b))" "cv_HeadSha v = bp_headSha b"
      and con: "cv_Conclusion v \<in> {CheckSuccess, CheckFailure}"
      and b': "b' = (if cv_Conclusion v = CheckSuccess then Bump_move b1 Green CauseVerdictSuccess (cv_ConcludedAt v)
       else if int (bp_Rounds b1) < bp_cap b1 mr
       then Bump_move b1 BumpQueued CauseVerdictFailure (cv_ConcludedAt v)
       else Bump_move (Bump_setAbandonment b1 AbandonRoundsExhausted (cv_FailingContexts v) (cv_ConcludedAt v))
              Abandoned CauseVerdictFailureCapReached (cv_ConcludedAt v))"
    have "Bump_CurrentVerdict b' = Some v"
      by (rule CurrentVerdict_append [OF new]) (simp_all add: b' b1)
    with heads con show ?thesis by (auto simp: heads_ok_def judged_def b' b1)
  qed
next
  case (BAdvance sha t)
  with ok heads show ?thesis by (auto simp: Advance_ok heads_ok_def Let_def)
next
  case (BStart bg br t)
  then obtain a where "Bump_StartRepair b bg br t mr = (b', Inr a)"
    using ok by (auto split: prod.splits sum.splits)
  then have "bp_state b = BumpQueued" "bp_state b' = Repairing" "bp_verdicts b' = bp_verdicts b"
      "bp_headSha b' = bp_headSha b"
    by (simp_all add: StartRepair_ok)
  with heads judged_cong [of b' b] show ?thesis by (simp add: heads_ok_def)
next
  case (BRun i r)
  with ok have "Bump_RecordRun b i r = (b', None)" by simp
  then have "bp_state b' = bp_state b" "bp_verdicts b' = bp_verdicts b" "bp_headSha b' = bp_headSha b"
    by (auto elim!: BumpRun_ok [OF binv_only_last [OF inv]])
  with heads judged_cong [of b' b] show ?thesis by (simp add: heads_ok_def)
next
  case (BOutcome i ou)
  with ok have "Bump_RecordOutcome b i ou mr = (b', None)" by simp
  then obtain as a b2 s k r where as: "bp_attempts b = as @ [a]" and valid: "validateOutcome ou = None"
    and adm: "\<not> (ro_Kind ou = RepairAborted \<and> ro_Reason ou = AbortPullRequestClosed \<and> bp_state b \<noteq> BumpClosed)"
    and mv: "Bump_outcomeMove b a ou mr = (s, k, r)"
    and b2: "b2 = push_head (b\<lparr>bp_attempts := as @ [a\<lparr>ra_Outcome := Some ou\<rparr>],
            bp_changes := (bp_changes b)
              \<lparr>bh_Outcomes := (bh_Outcomes (bp_changes b))(ra_Round a \<mapsto> ou)\<rparr>\<rparr>) ou"
    and b': "b' = (if bp_state b = Repairing
       then Bump_move (if r \<noteq> no_reason then Bump_setAbandonment b2 r (ro_Summary ou) (ro_EndedAt ou) else b2)
              s k (ro_EndedAt ou)
       else b2)"
    by (rule BumpOutcome_ok [OF binv_only_last [OF inv]])
  show ?thesis
  proof (cases "bp_state b = Repairing")
    case False
    then have "ro_Kind ou \<noteq> Pushed" using clean BOutcome by simp
    with False judged_cong [of b' b] heads show ?thesis by (simp add: b' b2 heads_ok_def)
  next
    case True
    with adm have adm': "\<not> (ro_Kind ou = RepairAborted \<and> ro_Reason ou = AbortPullRequestClosed)" by simp
    have verdicts: "bp_verdicts b' = bp_verdicts b" by (simp add: b' b2)
    from mv valid adm' show ?thesis
    proof (cases rule: outcomeMove_cases)
      case push
      with True verdicts heads show ?thesis by (simp add: heads_ok_def b')
    next
      case requeue
      then have "judged b' = judged b" using True by (intro judged_cong) (simp_all add: b' b2)
      with True requeue verdicts heads show ?thesis by (simp add: heads_ok_def b')
    next
      case abandon
      with True verdicts heads show ?thesis by (simp add: heads_ok_def b')
    qed
  qed
next
  case (BAbandon a)
  with ok Abandon_ok [of b a b'] heads show ?thesis by (auto simp: heads_ok_def)
next
  case (BRetry t)
  with ok have r: "Bump_Retry b t = (b', None)" by simp
  then have keep: "bp_verdicts b' = bp_verdicts b" "bp_headSha b' = bp_headSha b"
    by (auto simp: Retry_ok split: option.splits)
  show ?thesis
  proof (cases "Bump_CurrentVerdict b")
    case None
    with r heads keep show ?thesis by (simp add: Retry_ok heads_ok_def)
  next
    case (Some v)
    then have "v \<in> set (bp_verdicts b)" by (auto simp: Bump_CurrentVerdict_def find_Some_iff)
    moreover have "cv_Conclusion v \<noteq> CheckSuccess" "bp_state b' = BumpQueued"
      using r Some by (auto simp: Retry_ok)
    ultimately have "judged b CheckFailure" using heads Some by (auto simp: heads_ok_def judged_def list_all_iff)
    with judged_cong [OF keep] keep heads \<open>bp_state b' = BumpQueued\<close> show ?thesis by (simp add: heads_ok_def)
  qed
next
  case (BClose cl)
  with ok BumpClose_ok [of b cl b'] heads show ?thesis by (auto simp: heads_ok_def)
qed (use ok heads judged_cong [of b' b] in \<open>auto simp: Bump_AssignID_def Bump_ClearChanges_def heads_ok_def
      split: if_splits\<close>)

lemma bump_runs_heads:
  assumes "bump_inv b" "heads_ok b" "clean_runs b xs"
  shows "heads_ok (bump_runs b xs)"
  using assms
proof (induction xs arbitrary: b)
  case Nil
  then show ?case by (simp add: bump_runs_def)
next
  case (Cons x xs)
  obtain b' e where r: "bump_exec (fst x) b (snd x) = (b', e)" by (cases "bump_exec (fst x) b (snd x)")
  have "bump_inv b'" using bump_exec_inv [OF Cons.prems(1), of "fst x" "snd x"] r by simp
  moreover have "heads_ok b'"
    using bump_exec_heads [OF Cons.prems(1), of "fst x" "snd x" b'] bump_exec_err [of "fst x" b "snd x" b']
      r Cons.prems by (cases e) auto
  moreover have "clean_runs b' xs" "bump_runs b (x # xs) = bump_runs b' xs"
    using Cons.prems r by (simp_all add: bump_runs_def)
  ultimately show ?case using Cons.IH by simp
qed

lemma NewBump_heads: "NewBump r n br base sha t = Inr b \<Longrightarrow> heads_ok b"
  by (auto simp: NewBump_def heads_ok_def split: if_splits)

subsection \<open>A concrete bump\<close>

definition sha_of :: "char \<Rightarrow> string" where
  "sha_of c = replicate 40 c"

lemma shaRe_sha_of [simp]: "shaRe (sha_of c) = hex_byte c"
  by (auto simp: shaRe_def sha_of_def list_all_iff)

lemma sha_of_eq [simp]: "sha_of c = sha_of d \<longleftrightarrow> c = d"
  by (simp add: sha_of_def)

lemma hex_digits [simp]:
  "hex_byte CHR ''a''" "hex_byte CHR ''b''" "hex_byte CHR ''c''"
  by (simp_all add: hex_byte_def)

definition demo_bump :: Bump where
  "demo_bump = \<lparr>bp_id = '''', bp_repository = ''o/r'', bp_number = 9, bp_branch = ''dep'',
     bp_baseBranch = ''main'', bp_headSha = sha_of CHR ''a'', bp_state = AwaitingChecks,
     bp_openedAt = 0, bp_verdicts = [], bp_attempts = [], bp_transitions = [],
     bp_abandonment = None, bp_closure = None,
     bp_changes = no_bump_changes AwaitingChecks (sha_of CHR ''a'')\<rparr>"

lemma demo_bump_new: "NewBump ''o/r'' 9 ''dep'' ''main'' (sha_of CHR ''a'') 0 = Inr demo_bump"
  by (simp add: NewBump_def demo_bump_def)

definition b_verdict :: "char \<Rightarrow> bool \<Rightarrow> bump_cmd" where
  "b_verdict c ok = BVerdict \<lparr>cv_ID = '''', cv_HeadSha = sha_of c,
     cv_Conclusion = (if ok then CheckSuccess else CheckFailure),
     cv_FailingContexts = (if ok then '''' else ''test''), cv_DetailsURL = '''', cv_ConcludedAt = 1\<rparr>"

definition b_budget :: Budget where
  "b_budget = \<lparr>bg_maxTurns = 40, bg_maxWallClock = 1800000000000, bg_maxDiffLines = 400\<rparr>"

definition b_start :: bump_cmd where
  "b_start = BStart b_budget ''brief'' 2"

definition b_ro :: "RepairOutcomeKind \<Rightarrow> string \<Rightarrow> RepairAbortReason \<Rightarrow> RepairOutcome" where
  "b_ro k sha reason = \<lparr>ro_Kind = k, ro_EndedAt = 3,
     ro_Usage = \<lparr>us_Turns = 1, us_InputTokens = 1, us_OutputTokens = 1, us_WallClock = 1, us_DiffLines = 1\<rparr>,
     ro_Summary = ''s'', ro_HeadSha = sha, ro_Limit = LimitTurns, ro_Class = FailureInfra,
     ro_Message = ''m'', ro_Reason = reason\<rparr>"

definition b_push :: "char \<Rightarrow> bump_cmd" where
  "b_push c = BOutcome '''' (b_ro Pushed (sha_of c) (RepairAbortReason_other ''''))"

definition b_restart :: bump_cmd where
  "b_restart = BOutcome '''' (b_ro RepairAborted '''' RepairAbortDaemonRestart)"

definition b_never :: bump_cmd where
  "b_never = BAbandon \<lparr>ab_Reason = AbandonChecksNeverConcluded, ab_Detail = ''d'', ab_AbandonedAt = 4\<rparr>"

definition b_close :: bump_cmd where
  "b_close = BClose \<lparr>bc_Kind = Merged, bc_DeliveryID = ''d'', bc_ClosedAt = 5\<rparr>"

lemmas bdemo_defs = demo_bump_def b_verdict_def b_budget_def b_start_def b_ro_def b_push_def
  b_restart_def b_never_def b_close_def bump_runs_def bump_run_def

lemmas bump_eval = Bump_RecordVerdict_def Bump_AdvanceHead_def Bump_StartRepair_def Bump_RecordRun_def
  Bump_RecordOutcome_def Bump_Abandon_def Bump_Retry_def Bump_Close_def Bump_move_def Bump_target_def
  Bump_openRepair_def Bump_outcomeMove_def requeue_def no_reason_def validateOutcome_def bp_Rounds_def
  bp_cap_def Bump_retryGrants_def Bump_setAbandonment_def Bump_CurrentVerdict_def
  Bump_restartedBefore_def RepairAttempt_Open_def BumpState_Terminal_def no_bump_changes_def Let_def

subsection \<open>Properties\<close>

text \<open>Whatever commands a new bump receives, under whatever caps, its transition log is a
  connected path from awaiting_checks to its current state, every entry is an edge of the
  transition table, and no entry leads from a state to itself, which the store's
  from_state <> to_state check would reject.\<close>
theorem bump_log_follows_table:
  assumes "NewBump r n br base sha t = Inr b0" "b = bump_runs b0 xs"
  shows "chain bt_From bt_To AwaitingChecks (bp_transitions b) (bp_state b) \<and>
    list_all (\<lambda>tr. bump_edge (bt_From tr) (bt_Cause tr) (bt_To tr)) (bp_transitions b) \<and>
    list_all (\<lambda>tr. bt_From tr \<noteq> bt_To tr) (bp_transitions b)"
proof -
  have "bp_state b0 = AwaitingChecks" using assms(1) by (auto simp: NewBump_def split: if_splits)
  moreover have "bt_From tr \<noteq> bt_To tr" if "bump_edge (bt_From tr) (bt_Cause tr) (bt_To tr)" for tr
    using that by (cases rule: bump_edge.cases) auto
  ultimately show ?thesis
    using bump_machine.run_path [of b0 xs] NewBump_inv [OF assms(1)] assms(2)
    by (auto simp: bump_runs_def list_all_iff)
qed

theorem bump_log_follows_table_witness:
  "chain bt_From bt_To AwaitingChecks
     (bp_transitions (bump_runs demo_bump [(3, b_verdict CHR ''a'' False), (3, b_start)]))
     (bp_state (bump_runs demo_bump [(3, b_verdict CHR ''a'' False), (3, b_start)]))"
  by (rule conjunct1 [OF bump_log_follows_table [OF demo_bump_new refl]])

text \<open>A command the bump refuses or calls invalid leaves it exactly as it found it, its
  head, its abandonment and its pending changes included.\<close>
theorem bump_refusal_changes_nothing:
  assumes "bump_exec mr b x = (b', Some e)"
  shows "b' = b"
  using assms by (rule bump_exec_err)

theorem bump_refusal_changes_nothing_witness:
  "fst (bump_exec 3 demo_bump b_start) = demo_bump"
proof -
  have "bump_exec 3 demo_bump b_start = (demo_bump, Some (Refused ''start repair in state %s''))"
    by (simp add: bdemo_defs bump_eval)
  from bump_refusal_changes_nothing [OF this] this show ?thesis by simp
qed

text \<open>C23. The aggregate invariant: rounds are numbered 1 to n and only the last can be open, a
  repairing bump has an open round, no head has two verdicts, the head is always forty hex
  digits, there is a closure exactly in state closed, an abandoned bump says why, and an
  abandonment stands only on an abandoned or closed bump.\<close>
theorem bump_invariant:
  assumes "NewBump r n br base sha t = Inr b0" "b = bump_runs b0 xs"
  shows "map ra_Round (bp_attempts b) = [1..<Suc (length (bp_attempts b))] \<and>
    list_all (\<lambda>a. \<not> RepairAttempt_Open a) (butlast (bp_attempts b)) \<and>
    (bp_state b = Repairing \<longrightarrow> list_ex RepairAttempt_Open (bp_attempts b)) \<and>
    distinct (map cv_HeadSha (bp_verdicts b)) \<and> shaRe (bp_headSha b) \<and>
    (bp_state b = BumpClosed \<longleftrightarrow> bp_closure b \<noteq> None) \<and>
    (bp_state b = Abandoned \<longrightarrow> bp_abandonment b \<noteq> None) \<and>
    (bp_abandonment b \<noteq> None \<longrightarrow> bp_state b \<in> {Abandoned, BumpClosed})"
proof -
  have "bump_inv b" using bump_runs_inv [OF assms(1)] assms(2) by simp
  from bump_invD [OF this] show ?thesis unfolding numbered_def only_last_def by blast
qed

theorem bump_invariant_witness:
  "distinct (map cv_HeadSha (bp_verdicts (bump_runs demo_bump
     [(3, b_verdict CHR ''a'' False), (3, b_start), (3, b_push CHR ''b''), (3, b_verdict CHR ''b'' True)])))"
  using bump_invariant [OF demo_bump_new refl] by blast



text \<open>The loop guard: a verdict for any head but the bump's current one is never applied;
  the call returns an error and the bump is as it was.\<close>
theorem bump_loop_guard:
  assumes "cv_HeadSha v \<noteq> bp_headSha b"
  shows "fst (Bump_RecordVerdict b v mr) = b \<and> snd (Bump_RecordVerdict b v mr) \<noteq> None"
  using assms by (auto simp: Bump_RecordVerdict_def split: sum.splits)

theorem bump_loop_guard_witness:
  "fst (Bump_RecordVerdict demo_bump \<lparr>cv_ID = '''', cv_HeadSha = sha_of CHR ''b'',
     cv_Conclusion = CheckSuccess, cv_FailingContexts = '''', cv_DetailsURL = '''', cv_ConcludedAt = 1\<rparr> 3) = demo_bump"
  by (rule conjunct1 [OF bump_loop_guard]) (simp add: demo_bump_def)

text \<open>C4. No round is spent on a head whose checks did not fail, and none on a green bump: in
  every run in which no push is recorded after the bump left repairing, a round starts only
  from a head with a recorded failing verdict, and an operator retry of a green bump is
  refused, so the edge green to queued of the documented diagram is never taken.\<close>
theorem bump_repairs_only_red_heads:
  assumes "NewBump r n br base sha t = Inr b0" "clean_runs b0 xs" "b = bump_runs b0 xs"
  shows "(\<forall>bg brief at mr b' a. Bump_StartRepair b bg brief at mr = (b', Inr a) \<longrightarrow>
      (\<exists>v. v \<in> set (bp_verdicts b) \<and> cv_HeadSha v = ra_BaseSha a \<and> cv_Conclusion v = CheckFailure)) \<and>
    (\<forall>at. bp_state b = Green \<longrightarrow> snd (Bump_Retry b at) \<noteq> None)"
proof -
  have h: "heads_ok b"
    using bump_runs_heads [OF _ NewBump_heads [OF assms(1)] assms(2)] NewBump_inv [OF assms(1)] assms(3)
    by blast
  have "\<exists>v. v \<in> set (bp_verdicts b) \<and> cv_HeadSha v = ra_BaseSha a \<and> cv_Conclusion v = CheckFailure"
    if "Bump_StartRepair b bg brief at mr = (b', Inr a)" for bg brief at mr b' a
    using that h CurrentVerdict_Some [of b] by (auto simp: StartRepair_ok heads_ok_def judged_def)
  moreover have "snd (Bump_Retry b at) \<noteq> None" if "bp_state b = Green" for at
    using that h by (auto simp: heads_ok_def judged_def Bump_Retry_def Let_def)
  ultimately show ?thesis by blast
qed

theorem bump_repairs_only_red_heads_witness:
  "snd (Bump_Retry (bump_runs demo_bump [(3, b_verdict CHR ''a'' True)]) 6) \<noteq> None"
proof -
  have "bp_state (bump_runs demo_bump [(3, b_verdict CHR ''a'' True)]) = Green"
    "clean_runs demo_bump [(3, b_verdict CHR ''a'' True)]"
    by (simp_all add: bdemo_defs bump_eval)
  with bump_repairs_only_red_heads [OF demo_bump_new _ refl] show ?thesis by blast
qed

text \<open>Without that condition the guarantee fails. A round pushes, the branch is moved on and the
  checks of the new head pass before the push is recorded; recording it puts the replaced head
  back under a green bump. The bump is green with no verdict on its recorded head, every
  verdict is refused from then on, and the delivery that announces that head is refused too.\<close>
theorem bump_stale_push_loses_verdict:
  "\<exists>xs. bp_state (bump_runs demo_bump xs) = Green \<and>
     Bump_CurrentVerdict (bump_runs demo_bump xs) = None \<and>
     (\<forall>v mr. snd (Bump_RecordVerdict (bump_runs demo_bump xs) v mr) \<noteq> None) \<and>
     (\<forall>at. snd (Bump_AdvanceHead (bump_runs demo_bump xs) (bp_headSha (bump_runs demo_bump xs)) at) \<noteq> None)"
proof -
  let ?b = "bump_runs demo_bump [(3, b_verdict CHR ''a'' False), (3, b_start),
    (3, BAdvance (sha_of CHR ''c'') 3), (3, b_verdict CHR ''c'' True), (3, b_push CHR ''b'')]"
  have g: "bp_state ?b = Green" and v: "Bump_CurrentVerdict ?b = None"
    by (simp_all add: bdemo_defs bump_eval)
  have r: "snd (Bump_RecordVerdict ?b v mr) \<noteq> None" for v mr
    by (simp only: Bump_RecordVerdict_def g) (auto split: sum.splits)
  have a: "snd (Bump_AdvanceHead ?b (bp_headSha ?b) at) \<noteq> None" for at
    by (simp only: Bump_AdvanceHead_def) simp
  show ?thesis
    by (intro exI conjI allI) (rule g, rule v, rule r, rule a)
qed

text \<open>A branch reset to a head that was judged before leaves the bump waiting with every
  verdict refused: such a bump is reachable, and only a further head, an operator's retry after
  the wait window abandoned it, or the pull request closing gets it out.\<close>
theorem bump_rejudged_head_waits:
  "\<exists>xs. bp_state (bump_runs demo_bump xs) = AwaitingChecks \<and>
     (\<forall>v mr. snd (Bump_RecordVerdict (bump_runs demo_bump xs) v mr) \<noteq> None)"
proof -
  let ?b = "bump_runs demo_bump [(3, b_verdict CHR ''a'' False), (3, BAdvance (sha_of CHR ''b'') 2),
    (3, BAdvance (sha_of CHR ''a'') 3)]"
  have s: "bp_state ?b = AwaitingChecks" and h: "bp_headSha ?b = sha_of CHR ''a''"
    and v: "map cv_HeadSha (bp_verdicts ?b) = [sha_of CHR ''a'']"
    by (simp_all add: bdemo_defs bump_eval)
  have "snd (Bump_RecordVerdict ?b v mr) \<noteq> None" for v mr
  proof -
    have "sha_of CHR ''a'' \<in> set (map cv_HeadSha (bp_verdicts ?b))" by (simp only: v) simp
    then have "list_ex (\<lambda>seen. cv_HeadSha seen = sha_of CHR ''a'') (bp_verdicts ?b)"
      unfolding list_ex_iff set_map by (elim imageE) (intro bexI; simp)
    then show ?thesis unfolding Bump_RecordVerdict_def s h by (auto split: sum.splits)
  qed
  with s show ?thesis by blast
qed

text \<open>A daemon restart requeues a bump at most once in its life.\<close>
theorem bump_requeued_at_most_once:
  assumes "NewBump r n br base sha t = Inr b0"
  shows "length (filter (\<lambda>tr. bt_Cause tr = CauseRepairAbortedRestartRequeue)
    (bp_transitions (bump_runs b0 xs))) \<le> 1"
  using binv_restart [OF bump_runs_inv [OF assms, of xs]]
  by (simp add: bump_restart_ok_def count_cause_def)

theorem bump_requeued_at_most_once_witness:
  "let b = bump_runs demo_bump [(3, b_verdict CHR ''a'' False), (3, b_start), (3, b_restart),
             (3, b_start), (3, b_restart)]
   in bp_state b = Abandoned \<and>
      length (filter (\<lambda>tr. bt_Cause tr = CauseRepairAbortedRestartRequeue) (bp_transitions b)) \<le> 1"
  using bump_requeued_at_most_once [OF demo_bump_new, of "[(3, b_verdict CHR ''a'' False), (3, b_start),
      (3, b_restart), (3, b_start), (3, b_restart)]"]
  by (simp add: bdemo_defs bump_eval)

text \<open>Closed is terminal: no later command changes the state or writes a transition. No other
  state is: from every other state of a bump its closing is accepted.\<close>
theorem bump_closed_is_the_only_terminal:
  assumes "NewBump r n br base sha t = Inr b0"
  shows "(bp_state (bump_runs b0 xs) = BumpClosed \<longrightarrow>
      bp_state (bump_runs b0 (xs @ ys)) = BumpClosed \<and>
      bp_transitions (bump_runs b0 (xs @ ys)) = bp_transitions (bump_runs b0 xs)) \<and>
    (bp_state (bump_runs b0 xs) \<noteq> BumpClosed \<longrightarrow>
      (\<forall>cl. bc_Kind cl \<in> {Merged, Discarded} \<and> bc_DeliveryID cl \<noteq> '''' \<longrightarrow>
         snd (Bump_Close (bump_runs b0 xs) cl) = None))"
proof -
  have "snd (Bump_Close (bump_runs b0 xs) cl) = None"
    if "bp_state (bump_runs b0 xs) \<noteq> BumpClosed" "bc_Kind cl \<in> {Merged, Discarded}"
      "bc_DeliveryID cl \<noteq> ''''" for cl
    using that by (auto simp: Bump_Close_def BumpState_Terminal_def Let_def)
  moreover have "bp_state (bump_runs b0 (xs @ ys)) = BumpClosed \<and>
      bp_transitions (bump_runs b0 (xs @ ys)) = bp_transitions (bump_runs b0 xs)"
    if c: "bp_state (bump_runs b0 xs) = BumpClosed"
  proof -
    have "bt_From tr \<noteq> bp_state (bump_runs b0 xs)"
      if "bump_edge (bt_From tr) (bt_Cause tr) (bt_To tr)" for tr
      using that c by (cases rule: bump_edge.cases) auto
    from bump_machine.final_stays [OF bump_runs_inv [OF assms] this, of ys] c
    show ?thesis by (simp add: bump_runs_def)
  qed
  ultimately show ?thesis by blast
qed

theorem bump_closed_is_the_only_terminal_witness:
  "bp_state (bump_runs demo_bump ([(3, b_close)] @ [(3, b_verdict CHR ''a'' True)])) = BumpClosed"
proof -
  have "bp_state (bump_runs demo_bump [(3, b_close)]) = BumpClosed"
    by (simp add: bdemo_defs bump_eval)
  with bump_closed_is_the_only_terminal [OF demo_bump_new, of "[(3, b_close)]" "[(3, b_verdict CHR ''a'' True)]"]
  show ?thesis by blast
qed

end
