(* ===== verification/CaseInv.thy ===== *)
theory CaseInv
  imports CaseAgg
begin

section \<open>What a case never does\<close>

text \<open>
  The state diagram of \<^verbatim>\<open>docs/specs/2026-09-04-autophage-domain-model.md\<close> as a relation,
  the invariant of the aggregate, their preservation by every command, and the
  properties that follow for a case that was created by \<^verbatim>\<open>NewCase\<close> and received any
  sequence of commands.
\<close>

subsection \<open>The documented state diagram\<close>

inductive case_edge :: "CaseState \<Rightarrow> TransitionCause \<Rightarrow> CaseState \<Rightarrow> bool" where
  triage_small: "case_edge Received CauseTriageSmall Queued"
| triage_large: "case_edge Received CauseTriageLarge AwaitingApproval"
| approve: "s \<in> {Gated, AwaitingApproval, Failed} \<Longrightarrow> case_edge s CauseApproval Queued"
| start: "case_edge Queued CauseAttemptStarted Attempting"
| opened: "case_edge Attempting CauseOutcomePullRequestOpened Done"
| exhausted: "case_edge Attempting CauseOutcomeBudgetExhausted AwaitingApproval"
| stopped: "case_edge Attempting CauseOutcomeAbortedOperatorStop AwaitingApproval"
| failed: "case_edge Attempting CauseOutcomeFailed Failed"
| restart_first: "case_edge Attempting CauseOutcomeAbortedRestartRequeue Queued"
| restart_second: "case_edge Attempting CauseOutcomeAbortedRestartFailed Failed"
| close: "s \<in> {Received, Gated, Queued, AwaitingApproval, Failed, Attempting} \<Longrightarrow>
    case_edge s CauseClosed Closed"

code_pred case_edge .

inductive_simps case_edge_from: "case_edge s cause s'"

subsection \<open>The invariant\<close>

definition restart_abort :: "Attempt \<Rightarrow> bool" where
  "restart_abort a = (case at_Outcome a of None \<Rightarrow> False
     | Some ou \<Rightarrow> oc_Kind ou = Aborted \<and> oc_Reason ou = AbortDaemonRestart)"

definition requeues :: "Transition list \<Rightarrow> nat" where
  "requeues ts = length (filter (\<lambda>t. tr_Cause t = CauseOutcomeAbortedRestartRequeue) ts)"

text \<open>An attempt needs an approval, or a trusted requester and a small triage.\<close>

definition cleared :: "Case \<Rightarrow> bool" where
  "cleared c = (cs_approvals c \<noteq> [] \<or>
     (rq_Trust (cs_requester c) = Trusted \<and> (\<exists>t. cs_triage c = Some t \<and> tg_Size t = Small)))"

definition attempts_ok :: "Case \<Rightarrow> bool" where
  "attempts_ok c = (numbered at_Ordinal (cs_attempts c) \<and> only_last Attempt_Open (cs_attempts c) \<and>
     (cs_state c = Attempting \<longrightarrow> list_ex Attempt_Open (cs_attempts c)) \<and>
     (list_ex Attempt_Open (cs_attempts c) \<longrightarrow> cs_state c = Attempting \<or> cs_state c = Closed))"

definition states_ok :: "Case \<Rightarrow> bool" where
  "states_ok c = (cs_state c \<in> set AllCaseStates \<and>
     ((cs_state c = Closed) = (cs_closure c \<noteq> None)) \<and>
     (cs_state c = Received \<longrightarrow> cs_triage c = None \<and> cs_attempts c = []) \<and>
     (cs_state c = Gated \<longrightarrow> cs_triage c = None \<and> cs_attempts c = [] \<and> cs_approvals c = []))"

definition trust_ok :: "Case \<Rightarrow> bool" where
  "trust_ok c = ((cs_state c = Received \<longrightarrow> rq_Trust (cs_requester c) = Trusted) \<and>
     (cs_state c = Gated \<longrightarrow> rq_Trust (cs_requester c) \<noteq> Trusted) \<and>
     (cs_triage c \<noteq> None \<longrightarrow> rq_Trust (cs_requester c) = Trusted) \<and>
     (cs_state c \<in> {Queued, Attempting, Failed, Done} \<or> cs_attempts c \<noteq> [] \<longrightarrow> cleared c))"

definition restart_ok :: "Case \<Rightarrow> bool" where
  "restart_ok c = (requeues (cs_transitions c) \<le> (if list_ex restart_abort (cs_attempts c) then 1 else 0))"

definition identity_ok :: "Case \<Rightarrow> bool" where
  "identity_ok c = (cs_repository c \<noteq> '''' \<and> 1 \<le> cs_number c \<and> rq_Login (cs_requester c) \<noteq> '''')"

definition case_inv :: "Case \<Rightarrow> bool" where
  "case_inv c = (attempts_ok c \<and> states_ok c \<and> trust_ok c \<and> restart_ok c \<and> identity_ok c)"

subsection \<open>One command\<close>

lemma Case_move_fields [simp]:
  "cs_id (Case_move c s k t) = cs_id c"
  "cs_repository (Case_move c s k t) = cs_repository c"
  "cs_number (Case_move c s k t) = cs_number c"
  "cs_requester (Case_move c s k t) = cs_requester c"
  "cs_receivedAt (Case_move c s k t) = cs_receivedAt c"
  "cs_state (Case_move c s k t) = s"
  "cs_triage (Case_move c s k t) = cs_triage c"
  "cs_approvals (Case_move c s k t) = cs_approvals c"
  "cs_attempts (Case_move c s k t) = cs_attempts c"
  "cs_closure (Case_move c s k t) = cs_closure c"
  "cs_transitions (Case_move c s k t) = cs_transitions c @
     [\<lparr>tr_From = cs_state c, tr_To = s, tr_Cause = k, tr_OccurredAt = t\<rparr>]"
  by (simp_all add: Case_move_def Let_def)

lemma requeues_snoc [simp]:
  "requeues [] = 0"
  "requeues (ts @ [t]) = requeues ts + (if tr_Cause t = CauseOutcomeAbortedRestartRequeue then 1 else 0)"
  by (simp_all add: requeues_def)

lemma restartedBefore_eq:
  assumes "numbered at_Ordinal (as @ [a])" "cs_attempts c = as @ [a]"
  shows "Case_restartedBefore c (at_Ordinal a) = list_ex restart_abort as"
  using numbered_less [OF assms(1)] assms(2)
  by (auto simp: Case_restartedBefore_def list_ex_iff list_all_iff restart_abort_def)

lemma target_Inr:
  assumes "only_last Attempt_Open (cs_attempts c)" "Case_target c i = Inr j"
  obtains as a where "cs_attempts c = as @ [a]" "at_Outcome a = None" "j = length as"
    "list_all (\<lambda>x. \<not> Attempt_Open x) as"
proof -
  from assms(2) have "first_index Attempt_Open (cs_attempts c) = Some j"
    by (auto simp: Case_target_def Case_openAttempt_def Let_def split: option.splits if_splits)
  with assms(1) that show thesis
    by (elim first_index_only_last) (auto simp: Attempt_Open_def)
qed

lemmas inv_defs = case_inv_def attempts_ok_def states_ok_def trust_ok_def restart_ok_def
  identity_ok_def cleared_def

lemma list_ex_open_append:
  "list_all (\<lambda>x. \<not> Attempt_Open x) as \<Longrightarrow>
     list_ex Attempt_Open (as @ [a]) = Attempt_Open a"
  by (auto simp: list_ex_iff list_all_iff)

lemma case_invD:
  assumes "case_inv c"
  shows inv_numbered: "numbered at_Ordinal (cs_attempts c)"
    and inv_only_last: "only_last Attempt_Open (cs_attempts c)"
    and inv_attempting: "cs_state c = Attempting \<Longrightarrow> list_ex Attempt_Open (cs_attempts c)"
    and inv_open: "list_ex Attempt_Open (cs_attempts c) \<Longrightarrow> cs_state c \<in> {Attempting, Closed}"
    and inv_vocab: "cs_state c \<in> set AllCaseStates"
    and inv_closed: "cs_state c = Closed \<longleftrightarrow> cs_closure c \<noteq> None"
    and inv_cleared: "cs_state c \<in> {Queued, Attempting, Failed, Done} \<or> cs_attempts c \<noteq> [] \<Longrightarrow> cleared c"
    and inv_restart: "restart_ok c"
    and inv_identity: "identity_ok c"
  using assms unfolding case_inv_def attempts_ok_def states_ok_def trust_ok_def by blast+

lemma case_inv_id [simp]: "case_inv (c\<lparr>cs_id := i\<rparr>) = case_inv c"
  by (simp add: inv_defs)

lemma case_inv_changes [simp]: "case_inv (c\<lparr>cs_changes := x\<rparr>) = case_inv c"
  by (simp add: inv_defs)

lemma AssignID_inv: "case_inv c \<Longrightarrow> case_inv (fst (Case_AssignID c i))"
  by (simp add: Case_AssignID_def)

lemma ClearChanges_inv: "case_inv c \<Longrightarrow> case_inv (Case_ClearChanges c)"
  by (simp add: Case_ClearChanges_def)

lemma RecordTriage_ok:
  "Case_RecordTriage c t = (c', None) \<longleftrightarrow>
     tg_Size t \<in> {Small, Large} \<and> tg_Rationale t \<noteq> '''' \<and> tg_Model t \<noteq> '''' \<and>
     cs_state c = Received \<and> cs_triage c = None \<and>
     c' = Case_move (c\<lparr>cs_triage := Some t, cs_changes := (cs_changes c)\<lparr>ch_Triage := Some t\<rparr>\<rparr>)
            (if tg_Size t = Small then Queued else AwaitingApproval)
            (if tg_Size t = Small then CauseTriageSmall else CauseTriageLarge) (tg_TriagedAt t)"
  by (cases "tg_Size t") (auto simp: Case_RecordTriage_def Let_def)

lemma RecordTriage_err: "Case_RecordTriage c t = (c', Some e) \<Longrightarrow> c' = c"
  by (auto simp: Case_RecordTriage_def Let_def split: sum.splits if_splits)

lemma RecordTriage_inv:
  assumes "case_inv c" shows "case_inv (fst (Case_RecordTriage c t))"
proof (cases "Case_RecordTriage c t")
  case (Pair c' e)
  show ?thesis
  proof (cases e)
    case None
    with Pair have ok: "Case_RecordTriage c t = (c', None)" by simp
    have st: "cs_state c = Received" using ok by (simp only: RecordTriage_ok)
    have at: "cs_attempts c = []" "rq_Trust (cs_requester c) = Trusted" "cs_closure c = None"
      using assms st by (simp_all add: inv_defs)
    have rs: "requeues (cs_transitions c) = 0" "cs_repository c \<noteq> ''''" "1 \<le> cs_number c"
      "rq_Login (cs_requester c) \<noteq> ''''"
      using assms at by (simp_all add: inv_defs)
    have c': "c' = Case_move (c\<lparr>cs_triage := Some t, cs_changes := (cs_changes c)\<lparr>ch_Triage := Some t\<rparr>\<rparr>)
            (if tg_Size t = Small then Queued else AwaitingApproval)
            (if tg_Size t = Small then CauseTriageSmall else CauseTriageLarge) (tg_TriagedAt t)"
      using ok by (simp only: RecordTriage_ok)
    show ?thesis
      by (cases "tg_Size t = Small") (simp_all add: Pair c' inv_defs AllCaseStates_def at rs)
  next
    case (Some x)
    with Pair assms show ?thesis by (auto dest: RecordTriage_err)
  qed
qed

lemma RecordApproval_ok:
  "Case_RecordApproval c a = (c', None) \<longleftrightarrow>
     rq_Login (ap_Approver a) \<noteq> '''' \<and> ap_Source a \<in> set AllApprovalSources \<and>
     (ap_Source a = SourceLabel) = (ap_DeliveryID a \<noteq> '''') \<and> \<not> CaseState_Terminal (cs_state c) \<and>
     (let c1 = c\<lparr>cs_approvals := cs_approvals c @ [a],
                 cs_changes := (cs_changes c)\<lparr>ch_Approvals := ch_Approvals (cs_changes c) @ [a]\<rparr>\<rparr>
      in c' = (if cs_state c \<in> {Gated, AwaitingApproval, Failed}
               then Case_move c1 Queued CauseApproval (ap_ApprovedAt a) else c1))"
  by (cases "ap_Source a")
     (auto simp: Case_RecordApproval_def Let_def AllApprovalSources_def)

lemma RecordApproval_err: "Case_RecordApproval c a = (c', Some e) \<Longrightarrow> c' = c"
  by (auto simp: Case_RecordApproval_def Let_def split: sum.splits if_splits)

lemma RecordApproval_inv:
  assumes "case_inv c" shows "case_inv (fst (Case_RecordApproval c a))"
proof (cases "Case_RecordApproval c a")
  case (Pair c' e)
  show ?thesis
  proof (cases e)
    case None
    with Pair have ok: "Case_RecordApproval c a = (c', None)" by simp
    have st: "cs_state c \<noteq> Closed"
      using ok by (simp add: RecordApproval_ok CaseState_Terminal_def)
    have cl: "cs_closure c = None" using inv_closed [OF assms] st by blast
    show ?thesis
    proof (cases "cs_state c \<in> {Gated, AwaitingApproval, Failed}")
      case True
      then have "\<not> list_ex Attempt_Open (cs_attempts c)" using inv_open [OF assms] by auto
      moreover have c': "c' = Case_move (c\<lparr>cs_approvals := cs_approvals c @ [a],
          cs_changes := (cs_changes c)\<lparr>ch_Approvals := ch_Approvals (cs_changes c) @ [a]\<rparr>\<rparr>)
          Queued CauseApproval (ap_ApprovedAt a)"
        using ok True by (simp only: RecordApproval_ok Let_def if_True)
      ultimately show ?thesis using assms cl
        by (simp add: Pair c' inv_defs AllCaseStates_def)
    next
      case False
      then have c': "c' = c\<lparr>cs_approvals := cs_approvals c @ [a],
          cs_changes := (cs_changes c)\<lparr>ch_Approvals := ch_Approvals (cs_changes c) @ [a]\<rparr>\<rparr>"
        using ok by (simp only: RecordApproval_ok Let_def if_False)
      have "attempts_ok c' = attempts_ok c" "restart_ok c' = restart_ok c"
        "identity_ok c' = identity_ok c"
        by (simp_all add: c' attempts_ok_def restart_ok_def identity_ok_def)
      moreover have "states_ok c' = states_ok c" using False by (simp add: c' states_ok_def)
      moreover have "trust_ok c \<Longrightarrow> trust_ok c'" by (simp add: c' trust_ok_def cleared_def)
      ultimately show ?thesis using assms by (simp add: Pair case_inv_def)
    qed
  next
    case (Some x)
    with Pair assms show ?thesis by (auto dest: RecordApproval_err)
  qed
qed

lemma StartAttempt_ok:
  "Case_StartAttempt c k b br t = (c', Inr a) \<longleftrightarrow>
     k \<in> set AllAttemptKinds \<and> bg_maxTurns b \<noteq> 0 \<and> br \<noteq> '''' \<and> cs_state c = Queued \<and>
     Case_openAttempt c = None \<and>
     a = \<lparr>at_ID = '''', at_Ordinal = length (cs_attempts c) + 1, at_Kind = k, at_Budget = b,
          at_Brief = br, at_StartedAt = t, at_Run = None, at_Outcome = None\<rparr> \<and>
     c' = Case_move (c\<lparr>cs_attempts := cs_attempts c @ [a],
            cs_changes := (cs_changes c)\<lparr>ch_Attempts := ch_Attempts (cs_changes c) @ [a]\<rparr>\<rparr>)
            Attempting CauseAttemptStarted t"
  by (cases k) (auto simp: Case_StartAttempt_def Let_def AllAttemptKinds_def)

lemma StartAttempt_err: "Case_StartAttempt c k b br t = (c', Inl e) \<Longrightarrow> c' = c"
  by (auto simp: Case_StartAttempt_def Let_def split: sum.splits if_splits)

lemma StartAttempt_inv:
  assumes "case_inv c" shows "case_inv (fst (Case_StartAttempt c k b br t))"
proof (cases "Case_StartAttempt c k b br t")
  case (Pair c' r)
  show ?thesis
  proof (cases r)
    case (Inl e)
    with Pair assms show ?thesis by (auto dest: StartAttempt_err)
  next
    case (Inr a)
    with Pair have ok: "Case_StartAttempt c k b br t = (c', Inr a)" by simp
    have closed: "list_all (\<lambda>x. \<not> Attempt_Open x) (cs_attempts c)" and st: "cs_state c = Queued"
      and a: "at_Ordinal a = Suc (length (cs_attempts c))" "at_Outcome a = None"
      and c': "c' = Case_move (c\<lparr>cs_attempts := cs_attempts c @ [a],
            cs_changes := (cs_changes c)\<lparr>ch_Attempts := ch_Attempts (cs_changes c) @ [a]\<rparr>\<rparr>)
            Attempting CauseAttemptStarted t"
      using ok by (simp_all add: StartAttempt_ok Case_openAttempt_def first_index_None)
    have cl: "cs_closure c = None" "cleared c" using assms st by (simp_all add: inv_defs)
    have "restart_abort a = False" using a by (simp add: restart_abort_def)
    with a closed st cl assms show ?thesis
      by (simp add: Pair c' inv_defs AllCaseStates_def Attempt_Open_def)
  qed
qed

lemma RecordRun_ok:
  assumes "only_last Attempt_Open (cs_attempts c)" "Case_RecordRun c i r = (c', None)"
  obtains as a where "cs_attempts c = as @ [a]" "at_Outcome a = None" "at_Run a = None"
    "list_all (\<lambda>x. \<not> Attempt_Open x) as" "shaRe (rn_BaseSha r)"
    "c' = c\<lparr>cs_attempts := as @ [a\<lparr>at_Run := Some r\<rparr>],
            cs_changes := (cs_changes c)
              \<lparr>ch_Runs := (ch_Runs (cs_changes c))(at_Ordinal a \<mapsto> r)\<rparr>\<rparr>"
proof -
  from assms(2) obtain j where j: "Case_target c i = Inr j" "shaRe (rn_BaseSha r)"
      "at_Run (cs_attempts c ! j) = None"
      "c' = c\<lparr>cs_attempts := (cs_attempts c)[j := (cs_attempts c ! j)\<lparr>at_Run := Some r\<rparr>],
            cs_changes := (cs_changes c)\<lparr>ch_Runs :=
              (ch_Runs (cs_changes c))(at_Ordinal (cs_attempts c ! j) \<mapsto> r)\<rparr>\<rparr>"
    by (auto simp: Case_RecordRun_def Let_def split: if_splits sum.splits)
  show thesis
    by (rule target_Inr [OF assms(1) j(1)], rule that) (use j in auto)
qed

lemma RecordRun_err: "Case_RecordRun c i r = (c', Some e) \<Longrightarrow> c' = c"
  by (auto simp: Case_RecordRun_def Let_def split: sum.splits if_splits)

lemma RecordRun_inv:
  assumes "case_inv c" shows "case_inv (fst (Case_RecordRun c i r))"
proof (cases "Case_RecordRun c i r")
  case (Pair c' e)
  show ?thesis
  proof (cases e)
    case None
    from inv_only_last [OF assms] None Pair obtain as a where as: "cs_attempts c = as @ [a]" "at_Outcome a = None"
        "list_all (\<lambda>x. \<not> Attempt_Open x) as"
      and c': "c' = c\<lparr>cs_attempts := as @ [a\<lparr>at_Run := Some r\<rparr>],
            cs_changes := (cs_changes c)
              \<lparr>ch_Runs := (ch_Runs (cs_changes c))(at_Ordinal a \<mapsto> r)\<rparr>\<rparr>"
      by (auto elim: RecordRun_ok)
    have "Attempt_Open (a\<lparr>at_Run := Some r\<rparr>) = Attempt_Open a"
      "restart_abort (a\<lparr>at_Run := Some r\<rparr>) = restart_abort a"
      by (simp_all add: Attempt_Open_def restart_abort_def)
    then have "attempts_ok c' = attempts_ok c" "states_ok c' = states_ok c"
      "restart_ok c' = restart_ok c" "identity_ok c' = identity_ok c" "trust_ok c' = trust_ok c"
      using as(1) by (simp_all add: c' attempts_ok_def states_ok_def restart_ok_def identity_ok_def
          trust_ok_def cleared_def)
    with assms show ?thesis by (simp add: Pair case_inv_def)
  next
    case (Some x)
    with Pair assms show ?thesis by (auto dest: RecordRun_err)
  qed
qed

lemma Close_ok:
  "Case_Close c cl = (c', None) \<longleftrightarrow>
     cl_DeliveryID cl \<noteq> '''' \<and> \<not> CaseState_Terminal (cs_state c) \<and>
     c' = Case_move (c\<lparr>cs_closure := Some cl,
             cs_changes := (cs_changes c)\<lparr>ch_Closure := Some cl\<rparr>\<rparr>) Closed CauseClosed (cl_ClosedAt cl)"
  by (auto simp: Case_Close_def Let_def)

lemma Close_err: "Case_Close c cl = (c', Some e) \<Longrightarrow> c' = c"
  by (auto simp: Case_Close_def Let_def split: if_splits)

lemma Close_inv:
  assumes "case_inv c" shows "case_inv (fst (Case_Close c cl))"
proof (cases "Case_Close c cl")
  case (Pair c' e)
  show ?thesis
  proof (cases e)
    case None
    with Pair have c': "c' = Case_move (c\<lparr>cs_closure := Some cl,
             cs_changes := (cs_changes c)\<lparr>ch_Closure := Some cl\<rparr>\<rparr>) Closed CauseClosed (cl_ClosedAt cl)"
      by (simp add: Close_ok)
    have "attempts_ok c \<Longrightarrow> attempts_ok c'" "states_ok c \<Longrightarrow> states_ok c'"
      "restart_ok c \<Longrightarrow> restart_ok c'" "identity_ok c \<Longrightarrow> identity_ok c'"
      by (simp_all add: c' attempts_ok_def states_ok_def AllCaseStates_def restart_ok_def identity_ok_def)
    moreover have "trust_ok c \<Longrightarrow> trust_ok c'" by (simp add: c' trust_ok_def cleared_def)
    ultimately show ?thesis using assms by (simp add: Pair case_inv_def)
  next
    case (Some x)
    with Pair assms show ?thesis by (auto dest: Close_err)
  qed
qed

text \<open>
  A successful \<^verbatim>\<open>RecordOutcome\<close>: the open attempt, the last one, gets the outcome and the
  case moves along the edge the outcome names, or stays \<open>Closed\<close>.
\<close>

lemma RecordOutcome_ok:
  assumes "only_last Attempt_Open (cs_attempts c)" "Case_RecordOutcome c i ou = (c', None)"
  obtains as a moves c1 where "cs_attempts c = as @ [a]" "at_Outcome a = None"
    "list_all (\<lambda>x. \<not> Attempt_Open x) as" "oc_Kind ou \<in> set AllOutcomeKinds" "oc_Summary ou \<noteq> ''''"
    "outcome_transition c (at_Ordinal a) ou = Inr moves"
    "c1 = c\<lparr>cs_attempts := as @ [a\<lparr>at_Outcome := Some ou\<rparr>],
            cs_changes := (cs_changes c)
              \<lparr>ch_Outcomes := (ch_Outcomes (cs_changes c))(at_Ordinal a \<mapsto> ou)\<rparr>\<rparr>"
    "c' = (case moves of None \<Rightarrow> c1 | Some (s, k) \<Rightarrow> Case_move c1 s k (oc_EndedAt ou))"
proof -
  from assms(2) obtain j moves where j: "Case_target c i = Inr j"
      "outcome_transition c (at_Ordinal (cs_attempts c ! j)) ou = Inr moves"
      "oc_Kind ou \<in> set AllOutcomeKinds" "oc_Summary ou \<noteq> ''''"
      "c' = (let c1 = c\<lparr>cs_attempts := (cs_attempts c)[j := (cs_attempts c ! j)\<lparr>at_Outcome := Some ou\<rparr>],
              cs_changes := (cs_changes c)\<lparr>ch_Outcomes :=
                (ch_Outcomes (cs_changes c))(at_Ordinal (cs_attempts c ! j) \<mapsto> ou)\<rparr>\<rparr>
             in case moves of None \<Rightarrow> c1 | Some (s, k) \<Rightarrow> Case_move c1 s k (oc_EndedAt ou))"
    by (auto simp: Case_RecordOutcome_def Let_def ParseOutcomeKind_Inr split: if_splits sum.splits option.splits)
  show thesis
    by (rule target_Inr [OF assms(1) j(1)], rule that) (use j in \<open>auto simp: Let_def\<close>)
qed

lemma RecordOutcome_err: "Case_RecordOutcome c i ou = (c', Some e) \<Longrightarrow> c' = c"
  by (auto simp: Case_RecordOutcome_def Let_def split: sum.splits if_splits option.splits)

lemma outcome_transition_cases:
  assumes "outcome_transition c n ou = Inr moves" "oc_Kind ou \<in> set AllOutcomeKinds"
  obtains (stays) "cs_state c = Closed" "moves = None"
  | (moves) s k where "cs_state c \<noteq> Closed" "moves = Some (s, k)" "case_edge Attempting k s"
      "s \<in> {Done, AwaitingApproval, Failed, Queued}"
      "k = CauseOutcomeAbortedRestartRequeue \<Longrightarrow>
         oc_Kind ou = Aborted \<and> oc_Reason ou = AbortDaemonRestart \<and> \<not> Case_restartedBefore c n"
  using assms
  by (cases "oc_Kind ou"; cases "oc_Reason ou")
     (auto simp: outcome_transition_def Outcome_cause_def AllOutcomeKinds_def case_edge_from
       split: if_splits)

lemma RecordOutcome_inv:
  assumes "case_inv c" shows "case_inv (fst (Case_RecordOutcome c i ou))"
proof (cases "Case_RecordOutcome c i ou")
  case (Pair c' e)
  show ?thesis
  proof (cases e)
    case None
    from inv_only_last [OF assms] None Pair obtain as a moves c1 where
      as: "cs_attempts c = as @ [a]" "at_Outcome a = None" "list_all (\<lambda>x. \<not> Attempt_Open x) as"
      and kind: "oc_Kind ou \<in> set AllOutcomeKinds"
      and tr: "outcome_transition c (at_Ordinal a) ou = Inr moves"
      and c1: "c1 = c\<lparr>cs_attempts := as @ [a\<lparr>at_Outcome := Some ou\<rparr>],
            cs_changes := (cs_changes c)
              \<lparr>ch_Outcomes := (ch_Outcomes (cs_changes c))(at_Ordinal a \<mapsto> ou)\<rparr>\<rparr>"
      and c': "c' = (case moves of None \<Rightarrow> c1 | Some (s, k) \<Rightarrow> Case_move c1 s k (oc_EndedAt ou))"
      by (auto elim: RecordOutcome_ok)
    have num: "numbered at_Ordinal (as @ [a])" using inv_numbered [OF assms] as by simp
    have open_a: "list_ex Attempt_Open (cs_attempts c)" using as by (simp add: Attempt_Open_def)
    have no_open: "\<not> list_ex Attempt_Open (cs_attempts c1)"
      using as by (auto simp: c1 Attempt_Open_def list_ex_iff list_all_iff)
    have cl: "cleared c" using inv_cleared [OF assms] as by simp
    have restart: "requeues (cs_transitions c) \<le> (if list_ex restart_abort as then 1 else 0)"
      using inv_restart [OF assms] as by (simp add: restart_ok_def restart_abort_def)
    have att: "numbered at_Ordinal (cs_attempts c1)" "only_last Attempt_Open (cs_attempts c1)"
      using num as by (simp_all add: c1)
    have idn: "identity_ok c'"
      using inv_identity [OF assms] by (simp add: c' c1 identity_ok_def split: option.splits)
    from tr kind show ?thesis
    proof (cases rule: outcome_transition_cases)
      case stays
      have "attempts_ok c'" "states_ok c' = states_ok c"
        using no_open att stays by (simp_all add: c' attempts_ok_def states_ok_def c1)
      moreover have "restart_ok c'"
        using restart stays by (auto simp: c' c1 restart_ok_def split: if_splits)
      moreover have "trust_ok c \<Longrightarrow> trust_ok c'" using cl stays by (simp add: c' c1 trust_ok_def cleared_def)
      ultimately show ?thesis using assms idn by (simp add: Pair case_inv_def)
    next
      case (moves s k)
      have "attempts_ok c'" using no_open att moves by (auto simp: c' attempts_ok_def)
      moreover have "states_ok c'" using moves inv_closed [OF assms]
        by (auto simp: c' states_ok_def AllCaseStates_def c1)
      moreover have "trust_ok c \<Longrightarrow> trust_ok c'" using cl moves by (auto simp: c' c1 trust_ok_def cleared_def)
      moreover have "restart_ok c'"
        using restart moves restartedBefore_eq [OF num as(1)]
        by (auto simp: c' c1 restart_ok_def restart_abort_def split: if_splits)
      ultimately show ?thesis using assms idn by (simp add: Pair case_inv_def)
    qed
  next
    case (Some x)
    with Pair assms show ?thesis by (auto dest: RecordOutcome_err)
  qed
qed

subsection \<open>Any sequence of commands\<close>

lemma case_exec_inv: "case_inv c \<Longrightarrow> case_inv (fst (case_exec c x))"
proof (cases x)
  case (CmdStart k b br t)
  moreover assume "case_inv c"
  ultimately show ?thesis using StartAttempt_inv [of c k b br t]
    by (auto split: prod.splits sum.splits)
qed (simp_all add: AssignID_inv RecordTriage_inv RecordApproval_inv RecordRun_inv
    RecordOutcome_inv Close_inv ClearChanges_inv)

lemma case_exec_err: "case_exec c x = (c', Some e) \<Longrightarrow> c' = c"
  by (cases x) (auto dest: RecordTriage_err RecordApproval_err RecordRun_err RecordOutcome_err
      Close_err StartAttempt_err simp: Case_AssignID_def split: if_splits prod.splits sum.splits)

lemma NewCase_inv: "NewCase r n q t = Inr c \<Longrightarrow> case_inv c \<and> cs_transitions c = []"
  by (auto simp: NewCase_def inv_defs AllCaseStates_def Let_def split: if_splits)

definition logged_step :: "Case \<Rightarrow> Case \<Rightarrow> bool" where
  "logged_step c c' = ((cs_state c' = cs_state c \<and> cs_transitions c' = cs_transitions c) \<or>
     (\<exists>t. cs_transitions c' = cs_transitions c @ [t] \<and> tr_From t = cs_state c \<and>
        tr_To t = cs_state c' \<and> case_edge (tr_From t) (tr_Cause t) (tr_To t)))"

lemma logged_step_move:
  "cs_state c1 = cs_state c \<Longrightarrow> cs_transitions c1 = cs_transitions c \<Longrightarrow>
     case_edge (cs_state c) k s \<Longrightarrow> logged_step c (Case_move c1 s k t)"
  by (simp add: logged_step_def)

lemma logged_step_same [simp]:
  "cs_state c1 = cs_state c \<Longrightarrow> cs_transitions c1 = cs_transitions c \<Longrightarrow> logged_step c c1"
  by (simp add: logged_step_def)

lemma case_exec_logged:
  assumes inv: "case_inv c" and ok: "case_exec c x = (c', None)"
  shows "logged_step c c'"
proof (cases x)
  case (CmdTriage t)
  with ok show ?thesis
    by (cases "tg_Size t = Small")
       (auto simp: RecordTriage_ok case_edge_from intro!: logged_step_move)
next
  case (CmdApproval a)
  with ok show ?thesis
    by (auto simp: RecordApproval_ok case_edge_from Let_def intro!: logged_step_move split: if_splits)
next
  case (CmdStart k b br t)
  with ok show ?thesis
    by (auto simp: StartAttempt_ok case_edge_from intro!: logged_step_move split: prod.splits sum.splits)
next
  case (CmdRun i r)
  with ok RecordRun_ok [OF inv_only_last [OF inv], of i r c'] show ?thesis by fastforce
next
  case (CmdOutcome i ou)
  with ok have "Case_RecordOutcome c i ou = (c', None)" by simp
  then obtain as a moves c1 where
    as: "cs_attempts c = as @ [a]" "at_Outcome a = None"
    and kind: "oc_Kind ou \<in> set AllOutcomeKinds"
    and tr: "outcome_transition c (at_Ordinal a) ou = Inr moves"
    and c1: "cs_state c1 = cs_state c" "cs_transitions c1 = cs_transitions c"
    and c': "c' = (case moves of None \<Rightarrow> c1 | Some (s, k) \<Rightarrow> Case_move c1 s k (oc_EndedAt ou))"
    by (rule RecordOutcome_ok [OF inv_only_last [OF inv]]) (rule that; (assumption | simp))
  have "cs_state c \<in> {Attempting, Closed}"
    using inv_open [OF inv] as by (simp add: Attempt_Open_def)
  with tr kind c1 show ?thesis
    by (cases rule: outcome_transition_cases) (auto simp: c' intro!: logged_step_move)
next
  case (CmdClose cl)
  with ok have "\<not> CaseState_Terminal (cs_state c)" by (simp add: Close_ok)
  with inv_vocab [OF inv] CmdClose ok show ?thesis
    by (auto simp: Close_ok case_edge_from AllCaseStates_def CaseState_Terminal_def
        intro!: logged_step_move)
qed (use ok in \<open>auto simp: Case_AssignID_def Case_ClearChanges_def split: if_splits\<close>)

interpretation case_machine: logged_machine
  "\<lambda>c x. fst (case_exec c x)" cs_state cs_transitions tr_From tr_To
  "\<lambda>t. case_edge (tr_From t) (tr_Cause t) (tr_To t)" case_inv
proof
  fix c x assume inv: "case_inv c"
  then show "case_inv (fst (case_exec c x))" by (rule case_exec_inv)
  obtain c' e where r: "case_exec c x = (c', e)" by (cases "case_exec c x")
  have "logged_step c c'"
    using case_exec_logged [OF inv] r case_exec_err [of c x c'] by (cases e) auto
  with r show "(cs_state (fst (case_exec c x)) = cs_state c \<and>
      cs_transitions (fst (case_exec c x)) = cs_transitions c) \<or>
    (\<exists>t. cs_transitions (fst (case_exec c x)) = cs_transitions c @ [t] \<and> tr_From t = cs_state c \<and>
      tr_To t = cs_state (fst (case_exec c x)) \<and> case_edge (tr_From t) (tr_Cause t) (tr_To t))"
    by (simp add: logged_step_def)
qed

lemma case_run_inv: "NewCase r n q t = Inr c \<Longrightarrow> case_inv (case_run c xs)"
  unfolding case_run_def using NewCase_inv case_machine.run_inv by blast

subsection \<open>A concrete case\<close>

text \<open>Inputs the witnesses below apply the properties at.\<close>

definition demo_rq :: "Trust \<Rightarrow> Requester" where
  "demo_rq tr = \<lparr>rq_Login = ''alice'',
     rq_Association = (if tr = Trusted then AssociationOwner else AssociationNone), rq_Trust = tr\<rparr>"

definition demo_case :: "Trust \<Rightarrow> Case" where
  "demo_case tr = \<lparr>cs_id = '''', cs_repository = ''o/r'', cs_number = 7, cs_requester = demo_rq tr,
     cs_state = (if tr = Trusted then Received else Gated), cs_receivedAt = 0, cs_triage = None,
     cs_approvals = [], cs_attempts = [], cs_transitions = [], cs_closure = None,
     cs_changes = no_changes (if tr = Trusted then Received else Gated)\<rparr>"

lemma demo_new: "NewCase ''o/r'' 7 (demo_rq tr) 0 = Inr (demo_case tr)"
  by (simp add: NewCase_def demo_case_def demo_rq_def Let_def)

definition demo_usage :: Usage where
  "demo_usage = \<lparr>us_Turns = 3, us_InputTokens = 10, us_OutputTokens = 5, us_WallClock = 60, us_DiffLines = 2\<rparr>"

definition demo_budget :: Budget where
  "demo_budget = \<lparr>bg_maxTurns = 40, bg_maxWallClock = 1800000000000, bg_maxDiffLines = 400\<rparr>"

definition demo_triage :: "Size \<Rightarrow> case_cmd" where
  "demo_triage s = CmdTriage \<lparr>tg_Size = s, tg_Rationale = ''r'', tg_Model = ''m'', tg_TriagedAt = 1\<rparr>"

definition demo_start :: case_cmd where
  "demo_start = CmdStart Auto demo_budget ''brief'' 2"

definition demo_outcome :: "OutcomeKind \<Rightarrow> AbortReason \<Rightarrow> case_cmd" where
  "demo_outcome k r = CmdOutcome '''' ((zero_outcome k 3 demo_usage ''s'')\<lparr>oc_Reason := r\<rparr>)"

fun demo_cmd :: "TransitionCause \<Rightarrow> case_cmd" where
  "demo_cmd CauseTriageSmall = demo_triage Small"
| "demo_cmd CauseTriageLarge = demo_triage Large"
| "demo_cmd CauseApproval = CmdApproval \<lparr>ap_ID = '''', ap_Approver = demo_rq Trusted,
     ap_Source = SourceOperator, ap_ApprovedAt = 4, ap_DeliveryID = ''''\<rparr>"
| "demo_cmd CauseAttemptStarted = demo_start"
| "demo_cmd CauseOutcomePullRequestOpened = demo_outcome PullRequestOpened (AbortReason_other '''')"
| "demo_cmd CauseOutcomeBudgetExhausted = demo_outcome BudgetExhausted (AbortReason_other '''')"
| "demo_cmd CauseOutcomeFailed = demo_outcome FailedOutcome (AbortReason_other '''')"
| "demo_cmd CauseOutcomeAbortedOperatorStop = demo_outcome Aborted AbortOperatorStop"
| "demo_cmd CauseOutcomeAbortedRestartRequeue = demo_outcome Aborted AbortDaemonRestart"
| "demo_cmd CauseOutcomeAbortedRestartFailed = demo_outcome Aborted AbortDaemonRestart"
| "demo_cmd _ = CmdClose \<lparr>cl_DeliveryID = ''d'', cl_ClosedAt = 5\<rparr>"

fun demo_path :: "CaseState \<Rightarrow> TransitionCause \<Rightarrow> Trust \<times> case_cmd list" where
  "demo_path Gated _ = (Untrusted, [])"
| "demo_path Queued _ = (Trusted, [demo_triage Small])"
| "demo_path AwaitingApproval _ = (Trusted, [demo_triage Large])"
| "demo_path Failed _ = (Trusted, [demo_triage Small, demo_start, demo_cmd CauseOutcomeFailed])"
| "demo_path Attempting CauseOutcomeAbortedRestartFailed =
     (Trusted, [demo_triage Small, demo_start, demo_outcome Aborted AbortDaemonRestart, demo_start])"
| "demo_path Attempting _ = (Trusted, [demo_triage Small, demo_start])"
| "demo_path _ _ = (Trusted, [])"

lemmas demo_defs = demo_case_def demo_rq_def demo_triage_def demo_start_def demo_outcome_def
  demo_budget_def demo_usage_def zero_outcome_def case_run_def

lemmas case_eval = Case_RecordTriage_def Case_RecordApproval_def Case_StartAttempt_def
  Case_RecordRun_def Case_RecordOutcome_def Case_Close_def Case_target_def Case_openAttempt_def
  Case_move_def outcome_transition_def Outcome_cause_def Case_restartedBefore_def Attempt_Open_def
  CaseState_Terminal_def no_changes_def Let_def

definition edge_taken :: "CaseState \<Rightarrow> TransitionCause \<Rightarrow> CaseState \<Rightarrow> bool" where
  "edge_taken s k s' =
     (cs_state (case_run (demo_case (fst (demo_path s k))) (snd (demo_path s k))) = s \<and>
      snd (case_exec (case_run (demo_case (fst (demo_path s k))) (snd (demo_path s k))) (demo_cmd k)) = None \<and>
      cs_state (fst (case_exec (case_run (demo_case (fst (demo_path s k))) (snd (demo_path s k))) (demo_cmd k))) = s' \<and>
      tr_Cause (last (cs_transitions (fst (case_exec
        (case_run (demo_case (fst (demo_path s k))) (snd (demo_path s k))) (demo_cmd k))))) = k)"

definition drawn_edges :: "(CaseState \<times> TransitionCause \<times> CaseState) list" where
  "drawn_edges = [(Received, CauseTriageSmall, Queued), (Received, CauseTriageLarge, AwaitingApproval),
    (Gated, CauseApproval, Queued), (AwaitingApproval, CauseApproval, Queued),
    (Failed, CauseApproval, Queued), (Queued, CauseAttemptStarted, Attempting),
    (Attempting, CauseOutcomePullRequestOpened, Done),
    (Attempting, CauseOutcomeBudgetExhausted, AwaitingApproval),
    (Attempting, CauseOutcomeAbortedOperatorStop, AwaitingApproval),
    (Attempting, CauseOutcomeFailed, Failed),
    (Attempting, CauseOutcomeAbortedRestartRequeue, Queued),
    (Attempting, CauseOutcomeAbortedRestartFailed, Failed)] @
    map (\<lambda>s. (s, CauseClosed, Closed)) [Received, Gated, Queued, AwaitingApproval, Failed, Attempting]"

lemma drawn_edges: "case_edge s k s' \<Longrightarrow> (s, k, s') \<in> set drawn_edges"
  by (induction rule: case_edge.induct) (auto simp: drawn_edges_def)

lemma edges_taken: "list_all (\<lambda>(s, k, s'). edge_taken s k s') drawn_edges"
  by (simp add: drawn_edges_def) (intro conjI; simp add: edge_taken_def demo_defs case_eval)

lemma demo_edge:
  assumes "case_edge s k s'"
  shows "\<exists>tr xs x c'. cs_state (case_run (demo_case tr) xs) = s \<and>
    case_exec (case_run (demo_case tr) xs) x = (c', None) \<and> cs_state c' = s' \<and>
    tr_Cause (last (cs_transitions c')) = k"
proof -
  have "edge_taken s k s'"
    using edges_taken drawn_edges [OF assms] by (auto simp: list_all_iff)
  then show ?thesis
    unfolding edge_taken_def by (metis prod.collapse)
qed

subsection \<open>Properties\<close>

text \<open>C1. Refinement of the documented state diagram: whatever sequence of commands a new case
  receives, accepted or refused, its transition log is a connected path from its first state
  to its current one, and every logged transition is an edge of the diagram with the cause
  the diagram labels it with.\<close>
theorem case_log_follows_diagram:
  assumes "NewCase r n q t = Inr c0"
  shows "chain tr_From tr_To (cs_state c0) (cs_transitions (case_run c0 xs)) (cs_state (case_run c0 xs)) \<and>
    list_all (\<lambda>tr. case_edge (tr_From tr) (tr_Cause tr) (tr_To tr)) (cs_transitions (case_run c0 xs))"
  using NewCase_inv [OF assms] unfolding case_run_def by (intro case_machine.run_path) simp_all

theorem case_log_follows_diagram_witness:
  "list_all (\<lambda>tr. case_edge (tr_From tr) (tr_Cause tr) (tr_To tr))
     (cs_transitions (case_run (demo_case Trusted) [demo_triage Small, demo_start]))"
  by (rule conjunct2 [OF case_log_follows_diagram [OF demo_new]])

text \<open>Completeness of the aggregate against the diagram: every drawn edge can be taken, by a
  command the aggregate accepts on a case that was created and driven to the edge's source.\<close>
theorem case_diagram_realised:
  assumes "case_edge s k s'"
  shows "\<exists>r n q t c0 xs x c'. NewCase r n q t = Inr c0 \<and> cs_state (case_run c0 xs) = s \<and>
    case_exec (case_run c0 xs) x = (c', None) \<and> cs_state c' = s' \<and>
    tr_Cause (last (cs_transitions c')) = k"
  using demo_edge [OF assms] demo_new by blast

theorem case_diagram_realised_witness:
  "\<exists>r n q t c0 xs x c'. NewCase r n q t = Inr c0 \<and> cs_state (case_run c0 xs) = Attempting \<and>
    case_exec (case_run c0 xs) x = (c', None) \<and> cs_state c' = Failed \<and>
    tr_Cause (last (cs_transitions c')) = CauseOutcomeAbortedRestartFailed"
  by (rule case_diagram_realised [OF restart_second])

text \<open>A command the aggregate refuses or calls invalid leaves it exactly as it found it, the
  pending changes included, so a refusal never ships a fact to the store.\<close>
theorem case_refusal_changes_nothing:
  assumes "case_exec c x = (c', Some e)"
  shows "c' = c"
  using assms by (rule case_exec_err)

theorem case_refusal_changes_nothing_witness:
  "fst (case_exec (demo_case Trusted) (demo_outcome Aborted AbortIssueClosed)) = demo_case Trusted"
proof -
  have "case_exec (demo_case Trusted) (demo_outcome Aborted AbortIssueClosed) =
      (demo_case Trusted, Some (Refused ''no open attempt''))"
    by (simp add: demo_defs case_eval)
  from case_refusal_changes_nothing [OF this] this show ?thesis by simp
qed

text \<open>C22. The aggregate invariant. After any sequence of commands on a new case its attempts are
  numbered 1 to n, only the last can be without an outcome, one is open while the case is
  Attempting and none is open in any state but Attempting and Closed, and the case has a
  closure exactly when it is Closed.\<close>
theorem case_invariant:
  assumes "NewCase r n q t = Inr c0" "c = case_run c0 xs"
  shows "map at_Ordinal (cs_attempts c) = [1..<Suc (length (cs_attempts c))] \<and>
    list_all (\<lambda>a. \<not> Attempt_Open a) (butlast (cs_attempts c)) \<and>
    (cs_state c = Attempting \<longrightarrow> list_ex Attempt_Open (cs_attempts c)) \<and>
    (list_ex Attempt_Open (cs_attempts c) \<longrightarrow> cs_state c \<in> {Attempting, Closed}) \<and>
    (cs_state c = Closed \<longleftrightarrow> cs_closure c \<noteq> None)"
proof -
  have "case_inv c" using case_run_inv [OF assms(1)] assms(2) by simp
  from case_invD [OF this] show ?thesis
    unfolding numbered_def only_last_def by blast
qed

theorem case_invariant_witness:
  "map at_Ordinal (cs_attempts (case_run (demo_case Trusted) [demo_triage Small, demo_start])) = [1]"
proof -
  have "length (cs_attempts (case_run (demo_case Trusted) [demo_triage Small, demo_start])) = 1"
    by (simp add: demo_defs case_eval)
  with case_invariant [OF demo_new refl, of Trusted "[demo_triage Small, demo_start]"]
  show ?thesis by simp
qed

text \<open>C2. The trust gate. A case has an attempt, or waits in Queued for one, only if somebody
  approved it, or its requester was trusted and triage sized it small: an untrusted issue
  never reaches the agent without an approval.\<close>
theorem case_trust_gate:
  assumes "NewCase r n q t = Inr c0" "c = case_run c0 xs"
    "cs_attempts c \<noteq> [] \<or> cs_state c = Queued"
  shows "cs_approvals c \<noteq> [] \<or> (rq_Trust (cs_requester c) = Trusted \<and>
    (\<exists>tr. cs_triage c = Some tr \<and> tg_Size tr = Small))"
proof -
  have "case_inv c" using case_run_inv [OF assms(1)] assms(2) by simp
  from inv_cleared [OF this] assms(3) show ?thesis unfolding cleared_def by blast
qed

theorem case_trust_gate_witness:
  "cs_approvals (case_run (demo_case Untrusted) [demo_cmd CauseApproval, demo_start]) \<noteq> []"
proof -
  have "cs_attempts (case_run (demo_case Untrusted) [demo_cmd CauseApproval, demo_start]) \<noteq> []"
    "rq_Trust (cs_requester (case_run (demo_case Untrusted) [demo_cmd CauseApproval, demo_start])) = Untrusted"
    by (simp_all add: demo_defs case_eval)
  with case_trust_gate [OF demo_new refl, of Untrusted "[demo_cmd CauseApproval, demo_start]"]
  show ?thesis by simp
qed

text \<open>A daemon restart requeues a case at most once in its life, however often the daemon
  dies under it and however often it is approved again.\<close>
theorem case_requeued_at_most_once:
  assumes "NewCase r n q t = Inr c0"
  shows "length (filter (\<lambda>tr. tr_Cause tr = CauseOutcomeAbortedRestartRequeue)
    (cs_transitions (case_run c0 xs))) \<le> 1"
  using inv_restart [OF case_run_inv [OF assms, of xs]]
  by (simp add: restart_ok_def requeues_def split: if_splits)

theorem case_requeued_at_most_once_witness:
  "let restart = demo_outcome Aborted AbortDaemonRestart;
       c = case_run (demo_case Trusted) [demo_triage Small, demo_start, restart, demo_start, restart]
   in cs_state c = Failed \<and>
      length (filter (\<lambda>tr. tr_Cause tr = CauseOutcomeAbortedRestartRequeue) (cs_transitions c)) \<le> 1"
  using case_requeued_at_most_once [OF demo_new, of Trusted
      "[demo_triage Small, demo_start, demo_outcome Aborted AbortDaemonRestart, demo_start,
        demo_outcome Aborted AbortDaemonRestart]"]
  by (simp add: demo_defs case_eval)

text \<open>Done and Closed are terminal: once a case is there, no later command changes its state
  or writes another transition.\<close>
theorem case_terminal_stays:
  assumes "NewCase r n q t = Inr c0" "CaseState_Terminal (cs_state (case_run c0 xs))"
  shows "cs_state (case_run c0 (xs @ ys)) = cs_state (case_run c0 xs) \<and>
    cs_transitions (case_run c0 (xs @ ys)) = cs_transitions (case_run c0 xs)"
proof -
  have "tr_From t \<noteq> cs_state (case_run c0 xs)"
    if "case_edge (tr_From t) (tr_Cause t) (tr_To t)" for t
    using that assms(2) by (cases rule: case_edge.cases) (auto simp: CaseState_Terminal_def)
  from case_machine.final_stays [OF case_run_inv [OF assms(1)] this, of ys]
  show ?thesis by (simp add: case_run_def)
qed

theorem case_terminal_stays_witness:
  "cs_state (case_run (demo_case Untrusted) [demo_cmd CauseClosed, demo_cmd CauseApproval]) = Closed"
proof -
  have s: "cs_state (case_run (demo_case Untrusted) [demo_cmd CauseClosed]) = Closed"
    by (simp add: demo_defs case_eval)
  then have "CaseState_Terminal (cs_state (case_run (demo_case Untrusted) [demo_cmd CauseClosed]))"
    by (simp add: CaseState_Terminal_def)
  from case_terminal_stays [OF demo_new this, of "[demo_cmd CauseApproval]"] s show ?thesis by simp
qed

end
