(* ===== verification/StoreCases.thy ===== *)
theory StoreCases
  imports CaseInv "HOL-Library.Multiset"
begin

section \<open>The store of cases\<close>

text \<open>
  \<^verbatim>\<open>internal/store/cases.go\<close>, \<^verbatim>\<open>cases_load.go\<close> and the interval conversions of
  \<^verbatim>\<open>store.go\<close>, over the tables of \<^verbatim>\<open>migrations/0001_init.sql\<close> and \<^verbatim>\<open>0003\<close>. The rows of one
  case are a \<open>Snapshot\<close>: its \<^verbatim>\<open>cases\<close> row, at most one triage and closure row, its
  approvals, attempts (with run and outcome rows) and transitions in the order they were
  inserted. Columns of an enumerated type keep the typed value; as text it is the value's
  string, and reading that back gives the value (\<^verbatim>\<open>ResVocab\<close>). A statement PostgreSQL would
  refuse - a unique key taken, a reference to a vocabulary row that is not there, a failed
  CHECK, an integer beyond the column - makes the transaction \<open>None\<close>. Ids come from a
  supply that never repeats; that the database answers at all is assumed. PostgreSQL keeps
  instants to the microsecond: the instants of the model are at that precision. Attempts are
  inserted in the order of their ordinals, so \<^verbatim>\<open>order by a.ordinal\<close> is the order of the rows.
\<close>

subsection \<open>Intervals\<close>

definition toInterval :: "Duration \<Rightarrow> int" where
  "toInterval d = d sdiv 1000"

definition fromInterval :: "int \<Rightarrow> Duration" where
  "fromInterval us = i64 (us * 1000)"

subsection \<open>Tables\<close>

record CaseDB =
  db_cases :: "Snapshot list"
  db_approval_deliveries :: "string list"
  db_closure_deliveries :: "string list"
  db_run_ids :: "string list"
  db_webhooks :: "string list"
  db_fresh :: nat

datatype serr = ErrNotFound | ErrConflict | Domain derr | DbError

text \<open>The id the n-th insert gets.\<close>

definition fresh_id :: "nat \<Rightarrow> string" where
  "fresh_id n = show_nat n"

definition int4 :: "int \<Rightarrow> bool" where
  "int4 x = (- (2 ^ 31) \<le> x \<and> x < 2 ^ 31)"

definition usage_row_ok :: "Usage \<Rightarrow> bool" where
  "usage_row_ok u = (0 \<le> us_Turns u \<and> int4 (us_Turns u) \<and> 0 \<le> us_InputTokens u \<and>
     0 \<le> us_OutputTokens u \<and> 0 \<le> toInterval (us_WallClock u) \<and> 0 \<le> us_DiffLines u \<and>
     int4 (us_DiffLines u))"

definition attempt_row_ok :: "Attempt \<Rightarrow> bool" where
  "attempt_row_ok a = (at_Kind a \<in> set AllAttemptKinds \<and> 0 < bg_maxTurns (at_Budget a) \<and>
     int4 (bg_maxTurns (at_Budget a)) \<and> 0 < toInterval (bg_maxWallClock (at_Budget a)) \<and>
     0 < bg_maxDiffLines (at_Budget a) \<and> int4 (bg_maxDiffLines (at_Budget a)) \<and> at_Brief a \<noteq> '''')"

definition outcome_row_ok :: "Outcome \<Rightarrow> bool" where
  "outcome_row_ok ou = (usage_row_ok (oc_Usage ou) \<and> oc_Summary ou \<noteq> '''' \<and>
     (case oc_Kind ou of
        PullRequestOpened \<Rightarrow> 1 \<le> oc_PRNumber ou \<and> int4 (oc_PRNumber ou) \<and> shaRe (oc_HeadSha ou)
      | BudgetExhausted \<Rightarrow> oc_Limit ou \<in> set AllLimits \<and>
          (oc_PRNumber ou \<noteq> 0 \<longrightarrow> 1 \<le> oc_PRNumber ou \<and> int4 (oc_PRNumber ou) \<and> shaRe (oc_HeadSha ou))
      | FailedOutcome \<Rightarrow> oc_Class ou \<in> set AllFailureClasses \<and> oc_Message ou \<noteq> ''''
      | Aborted \<Rightarrow> oc_Reason ou \<in> set AllAbortReasons
      | OutcomeKind_other _ \<Rightarrow> False))"

definition requester_row_ok :: "Requester \<Rightarrow> bool" where
  "requester_row_ok r = (rq_Login r \<noteq> '''' \<and> rq_Association r \<in> set AllAssociations \<and>
     rq_Trust r \<in> set AllTrusts)"

text \<open>
  What the loader reads back from an outcome's common and variant rows: intervals to the
  microsecond, and only the columns of the variant its kind wrote (\<^verbatim>\<open>nullablePR\<close>: an
  exhaustion without a pull request stores neither number nor head).
\<close>

definition stored_usage :: "Usage \<Rightarrow> Usage" where
  "stored_usage u = u\<lparr>us_WallClock := fromInterval (toInterval (us_WallClock u))\<rparr>"

definition stored_outcome :: "Outcome \<Rightarrow> Outcome" where
  "stored_outcome ou =
     (let base = zero_outcome (oc_Kind ou) (oc_EndedAt ou) (stored_usage (oc_Usage ou)) (oc_Summary ou)
      in case oc_Kind ou of
           PullRequestOpened \<Rightarrow> base\<lparr>oc_PRNumber := oc_PRNumber ou, oc_HeadSha := oc_HeadSha ou\<rparr>
         | BudgetExhausted \<Rightarrow>
             (if oc_PRNumber ou = 0 then base\<lparr>oc_Limit := oc_Limit ou\<rparr>
              else base\<lparr>oc_Limit := oc_Limit ou, oc_PRNumber := oc_PRNumber ou,
                        oc_HeadSha := oc_HeadSha ou\<rparr>)
         | FailedOutcome \<Rightarrow> base\<lparr>oc_Class := oc_Class ou, oc_Message := oc_Message ou\<rparr>
         | Aborted \<Rightarrow> base\<lparr>oc_Reason := oc_Reason ou\<rparr>
         | _ \<Rightarrow> base)"

definition stored_budget :: "Budget \<Rightarrow> Budget" where
  "stored_budget b = b\<lparr>bg_maxWallClock := fromInterval (toInterval (bg_maxWallClock b))\<rparr>"

subsection \<open>Writing the changes of a case\<close>

fun insert_approvals ::
    "Approval list \<Rightarrow> Snapshot \<Rightarrow> CaseDB \<Rightarrow> (Snapshot \<times> CaseDB) option" where
  "insert_approvals [] s db = Some (s, db)"
| "insert_approvals (a # as) s db =
     (if \<not> requester_row_ok (ap_Approver a) \<or> ap_Source a \<notin> set AllApprovalSources then None
      else if ap_Source a = SourceLabel \<and>
           (ap_DeliveryID a \<in> set (db_approval_deliveries db) \<or> ap_DeliveryID a \<notin> set (db_webhooks db))
      then None
      else insert_approvals as
        (s\<lparr>sn_Approvals := sn_Approvals s @
             [a\<lparr>ap_ID := fresh_id (db_fresh db),
                ap_DeliveryID := (if ap_Source a = SourceLabel then ap_DeliveryID a else '''')\<rparr>]\<rparr>)
        (db\<lparr>db_fresh := Suc (db_fresh db),
            db_approval_deliveries := (if ap_Source a = SourceLabel
              then ap_DeliveryID a # db_approval_deliveries db else db_approval_deliveries db)\<rparr>))"

fun insert_attempts ::
    "Attempt list \<Rightarrow> Snapshot \<Rightarrow> CaseDB \<Rightarrow> (Snapshot \<times> CaseDB) option" where
  "insert_attempts [] s db = Some (s, db)"
| "insert_attempts (a # as) s db =
     (if \<not> attempt_row_ok a \<or> list_ex (\<lambda>x. at_Ordinal x = at_Ordinal a) (sn_Attempts s) then None
      else insert_attempts as
        (s\<lparr>sn_Attempts := sn_Attempts s @
             [a\<lparr>at_ID := fresh_id (db_fresh db), at_Budget := stored_budget (at_Budget a),
                at_Run := None, at_Outcome := None\<rparr>]\<rparr>)
        (db\<lparr>db_fresh := Suc (db_fresh db)\<rparr>))"

text \<open>
  \<^verbatim>\<open>attemptIDFor\<close> finds the attempt of an ordinal; a run or outcome row goes to it, one
  of each at most (primary keys), and a run id is used once.
\<close>

definition attemptIDFor :: "Snapshot \<Rightarrow> nat \<Rightarrow> nat option" where
  "attemptIDFor s ordinal = first_index (\<lambda>a. at_Ordinal a = ordinal) (sn_Attempts s)"

definition insert_run :: "nat \<Rightarrow> Run \<Rightarrow> Snapshot \<Rightarrow> CaseDB \<Rightarrow> (Snapshot \<times> CaseDB) option" where
  "insert_run ordinal r s db =
     (case attemptIDFor s ordinal of None \<Rightarrow> None
      | Some i \<Rightarrow>
          if at_Run (sn_Attempts s ! i) \<noteq> None \<or> rn_RunID r \<in> set (db_run_ids db) \<or>
             rn_Model r = '''' \<or> \<not> shaRe (rn_BaseSha r) then None
          else Some (s\<lparr>sn_Attempts := (sn_Attempts s)[i := (sn_Attempts s ! i)\<lparr>at_Run := Some r\<rparr>]\<rparr>,
                     db\<lparr>db_run_ids := rn_RunID r # db_run_ids db\<rparr>))"

definition insertOutcome :: "nat \<Rightarrow> Outcome \<Rightarrow> Snapshot \<Rightarrow> Snapshot option" where
  "insertOutcome ordinal ou s =
     (case attemptIDFor s ordinal of None \<Rightarrow> None
      | Some i \<Rightarrow>
          if at_Outcome (sn_Attempts s ! i) \<noteq> None \<or> \<not> outcome_row_ok ou then None
          else Some (s\<lparr>sn_Attempts := (sn_Attempts s)
                 [i := (sn_Attempts s ! i)\<lparr>at_Outcome := Some (stored_outcome ou)\<rparr>]\<rparr>))"

text \<open>
  The code ranges over the maps of new runs and outcomes in any order; each has at most
  one entry per attempt and the entries touch different attempts, so ascending ordinals
  stand for every order.
\<close>

fun insert_runs :: "nat list \<Rightarrow> (nat \<rightharpoonup> Run) \<Rightarrow> Snapshot \<Rightarrow> CaseDB \<Rightarrow> (Snapshot \<times> CaseDB) option" where
  "insert_runs [] m s db = Some (s, db)"
| "insert_runs (n # ns) m s db =
     (case m n of None \<Rightarrow> insert_runs ns m s db
      | Some r \<Rightarrow> (case insert_run n r s db of None \<Rightarrow> None
                 | Some (s', db') \<Rightarrow> insert_runs ns m s' db'))"

fun insert_outcomes :: "nat list \<Rightarrow> (nat \<rightharpoonup> Outcome) \<Rightarrow> Snapshot \<Rightarrow> Snapshot option" where
  "insert_outcomes [] m s = Some s"
| "insert_outcomes (n # ns) m s =
     (case m n of None \<Rightarrow> insert_outcomes ns m s
      | Some ou \<Rightarrow> (case insertOutcome n ou s of None \<Rightarrow> None
                  | Some s' \<Rightarrow> insert_outcomes ns m s'))"

definition transition_row_ok :: "Transition \<Rightarrow> bool" where
  "transition_row_ok tr = (tr_From tr \<noteq> tr_To tr \<and> tr_From tr \<in> set AllCaseStates \<and>
     tr_To tr \<in> set AllCaseStates \<and> tr_Cause tr \<in> set AllTransitionCauses)"

definition insert_triage :: "Triage option \<Rightarrow> Snapshot \<Rightarrow> Snapshot option" where
  "insert_triage t s =
     (case t of None \<Rightarrow> Some s
      | Some t' \<Rightarrow>
          if sn_Triage s \<noteq> None \<or> tg_Size t' \<notin> set AllSizes \<or> tg_Rationale t' = '''' \<or> tg_Model t' = ''''
          then None else Some (s\<lparr>sn_Triage := Some t'\<rparr>))"

definition insert_closure :: "Closure option \<Rightarrow> Snapshot \<Rightarrow> CaseDB \<Rightarrow> (Snapshot \<times> CaseDB) option" where
  "insert_closure cl s db =
     (case cl of None \<Rightarrow> Some (s, db)
      | Some c \<Rightarrow>
          if sn_Closure s \<noteq> None \<or> cl_DeliveryID c \<in> set (db_closure_deliveries db) \<or>
             cl_DeliveryID c \<notin> set (db_webhooks db)
          then None
          else Some (s\<lparr>sn_Closure := Some c\<rparr>,
                     db\<lparr>db_closure_deliveries := cl_DeliveryID c # db_closure_deliveries db\<rparr>))"

definition state_row_ok :: "CaseState \<Rightarrow> Requester \<Rightarrow> bool" where
  "state_row_ok st r = (st \<in> set AllCaseStates \<and> \<not> (st = Gated \<and> rq_Trust r = Trusted) \<and>
     \<not> (st = Received \<and> rq_Trust r = Untrusted))"

definition persistChanges :: "Case \<Rightarrow> Snapshot \<Rightarrow> CaseDB \<Rightarrow> (Snapshot \<times> CaseDB) option" where
  "persistChanges c s db =
     (let ch = cs_changes c;
          ords = map at_Ordinal (sn_Attempts s @ ch_Attempts ch) in
      Option.bind (insert_triage (ch_Triage ch) s) (\<lambda>s1.
      Option.bind (insert_approvals (ch_Approvals ch) s1 db) (\<lambda>(s2, db2).
      Option.bind (insert_attempts (ch_Attempts ch) s2 db2) (\<lambda>(s3, db3).
      Option.bind (insert_runs ords (ch_Runs ch) s3 db3) (\<lambda>(s4, db4).
      Option.bind (insert_outcomes ords (ch_Outcomes ch) s4) (\<lambda>s5.
      Option.bind (insert_closure (ch_Closure ch) s5 db4) (\<lambda>(s6, db6).
        if list_all transition_row_ok (ch_Transitions ch) \<and> state_row_ok (ch_State ch) (sn_Requester s6)
        then Some (s6\<lparr>sn_Transitions := sn_Transitions s6 @ ch_Transitions ch,
                      sn_State := ch_State ch\<rparr>, db6)
        else None)))))))"

subsection \<open>Loading\<close>

text \<open>
  \<^verbatim>\<open>order by a.approved_at, a.id\<close>: the id is a random one, so the order of approvals of
  the same instant is any; the model keeps the order of insertion among them.
\<close>

fun load_budgets :: "Attempt list \<Rightarrow> derr + Attempt list" where
  "load_budgets [] = Inr []"
| "load_budgets (a # as) =
     (case NewBudget (bg_maxTurns (at_Budget a)) (bg_maxWallClock (at_Budget a)) (bg_maxDiffLines (at_Budget a)) of
        Inl e \<Rightarrow> Inl e
      | Inr b \<Rightarrow> (case load_budgets as of Inl e \<Rightarrow> Inl e | Inr as' \<Rightarrow> Inr (a\<lparr>at_Budget := b\<rparr> # as')))"

definition loadCase :: "Snapshot \<Rightarrow> derr + Case" where
  "loadCase s =
     (case load_budgets (sn_Attempts s) of Inl e \<Rightarrow> Inl e
      | Inr as \<Rightarrow> LoadCase (s\<lparr>sn_Approvals := sort_key ap_ApprovedAt (sn_Approvals s),
                             sn_Attempts := as\<rparr>))"

subsection \<open>The operations\<close>

definition is_key :: "string \<Rightarrow> int \<Rightarrow> Snapshot \<Rightarrow> bool" where
  "is_key repository number s = (sn_Repository s = repository \<and> sn_Number s = number)"

definition CreateCase :: "Case \<Rightarrow> CaseDB \<Rightarrow> serr + CaseDB \<times> Case" where
  "CreateCase c db =
     (if list_ex (is_key (cs_repository c) (cs_number c)) (db_cases db) then Inl ErrConflict
      else if \<not> requester_row_ok (cs_requester c) \<or> \<not> state_row_ok (cs_state c) (cs_requester c) \<or>
              cs_number c < 1 \<or> \<not> int4 (cs_number c) then Inl DbError
      else let i = fresh_id (db_fresh db);
               row = \<lparr>sn_ID = i, sn_Repository = cs_repository c, sn_Number = cs_number c,
                      sn_Requester = cs_requester c, sn_State = cs_state c,
                      sn_ReceivedAt = cs_receivedAt c, sn_Triage = None, sn_Approvals = [],
                      sn_Attempts = [], sn_Transitions = [], sn_Closure = None\<rparr>;
               db' = db\<lparr>db_cases := db_cases db @ [row], db_fresh := Suc (db_fresh db)\<rparr>
           in (case Case_AssignID c i of
                 (c', Some e) \<Rightarrow> Inl (Domain e)
               | (c', None) \<Rightarrow> Inr (db', Case_ClearChanges c')))"

definition GetCase :: "string \<Rightarrow> int \<Rightarrow> CaseDB \<Rightarrow> serr + Case" where
  "GetCase repository number db =
     (case find (is_key repository number) (db_cases db) of
        None \<Rightarrow> Inl ErrNotFound
      | Some s \<Rightarrow> (case loadCase s of Inl e \<Rightarrow> Inl (Domain e) | Inr c \<Rightarrow> Inr c))"

definition GetCaseByID :: "string \<Rightarrow> CaseDB \<Rightarrow> serr + Case" where
  "GetCaseByID i db =
     (case find (\<lambda>s. sn_ID s = i) (db_cases db) of
        None \<Rightarrow> Inl ErrNotFound
      | Some s \<Rightarrow> (case loadCase s of Inl e \<Rightarrow> Inl (Domain e) | Inr c \<Rightarrow> Inr c))"

definition GetCaseByAttempt :: "string \<Rightarrow> CaseDB \<Rightarrow> serr + Case" where
  "GetCaseByAttempt i db =
     (case find (\<lambda>s. list_ex (\<lambda>a. at_ID a = i) (sn_Attempts s)) (db_cases db) of
        None \<Rightarrow> Inl ErrNotFound
      | Some s \<Rightarrow> (case loadCase s of Inl e \<Rightarrow> Inl (Domain e) | Inr c \<Rightarrow> Inr c))"

definition put_row :: "Snapshot \<Rightarrow> CaseDB \<Rightarrow> CaseDB" where
  "put_row s db = db\<lparr>db_cases := map (\<lambda>r. if sn_ID r = sn_ID s then s else r) (db_cases db)\<rparr>"

definition UpdateCase ::
    "string \<Rightarrow> int \<Rightarrow> (Case \<Rightarrow> Case \<times> derr option) \<Rightarrow> CaseDB \<Rightarrow> serr + CaseDB \<times> Case" where
  "UpdateCase repository number fn db =
     (case find (is_key repository number) (db_cases db) of
        None \<Rightarrow> Inl ErrNotFound
      | Some s \<Rightarrow>
        (case loadCase s of Inl e \<Rightarrow> Inl (Domain e)
         | Inr c \<Rightarrow>
           (case fn c of
              (_, Some e) \<Rightarrow> Inl (Domain e)
            | (c', None) \<Rightarrow>
              (case persistChanges c' s db of None \<Rightarrow> Inl DbError
               | Some (s', db') \<Rightarrow>
                 (case loadCase s' of Inl e \<Rightarrow> Inl (Domain e)
                  | Inr out \<Rightarrow> Inr (put_row s' db', out))))))"

end
