(* ===== verification/StoreBumps.thy ===== *)
theory StoreBumps
  imports BumpInv StoreCases
begin

section \<open>The store of bumps\<close>

text \<open>
  \<^verbatim>\<open>internal/store/bumps.go\<close> and \<^verbatim>\<open>bumps_load.go\<close> over \<^verbatim>\<open>migrations/0002_upkeep.sql\<close>, with the
  conventions of \<^verbatim>\<open>StoreCases\<close>: the rows of one bump are a \<open>BumpSnapshot\<close>, a statement the
  database refuses makes the transaction \<open>None\<close>. The read-only listings and counts are
  in \<^verbatim>\<open>Listings\<close>.
\<close>

subsection \<open>Tables and watches\<close>

record BumpDB =
  bd_bumps :: "BumpSnapshot list"
  bd_watches :: "Watch list"
  bd_closure_deliveries :: "string list"
  bd_run_ids :: "string list"
  bd_webhooks :: "string list"
  bd_fresh :: nat

record OpenRepair =
  or_ID :: string
  or_BumpID :: string
  or_Repository :: string
  or_Number :: int
  or_Round :: nat

text \<open>A watch names a row of \<^verbatim>\<open>repositories\<close>, given by the argument \<open>repos\<close>.\<close>

definition WatchRepository :: "string list \<Rightarrow> Watch \<Rightarrow> BumpDB \<Rightarrow> serr + BumpDB" where
  "WatchRepository repos w db =
     (if list_ex (\<lambda>x. wt_Repository x = wt_Repository w) (bd_watches db) then Inr db
      else if wt_Repository w \<notin> set repos then Inl DbError
      else Inr (db\<lparr>bd_watches := bd_watches db @ [w]\<rparr>))"

definition UnwatchRepository :: "string \<Rightarrow> BumpDB \<Rightarrow> BumpDB" where
  "UnwatchRepository repository db =
     db\<lparr>bd_watches := filter (\<lambda>x. wt_Repository x \<noteq> repository) (bd_watches db)\<rparr>"

text \<open>
  \<^verbatim>\<open>order by watched_at, repository\<close>; watches of one instant keep the order they were inserted
  in here. The only reader asks whether a name is in the list.
\<close>

definition WatchedRepositories :: "BumpDB \<Rightarrow> string list" where
  "WatchedRepositories db = map wt_Repository (sort_key wt_WatchedAt (bd_watches db))"

subsection \<open>Writing the changes of a bump\<close>

definition verdict_row_ok :: "CheckVerdict \<Rightarrow> bool" where
  "verdict_row_ok v = (shaRe (cv_HeadSha v) \<and> cv_Conclusion v \<in> set AllCheckConclusions \<and>
     (cv_Conclusion v = CheckSuccess) = (cv_FailingContexts v = ''''))"

fun insert_verdicts ::
    "CheckVerdict list \<Rightarrow> BumpSnapshot \<Rightarrow> BumpDB \<Rightarrow> (BumpSnapshot \<times> BumpDB) option" where
  "insert_verdicts [] s db = Some (s, db)"
| "insert_verdicts (v # vs) s db =
     (if \<not> verdict_row_ok v \<or> list_ex (\<lambda>x. cv_HeadSha x = cv_HeadSha v) (bs_Verdicts s) then None
      else insert_verdicts vs
        (s\<lparr>bs_Verdicts := bs_Verdicts s @ [v\<lparr>cv_ID := fresh_id (bd_fresh db)\<rparr>]\<rparr>)
        (db\<lparr>bd_fresh := Suc (bd_fresh db)\<rparr>))"

definition repair_row_ok :: "RepairAttempt \<Rightarrow> bool" where
  "repair_row_ok a = (1 \<le> ra_Round a \<and> shaRe (ra_BaseSha a) \<and> 0 < bg_maxTurns (ra_Budget a) \<and>
     int4 (bg_maxTurns (ra_Budget a)) \<and> 0 < toInterval (bg_maxWallClock (ra_Budget a)) \<and>
     0 < bg_maxDiffLines (ra_Budget a) \<and> int4 (bg_maxDiffLines (ra_Budget a)) \<and> ra_Brief a \<noteq> '''')"

fun insert_repairs ::
    "RepairAttempt list \<Rightarrow> BumpSnapshot \<Rightarrow> BumpDB \<Rightarrow> (BumpSnapshot \<times> BumpDB) option" where
  "insert_repairs [] s db = Some (s, db)"
| "insert_repairs (a # as) s db =
     (if \<not> repair_row_ok a \<or> list_ex (\<lambda>x. ra_Round x = ra_Round a) (bs_Attempts s) then None
      else insert_repairs as
        (s\<lparr>bs_Attempts := bs_Attempts s @
             [a\<lparr>ra_ID := fresh_id (bd_fresh db), ra_Budget := stored_budget (ra_Budget a),
                ra_Run := None, ra_Outcome := None\<rparr>]\<rparr>)
        (db\<lparr>bd_fresh := Suc (bd_fresh db)\<rparr>))"

definition repairIDFor :: "BumpSnapshot \<Rightarrow> nat \<Rightarrow> nat option" where
  "repairIDFor s round' = first_index (\<lambda>a. ra_Round a = round') (bs_Attempts s)"

definition insert_repair_run ::
    "nat \<Rightarrow> Run \<Rightarrow> BumpSnapshot \<Rightarrow> BumpDB \<Rightarrow> (BumpSnapshot \<times> BumpDB) option" where
  "insert_repair_run round' r s db =
     (case repairIDFor s round' of None \<Rightarrow> None
      | Some i \<Rightarrow>
          if ra_Run (bs_Attempts s ! i) \<noteq> None \<or> rn_RunID r \<in> set (bd_run_ids db) \<or>
             rn_Model r = '''' \<or> \<not> shaRe (rn_BaseSha r)
          then None
          else Some (s\<lparr>bs_Attempts := (bs_Attempts s)[i := (bs_Attempts s ! i)\<lparr>ra_Run := Some r\<rparr>]\<rparr>,
                     db\<lparr>bd_run_ids := rn_RunID r # bd_run_ids db\<rparr>))"

text \<open>The common row and the one variant row of its kind, and what the loader reads back.\<close>

definition repair_outcome_row_ok :: "RepairOutcome \<Rightarrow> bool" where
  "repair_outcome_row_ok ou = (ro_Kind ou \<in> set AllRepairOutcomeKinds \<and> usage_row_ok (ro_Usage ou) \<and>
     ro_Summary ou \<noteq> '''' \<and>
     (case ro_Kind ou of
        Pushed \<Rightarrow> shaRe (ro_HeadSha ou)
      | RepairBudgetExhausted \<Rightarrow> ro_Limit ou \<in> set AllLimits
      | RepairFailed \<Rightarrow> ro_Class ou \<in> set AllFailureClasses \<and> ro_Message ou \<noteq> ''''
      | RepairAborted \<Rightarrow> ro_Reason ou \<in> set AllRepairAbortReasons
      | _ \<Rightarrow> True))"

definition stored_repair_outcome :: "RepairOutcome \<Rightarrow> RepairOutcome" where
  "stored_repair_outcome ou =
     (let base = \<lparr>ro_Kind = ro_Kind ou, ro_EndedAt = ro_EndedAt ou, ro_Usage = stored_usage (ro_Usage ou),
        ro_Summary = ro_Summary ou, ro_HeadSha = '''', ro_Limit = Limit_other '''',
        ro_Class = FailureClass_other '''', ro_Message = '''', ro_Reason = RepairAbortReason_other ''''\<rparr>
      in case ro_Kind ou of
           Pushed \<Rightarrow> base\<lparr>ro_HeadSha := ro_HeadSha ou\<rparr>
         | RepairBudgetExhausted \<Rightarrow> base\<lparr>ro_Limit := ro_Limit ou\<rparr>
         | RepairFailed \<Rightarrow> base\<lparr>ro_Class := ro_Class ou, ro_Message := ro_Message ou\<rparr>
         | RepairAborted \<Rightarrow> base\<lparr>ro_Reason := ro_Reason ou\<rparr>
         | _ \<Rightarrow> base)"

definition insertRepairOutcome :: "nat \<Rightarrow> RepairOutcome \<Rightarrow> BumpSnapshot \<Rightarrow> BumpSnapshot option" where
  "insertRepairOutcome round' ou s =
     (case repairIDFor s round' of None \<Rightarrow> None
      | Some i \<Rightarrow>
          if ra_Outcome (bs_Attempts s ! i) \<noteq> None \<or> \<not> repair_outcome_row_ok ou then None
          else Some (s\<lparr>bs_Attempts := (bs_Attempts s)
                 [i := (bs_Attempts s ! i)\<lparr>ra_Outcome := Some (stored_repair_outcome ou)\<rparr>]\<rparr>))"

fun insert_repair_runs ::
    "nat list \<Rightarrow> (nat \<rightharpoonup> Run) \<Rightarrow> BumpSnapshot \<Rightarrow> BumpDB \<Rightarrow> (BumpSnapshot \<times> BumpDB) option" where
  "insert_repair_runs [] m s db = Some (s, db)"
| "insert_repair_runs (n # ns) m s db =
     (case m n of None \<Rightarrow> insert_repair_runs ns m s db
      | Some r \<Rightarrow> (case insert_repair_run n r s db of None \<Rightarrow> None
                 | Some (s', db') \<Rightarrow> insert_repair_runs ns m s' db'))"

fun insert_repair_outcomes ::
    "nat list \<Rightarrow> (nat \<rightharpoonup> RepairOutcome) \<Rightarrow> BumpSnapshot \<Rightarrow> BumpSnapshot option" where
  "insert_repair_outcomes [] m s = Some s"
| "insert_repair_outcomes (n # ns) m s =
     (case m n of None \<Rightarrow> insert_repair_outcomes ns m s
      | Some ou \<Rightarrow> (case insertRepairOutcome n ou s of None \<Rightarrow> None
                  | Some s' \<Rightarrow> insert_repair_outcomes ns m s'))"

text \<open>The old abandonment is deleted before a new one is inserted; at most one row at any time.\<close>

definition insert_abandonment :: "bool \<Rightarrow> BumpAbandonment option \<Rightarrow> BumpSnapshot \<Rightarrow> BumpSnapshot option" where
  "insert_abandonment drop' ab s =
     (let s1 = (if drop' then s\<lparr>bs_Abandonment := None\<rparr> else s) in
      case ab of None \<Rightarrow> Some s1
      | Some a \<Rightarrow>
          if bs_Abandonment s1 \<noteq> None \<or> ab_Reason a \<notin> set AllAbandonReasons \<or> ab_Detail a = ''''
          then None else Some (s1\<lparr>bs_Abandonment := Some a\<rparr>))"

definition insert_bump_closure ::
    "BumpClosure option \<Rightarrow> BumpSnapshot \<Rightarrow> BumpDB \<Rightarrow> (BumpSnapshot \<times> BumpDB) option" where
  "insert_bump_closure cl s db =
     (case cl of None \<Rightarrow> Some (s, db)
      | Some c \<Rightarrow>
          if bs_Closure s \<noteq> None \<or> bc_Kind c \<notin> set AllClosureKinds \<or>
             bc_DeliveryID c \<in> set (bd_closure_deliveries db) \<or> bc_DeliveryID c \<notin> set (bd_webhooks db)
          then None
          else Some (s\<lparr>bs_Closure := Some c\<rparr>,
                     db\<lparr>bd_closure_deliveries := bc_DeliveryID c # bd_closure_deliveries db\<rparr>))"

definition bump_transition_row_ok :: "BumpTransition \<Rightarrow> bool" where
  "bump_transition_row_ok tr = (bt_From tr \<noteq> bt_To tr \<and> bt_From tr \<in> set AllBumpStates \<and>
     bt_To tr \<in> set AllBumpStates \<and> bt_Cause tr \<in> set AllBumpTransitionCauses)"

definition persistBumpChanges :: "Bump \<Rightarrow> BumpSnapshot \<Rightarrow> BumpDB \<Rightarrow> (BumpSnapshot \<times> BumpDB) option" where
  "persistBumpChanges b s db =
     (let ch = bp_changes b;
          rounds = map ra_Round (bs_Attempts s @ bh_Attempts ch) in
      Option.bind (insert_verdicts (bh_Verdicts ch) s db) (\<lambda>(s1, db1).
      Option.bind (insert_repairs (bh_Attempts ch) s1 db1) (\<lambda>(s2, db2).
      Option.bind (insert_repair_runs rounds (bh_Runs ch) s2 db2) (\<lambda>(s3, db3).
      Option.bind (insert_repair_outcomes rounds (bh_Outcomes ch) s3) (\<lambda>s4.
      Option.bind (insert_abandonment (bh_DropAbandon ch) (bh_Abandonment ch) s4) (\<lambda>s5.
      Option.bind (insert_bump_closure (bh_Closure ch) s5 db3) (\<lambda>(s6, db6).
        if list_all bump_transition_row_ok (bh_Transitions ch) \<and> bh_State ch \<in> set AllBumpStates \<and>
           shaRe (bh_HeadSha ch)
        then Some (s6\<lparr>bs_Transitions := bs_Transitions s6 @ bh_Transitions ch,
                      bs_State := bh_State ch, bs_HeadSha := bh_HeadSha ch\<rparr>, db6)
        else None)))))))"

subsection \<open>Loading\<close>

fun loadRepairs :: "RepairAttempt list \<Rightarrow> derr + RepairAttempt list" where
  "loadRepairs [] = Inr []"
| "loadRepairs (a # as) =
     (case NewBudget (bg_maxTurns (ra_Budget a)) (bg_maxWallClock (ra_Budget a)) (bg_maxDiffLines (ra_Budget a)) of
        Inl e \<Rightarrow> Inl e
      | Inr b \<Rightarrow> (case loadRepairs as of Inl e \<Rightarrow> Inl e | Inr as' \<Rightarrow> Inr (a\<lparr>ra_Budget := b\<rparr> # as')))"

definition loadBump :: "BumpSnapshot \<Rightarrow> derr + Bump" where
  "loadBump s =
     (case loadRepairs (bs_Attempts s) of Inl e \<Rightarrow> Inl e
      | Inr as \<Rightarrow> LoadBump (s\<lparr>bs_Verdicts := sort_key cv_ConcludedAt (bs_Verdicts s), bs_Attempts := as\<rparr>))"

definition is_bump_key :: "string \<Rightarrow> int \<Rightarrow> BumpSnapshot \<Rightarrow> bool" where
  "is_bump_key repository number s = (bs_Repository s = repository \<and> bs_Number s = number)"

definition load_found :: "BumpSnapshot option \<Rightarrow> serr + Bump" where
  "load_found r = (case r of None \<Rightarrow> Inl ErrNotFound
     | Some s \<Rightarrow> (case loadBump s of Inl e \<Rightarrow> Inl (Domain e) | Inr b \<Rightarrow> Inr b))"

definition GetBump :: "string \<Rightarrow> int \<Rightarrow> BumpDB \<Rightarrow> serr + Bump" where
  "GetBump repository number db = load_found (find (is_bump_key repository number) (bd_bumps db))"

definition owns_repair :: "string \<Rightarrow> BumpSnapshot \<Rightarrow> bool" where
  "owns_repair repairID s = list_ex (\<lambda>a. ra_ID a = repairID) (bs_Attempts s)"

definition GetBumpByRepair :: "string \<Rightarrow> BumpDB \<Rightarrow> serr + Bump" where
  "GetBumpByRepair repairID db = load_found (find (owns_repair repairID) (bd_bumps db))"

subsection \<open>The operations\<close>

definition CreateBump :: "Bump \<Rightarrow> BumpDB \<Rightarrow> serr + BumpDB \<times> Bump" where
  "CreateBump b db =
     (if \<not> list_ex (\<lambda>w. wt_Repository w = bp_repository b) (bd_watches db) then Inl ErrNotFound
      else if list_ex (is_bump_key (bp_repository b) (bp_number b)) (bd_bumps db) then Inl ErrConflict
      else if bp_number b < 1 \<or> \<not> int4 (bp_number b) \<or> bp_branch b = '''' \<or> bp_baseBranch b = '''' \<or>
              \<not> shaRe (bp_headSha b) \<or> bp_state b \<notin> set AllBumpStates
      then Inl DbError
      else let i = fresh_id (bd_fresh db);
               row = \<lparr>bs_ID = i, bs_Repository = bp_repository b, bs_Number = bp_number b,
                      bs_Branch = bp_branch b, bs_BaseBranch = bp_baseBranch b, bs_HeadSha = bp_headSha b,
                      bs_State = bp_state b, bs_OpenedAt = bp_openedAt b, bs_Verdicts = [],
                      bs_Attempts = [], bs_Transitions = [], bs_Abandonment = None, bs_Closure = None\<rparr>;
               db' = db\<lparr>bd_bumps := bd_bumps db @ [row], bd_fresh := Suc (bd_fresh db)\<rparr>
           in (case Bump_AssignID b i of
                 (b', Some e) \<Rightarrow> Inl (Domain e)
               | (b', None) \<Rightarrow> Inr (db', Bump_ClearChanges b')))"

definition put_bump :: "BumpSnapshot \<Rightarrow> BumpDB \<Rightarrow> BumpDB" where
  "put_bump s db = db\<lparr>bd_bumps := map (\<lambda>r. if bs_ID r = bs_ID s then s else r) (bd_bumps db)\<rparr>"

definition UpdateBump ::
    "string \<Rightarrow> int \<Rightarrow> (Bump \<Rightarrow> Bump \<times> derr option) \<Rightarrow> BumpDB \<Rightarrow> serr + BumpDB \<times> Bump" where
  "UpdateBump repository number fn db =
     (case find (is_bump_key repository number) (bd_bumps db) of
        None \<Rightarrow> Inl ErrNotFound
      | Some s \<Rightarrow>
        (case loadBump s of Inl e \<Rightarrow> Inl (Domain e)
         | Inr b \<Rightarrow>
           (case fn b of
              (_, Some e) \<Rightarrow> Inl (Domain e)
            | (b', None) \<Rightarrow>
              (case persistBumpChanges b' s db of None \<Rightarrow> Inl DbError
               | Some (s', db') \<Rightarrow>
                 (case loadBump s' of Inl e \<Rightarrow> Inl (Domain e)
                  | Inr out \<Rightarrow> Inr (put_bump s' db', out))))))"

definition UpdateBumpByRepair ::
    "string \<Rightarrow> (Bump \<Rightarrow> Bump \<times> derr option) \<Rightarrow> BumpDB \<Rightarrow> serr + BumpDB \<times> Bump" where
  "UpdateBumpByRepair repairID fn db =
     (case find (owns_repair repairID) (bd_bumps db) of
        None \<Rightarrow> Inl ErrNotFound
      | Some s \<Rightarrow> UpdateBump (bs_Repository s) (bs_Number s) fn db)"

subsection \<open>The listings the services read\<close>

text \<open>
  The instant a row last entered a state: the latest such transition, which a bump awaiting
  checks may not have (it was opened there) and a queued one always has.
\<close>

definition last_entered :: "BumpState \<Rightarrow> BumpSnapshot \<Rightarrow> Time option" where
  "last_entered st s =
     (case filter (\<lambda>t. bt_To t = st) (bs_Transitions s) of [] \<Rightarrow> None
      | ts \<Rightarrow> Some (bt_OccurredAt (last ts)))"

definition bumpKeys :: "BumpSnapshot list \<Rightarrow> (string \<times> int) list" where
  "bumpKeys rows = map (\<lambda>s. (bs_Repository s, bs_Number s)) rows"

definition QueuedBumps :: "BumpDB \<Rightarrow> (string \<times> int) list" where
  "QueuedBumps db = bumpKeys (sort_key (\<lambda>s. the (last_entered BumpQueued s))
     (filter (\<lambda>s. bs_State s = BumpQueued \<and> last_entered BumpQueued s \<noteq> None) (bd_bumps db)))"

definition BumpsAwaitingChecksSince :: "Time \<Rightarrow> BumpDB \<Rightarrow> (string \<times> int) list" where
  "BumpsAwaitingChecksSince cutoff db = bumpKeys (sort_key bs_OpenedAt
     (filter (\<lambda>s. bs_State s = AwaitingChecks \<and>
        (case last_entered AwaitingChecks s of None \<Rightarrow> bs_OpenedAt s | Some t \<Rightarrow> t) \<le> cutoff)
       (bd_bumps db)))"

definition open_rounds :: "BumpSnapshot \<Rightarrow> (Time \<times> OpenRepair) list" where
  "open_rounds s = map (\<lambda>a. (ra_StartedAt a,
       \<lparr>or_ID = ra_ID a, or_BumpID = bs_ID s, or_Repository = bs_Repository s,
        or_Number = bs_Number s, or_Round = ra_Round a\<rparr>))
     (filter RepairAttempt_Open (bs_Attempts s))"

definition OpenRepairs :: "BumpDB \<Rightarrow> OpenRepair list" where
  "OpenRepairs db = map snd (sort_key fst (concat (map open_rounds (bd_bumps db))))"

definition OpenRepairsOnClosedBumps :: "BumpDB \<Rightarrow> string list" where
  "OpenRepairsOnClosedBumps db = map (or_ID \<circ> snd) (sort_key fst (concat (map open_rounds
     (filter (\<lambda>s. bs_State s = BumpClosed) (bd_bumps db)))))"

end
