(* ===== verification/StoreWorld.thy ===== *)
theory StoreWorld
  imports StoreBumps "HOL-Library.List_Lexorder" "HOL-Library.Char_ord"
begin

section \<open>Repositories, deliveries, the outbox and the listings\<close>

text \<open>
  The rest of \<^verbatim>\<open>internal/store\<close> the services use: \<^verbatim>\<open>repositories.go\<close>, \<^verbatim>\<open>deliveries.go\<close>,
  \<^verbatim>\<open>comments.go\<close> and the listings of \<^verbatim>\<open>queries.go\<close>. A removal row is the \<open>rp_Removed\<close> of its
  repository. Rows of one sort key keep the order they were inserted in, where the code
  orders them by a random id; \<^verbatim>\<open>webhook_deliveries\<close> is ordered by instant and delivery id.
  The operations that are one statement on a healthy database cannot fail here; the
  services' handling of a failing database is in their models.
\<close>

record Delivery =
  dl_ID :: string
  dl_Event :: string
  dl_Action :: string
  dl_SenderLogin :: string
  dl_Payload :: string
  dl_ReceivedAt :: Time

record Comment =
  cm_ID :: string
  cm_Repository :: string
  cm_Number :: int
  cm_Body :: string

record Store =
  st_cases :: CaseDB
  st_bumps :: BumpDB
  st_repos :: "Repository list"
  st_labels :: "(string \<times> string) list"
  st_deliveries :: "Delivery list"
  st_processed :: "(string \<times> string \<times> string) list"
  st_triage_comments :: "string list"
  st_outcome_comments :: "string list"
  st_comments :: "Comment list"
  st_posted :: "(string \<times> int) list"

subsection \<open>Repositories\<close>

definition EnrollRepository :: "Repository \<Rightarrow> Store \<Rightarrow> Store" where
  "EnrollRepository r st = st\<lparr>st_repos :=
     (if list_ex (\<lambda>x. rp_FullName x = rp_FullName r) (st_repos st)
      then map (\<lambda>x. if rp_FullName x = rp_FullName r
                     then x\<lparr>rp_InstallationID := rp_InstallationID r,
                            rp_DefaultBranch := rp_DefaultBranch r, rp_Removed := None\<rparr>
                     else x) (st_repos st)
      else st_repos st @ [r\<lparr>rp_Removed := None\<rparr>])\<rparr>"

definition RemoveRepository :: "string \<Rightarrow> Time \<Rightarrow> Store \<Rightarrow> Store" where
  "RemoveRepository fullName at st = st\<lparr>st_repos := map (\<lambda>x.
     if rp_FullName x = fullName \<and> rp_Removed x = None then x\<lparr>rp_Removed := Some \<lparr>rm_RemovedAt = at\<rparr>\<rparr>
     else x) (st_repos st)\<rparr>"

definition GetRepository :: "string \<Rightarrow> Store \<Rightarrow> serr + Repository" where
  "GetRepository fullName st =
     (case find (\<lambda>x. rp_FullName x = fullName) (st_repos st) of
        None \<Rightarrow> Inl ErrNotFound | Some r \<Rightarrow> Inr r)"

definition EnrolledRepositories :: "Store \<Rightarrow> string list" where
  "EnrolledRepositories st = sort (map rp_FullName (filter (\<lambda>x. rp_Removed x = None) (st_repos st)))"

definition RepositoriesNeedingLabel :: "Store \<Rightarrow> Repository list" where
  "RepositoriesNeedingLabel st = sort_key rp_EnrolledAt (filter (\<lambda>x. rp_Removed x = None \<and>
     rp_FullName x \<notin> fst ` set (st_labels st)) (st_repos st))"

definition RecordLabelSetup :: "string \<Rightarrow> string \<Rightarrow> Store \<Rightarrow> serr + Store" where
  "RecordLabelSetup fullName label st =
     (if fullName \<in> fst ` set (st_labels st) then Inr st
      else if label = '''' \<or> fullName \<notin> rp_FullName ` set (st_repos st) then Inl DbError
      else Inr (st\<lparr>st_labels := st_labels st @ [(fullName, label)]\<rparr>))"

text \<open>A case or bump of a repository that has been removed.\<close>

definition removed :: "Store \<Rightarrow> string \<Rightarrow> bool" where
  "removed st name = list_ex (\<lambda>x. rp_FullName x = name \<and> rp_Removed x \<noteq> None) (st_repos st)"

subsection \<open>Deliveries\<close>

definition StoreDelivery :: "Delivery \<Rightarrow> Store \<Rightarrow> serr + Store \<times> bool" where
  "StoreDelivery d st =
     (if dl_ID d \<in> dl_ID ` set (st_deliveries st) then Inr (st, True)
      else if dl_Event d = '''' then Inl DbError
      else Inr (st\<lparr>st_deliveries := st_deliveries st @ [d],
                  st_cases := (st_cases st)\<lparr>db_webhooks := dl_ID d # db_webhooks (st_cases st)\<rparr>,
                  st_bumps := (st_bumps st)\<lparr>bd_webhooks := dl_ID d # bd_webhooks (st_bumps st)\<rparr>\<rparr>, False))"

definition UnprocessedDeliveries :: "Store \<Rightarrow> Delivery list" where
  "UnprocessedDeliveries st = sort_key (\<lambda>d. dl_ReceivedAt d) (sort_key dl_ID
     (filter (\<lambda>d. dl_ID d \<notin> fst ` set (st_processed st)) (st_deliveries st)))"

definition LastDeliveryAt :: "Store \<Rightarrow> Time option" where
  "LastDeliveryAt st = (if st_deliveries st = [] then None
     else Some (Max (set (map dl_ReceivedAt (st_deliveries st)))))"

definition RecordProcessing :: "string \<Rightarrow> string \<Rightarrow> string \<Rightarrow> Store \<Rightarrow> serr + Store" where
  "RecordProcessing deliveryID result detail st =
     (if deliveryID \<in> fst ` set (st_processed st) \<or> deliveryID \<notin> dl_ID ` set (st_deliveries st) \<or>
         result \<notin> {''translated'', ''ignored'', ''rejected''} \<or> detail = '''' then Inl DbError
      else Inr (st\<lparr>st_processed := st_processed st @ [(deliveryID, result, detail)]\<rparr>))"

subsection \<open>Listings\<close>

definition case_entered :: "CaseState \<Rightarrow> Snapshot \<Rightarrow> Time option" where
  "case_entered x s =
     (case filter (\<lambda>t. tr_To t = x) (sn_Transitions s) of [] \<Rightarrow> None
      | ts \<Rightarrow> Some (tr_OccurredAt (last ts)))"

definition case_keys :: "Snapshot list \<Rightarrow> (string \<times> int) list" where
  "case_keys rows = map (\<lambda>s. (sn_Repository s, sn_Number s)) rows"

definition QueuedCases :: "Store \<Rightarrow> (string \<times> int) list" where
  "QueuedCases st = case_keys (sort_key (\<lambda>s. the (case_entered Queued s))
     (filter (\<lambda>s. sn_State s = Queued \<and> \<not> removed st (sn_Repository s) \<and> case_entered Queued s \<noteq> None)
       (db_cases (st_cases st))))"

definition ReceivedWithoutTriage :: "Store \<Rightarrow> (string \<times> int) list" where
  "ReceivedWithoutTriage st = case_keys (sort_key sn_ReceivedAt
     (filter (\<lambda>s. sn_State s = Received \<and> sn_Triage s = None \<and> \<not> removed st (sn_Repository s))
       (db_cases (st_cases st))))"

record OpenAttempt =
  oa_AttemptID :: string
  oa_Repository :: string
  oa_Number :: int
  oa_Ordinal :: nat
  oa_StartedAt :: Time

definition open_attempts :: "Snapshot \<Rightarrow> OpenAttempt list" where
  "open_attempts s = map (\<lambda>a. \<lparr>oa_AttemptID = at_ID a, oa_Repository = sn_Repository s,
       oa_Number = sn_Number s, oa_Ordinal = at_Ordinal a, oa_StartedAt = at_StartedAt a\<rparr>)
     (filter Attempt_Open (sn_Attempts s))"

definition OpenAttempts :: "Store \<Rightarrow> OpenAttempt list" where
  "OpenAttempts st = sort_key oa_StartedAt (concat (map open_attempts (db_cases (st_cases st))))"

definition OpenAttemptsOnClosedCases :: "Store \<Rightarrow> string list" where
  "OpenAttemptsOnClosedCases st = map oa_AttemptID (concat (map open_attempts
     (filter (\<lambda>s. sn_State s = Closed) (db_cases (st_cases st)))))"

subsection \<open>The comment outbox\<close>

definition EnqueueTriageComment :: "string \<Rightarrow> string \<Rightarrow> int \<Rightarrow> string \<Rightarrow> Store \<Rightarrow> Store" where
  "EnqueueTriageComment caseID repository number body st =
     (if caseID \<in> set (st_triage_comments st) then st
      else st\<lparr>st_comments := st_comments st @
                [\<lparr>cm_ID = fresh_id (length (st_comments st)), cm_Repository = repository,
                  cm_Number = number, cm_Body = body\<rparr>],
              st_triage_comments := caseID # st_triage_comments st\<rparr>)"

definition EnqueueOutcomeComment :: "string \<Rightarrow> string \<Rightarrow> int \<Rightarrow> string \<Rightarrow> Store \<Rightarrow> Store" where
  "EnqueueOutcomeComment attemptID repository number body st =
     (if attemptID \<in> set (st_outcome_comments st) then st
      else st\<lparr>st_comments := st_comments st @
                [\<lparr>cm_ID = fresh_id (length (st_comments st)), cm_Repository = repository,
                  cm_Number = number, cm_Body = body\<rparr>],
              st_outcome_comments := attemptID # st_outcome_comments st\<rparr>)"

definition UnpostedComments :: "Store \<Rightarrow> Comment list" where
  "UnpostedComments st = filter (\<lambda>c. cm_ID c \<notin> fst ` set (st_posted st) \<and>
     \<not> removed st (cm_Repository c)) (st_comments st)"

definition RecordCommentPost :: "string \<Rightarrow> int \<Rightarrow> Store \<Rightarrow> Store" where
  "RecordCommentPost commentID githubID st =
     (if commentID \<in> fst ` set (st_posted st) then st
      else st\<lparr>st_posted := st_posted st @ [(commentID, githubID)]\<rparr>)"

definition TriagesNeedingComment :: "Store \<Rightarrow> (string \<times> int) list" where
  "TriagesNeedingComment st = case_keys (sort_key (\<lambda>s. tg_TriagedAt (the (sn_Triage s)))
     (filter (\<lambda>s. (case sn_Triage s of None \<Rightarrow> False | Some t \<Rightarrow> tg_Size t = Large) \<and>
        sn_ID s \<notin> set (st_triage_comments st) \<and> \<not> removed st (sn_Repository s)) (db_cases (st_cases st))))"

definition reported :: "Outcome \<Rightarrow> bool" where
  "reported ou = (oc_Kind ou = BudgetExhausted \<or> oc_Kind ou = FailedOutcome \<or>
     (oc_Kind ou = Aborted \<and> oc_Reason ou = AbortOperatorStop))"

definition OutcomesNeedingComment :: "Store \<Rightarrow> string list" where
  "OutcomesNeedingComment st = map at_ID (sort_key (\<lambda>a. oc_EndedAt (the (at_Outcome a)))
     (filter (\<lambda>a. (case at_Outcome a of None \<Rightarrow> False | Some ou \<Rightarrow> reported ou) \<and>
        at_ID a \<notin> set (st_outcome_comments st))
       (concat (map sn_Attempts (filter (\<lambda>s. \<not> removed st (sn_Repository s)) (db_cases (st_cases st)))))))"

end
