(* ===== verification/Scheduling.thy ===== *)
theory Scheduling
  imports Briefs StoreWorld
begin

section \<open>The schedulers and the recoveries\<close>

text \<open>
  \<^verbatim>\<open>internal/app/scheduler.go\<close>, \<^verbatim>\<open>repairs.go\<close> and \<^verbatim>\<open>recovery.go\<close>. A sweep is sequential (the
  dispatcher's mutex), so each service is a function on the daemon's state. The goroutine a
  start spawns runs the agent; what it does to the store is another step, and its end is
  \<^verbatim>\<open>Scheduler_finish\<close>: the deferred \<^verbatim>\<open>backstop\<close>, then the deferred \<^verbatim>\<open>mark\<close>. GitHub is the pair of
  functions \<open>getIssue\<close> and \<open>getPull\<close>, any functions; an error of theirs is \<open>Inl\<close>. \<open>now\<close> is
  what the clock says during the step. Logging and metrics are left out. A database that
  does not answer ends a step before it has done anything; that is not modelled.
\<close>

subsection \<open>Policy, environment and state\<close>

record BudgetPolicy =
  pol_Auto :: Budget
  pol_Approved :: Budget
  pol_Repair :: Budget

definition BudgetPolicy_For :: "BudgetPolicy \<Rightarrow> AttemptKind \<Rightarrow> Budget" where
  "BudgetPolicy_For p kind = (if kind = Approved then pol_Approved p else pol_Auto p)"

record SchedConfig =
  sc_Concurrency :: int
  sc_Budgets :: BudgetPolicy
  sc_RoundCap :: int
  sc_DependabotLogin :: string
  sc_Window :: Duration

record IssueDetail =
  is_Title :: string
  is_Body :: string
  is_Open :: bool

record PullRequestDetail =
  pd_Title :: string
  pd_HeadBranch :: string
  pd_HeadSha :: string
  pd_BaseBranch :: string
  pd_AuthorLogin :: string
  pd_Open :: bool
  pd_Merged :: bool

datatype gherr = ErrPullRequestNotFound | GitHubError string

record Daemon =
  dm_store :: Store
  dm_running :: "string list"
  dm_rounds :: "string list"
  dm_done :: nat

definition with_cases :: "CaseDB \<Rightarrow> Daemon \<Rightarrow> Daemon" where
  "with_cases db d = d\<lparr>dm_store := (dm_store d)\<lparr>st_cases := db\<rparr>\<rparr>"

definition with_bumps :: "BumpDB \<Rightarrow> Daemon \<Rightarrow> Daemon" where
  "with_bumps db d = d\<lparr>dm_store := (dm_store d)\<lparr>st_bumps := db\<rparr>\<rparr>"

subsection \<open>Slots\<close>

definition freeSlots :: "int \<Rightarrow> Store \<Rightarrow> int" where
  "freeSlots concurrency st =
     concurrency - int (length (OpenAttempts st)) - int (length (OpenRepairs (st_bumps st)))"

text \<open>
  The loop of both schedulers. \<open>start\<close> answers the state, and \<open>None\<close> for an error (logged, the
  next key is tried) or whether it started a run.
\<close>

fun slot_loop :: "('k \<Rightarrow> 's \<Rightarrow> 's \<times> bool option) \<Rightarrow> 'k list \<Rightarrow> int \<Rightarrow> 's \<Rightarrow> 's" where
  "slot_loop start [] slots d = d"
| "slot_loop start (k # ks) slots d =
     (if slots = 0 then d
      else case start k d of
        (d', None) \<Rightarrow> slot_loop start ks slots d'
      | (d', Some started) \<Rightarrow> slot_loop start ks (if started then slots - 1 else slots) d')"

subsection \<open>Issue attempts\<close>

definition mark_list :: "string \<Rightarrow> bool \<Rightarrow> string list \<Rightarrow> string list" where
  "mark_list i on xs = (if on then List.insert i xs else removeAll i xs)"

definition Scheduler_mark :: "string \<Rightarrow> bool \<Rightarrow> Daemon \<Rightarrow> Daemon" where
  "Scheduler_mark i on d =
     (let d1 = d\<lparr>dm_running := mark_list i on (dm_running d)\<rparr> in
      if \<not> on \<and> i \<noteq> '''' then d1\<lparr>dm_done := Suc (dm_done d1)\<rparr> else d1)"

text \<open>\<^verbatim>\<open>BuildBrief\<close> always returns (theorem \<^verbatim>\<open>brief_fences_issue\<close>), so \<open>the\<close> is defined.\<close>

definition attempt_update ::
    "BudgetPolicy \<Rightarrow> Repository \<Rightarrow> IssueDetail \<Rightarrow> Time \<Rightarrow> Case \<Rightarrow> Case \<times> derr option" where
  "attempt_update pol repo detail now c =
     (let kind = Case_NextAttemptKind c;
          budget = BudgetPolicy_For pol kind;
          prior = (if cs_attempts c = [] then None else at_Outcome (last (cs_attempts c)))
      in case the (BuildBrief \<lparr>bi_Repository = repo, bi_Case = Some c, bi_Kind = kind, bi_Budget = budget,
                 bi_IssueTitle = is_Title detail, bi_IssueBody = is_Body detail, bi_Prior = prior\<rparr>) of
           Inl e \<Rightarrow> (c, Some e)
         | Inr brief \<Rightarrow>
             (case Case_StartAttempt c kind budget brief now of
                (c', Inl e) \<Rightarrow> (c', Some e) | (c', Inr _) \<Rightarrow> (c', None)))"

definition Scheduler_start ::
    "SchedConfig \<Rightarrow> (string \<Rightarrow> int \<Rightarrow> gherr + IssueDetail) \<Rightarrow> Time \<Rightarrow> string \<times> int \<Rightarrow> Daemon \<Rightarrow>
     Daemon \<times> bool option" where
  "Scheduler_start cfg getIssue now k d =
     (case GetRepository (fst k) (dm_store d) of Inl _ \<Rightarrow> (d, None)
      | Inr repo \<Rightarrow>
        (case getIssue (fst k) (snd k) of Inl _ \<Rightarrow> (d, None)
         | Inr detail \<Rightarrow>
           if \<not> is_Open detail then (d, Some False)
           else (case UpdateCase (fst k) (snd k) (attempt_update (sc_Budgets cfg) repo detail now)
                        (st_cases (dm_store d)) of
              Inl _ \<Rightarrow> (d, None)
            | Inr (db, c) \<Rightarrow>
                let attemptID = (case Case_OpenAttempt c of None \<Rightarrow> '''' | Some a \<Rightarrow> at_ID a)
                in (Scheduler_mark attemptID True (with_cases db d), Some True))))"

definition Scheduler_Run ::
    "SchedConfig \<Rightarrow> (string \<Rightarrow> int \<Rightarrow> gherr + IssueDetail) \<Rightarrow> Time \<Rightarrow> Daemon \<Rightarrow> Daemon" where
  "Scheduler_Run cfg getIssue now d =
     (let slots = freeSlots (sc_Concurrency cfg) (dm_store d) in
      if slots \<le> 0 then d
      else slot_loop (Scheduler_start cfg getIssue now) (QueuedCases (dm_store d)) slots d)"

text \<open>
  The deferred supervisor: \<open>panic\<close> is what the runner panicked with, \<open>down\<close> whether the
  daemon's context has ended.
\<close>

definition zero_usage :: Usage where
  "zero_usage = \<lparr>us_Turns = 0, us_InputTokens = 0, us_OutputTokens = 0, us_WallClock = 0, us_DiffLines = 0\<rparr>"

definition backstop_message :: "string option \<Rightarrow> string" where
  "backstop_message panic = (case panic of
     None \<Rightarrow> ''runner returned without recording an outcome''
   | Some v \<Rightarrow> ''runner panicked: '' @ v)"

definition Scheduler_backstop ::
    "bool \<Rightarrow> string option \<Rightarrow> Time \<Rightarrow> string \<Rightarrow> Daemon \<Rightarrow> Daemon" where
  "Scheduler_backstop down panic now attemptID d =
     (if down then d
      else case GetCaseByAttempt attemptID (st_cases (dm_store d)) of Inl _ \<Rightarrow> d
      | Inr c \<Rightarrow>
        (case Case_OpenAttempt c of None \<Rightarrow> d
         | Some a \<Rightarrow>
           if at_ID a \<noteq> attemptID then d
           else (case OutcomeFailed FailureInfra (backstop_message panic) zero_usage now of Inl _ \<Rightarrow> d
            | Inr ou \<Rightarrow>
              (case UpdateCase (cs_repository c) (cs_number c) (\<lambda>c. Case_RecordOutcome c attemptID ou)
                      (st_cases (dm_store d)) of
                 Inl _ \<Rightarrow> d | Inr (db, _) \<Rightarrow> with_cases db d))))"

definition Scheduler_finish ::
    "bool \<Rightarrow> string option \<Rightarrow> Time \<Rightarrow> string \<Rightarrow> Daemon \<Rightarrow> Daemon" where
  "Scheduler_finish down panic now attemptID d =
     Scheduler_mark attemptID False (Scheduler_backstop down panic now attemptID d)"

definition recovery_update :: "string \<Rightarrow> Time \<Rightarrow> Case \<Rightarrow> Case \<times> derr option" where
  "recovery_update attemptID now c =
     (let (reason, summary) = (if cs_state c = Closed
            then (AbortIssueClosed, ''The issue was closed while the attempt was running.'')
            else (AbortDaemonRestart, ''The daemon restarted during the attempt.''))
      in case OutcomeAborted reason summary zero_usage now of Inl e \<Rightarrow> (c, Some e)
         | Inr ou \<Rightarrow> Case_RecordOutcome c attemptID ou)"

definition Recovery_one :: "Time \<Rightarrow> OpenAttempt \<Rightarrow> Daemon \<Rightarrow> Daemon" where
  "Recovery_one now a d =
     (case UpdateCase (oa_Repository a) (oa_Number a) (recovery_update (oa_AttemptID a) now)
             (st_cases (dm_store d)) of
        Inl _ \<Rightarrow> d | Inr (db, _) \<Rightarrow> with_cases db d)"

definition Recovery_Run :: "Time \<Rightarrow> Daemon \<Rightarrow> Daemon" where
  "Recovery_Run now d = fold (Recovery_one now) (OpenAttempts (dm_store d)) d"

subsection \<open>Repair rounds\<close>

definition RepairScheduler_mark :: "string \<Rightarrow> bool \<Rightarrow> Daemon \<Rightarrow> Daemon" where
  "RepairScheduler_mark i on d =
     (let d1 = d\<lparr>dm_rounds := mark_list i on (dm_rounds d)\<rparr> in
      if \<not> on \<and> i \<noteq> '''' then d1\<lparr>dm_done := Suc (dm_done d1)\<rparr> else d1)"

definition repair_update ::
    "SchedConfig \<Rightarrow> PullRequestDetail \<Rightarrow> Time \<Rightarrow> Bump \<Rightarrow> Bump \<times> derr option" where
  "repair_update cfg pr now b =
     (let budget = pol_Repair (sc_Budgets cfg);
          prior = (if bp_attempts b = [] then None else ra_Outcome (last (bp_attempts b)))
      in case the (BuildRepairBrief \<lparr>rb_Bump = Some b, rb_Round = bp_Rounds b + 1, rb_Budget = budget,
                 rb_Verdict = Bump_CurrentVerdict b, rb_PullRequestTitle = pd_Title pr, rb_Prior = prior\<rparr>) of
           Inl e \<Rightarrow> (b, Some e)
         | Inr brief \<Rightarrow>
             (case Bump_StartRepair b budget brief now (sc_RoundCap cfg) of
                (b', Inl e) \<Rightarrow> (b', Some e) | (b', Inr _) \<Rightarrow> (b', None)))"

definition RepairScheduler_start ::
    "SchedConfig \<Rightarrow> (string \<Rightarrow> int \<Rightarrow> gherr + PullRequestDetail) \<Rightarrow> Time \<Rightarrow> string \<times> int \<Rightarrow> Daemon \<Rightarrow>
     Daemon \<times> bool option" where
  "RepairScheduler_start cfg getPull now k d =
     (let db = st_bumps (dm_store d) in
      if fst k \<notin> set (WatchedRepositories db) then (d, Some False)
      else case getPull (fst k) (snd k) of
        Inl ErrPullRequestNotFound \<Rightarrow> (d, Some False)
      | Inl _ \<Rightarrow> (d, None)
      | Inr pr \<Rightarrow>
        if \<not> pd_Open pr then (d, Some False)
        else if sc_DependabotLogin cfg \<noteq> '''' \<and> pd_AuthorLogin pr \<noteq> sc_DependabotLogin cfg
        then (d, Some False)
        else (case GetBump (fst k) (snd k) db of Inl _ \<Rightarrow> (d, None)
         | Inr current \<Rightarrow>
           if pd_HeadSha pr \<noteq> bp_headSha current then (d, Some False)
           else (case UpdateBump (fst k) (snd k) (repair_update cfg pr now) db of
              Inl _ \<Rightarrow> (d, None)
            | Inr (db', b) \<Rightarrow>
                let repairID = (case Bump_OpenRepair b of None \<Rightarrow> '''' | Some a \<Rightarrow> ra_ID a)
                in (RepairScheduler_mark repairID True (with_bumps db' d), Some True))))"

definition RepairScheduler_Run ::
    "SchedConfig \<Rightarrow> (string \<Rightarrow> int \<Rightarrow> gherr + PullRequestDetail) \<Rightarrow> Time \<Rightarrow> Daemon \<Rightarrow> Daemon" where
  "RepairScheduler_Run cfg getPull now d =
     (let slots = freeSlots (sc_Concurrency cfg) (dm_store d) in
      if slots \<le> 0 then d
      else slot_loop (RepairScheduler_start cfg getPull now) (QueuedBumps (st_bumps (dm_store d))) slots d)"

definition RepairScheduler_backstop ::
    "SchedConfig \<Rightarrow> bool \<Rightarrow> string option \<Rightarrow> Time \<Rightarrow> string \<Rightarrow> Daemon \<Rightarrow> Daemon" where
  "RepairScheduler_backstop cfg down panic now repairID d =
     (if down then d
      else case GetBumpByRepair repairID (st_bumps (dm_store d)) of Inl _ \<Rightarrow> d
      | Inr b \<Rightarrow>
        (case Bump_OpenRepair b of None \<Rightarrow> d
         | Some a \<Rightarrow>
           if ra_ID a \<noteq> repairID then d
           else let message = backstop_message panic;
                    ou = \<lparr>ro_Kind = RepairFailed, ro_EndedAt = now, ro_Usage = zero_usage,
                          ro_Summary = message, ro_HeadSha = '''', ro_Limit = Limit_other '''',
                          ro_Class = FailureInfra, ro_Message = message,
                          ro_Reason = RepairAbortReason_other ''''\<rparr>
                in (case UpdateBumpByRepair repairID
                           (\<lambda>b. Bump_RecordOutcome b repairID ou (sc_RoundCap cfg)) (st_bumps (dm_store d)) of
                      Inl _ \<Rightarrow> d | Inr (db, _) \<Rightarrow> with_bumps db d)))"

definition RepairScheduler_finish ::
    "SchedConfig \<Rightarrow> bool \<Rightarrow> string option \<Rightarrow> Time \<Rightarrow> string \<Rightarrow> Daemon \<Rightarrow> Daemon" where
  "RepairScheduler_finish cfg down panic now repairID d =
     RepairScheduler_mark repairID False (RepairScheduler_backstop cfg down panic now repairID d)"

definition StaleCheckSweeper_Run :: "SchedConfig \<Rightarrow> (Duration \<Rightarrow> string) \<Rightarrow> Time \<Rightarrow> Daemon \<Rightarrow> Daemon" where
  "StaleCheckSweeper_Run cfg show_duration now d =
     (if sc_Window cfg \<le> 0 then d
      else fold (\<lambda>k d. case UpdateBump (fst k) (snd k) (\<lambda>b. Bump_Abandon b
                  \<lparr>ab_Reason = AbandonChecksNeverConcluded,
                   ab_Detail = ''no conclusive check rollup within '' @ show_duration (sc_Window cfg),
                   ab_AbandonedAt = now\<rparr>) (st_bumps (dm_store d)) of
                Inl _ \<Rightarrow> d | Inr (db, _) \<Rightarrow> with_bumps db d)
             (BumpsAwaitingChecksSince (now - sc_Window cfg) (st_bumps (dm_store d))) d)"

definition bump_recovery_update :: "SchedConfig \<Rightarrow> string \<Rightarrow> Time \<Rightarrow> Bump \<Rightarrow> Bump \<times> derr option" where
  "bump_recovery_update cfg repairID now b =
     (let (reason, summary) = (if bp_state b = BumpClosed
            then (AbortPullRequestClosed, ''The pull request closed while the repair round was running.'')
            else (RepairAbortDaemonRestart, ''The daemon restarted during the repair round.''))
      in Bump_RecordOutcome b repairID
           \<lparr>ro_Kind = RepairAborted, ro_EndedAt = now, ro_Usage = zero_usage, ro_Summary = summary,
            ro_HeadSha = '''', ro_Limit = Limit_other '''', ro_Class = FailureClass_other '''',
            ro_Message = '''', ro_Reason = reason\<rparr> (sc_RoundCap cfg))"

definition BumpRecovery_one :: "SchedConfig \<Rightarrow> Time \<Rightarrow> OpenRepair \<Rightarrow> Daemon \<Rightarrow> Daemon" where
  "BumpRecovery_one cfg now r d =
     (case UpdateBump (or_Repository r) (or_Number r) (bump_recovery_update cfg (or_ID r) now)
             (st_bumps (dm_store d)) of
        Inl _ \<Rightarrow> d | Inr (db, _) \<Rightarrow> with_bumps db d)"

definition BumpRecovery_Run :: "SchedConfig \<Rightarrow> Time \<Rightarrow> Daemon \<Rightarrow> Daemon" where
  "BumpRecovery_Run cfg now d = fold (BumpRecovery_one cfg now) (OpenRepairs (st_bumps (dm_store d))) d"

end
