(* ===== verification/StoreCasesInv.thy ===== *)
theory StoreCasesInv
  imports StoreCases
begin

section \<open>The store of cases keeps what the aggregate decided\<close>

text \<open>
  A case read from its rows and changed by commands is, after \<^verbatim>\<open>persistChanges\<close> and a reload,
  the same case: up to the ids the database gave, the order of approvals of one instant
  and intervals cut to the microsecond. The relation \<open>tracks\<close> ties an aggregate to the rows
  it was loaded from and the changes it has collected since.
\<close>

subsection \<open>The aggregate and its pending changes\<close>

definition with_run :: "(nat \<rightharpoonup> Run) \<Rightarrow> Attempt \<Rightarrow> Attempt" where
  "with_run m a = (case m (at_Ordinal a) of None \<Rightarrow> a | Some r \<Rightarrow> a\<lparr>at_Run := Some r\<rparr>)"

definition with_outcome :: "(nat \<rightharpoonup> Outcome) \<Rightarrow> Attempt \<Rightarrow> Attempt" where
  "with_outcome m a = (case m (at_Ordinal a) of None \<Rightarrow> a | Some ou \<Rightarrow> a\<lparr>at_Outcome := Some ou\<rparr>)"

definition tracks :: "Snapshot \<Rightarrow> Case \<Rightarrow> bool" where
  "tracks s c = (let ch = cs_changes c in
     cs_repository c = sn_Repository s \<and> cs_number c = sn_Number s \<and>
     cs_requester c = sn_Requester s \<and> cs_receivedAt c = sn_ReceivedAt s \<and>
     cs_state c = ch_State ch \<and>
     cs_transitions c = sn_Transitions s @ ch_Transitions ch \<and>
     cs_approvals c = sort_key ap_ApprovedAt (sn_Approvals s) @ ch_Approvals ch \<and>
     cs_triage c = (case ch_Triage ch of None \<Rightarrow> sn_Triage s | Some t \<Rightarrow> Some t) \<and>
     cs_closure c = (case ch_Closure ch of None \<Rightarrow> sn_Closure s | Some t \<Rightarrow> Some t) \<and>
     cs_attempts c = map (with_outcome (ch_Outcomes ch) \<circ> with_run (ch_Runs ch))
                       (sn_Attempts s @ ch_Attempts ch) \<and>
     list_all (\<lambda>a. at_Run a = None \<and> at_Outcome a = None) (ch_Attempts ch) \<and>
     dom (ch_Runs ch) \<union> dom (ch_Outcomes ch) \<subseteq>
       at_Ordinal ` set (sn_Attempts s @ ch_Attempts ch))"

fun domain_cmd :: "case_cmd \<Rightarrow> bool" where
  "domain_cmd (CmdAssignID _) = False"
| "domain_cmd CmdClear = False"
| "domain_cmd _ = True"

text \<open>What an update function does: commands in turn, the first error ends it.\<close>

fun case_seq :: "Case \<Rightarrow> case_cmd list \<Rightarrow> Case \<times> derr option" where
  "case_seq c [] = (c, None)"
| "case_seq c (x # xs) =
     (case case_exec c x of (c', Some e) \<Rightarrow> (c', Some e) | (c', None) \<Rightarrow> case_seq c' xs)"

lemma ordinal_with [simp]:
  "at_Ordinal (with_run m a) = at_Ordinal a" "at_Ordinal (with_outcome m' a) = at_Ordinal a"
  by (simp_all add: with_run_def with_outcome_def split: option.splits)

lemma with_empty [simp]: "with_run Map.empty = id" "with_outcome Map.empty = id"
  by (simp_all add: with_run_def with_outcome_def fun_eq_iff)

lemma with_upd:
  "at_Ordinal a \<noteq> n \<Longrightarrow> with_run (m(n \<mapsto> r)) a = with_run m a"
  "at_Ordinal a \<noteq> n \<Longrightarrow> with_outcome (m'(n \<mapsto> ou)) a = with_outcome m' a"
  by (simp_all add: with_run_def with_outcome_def)

lemma with_upd_same:
  "with_run (m(at_Ordinal a \<mapsto> r)) a = (with_run m a)\<lparr>at_Run := Some r\<rparr>"
  "with_outcome (m'(at_Ordinal a \<mapsto> ou)) a = (with_outcome m' a)\<lparr>at_Outcome := Some ou\<rparr>"
  by (simp_all add: with_run_def with_outcome_def split: option.splits)

lemma with_fresh:
  "at_Ordinal a \<notin> dom m \<Longrightarrow> with_run m a = a" "at_Ordinal a \<notin> dom m' \<Longrightarrow> with_outcome m' a = a"
  by (auto simp: with_run_def with_outcome_def dom_def)

lemma with_commute:
  "with_outcome m (a\<lparr>at_Run := x\<rparr>) = (with_outcome m a)\<lparr>at_Run := x\<rparr>"
  by (simp add: with_outcome_def split: option.splits)

definition limits_positive :: "Budget \<Rightarrow> bool" where
  "limits_positive b = (0 < bg_maxTurns b \<and> 0 < bg_maxWallClock b \<and> 0 < bg_maxDiffLines b)"

lemma NewBudget_again:
  "\<exists>e. NewBudget (bg_maxTurns b) (bg_maxWallClock b) (bg_maxDiffLines b) =
     (if limits_positive b then Inr b else Inl e)"
  by (cases b) (auto simp: NewBudget_def limits_positive_def)

lemma budget_again [simp]: "(a::Attempt)\<lparr>at_Budget := at_Budget a\<rparr> = a"
  by (cases a) simp

lemma load_budgets_Inr:
  "load_budgets as = Inr as' \<longleftrightarrow> as' = as \<and> list_all (\<lambda>a. limits_positive (at_Budget a)) as"
proof (induction as arbitrary: as')
  case (Cons a as)
  obtain e where e: "NewBudget (bg_maxTurns (at_Budget a)) (bg_maxWallClock (at_Budget a))
      (bg_maxDiffLines (at_Budget a)) = (if limits_positive (at_Budget a) then Inr (at_Budget a) else Inl e)"
    using NewBudget_again by blast
  show ?case
  proof (cases "load_budgets as")
    case (Inl x)
    with Cons.IH [of as] show ?thesis by (simp add: e)
  next
    case (Inr x)
    with Cons.IH [of x] show ?thesis by (auto simp: e)
  qed
qed auto

lemma loadCase_Inr:
  "loadCase s = Inr c \<longleftrightarrow>
     list_all (\<lambda>a. limits_positive (at_Budget a)) (sn_Attempts s) \<and>
     sn_Repository s \<noteq> '''' \<and> 1 \<le> sn_Number s \<and> rq_Login (sn_Requester s) \<noteq> '''' \<and>
     \<not> (sn_State s = Gated \<and> rq_Trust (sn_Requester s) = Trusted) \<and>
     \<not> (sn_State s = Received \<and> rq_Trust (sn_Requester s) = Untrusted) \<and>
     length (filter Attempt_Open (sn_Attempts s)) \<le> 1 \<and>
     c = \<lparr>cs_id = sn_ID s, cs_repository = sn_Repository s, cs_number = sn_Number s,
          cs_requester = sn_Requester s, cs_state = sn_State s, cs_receivedAt = sn_ReceivedAt s,
          cs_triage = sn_Triage s, cs_approvals = sort_key ap_ApprovedAt (sn_Approvals s),
          cs_attempts = sn_Attempts s, cs_transitions = sn_Transitions s,
          cs_closure = sn_Closure s, cs_changes = no_changes (sn_State s)\<rparr>"
proof (cases "load_budgets (sn_Attempts s)")
  case (Inl e)
  then have "\<not> list_all (\<lambda>a. limits_positive (at_Budget a)) (sn_Attempts s)"
    using load_budgets_Inr [of "sn_Attempts s" "sn_Attempts s"] by simp
  with Inl show ?thesis by (simp add: loadCase_def)
next
  case (Inr as)
  then have "as = sn_Attempts s" "list_all (\<lambda>a. limits_positive (at_Budget a)) (sn_Attempts s)"
    using load_budgets_Inr by blast+
  with Inr show ?thesis by (auto simp: loadCase_def LoadCase_def)
qed

lemma tracks_loaded:
  assumes "loadCase s = Inr c" shows "tracks s c"
  using assms by (auto simp: loadCase_Inr tracks_def no_changes_def Let_def)

lemma Case_move_changes [simp]:
  "cs_changes (Case_move c st k t) = (cs_changes c)
     \<lparr>ch_Transitions := ch_Transitions (cs_changes c) @
        [\<lparr>tr_From = cs_state c, tr_To = st, tr_Cause = k, tr_OccurredAt = t\<rparr>], ch_State := st\<rparr>"
  by (simp add: Case_move_def Let_def)

subsection \<open>Every command keeps track of what it changes\<close>

lemma tracks_triage:
  assumes "tracks s c" "Case_RecordTriage c t = (c', None)" shows "tracks s c'"
  using assms by (simp add: RecordTriage_ok tracks_def Let_def)

lemma tracks_approval:
  assumes "tracks s c" "Case_RecordApproval c a = (c', None)" shows "tracks s c'"
  using assms by (simp add: RecordApproval_ok tracks_def Let_def split: if_splits)

lemma tracks_close:
  assumes "tracks s c" "Case_Close c cl = (c', None)" shows "tracks s c'"
  using assms by (simp add: Close_ok tracks_def Let_def)

lemma tracked_ordinals:
  "tracks s c \<Longrightarrow> at_Ordinal ` set (cs_attempts c) = at_Ordinal ` set (sn_Attempts s @ ch_Attempts (cs_changes c))"
  by (simp add: tracks_def Let_def image_Un image_image)

lemma tracks_start:
  assumes "tracks s c" "numbered at_Ordinal (cs_attempts c)" "Case_StartAttempt c k b br t = (c', Inr a)"
  shows "tracks s c'"
proof -
  have a: "at_Ordinal a = Suc (length (cs_attempts c))" "at_Run a = None" "at_Outcome a = None"
    and c': "c' = Case_move (c\<lparr>cs_attempts := cs_attempts c @ [a],
            cs_changes := (cs_changes c)\<lparr>ch_Attempts := ch_Attempts (cs_changes c) @ [a]\<rparr>\<rparr>)
            Attempting CauseAttemptStarted t"
    using assms(3) by (simp_all add: StartAttempt_ok)
  have "at_Ordinal ` set (cs_attempts c) = {1..<Suc (length (cs_attempts c))}"
    using arg_cong [OF assms(2) [unfolded numbered_def], of set] by (auto simp del: upt_Suc)
  then have "at_Ordinal a \<notin> at_Ordinal ` set (cs_attempts c)" by (auto simp: a(1))
  then have "at_Ordinal a \<notin> dom (ch_Runs (cs_changes c)) \<union> dom (ch_Outcomes (cs_changes c))"
    using assms(1) unfolding tracked_ordinals [OF assms(1)] by (auto simp: tracks_def Let_def)
  with assms(1) a(2,3) show ?thesis by (auto simp: tracks_def Let_def c' with_fresh)
qed

lemma tracked_last:
  assumes "tracks s c" "cs_attempts c = as @ [a]" "numbered at_Ordinal (cs_attempts c)"
  obtains L l where "sn_Attempts s @ ch_Attempts (cs_changes c) = L @ [l]"
    "as = map (with_outcome (ch_Outcomes (cs_changes c)) \<circ> with_run (ch_Runs (cs_changes c))) L"
    "a = with_outcome (ch_Outcomes (cs_changes c)) (with_run (ch_Runs (cs_changes c)) l)"
    "at_Ordinal a = at_Ordinal l" "\<forall>x\<in>set L. at_Ordinal x \<noteq> at_Ordinal l"
proof -
  let ?g = "with_outcome (ch_Outcomes (cs_changes c)) \<circ> with_run (ch_Runs (cs_changes c))"
  have m: "map ?g (sn_Attempts s @ ch_Attempts (cs_changes c)) = as @ [a]"
    using assms(1,2) by (simp add: tracks_def Let_def)
  obtain L l where L: "sn_Attempts s @ ch_Attempts (cs_changes c) = L @ [l]"
    using m by (cases "sn_Attempts s @ ch_Attempts (cs_changes c)" rule: rev_cases) auto
  from m have as: "as = map ?g L" "a = ?g l" by (simp_all add: L)
  from assms(3) have "list_all (\<lambda>x. at_Ordinal x < at_Ordinal a) as"
    unfolding assms(2) by (rule numbered_less)
  then have "\<forall>x\<in>set L. at_Ordinal x \<noteq> at_Ordinal l" by (auto simp: as list_all_iff)
  with L as that show thesis by simp
qed

lemma tracks_run:
  assumes "tracks s c" "numbered at_Ordinal (cs_attempts c)" "only_last Attempt_Open (cs_attempts c)"
    "Case_RecordRun c i r = (c', None)"
  shows "tracks s c'"
proof -
  obtain as a where as: "cs_attempts c = as @ [a]"
    and c': "c' = c\<lparr>cs_attempts := as @ [a\<lparr>at_Run := Some r\<rparr>],
            cs_changes := (cs_changes c)\<lparr>ch_Runs := (ch_Runs (cs_changes c))(at_Ordinal a \<mapsto> r)\<rparr>\<rparr>"
    using assms(3,4) by (rule RecordRun_ok)
  obtain L l where L: "sn_Attempts s @ ch_Attempts (cs_changes c) = L @ [l]"
    "as = map (with_outcome (ch_Outcomes (cs_changes c)) \<circ> with_run (ch_Runs (cs_changes c))) L"
    "a = with_outcome (ch_Outcomes (cs_changes c)) (with_run (ch_Runs (cs_changes c)) l)"
    "at_Ordinal a = at_Ordinal l" "\<forall>x\<in>set L. at_Ordinal x \<noteq> at_Ordinal l"
    using assms(1) as assms(2) by (rule tracked_last)
  have "map (with_outcome (ch_Outcomes (cs_changes c)) \<circ> with_run ((ch_Runs (cs_changes c))(at_Ordinal a \<mapsto> r)))
      (L @ [l]) = as @ [a\<lparr>at_Run := Some r\<rparr>]"
    using L(3-5) by (simp add: L(2) with_upd with_upd_same with_commute)
  then have m: "as @ [a\<lparr>at_Run := Some r\<rparr>] = map (with_outcome (ch_Outcomes (cs_changes c)) \<circ>
      with_run ((ch_Runs (cs_changes c))(at_Ordinal a \<mapsto> r))) (sn_Attempts s @ ch_Attempts (cs_changes c))"
    by (simp only: L(1))
  have "at_Ordinal a \<in> at_Ordinal ` set (sn_Attempts s @ ch_Attempts (cs_changes c))"
    by (simp only: L(1)) (simp add: L(4))
  with m assms(1) show ?thesis by (simp add: tracks_def Let_def c')
qed

lemma tracks_outcome:
  assumes "tracks s c" "numbered at_Ordinal (cs_attempts c)" "only_last Attempt_Open (cs_attempts c)"
    "Case_RecordOutcome c i ou = (c', None)"
  shows "tracks s c'"
proof -
  obtain as a moves c1 where as: "cs_attempts c = as @ [a]"
    and c1: "c1 = c\<lparr>cs_attempts := as @ [a\<lparr>at_Outcome := Some ou\<rparr>],
            cs_changes := (cs_changes c)
              \<lparr>ch_Outcomes := (ch_Outcomes (cs_changes c))(at_Ordinal a \<mapsto> ou)\<rparr>\<rparr>"
    and c': "c' = (case moves of None \<Rightarrow> c1 | Some (s, k) \<Rightarrow> Case_move c1 s k (oc_EndedAt ou))"
    using assms(3,4) by (rule RecordOutcome_ok)
  obtain L l where L: "sn_Attempts s @ ch_Attempts (cs_changes c) = L @ [l]"
    "as = map (with_outcome (ch_Outcomes (cs_changes c)) \<circ> with_run (ch_Runs (cs_changes c))) L"
    "a = with_outcome (ch_Outcomes (cs_changes c)) (with_run (ch_Runs (cs_changes c)) l)"
    "at_Ordinal a = at_Ordinal l" "\<forall>x\<in>set L. at_Ordinal x \<noteq> at_Ordinal l"
    using assms(1) as assms(2) by (rule tracked_last)
  have upd: "with_outcome ((ch_Outcomes (cs_changes c))(at_Ordinal l \<mapsto> ou)) (with_run (ch_Runs (cs_changes c)) x) =
      (if at_Ordinal x = at_Ordinal l then
        (with_outcome (ch_Outcomes (cs_changes c)) (with_run (ch_Runs (cs_changes c)) x))\<lparr>at_Outcome := Some ou\<rparr>
       else with_outcome (ch_Outcomes (cs_changes c)) (with_run (ch_Runs (cs_changes c)) x))" for x
    by (simp add: with_outcome_def split: option.splits)
  have "map (with_outcome ((ch_Outcomes (cs_changes c))(at_Ordinal a \<mapsto> ou)) \<circ> with_run (ch_Runs (cs_changes c)))
      (L @ [l]) = as @ [a\<lparr>at_Outcome := Some ou\<rparr>]"
    using L(3-5) by (simp add: L(2) upd)
  then have m: "as @ [a\<lparr>at_Outcome := Some ou\<rparr>] = map (with_outcome ((ch_Outcomes (cs_changes c))
      (at_Ordinal a \<mapsto> ou)) \<circ> with_run (ch_Runs (cs_changes c))) (sn_Attempts s @ ch_Attempts (cs_changes c))"
    by (simp only: L(1))
  have "at_Ordinal a \<in> at_Ordinal ` set (sn_Attempts s @ ch_Attempts (cs_changes c))"
    by (simp only: L(1)) (simp add: L(4))
  with m assms(1) have "tracks s c1" by (simp add: tracks_def Let_def c1)
  then show ?thesis by (simp add: tracks_def Let_def c' split: option.splits prod.splits)
qed

lemma tracks_exec:
  assumes "tracks s c" "case_inv c" "domain_cmd x" "case_exec c x = (c', None)"
  shows "tracks s c'"
proof (cases x)
  case (CmdStart k b br t)
  with assms obtain a where "Case_StartAttempt c k b br t = (c', Inr a)"
    by (auto split: prod.splits sum.splits)
  then show ?thesis by (rule tracks_start [OF assms(1) inv_numbered [OF assms(2)]])
qed (use assms inv_numbered [OF assms(2)] inv_only_last [OF assms(2)] in
    \<open>auto intro: tracks_triage tracks_approval tracks_close tracks_run tracks_outcome\<close>)

lemma exec_keeps_id:
  assumes "domain_cmd x" shows "cs_id (fst (case_exec c x)) = cs_id c"
  using assms
  by (cases x)
     (auto simp: Case_RecordTriage_def Case_RecordApproval_def Case_StartAttempt_def Case_RecordRun_def
        Case_RecordOutcome_def Case_Close_def Let_def split: sum.splits prod.splits option.splits if_splits)

lemma tracks_seq:
  assumes "tracks s c" "case_inv c" "list_all domain_cmd xs" "case_seq c xs = (c', None)"
  shows "tracks s c' \<and> case_inv c' \<and> cs_id c' = cs_id c"
  using assms
proof (induction xs arbitrary: c)
  case (Cons x xs)
  then obtain c1 where c1: "case_exec c x = (c1, None)" "case_seq c1 xs = (c', None)"
    by (auto split: prod.splits option.splits)
  with Cons.prems have "tracks s c1" "case_inv c1" "cs_id c1 = cs_id c"
    using tracks_exec case_exec_inv [of c x] exec_keeps_id [of x c] by auto
  with Cons.IH [of c1] Cons.prems(3) c1(2) show ?case by simp
qed simp

subsection \<open>What the database holds after the changes are written\<close>

definition approval_key :: "Approval \<Rightarrow> Approval" where
  "approval_key a = a\<lparr>ap_ID := '''',
     ap_DeliveryID := (if ap_Source a = SourceLabel then ap_DeliveryID a else '''')\<rparr>"

text \<open>The attempt the rows hold for an attempt of the aggregate: equal, or with its intervals cut.\<close>

definition stored_as :: "Attempt \<Rightarrow> Attempt \<Rightarrow> bool" where
  "stored_as a a' = (at_Ordinal a' = at_Ordinal a \<and> at_Kind a' = at_Kind a \<and> at_Brief a' = at_Brief a \<and>
     at_StartedAt a' = at_StartedAt a \<and> at_Run a' = at_Run a \<and>
     at_Budget a' \<in> {at_Budget a, stored_budget (at_Budget a)} \<and>
     at_Outcome a' \<in> {at_Outcome a, map_option stored_outcome (at_Outcome a)})"

lemma insert_triage_Some:
  "insert_triage t s = Some s' \<Longrightarrow>
     s' = s\<lparr>sn_Triage := (case t of None \<Rightarrow> sn_Triage s | Some x \<Rightarrow> Some x)\<rparr>"
  by (auto simp: insert_triage_def split: option.splits if_splits)

lemma insert_closure_Some:
  "insert_closure cl s db = Some (s', db') \<Longrightarrow>
     s' = s\<lparr>sn_Closure := (case cl of None \<Rightarrow> sn_Closure s | Some x \<Rightarrow> Some x)\<rparr>"
  by (auto simp: insert_closure_def split: option.splits if_splits)

lemma insert_approvals_Some:
  "insert_approvals as s db = Some (s', db') \<Longrightarrow>
     \<exists>as'. s' = s\<lparr>sn_Approvals := sn_Approvals s @ as'\<rparr> \<and> map approval_key as' = map approval_key as"
proof (induction as arbitrary: s db)
  case (Cons a as)
  then obtain s1 db1 a' where s1: "insert_approvals as s1 db1 = Some (s', db')"
      "s1 = s\<lparr>sn_Approvals := sn_Approvals s @ [a']\<rparr>"
    and a': "a' = a\<lparr>ap_ID := fresh_id (db_fresh db),
                ap_DeliveryID := (if ap_Source a = SourceLabel then ap_DeliveryID a else '''')\<rparr>"
    by (auto split: if_splits)
  moreover obtain as' where "s' = s1\<lparr>sn_Approvals := sn_Approvals s1 @ as'\<rparr>"
      "map approval_key as' = map approval_key as"
    using Cons.IH [OF s1(1)] by blast
  moreover have "approval_key a' = approval_key a" by (simp add: a' approval_key_def)
  ultimately show ?case by (intro exI [of _ "a' # as'"]) simp
qed simp

lemma insert_attempts_Some:
  "insert_attempts as s db = Some (s', db') \<Longrightarrow> list_all (\<lambda>a. at_Run a = None \<and> at_Outcome a = None) as \<Longrightarrow>
     \<exists>as'. s' = s\<lparr>sn_Attempts := sn_Attempts s @ as'\<rparr> \<and> list_all2 stored_as as as' \<and>
       list_all attempt_row_ok as \<and> list_all (\<lambda>a. at_Run a = None \<and> at_Outcome a = None) as' \<and>
       map at_Budget as' = map (stored_budget \<circ> at_Budget) as"
proof (induction as arbitrary: s db)
  case (Cons a as)
  then obtain s1 db1 a' where s1: "insert_attempts as s1 db1 = Some (s', db')" "attempt_row_ok a"
      "s1 = s\<lparr>sn_Attempts := sn_Attempts s @ [a']\<rparr>"
    and a': "a' = a\<lparr>at_ID := fresh_id (db_fresh db), at_Budget := stored_budget (at_Budget a),
                at_Run := None, at_Outcome := None\<rparr>"
    by (auto split: if_splits)
  moreover obtain as' where "s' = s1\<lparr>sn_Attempts := sn_Attempts s1 @ as'\<rparr>" "list_all2 stored_as as as'"
      "list_all attempt_row_ok as" "list_all (\<lambda>a. at_Run a = None \<and> at_Outcome a = None) as'"
      "map at_Budget as' = map (stored_budget \<circ> at_Budget) as"
    using Cons.IH [OF s1(1)] Cons.prems(2) by auto
  moreover have "stored_as a a'" using Cons.prems(2) by (simp add: a' stored_as_def)
  ultimately show ?case by (intro exI [of _ "a' # as'"]) simp
qed simp

lemma update_by_key:
  assumes "distinct (map k xs)" "first_index (\<lambda>a. k a = n) xs = Some i"
  shows "xs[i := f (xs ! i)] = map (\<lambda>a. if k a = n then f a else a) xs" "k (xs ! i) = n"
  using assms
proof (induction xs arbitrary: i)
  case (Cons x xs)
  { case 1
    show ?case
    proof (cases "k x = n")
      case True
      have "n \<notin> k ` set xs" using True 1(1) by simp
      then have "map (\<lambda>a. if k a = n then f a else a) xs = xs"
        by (intro map_idI) (auto simp: image_iff)
      with True 1 show ?thesis by simp
    next
      case False
      with 1 obtain j where "i = Suc j" "first_index (\<lambda>a. k a = n) xs = Some j" by auto
      with False 1 Cons.IH(1) [of j] show ?thesis by simp
    qed
  }
  { case 2
    then show ?case using Cons.IH(2) by (cases i) (auto split: if_splits)
  }
qed simp_all

lemma insert_run_Some:
  assumes "insert_run n r s db = Some (s', db')" "distinct (map at_Ordinal (sn_Attempts s))"
  shows "s' = s\<lparr>sn_Attempts := map (\<lambda>a. if at_Ordinal a = n then a\<lparr>at_Run := Some r\<rparr> else a) (sn_Attempts s)\<rparr>"
  using assms update_by_key(1) [OF assms(2), of n _ "\<lambda>a. a\<lparr>at_Run := Some r\<rparr>"]
  by (auto simp: insert_run_def attemptIDFor_def split: option.splits if_splits)

lemma insertOutcome_Some:
  assumes "insertOutcome n ou s = Some s'" "distinct (map at_Ordinal (sn_Attempts s))"
  shows "s' = s\<lparr>sn_Attempts := map (\<lambda>a. if at_Ordinal a = n then a\<lparr>at_Outcome := Some (stored_outcome ou)\<rparr>
                                  else a) (sn_Attempts s)\<rparr>"
  using assms update_by_key(1) [OF assms(2), of n _ "\<lambda>a. a\<lparr>at_Outcome := Some (stored_outcome ou)\<rparr>"]
  by (auto simp: insertOutcome_def attemptIDFor_def split: option.splits if_splits)

lemma insert_runs_Some:
  "insert_runs ns m s db = Some (s', db') \<Longrightarrow> distinct ns \<Longrightarrow> distinct (map at_Ordinal (sn_Attempts s)) \<Longrightarrow>
     s' = s\<lparr>sn_Attempts := map (with_run (m |` set ns)) (sn_Attempts s)\<rparr>"
proof (induction ns arbitrary: s db)
  case Nil
  then show ?case by (simp add: with_run_def)
next
  case (Cons n ns)
  show ?case
  proof (cases "m n")
    case None
    have "with_run (m |` set ns) = with_run (m |` set (n # ns))"
      by (auto simp: with_run_def restrict_map_def fun_eq_iff None)
    with Cons.IH [of s db] Cons.prems None show ?thesis by simp
  next
    case (Some r)
    with Cons.prems obtain s1 db1 where r: "insert_run n r s db = Some (s1, db1)"
        "insert_runs ns m s1 db1 = Some (s', db')"
      by (auto split: option.splits)
    let ?f = "\<lambda>a. if at_Ordinal a = n then a\<lparr>at_Run := Some r\<rparr> else a"
    have s1: "s1 = s\<lparr>sn_Attempts := map ?f (sn_Attempts s)\<rparr>"
      using insert_run_Some [OF r(1) Cons.prems(3)] .
    have "map at_Ordinal (sn_Attempts s1) = map at_Ordinal (sn_Attempts s)" by (simp add: s1)
    with Cons.IH [OF r(2)] Cons.prems
    have "s' = s1\<lparr>sn_Attempts := map (with_run (m |` set ns)) (sn_Attempts s1)\<rparr>" by simp
    moreover have "with_run (m |` set ns) (?f a) = with_run (m |` set (n # ns)) a" for a
      using Some Cons.prems(2) by (auto simp: with_run_def restrict_map_def split: option.splits)
    ultimately show ?thesis by (simp add: s1)
  qed
qed

lemma insert_outcomes_Some:
  "insert_outcomes ns m s = Some s' \<Longrightarrow> distinct ns \<Longrightarrow> distinct (map at_Ordinal (sn_Attempts s)) \<Longrightarrow>
     s' = s\<lparr>sn_Attempts := map (with_outcome ((\<lambda>n. map_option stored_outcome (m n)) |` set ns)) (sn_Attempts s)\<rparr>"
proof (induction ns arbitrary: s)
  case Nil
  then show ?case by (simp add: with_outcome_def)
next
  case (Cons n ns)
  let ?m = "\<lambda>n. map_option stored_outcome (m n)"
  show ?case
  proof (cases "m n")
    case None
    have "with_outcome (?m |` set ns) = with_outcome (?m |` set (n # ns))"
      by (auto simp: with_outcome_def restrict_map_def fun_eq_iff None)
    with Cons.IH [of s] Cons.prems None show ?thesis by simp
  next
    case (Some r)
    with Cons.prems obtain s1 where r: "insertOutcome n r s = Some s1" "insert_outcomes ns m s1 = Some s'"
      by (auto split: option.splits)
    let ?f = "\<lambda>a. if at_Ordinal a = n then a\<lparr>at_Outcome := Some (stored_outcome r)\<rparr> else a"
    have s1: "s1 = s\<lparr>sn_Attempts := map ?f (sn_Attempts s)\<rparr>"
      using insertOutcome_Some [OF r(1) Cons.prems(3)] .
    have "map at_Ordinal (sn_Attempts s1) = map at_Ordinal (sn_Attempts s)" by (simp add: s1)
    with Cons.IH [OF r(2)] Cons.prems
    have "s' = s1\<lparr>sn_Attempts := map (with_outcome (?m |` set ns)) (sn_Attempts s1)\<rparr>" by simp
    moreover have "with_outcome (?m |` set ns) (?f a) = with_outcome (?m |` set (n # ns)) a" for a
      using Some Cons.prems(2) by (auto simp: with_outcome_def restrict_map_def split: option.splits)
    ultimately show ?thesis by (simp add: s1)
  qed
qed

lemma insert_keeps:
  "insert_runs ns m s db = Some (s', db') \<Longrightarrow> db_cases db' = db_cases db"
  "insert_approvals aps s db = Some (s', db') \<Longrightarrow> db_cases db' = db_cases db"
  "insert_attempts as s db = Some (s', db') \<Longrightarrow> db_cases db' = db_cases db"
  "insert_closure cl s db = Some (s', db') \<Longrightarrow> db_cases db' = db_cases db"
proof -
  show "insert_runs ns m s db = Some (s', db') \<Longrightarrow> db_cases db' = db_cases db"
  proof (induction ns arbitrary: s db)
    case (Cons n ns)
    show ?case
    proof (cases "m n")
      case None
      with Cons show ?thesis by simp
    next
      case (Some r)
      with Cons.prems obtain s1 db1 where "insert_run n r s db = Some (s1, db1)"
          "insert_runs ns m s1 db1 = Some (s', db')" by (auto split: option.splits)
      moreover from this(1) have "db_cases db1 = db_cases db"
        by (auto simp: insert_run_def split: option.splits if_splits)
      ultimately show ?thesis using Cons.IH by simp
    qed
  qed simp
  show "insert_approvals aps s db = Some (s', db') \<Longrightarrow> db_cases db' = db_cases db"
  proof (induction aps arbitrary: s db)
    case (Cons a aps)
    then obtain s1 db1 where "insert_approvals aps s1 db1 = Some (s', db')" "db_cases db1 = db_cases db"
      by (auto split: if_splits)
    with Cons.IH show ?case by simp
  qed simp
  show "insert_attempts as s db = Some (s', db') \<Longrightarrow> db_cases db' = db_cases db"
  proof (induction as arbitrary: s db)
    case (Cons a as)
    then obtain s1 db1 where "insert_attempts as s1 db1 = Some (s', db')" "db_cases db1 = db_cases db"
      by (auto split: if_splits)
    with Cons.IH show ?case by simp
  qed simp
  show "insert_closure cl s db = Some (s', db') \<Longrightarrow> db_cases db' = db_cases db"
    by (auto simp: insert_closure_def split: option.splits if_splits)
qed

lemma toInterval_pos:
  assumes "0 < toInterval d" "d < 2 ^ 63"
  shows "0 < fromInterval (toInterval d)" "fromInterval (toInterval d) = d div 1000 * 1000"
proof -
  have "0 \<le> d"
  proof (rule ccontr)
    assume "\<not> 0 \<le> d"
    then have "d sdiv 1000 \<le> 0" by (simp add: signed_divide_int_def)
    with assms(1) show False by (simp add: toInterval_def)
  qed
  then have q: "toInterval d = d div 1000"
    by (cases "d = 0") (simp_all add: toInterval_def signed_divide_int_def)
  have "d div 1000 * 1000 = d - d mod 1000" by (simp add: minus_mod_eq_div_mult [symmetric])
  then have "d div 1000 * 1000 \<le> d" by simp
  moreover have "0 \<le> d div 1000 * 1000" using \<open>0 \<le> d\<close> by (simp add: pos_imp_zdiv_nonneg_iff)
  ultimately have "i64 (d div 1000 * 1000) = d div 1000 * 1000"
    using assms(2) by (intro i64_id) simp_all
  with q assms(1) show "0 < fromInterval (toInterval d)" "fromInterval (toInterval d) = d div 1000 * 1000"
    by (simp_all add: fromInterval_def)
qed

lemma stored_as_refl [simp]: "stored_as a a"
  by (simp add: stored_as_def)

lemma stored_as_with:
  assumes "stored_as a a'"
  shows "stored_as (with_outcome mo (with_run mr a))
           (with_outcome (\<lambda>n. map_option stored_outcome (mo n)) (with_run mr a'))"
  using assms
  by (auto simp: stored_as_def with_outcome_def with_run_def split: option.splits)

lemma budget_with [simp]:
  "at_Budget (with_run m a) = at_Budget a" "at_Budget (with_outcome m' a) = at_Budget a"
  by (simp_all add: with_run_def with_outcome_def split: option.splits)

lemma restrict_covering: "dom m \<subseteq> A \<Longrightarrow> m |` A = m"
  by (rule ext) (metis domIff restrict_in restrict_out subsetD)

definition int64_budgets :: "Attempt list \<Rightarrow> bool" where
  "int64_budgets as = list_all (\<lambda>a. bg_maxWallClock (at_Budget a) < 2 ^ 63) as"

lemma int64_budgets_map: "int64_budgets as = (\<forall>b \<in> set (map at_Budget as). bg_maxWallClock b < 2 ^ 63)"
  by (simp add: int64_budgets_def list_all_iff)

definition same_facts :: "Case \<Rightarrow> Snapshot \<Rightarrow> bool" where
  "same_facts c s = (sn_Repository s = cs_repository c \<and> sn_Number s = cs_number c \<and>
     sn_Requester s = cs_requester c \<and> sn_ReceivedAt s = cs_receivedAt c \<and> sn_State s = cs_state c \<and>
     sn_Triage s = cs_triage c \<and> sn_Closure s = cs_closure c \<and> sn_Transitions s = cs_transitions c \<and>
     mset (map approval_key (sn_Approvals s)) = mset (map approval_key (cs_approvals c)) \<and>
     list_all2 stored_as (cs_attempts c) (sn_Attempts s))"

lemma persist_attempts:
  assumes "tracks s c" "numbered at_Ordinal (cs_attempts c)"
    and at: "insert_attempts (ch_Attempts (cs_changes c)) s2 db2 = Some (s3, db3)"
    and s2: "sn_Attempts s2 = sn_Attempts s"
    and ords: "ords = map at_Ordinal (sn_Attempts s @ ch_Attempts (cs_changes c))"
    and r: "insert_runs ords (ch_Runs (cs_changes c)) s3 db3 = Some (s4, db4)"
    and ou: "insert_outcomes ords (ch_Outcomes (cs_changes c)) s4 = Some s5"
  shows "\<exists>as. s5 = s2\<lparr>sn_Attempts := as\<rparr> \<and> list_all2 stored_as (cs_attempts c) as \<and>
     map at_Budget as = map at_Budget (sn_Attempts s) @ map (stored_budget \<circ> at_Budget) (ch_Attempts (cs_changes c))"
proof -
  let ?R = "ch_Runs (cs_changes c)" and ?O = "ch_Outcomes (cs_changes c)"
  let ?O' = "\<lambda>n. map_option stored_outcome (?O n)"
  let ?new = "ch_Attempts (cs_changes c)"
  have fresh: "list_all (\<lambda>a. at_Run a = None \<and> at_Outcome a = None) ?new"
    and dm: "dom ?R \<subseteq> set ords" "dom ?O \<subseteq> set ords"
    and as: "cs_attempts c = map (with_outcome ?O \<circ> with_run ?R) (sn_Attempts s @ ?new)"
    using assms(1) by (auto simp: tracks_def Let_def ords)
  have "map at_Ordinal (cs_attempts c) = ords" by (simp add: as ords)
  then have dist: "distinct ords" using assms(2) by (metis distinct_upt numbered_def)
  from insert_attempts_Some [OF at fresh] obtain as' where as':
      "s3 = s2\<lparr>sn_Attempts := sn_Attempts s2 @ as'\<rparr>" "list_all2 stored_as ?new as'"
      "map at_Budget as' = map (stored_budget \<circ> at_Budget) ?new"
    by blast
  have "map at_Ordinal as' = map at_Ordinal ?new"
    using as'(2) by (induction rule: list_all2_induct) (auto simp: stored_as_def)
  then have o3: "map at_Ordinal (sn_Attempts s3) = ords" by (simp add: as'(1) s2 ords)
  with insert_runs_Some [OF r] dist restrict_covering [OF dm(1)]
  have s4: "s4 = s3\<lparr>sn_Attempts := map (with_run ?R) (sn_Attempts s3)\<rparr>" by simp
  then have "map at_Ordinal (sn_Attempts s4) = ords" using o3 by (simp add: comp_def)
  with insert_outcomes_Some [OF ou] dist restrict_covering [of ?O' "set ords"] dm(2)
  have s5: "s5 = s4\<lparr>sn_Attempts := map (with_outcome ?O') (sn_Attempts s4)\<rparr>"
    by (simp add: dom_def)
  have "list_all2 stored_as (sn_Attempts s @ ?new) (sn_Attempts s @ as')"
    using as'(2) by (intro list_all2_appendI) (simp_all add: list.rel_refl)
  then have "list_all2 stored_as (cs_attempts c) (map (with_outcome ?O' \<circ> with_run ?R) (sn_Attempts s @ as'))"
    unfolding as list_all2_map1 list_all2_map2
    by (rule list_all2_mono) (simp add: stored_as_with)
  moreover have "s5 = s2\<lparr>sn_Attempts := map (with_outcome ?O' \<circ> with_run ?R) (sn_Attempts s @ as')\<rparr>"
    by (simp add: s5 s4 as'(1) s2)
  moreover have "map at_Budget (map (with_outcome ?O' \<circ> with_run ?R) (sn_Attempts s @ as')) =
      map at_Budget (sn_Attempts s) @ map (stored_budget \<circ> at_Budget) ?new"
    by (simp add: comp_def as'(3) [symmetric, unfolded comp_def])
  ultimately show ?thesis by blast
qed

lemma persist_Some:
  assumes "persistChanges c s db = Some (s', db')" "tracks s c" "numbered at_Ordinal (cs_attempts c)"
  shows "same_facts c s' \<and> sn_ID s' = sn_ID s \<and> db_cases db' = db_cases db \<and>
    state_row_ok (cs_state c) (cs_requester c) \<and>
    (list_all (\<lambda>a. limits_positive (at_Budget a)) (sn_Attempts s) \<and> int64_budgets (cs_attempts c) \<longrightarrow>
     list_all (\<lambda>a. limits_positive (at_Budget a)) (sn_Attempts s'))"
proof -
  let ?ch = "cs_changes c"
  let ?ords = "map at_Ordinal (sn_Attempts s @ ch_Attempts ?ch)"
  from assms(1) obtain s1 s2 db2 s3 db3 s4 db4 s5 s6 where
      i: "insert_triage (ch_Triage ?ch) s = Some s1" "insert_approvals (ch_Approvals ?ch) s1 db = Some (s2, db2)"
        "insert_attempts (ch_Attempts ?ch) s2 db2 = Some (s3, db3)"
        "insert_runs ?ords (ch_Runs ?ch) s3 db3 = Some (s4, db4)"
        "insert_outcomes ?ords (ch_Outcomes ?ch) s4 = Some s5"
        "insert_closure (ch_Closure ?ch) s5 db4 = Some (s6, db')"
    and row: "state_row_ok (ch_State ?ch) (sn_Requester s6)"
    and s': "s' = s6\<lparr>sn_Transitions := sn_Transitions s6 @ ch_Transitions ?ch, sn_State := ch_State ?ch\<rparr>"
    by (auto simp: persistChanges_def Let_def bind_eq_Some_conv split: if_splits prod.splits)
  note s1 = insert_triage_Some [OF i(1)]
  from insert_approvals_Some [OF i(2)] obtain ap where
    s2: "s2 = s1\<lparr>sn_Approvals := sn_Approvals s1 @ ap\<rparr>" "map approval_key ap = map approval_key (ch_Approvals ?ch)"
    by blast
  have "sn_Attempts s2 = sn_Attempts s" by (simp add: s1 s2(1))
  from persist_attempts [OF assms(2,3) i(3) this refl i(4,5)] obtain as where
    s5: "s5 = s2\<lparr>sn_Attempts := as\<rparr>" "list_all2 stored_as (cs_attempts c) as"
      "map at_Budget as = map at_Budget (sn_Attempts s) @ map (stored_budget \<circ> at_Budget) (ch_Attempts ?ch)"
    by blast
  note s6 = insert_closure_Some [OF i(6)]
  have "list_all attempt_row_ok (ch_Attempts ?ch)"
    using insert_attempts_Some [OF i(3)] assms(2) by (auto simp: tracks_def Let_def)
  moreover have b: "map at_Budget (cs_attempts c) = map at_Budget (sn_Attempts s @ ch_Attempts ?ch)"
    using assms(2) by (simp add: tracks_def Let_def)
  have "int64_budgets (cs_attempts c) \<Longrightarrow> int64_budgets (ch_Attempts ?ch)"
    unfolding int64_budgets_map b by simp
  ultimately have pos: "limits_positive (stored_budget (at_Budget a))"
    if "int64_budgets (cs_attempts c)" "a \<in> set (ch_Attempts ?ch)" for a
    using that by (auto simp: list_all_iff int64_budgets_def attempt_row_ok_def limits_positive_def
        stored_budget_def toInterval_pos(1))
  have "\<forall>b \<in> set (map at_Budget as). limits_positive b"
    if "list_all (\<lambda>a. limits_positive (at_Budget a)) (sn_Attempts s)" "int64_budgets (cs_attempts c)"
    using that pos unfolding s5(3) by (auto simp: list_all_iff)
  moreover have "same_facts c s'" using assms(2) s5(2) s2(2)
    by (simp add: same_facts_def s' s6 s5(1) s2(1) s1 tracks_def Let_def cong: option.case_cong)
  moreover have "sn_ID s' = sn_ID s" "sn_Attempts s' = as" by (simp_all add: s' s6 s5(1) s2(1) s1)
  moreover have "db_cases db' = db_cases db" using insert_keeps i by metis
  moreover have "state_row_ok (cs_state c) (cs_requester c)" using row assms(2)
    by (simp add: s6 s5(1) s2(1) s1 tracks_def Let_def)
  ultimately show ?thesis by (auto simp: list_all_iff)
qed

subsection \<open>The invariant survives the database\<close>

lemma stored_outcome_kind [simp]: "oc_Kind (stored_outcome ou) = oc_Kind ou"
  by (cases "oc_Kind ou") (simp_all add: stored_outcome_def zero_outcome_def Let_def)

lemma stored_outcome_reason: "oc_Kind ou = Aborted \<Longrightarrow> oc_Reason (stored_outcome ou) = oc_Reason ou"
  by (simp add: stored_outcome_def zero_outcome_def Let_def)

lemma stored_as_parts:
  "stored_as a a' \<Longrightarrow> Attempt_Open a' = Attempt_Open a \<and> restart_abort a' = restart_abort a \<and>
     at_Ordinal a' = at_Ordinal a"
  by (cases "at_Outcome a")
     (auto simp: stored_as_def Attempt_Open_def restart_abort_def stored_outcome_reason)

lemma stored_as_list:
  assumes "list_all2 stored_as as as'"
  shows "map at_Ordinal as' = map at_Ordinal as" "map Attempt_Open as' = map Attempt_Open as"
    "list_ex restart_abort as' = list_ex restart_abort as" "length as' = length as"
  using assms by (induction rule: list_all2_induct) (auto dest: stored_as_parts)

lemma list_ex_map: "list_ex P xs = (True \<in> set (map P xs))"
  by (auto simp: list_ex_iff)

lemma only_last_map: "only_last P xs = list_all Not (butlast (map P xs))"
  by (simp add: only_last_def list_all_iff map_butlast [symmetric])

lemma filter_count: "length (filter P xs) = length (filter id (map P xs))"
  by (induction xs) auto

lemma only_last_count: "only_last P xs \<Longrightarrow> length (filter P xs) \<le> 1"
  by (cases xs rule: rev_cases) (auto simp: list_all_iff filter_empty_conv)

lemma reload_inv:
  assumes "case_inv c" "same_facts c s'" "loadCase s' = Inr out"
  shows "case_inv out"
proof -
  have at: "list_all2 stored_as (cs_attempts c) (cs_attempts out)"
    and eq: "cs_state out = cs_state c" "cs_requester out = cs_requester c" "cs_triage out = cs_triage c"
      "cs_closure out = cs_closure c" "cs_transitions out = cs_transitions c"
      "cs_repository out = cs_repository c" "cs_number out = cs_number c"
    and ap: "mset (map approval_key (cs_approvals out)) = mset (map approval_key (cs_approvals c))"
    using assms(2,3) by (auto simp: loadCase_Inr same_facts_def)
  note l = stored_as_list [OF at]
  have em: "(cs_approvals out = []) = (cs_approvals c = [])"
    using ap by (metis map_is_Nil_conv mset_zero_iff)
  have em2: "(cs_attempts out = []) = (cs_attempts c = [])" using l(4) by auto
  have lex: "list_ex Attempt_Open (cs_attempts out) = list_ex Attempt_Open (cs_attempts c)"
    by (simp only: list_ex_map [of Attempt_Open] l)
  have "attempts_ok out = attempts_ok c"
    by (simp only: attempts_ok_def numbered_def only_last_map l lex eq)
  moreover have "states_ok out = states_ok c" by (simp only: states_ok_def eq em em2)
  moreover have "trust_ok out = trust_ok c" by (simp only: trust_ok_def cleared_def eq em em2)
  moreover have "restart_ok out = restart_ok c" by (simp only: restart_ok_def eq l)
  moreover have "identity_ok out = identity_ok c" by (simp only: identity_ok_def eq)
  ultimately show ?thesis using assms(1) by (simp add: case_inv_def)
qed

text \<open>The rows of a case that loads into an aggregate within its invariant.\<close>

definition case_row_ok :: "Snapshot \<Rightarrow> bool" where
  "case_row_ok s = (case loadCase s of Inl _ \<Rightarrow> False | Inr c \<Rightarrow> case_inv c)"

lemma persist_loads:
  assumes "loadCase s = Inr c0" "case_inv c0" "list_all domain_cmd xs" "case_seq c0 xs = (c, None)"
    "persistChanges c s db = Some (s', db')" "int64_budgets (cs_attempts c)"
  shows "\<exists>out. loadCase s' = Inr out \<and> case_inv out \<and> same_facts c s' \<and> sn_ID s' = sn_ID s \<and>
    db_cases db' = db_cases db \<and> case_inv c"
proof -
  from tracks_seq [OF tracks_loaded [OF assms(1)] assms(2-4)]
  have t: "tracks s c" "case_inv c" by auto
  from assms(1) have "list_all (\<lambda>a. limits_positive (at_Budget a)) (sn_Attempts s)" by (simp add: loadCase_Inr)
  with persist_Some [OF assms(5) t(1) inv_numbered [OF t(2)]] assms(6)
  have p: "same_facts c s'" "sn_ID s' = sn_ID s" "db_cases db' = db_cases db"
    "state_row_ok (cs_state c) (cs_requester c)"
    "list_all (\<lambda>a. limits_positive (at_Budget a)) (sn_Attempts s')" by auto
  have "list_all2 stored_as (cs_attempts c) (sn_Attempts s')" using p(1) by (simp add: same_facts_def)
  from stored_as_list(2) [OF this] only_last_count [OF inv_only_last [OF t(2)]]
  have "length (filter Attempt_Open (sn_Attempts s')) \<le> 1" by (metis filter_count)
  with p(1,4,5) inv_identity [OF t(2)] have "\<exists>out. loadCase s' = Inr out"
    unfolding loadCase_Inr same_facts_def state_row_ok_def identity_ok_def by simp
  with reload_inv [OF t(2) p(1)] p t(2) show ?thesis by blast
qed

lemma UpdateCase_Inr:
  assumes "UpdateCase repository number fn db = Inr (db', out)"
  obtains s c0 c s' db1 where "find (is_key repository number) (db_cases db) = Some s"
    "loadCase s = Inr c0" "fn c0 = (c, None)" "persistChanges c s db = Some (s', db1)"
    "loadCase s' = Inr out" "db' = put_row s' db1"
  using assms
  by (auto simp: UpdateCase_def split: option.splits sum.splits prod.splits)

lemma find_put_row:
  assumes "find P rs = Some s" "P s'" "sn_ID s' = sn_ID s"
  shows "find P (map (\<lambda>r. if sn_ID r = sn_ID s' then s' else r) rs) = Some s'"
  using assms(1) by (induction rs) (auto simp: assms(2,3) split: if_splits)

lemma find_other_row:
  assumes "distinct (map sn_ID rs)" "s \<in> set rs" "\<not> P s" "\<not> P s'" "sn_ID s' = sn_ID s"
  shows "find P (map (\<lambda>r. if sn_ID r = sn_ID s' then s' else r) rs) = find P rs"
proof -
  have "\<forall>r\<in>set rs. sn_ID r = sn_ID s' \<longrightarrow> r = s"
    using assms(1,2,5) by (metis eq_key_imp_eq_value distinct_map inj_on_def)
  then show ?thesis using assms(3,4) by (induction rs) auto
qed

subsection \<open>Demo rows\<close>

definition demo_db :: CaseDB where
  "demo_db = \<lparr>db_cases = [\<lparr>sn_ID = ''0'', sn_Repository = ''o/r'', sn_Number = 7,
       sn_Requester = demo_rq Trusted, sn_State = Received, sn_ReceivedAt = 0, sn_Triage = None,
       sn_Approvals = [], sn_Attempts = [], sn_Transitions = [], sn_Closure = None\<rparr>],
     db_approval_deliveries = [], db_closure_deliveries = [], db_run_ids = [],
     db_webhooks = [''d1''], db_fresh = 1\<rparr>"

lemma demo_db_ok: "\<forall>r \<in> set (db_cases demo_db). case_row_ok r"
  by (simp add: demo_db_def case_row_ok_def loadCase_def LoadCase_def demo_rq_def inv_defs
      AllCaseStates_def requeues_def)

lemma demo_reload:
  "\<exists>c. loadCase (hd (db_cases demo_db)) = Inr c \<and> int64_budgets (cs_attempts c) \<and>
     persistChanges c (hd (db_cases demo_db)) demo_db = Some (hd (db_cases demo_db), demo_db) \<and>
     find (is_key ''o/r'' 7) (db_cases demo_db) = Some (hd (db_cases demo_db)) \<and>
     put_row (hd (db_cases demo_db)) demo_db = demo_db"
  by (simp add: demo_db_def loadCase_def LoadCase_def demo_rq_def int64_budgets_def persistChanges_def
      no_changes_def insert_triage_def insert_closure_def state_row_ok_def AllCaseStates_def is_key_def
      put_row_def)

lemma demo_update:
  "\<exists>db' out. UpdateCase ''o/r'' 7 (\<lambda>c. case_seq c [demo_triage Small]) demo_db = Inr (db', out) \<and>
     cs_state out = Queued"
  by (simp add: demo_db_def UpdateCase_def loadCase_def LoadCase_def demo_rq_def persistChanges_def
      no_changes_def insert_triage_def insert_closure_def state_row_ok_def AllCaseStates_def is_key_def
      put_row_def demo_triage_def case_eval ParseSize_def parseEnum_def AllSizes_def transition_row_ok_def
      AllTransitionCauses_def)

subsection \<open>Properties\<close>

definition same_case :: "Case \<Rightarrow> Case \<Rightarrow> bool" where
  "same_case c out = (cs_repository out = cs_repository c \<and> cs_number out = cs_number c \<and>
     cs_requester out = cs_requester c \<and> cs_receivedAt out = cs_receivedAt c \<and> cs_state out = cs_state c \<and>
     cs_triage out = cs_triage c \<and> cs_closure out = cs_closure c \<and>
     cs_transitions out = cs_transitions c \<and>
     mset (map approval_key (cs_approvals out)) = mset (map approval_key (cs_approvals c)) \<and>
     list_all2 stored_as (cs_attempts c) (cs_attempts out))"

lemma same_facts_case: "same_facts c s \<Longrightarrow> loadCase s = Inr out \<Longrightarrow> same_case c out"
  by (auto simp: same_facts_def same_case_def loadCase_Inr)

text \<open>C16. What the aggregate decided is what the database says afterwards. When an update of a case by any
  sequence of commands commits, the case a reader gets is the case the commands produced -
  state, log, triage, closure, approvals and every attempt - up to the ids the database
  assigned, the order of approvals and intervals cut to the microsecond; it satisfies the
  invariant of the aggregate, every row still does, and no other case has changed.\<close>
theorem store_keeps_the_case:
  assumes "UpdateCase repository number (\<lambda>c. case_seq c (cmds c)) db = Inr (db', out)"
    and "\<And>c. list_all domain_cmd (cmds c)"
    and "\<forall>r \<in> set (db_cases db). case_row_ok r"
    and "distinct (map sn_ID (db_cases db))"
  shows "\<exists>c0 c. GetCase repository number db = Inr c0 \<and> case_seq c0 (cmds c0) = (c, None) \<and>
    same_case c out \<and> case_inv out \<and> GetCase repository number db' = Inr out \<and>
    (\<forall>r \<in> set (db_cases db'). case_row_ok r) \<and>
    (\<forall>repository' number'. (repository', number') \<noteq> (repository, number) \<longrightarrow>
       GetCase repository' number' db' = GetCase repository' number' db)"
proof -
  obtain s c0 c s' db1 where u: "find (is_key repository number) (db_cases db) = Some s"
    "loadCase s = Inr c0" "case_seq c0 (cmds c0) = (c, None)" "persistChanges c s db = Some (s', db1)"
    "loadCase s' = Inr out" "db' = put_row s' db1"
    using assms(1) by (rule UpdateCase_Inr)
  have s: "s \<in> set (db_cases db)" "is_key repository number s"
    using u(1) by (auto simp: find_Some_iff)
  have "case_inv c0" using assms(3) s(1) u(2) by (auto simp: case_row_ok_def)
  from tracks_seq [OF tracks_loaded [OF u(2)] this assms(2) u(3)]
  have t: "tracks s c" "case_inv c" by auto
  from persist_Some [OF u(4) t(1) inv_numbered [OF t(2)]]
  have p: "same_facts c s'" "sn_ID s' = sn_ID s" "db_cases db1 = db_cases db" by auto
  have key: "is_key r n s' = is_key r n s" for r n
    using p(1) t(1) by (auto simp: is_key_def same_facts_def tracks_def Let_def)
  have inv: "case_inv out" using reload_inv [OF t(2) p(1) u(5)] .
  have "GetCase repository number db' = Inr out"
    using find_put_row [OF u(1), of s'] s(2) u(5) p
    by (simp add: GetCase_def u(6) put_row_def key)
  moreover have "GetCase r n db' = GetCase r n db" if "(r, n) \<noteq> (repository, number)" for r n
  proof -
    have "\<not> is_key r n s" using that s(2) by (auto simp: is_key_def)
    with find_other_row [OF assms(4) s(1), of "is_key r n" s'] p(2) key [of r n]
    show ?thesis by (simp add: GetCase_def u(6) put_row_def p(3))
  qed
  moreover have "\<forall>r \<in> set (db_cases db'). case_row_ok r"
    using assms(3) inv u(5) by (auto simp: u(6) put_row_def p(3) case_row_ok_def)
  ultimately show ?thesis using u(1-3) inv same_facts_case [OF p(1) u(5)]
    by (auto simp: GetCase_def)
qed

theorem store_keeps_the_case_witness:
  "\<exists>db' out. UpdateCase ''o/r'' 7 (\<lambda>c. case_seq c [demo_triage Small]) demo_db = Inr (db', out) \<and>
     cs_state out = Queued \<and> GetCase ''o/r'' 7 db' = Inr out \<and> case_inv out"
proof -
  obtain db' out where u: "UpdateCase ''o/r'' 7 (\<lambda>c. case_seq c [demo_triage Small]) demo_db = Inr (db', out)"
      "cs_state out = Queued"
    using demo_update by blast
  moreover have "\<forall>r \<in> set (db_cases demo_db). case_row_ok r" "distinct (map sn_ID (db_cases demo_db))"
    by (simp_all add: demo_db_ok) (simp add: demo_db_def)
  ultimately show ?thesis
    using store_keeps_the_case [OF u(1)] by (simp add: demo_triage_def) blast
qed

text \<open>An update never dies on what it wrote itself: if the case was readable and within its
  invariant, the commands succeed and the database accepts the rows, the reload inside the
  transaction succeeds and the update commits, for wall clock budgets that are 64 bit durations.\<close>
theorem store_reload_never_fails:
  assumes "find (is_key repository number) (db_cases db) = Some s" "case_row_ok s" "loadCase s = Inr c0"
    and "list_all domain_cmd xs" "case_seq c0 xs = (c, None)"
    and "persistChanges c s db = Some (s', db1)" "int64_budgets (cs_attempts c)"
  shows "\<exists>out. UpdateCase repository number (\<lambda>c. case_seq c xs) db = Inr (put_row s' db1, out) \<and> case_inv out"
proof -
  have "case_inv c0" using assms(2,3) by (simp add: case_row_ok_def)
  from persist_loads [OF assms(3) this assms(4-7)] obtain out where "loadCase s' = Inr out" "case_inv out"
    by blast
  with assms show ?thesis by (simp add: UpdateCase_def)
qed

theorem store_reload_never_fails_witness:
  "\<exists>out. UpdateCase ''o/r'' 7 (\<lambda>c. case_seq c []) demo_db = Inr (demo_db, out) \<and> case_inv out"
proof -
  let ?s = "hd (db_cases demo_db)"
  obtain c0 where c0: "loadCase ?s = Inr c0" "persistChanges c0 ?s demo_db = Some (?s, demo_db)"
      "int64_budgets (cs_attempts c0)" "put_row ?s demo_db = demo_db"
      "find (is_key ''o/r'' 7) (db_cases demo_db) = Some ?s" "case_row_ok ?s"
    using demo_reload demo_db_ok by (auto simp: demo_db_def)
  with store_reload_never_fails [OF c0(5,6,1) _ _ c0(2,3), of "[]"] show ?thesis by simp
qed

text \<open>A label approval is recorded at most once per delivery, at a price: once the delivery's approval
  is in the database, running the same update again - as a sweep does when the delivery was
  not marked processed - is never a refusal the translator could ignore but a database
  error, on every retry, as long as the case is open.\<close>
theorem store_label_redelivery_errors:
  assumes "GetCase repository number db = Inr c" "\<not> CaseState_Terminal (cs_state c)"
    and "ap_Source a = SourceLabel" "ap_DeliveryID a \<in> set (db_approval_deliveries db)"
    and "ap_DeliveryID a \<noteq> ''''" "rq_Login (ap_Approver a) \<noteq> ''''"
  shows "UpdateCase repository number (\<lambda>c. Case_RecordApproval c a) db = Inl DbError"
proof -
  obtain s where s: "find (is_key repository number) (db_cases db) = Some s" "loadCase s = Inr c"
    using assms(1) by (auto simp: GetCase_def split: option.splits sum.splits)
  have "ch_Approvals (cs_changes c) = []" "ch_Triage (cs_changes c) = None"
    using s(2) by (auto simp: loadCase_Inr no_changes_def)
  moreover have "\<exists>c'. Case_RecordApproval c a = (c', None)"
    unfolding RecordApproval_ok Let_def using assms(2,3,5,6) by (simp add: AllApprovalSources_def)
  then obtain c' where c': "Case_RecordApproval c a = (c', None)" by blast
  ultimately have "ch_Approvals (cs_changes c') = [a]" "ch_Triage (cs_changes c') = None"
    using assms(3) by (auto simp: RecordApproval_ok Let_def)
  then have "persistChanges c' s db = None"
    using assms(3,4) by (simp add: persistChanges_def insert_triage_def Let_def)
  with s c' show ?thesis by (simp add: UpdateCase_def)
qed

theorem store_label_redelivery_errors_witness:
  "UpdateCase ''o/r'' 7 (\<lambda>c. Case_RecordApproval c \<lparr>ap_ID = '''', ap_Approver = demo_rq Trusted,
     ap_Source = SourceLabel, ap_ApprovedAt = 4, ap_DeliveryID = ''d1''\<rparr>)
     (demo_db\<lparr>db_approval_deliveries := [''d1'']\<rparr>) = Inl DbError"
proof -
  obtain c where "GetCase ''o/r'' 7 (demo_db\<lparr>db_approval_deliveries := [''d1'']\<rparr>) = Inr c"
      "cs_state c = Received"
    by (simp add: GetCase_def demo_db_def is_key_def loadCase_def LoadCase_def demo_rq_def)
  then show ?thesis
    by (intro store_label_redelivery_errors [where c = c]) (auto simp: CaseState_Terminal_def demo_rq_def)
qed

end
