(* ===== verification/SchedulingInv.thy ===== *)
theory SchedulingInv
  imports Scheduling StoreCasesInv
begin

section \<open>What the schedulers and recoveries guarantee\<close>

text \<open>
  One sandbox pool serves issue attempts and repair rounds. The locale states what the loop
  of a scheduler needs of its start function, and both schedulers are instances. The rest
  is about ending attempts: the restart recovery and the runner's backstop always can.
\<close>

subsection \<open>The slot loop\<close>

locale slot_scheduler =
  fixes start :: "'k \<Rightarrow> 's \<Rightarrow> 's \<times> bool option"
    and load :: "'s \<Rightarrow> nat"
    and inv :: "'s \<Rightarrow> bool"
  assumes start_inv: "inv d \<Longrightarrow> inv (fst (start k d))"
    and start_load: "inv d \<Longrightarrow>
      load (fst (start k d)) = load d + (if snd (start k d) = Some True then 1 else 0)"
begin

lemma loop_load:
  "inv d \<Longrightarrow> 0 \<le> slots \<Longrightarrow>
     inv (slot_loop start ks slots d) \<and> int (load (slot_loop start ks slots d)) \<le> int (load d) + slots"
proof (induction ks arbitrary: slots d)
  case (Cons k ks)
  obtain d' r where s: "start k d = (d', r)" by (cases "start k d")
  have i: "inv d'" "load d' = load d + (if r = Some True then 1 else 0)"
    using start_inv [OF Cons.prems(1), of k] start_load [OF Cons.prems(1), of k] s by simp_all
  show ?case
  proof (cases "slots = 0")
    case False
    define n where "n = (if r = Some True then slots - 1 else slots)"
    have "0 \<le> n" using Cons.prems(2) False by (simp add: n_def)
    moreover have "slot_loop start (k # ks) slots d = slot_loop start ks n d'"
      using False s by (cases r) (auto simp: n_def)
    moreover have "inv (slot_loop start ks n d')" "int (load (slot_loop start ks n d')) \<le> int (load d') + n"
      using Cons.IH [OF i(1) \<open>0 \<le> n\<close>] by simp_all
    moreover have "int (load d') + n = int (load d) + slots" by (simp add: i(2) n_def)
    ultimately show ?thesis by simp
  qed (use Cons.prems in simp)
qed simp

end

subsection \<open>Counting what is open\<close>

definition daemon_load :: "Daemon \<Rightarrow> nat" where
  "daemon_load d = length (OpenAttempts (dm_store d)) + length (OpenRepairs (st_bumps (dm_store d)))"

definition ids_ok :: "Daemon \<Rightarrow> bool" where
  "ids_ok d = (distinct (map sn_ID (db_cases (st_cases (dm_store d)))) \<and>
     distinct (map bs_ID (bd_bumps (st_bumps (dm_store d)))))"

lemma daemon_load_sum:
  "daemon_load d = (\<Sum>s\<leftarrow>db_cases (st_cases (dm_store d)). length (open_attempts s)) +
     (\<Sum>s\<leftarrow>bd_bumps (st_bumps (dm_store d)). length (open_rounds s))"
  by (simp add: daemon_load_def OpenAttempts_def OpenRepairs_def length_concat comp_def)

lemma sum_put:
  fixes f :: "'r \<Rightarrow> nat"
  assumes "distinct (map k rs)" "s \<in> set rs" "k s' = k s"
  shows "(\<Sum>r\<leftarrow>map (\<lambda>r. if k r = k s' then s' else r) rs. f r) + f s = (\<Sum>r\<leftarrow>rs. f r) + f s'"
  using assms(1,2)
proof (induction rs)
  case (Cons r rs)
  show ?case
  proof (cases "r = s")
    case True
    have "map (\<lambda>r. if k r = k s' then s' else r) rs = rs"
      using Cons.prems(1) True assms(3) by (intro map_idI) (auto simp: image_iff)
    with True assms(3) show ?thesis by simp
  next
    case False
    with Cons.prems have "k r \<noteq> k s'" using assms(3) by (auto simp: image_iff)
    with False Cons show ?thesis by simp
  qed
qed simp

lemma map_put: "k s' = k s \<Longrightarrow> map k (map (\<lambda>r. if k r = k s' then s' else r) rs) = map k rs"
  by (induction rs) auto

lemma insert_nothing [simp]:
  "insert_runs ns Map.empty s db = Some (s, db)" "insert_outcomes ns Map.empty s = Some s"
  by (induction ns) auto

lemma insert_repair_nothing [simp]:
  "insert_repair_runs ns Map.empty bs bdb = Some (bs, bdb)" "insert_repair_outcomes ns Map.empty bs = Some bs"
  by (induction ns) auto

lemma started_row:
  assumes "loadCase s = Inr c0" "Case_StartAttempt c0 k b br t = (c, Inr a)"
    "persistChanges c s db = Some (s', db')"
  shows "length (open_attempts s') = length (open_attempts s) + 1" "sn_ID s' = sn_ID s"
    "db_cases db' = db_cases db"
proof -
  have c0: "cs_changes c0 = no_changes (sn_State s)" using assms(1) by (simp add: loadCase_Inr)
  have c: "c = Case_move (c0\<lparr>cs_attempts := cs_attempts c0 @ [a],
            cs_changes := (cs_changes c0)\<lparr>ch_Attempts := ch_Attempts (cs_changes c0) @ [a]\<rparr>\<rparr>)
            Attempting CauseAttemptStarted t"
    using assms(2) by (simp add: StartAttempt_ok)
  from assms(3) have p: "s' = s\<lparr>sn_Attempts := sn_Attempts s @
        [a\<lparr>at_ID := fresh_id (db_fresh db), at_Budget := stored_budget (at_Budget a),
           at_Run := None, at_Outcome := None\<rparr>],
        sn_Transitions := sn_Transitions s @ ch_Transitions (cs_changes c), sn_State := Attempting\<rparr>"
      "db' = db\<lparr>db_fresh := Suc (db_fresh db)\<rparr>"
    by (auto simp: persistChanges_def c c0 no_changes_def insert_triage_def insert_closure_def Let_def
        split: if_splits)
  show "length (open_attempts s') = length (open_attempts s) + 1" "sn_ID s' = sn_ID s"
    "db_cases db' = db_cases db"
    by (simp_all add: p open_attempts_def Attempt_Open_def)
qed

lemma attempt_update_None:
  assumes "attempt_update pol repo detail now c0 = (c, None)"
  obtains k b br a where "Case_StartAttempt c0 k b br now = (c, Inr a)"
  using assms by (auto simp: attempt_update_def Let_def split: sum.splits prod.splits)

lemma Scheduler_mark_store [simp]: "dm_store (Scheduler_mark i on d) = dm_store d"
  by (simp add: Scheduler_mark_def Let_def)

lemma RepairScheduler_mark_store [simp]: "dm_store (RepairScheduler_mark i on d) = dm_store d"
  by (simp add: RepairScheduler_mark_def Let_def)

lemma Scheduler_start_cases:
  assumes "Scheduler_start cfg getIssue now k d = (d', r)"
  obtains (same) "d' = d" "r \<noteq> Some True"
  | (started) s c0 kind b br c a s' db1 out i where "r = Some True"
      "find (is_key (fst k) (snd k)) (db_cases (st_cases (dm_store d))) = Some s" "loadCase s = Inr c0"
      "Case_StartAttempt c0 kind b br now = (c, Inr a)"
      "persistChanges c s (st_cases (dm_store d)) = Some (s', db1)" "loadCase s' = Inr out"
      "d' = Scheduler_mark i True (with_cases (put_row s' db1) d)"
proof (cases "r = Some True")
  case False
  with assms have "d' = d"
    by (auto simp: Scheduler_start_def Let_def split: sum.splits if_splits prod.splits)
  with False same show ?thesis by blast
next
  case True
  with assms obtain repo detail db c where
      u: "UpdateCase (fst k) (snd k) (attempt_update (sc_Budgets cfg) repo detail now)
            (st_cases (dm_store d)) = Inr (db, c)"
      "d' = Scheduler_mark (case Case_OpenAttempt c of None \<Rightarrow> '''' | Some a \<Rightarrow> at_ID a) True (with_cases db d)"
    by (auto simp: Scheduler_start_def Let_def split: sum.splits if_splits prod.splits)
  show ?thesis
    by (rule UpdateCase_Inr [OF u(1)], erule attempt_update_None, rule started [OF True]) (use u(2) in auto)
qed

lemma Scheduler_start_load:
  assumes "ids_ok d"
  shows "ids_ok (fst (Scheduler_start cfg getIssue now k d)) \<and>
    daemon_load (fst (Scheduler_start cfg getIssue now k d)) =
      daemon_load d + (if snd (Scheduler_start cfg getIssue now k d) = Some True then 1 else 0)"
proof (cases "Scheduler_start cfg getIssue now k d")
  case (Pair d' r)
  then show ?thesis
  proof (cases rule: Scheduler_start_cases)
    case same
    with Pair assms show ?thesis by simp
  next
    case (started s c0 kind b br c a s' db1 out i)
    note row = started_row [OF started(3-5)]
    have s: "s \<in> set (db_cases (st_cases (dm_store d)))" using started(2) by (auto simp: find_Some_iff)
    have dist: "distinct (map sn_ID (db_cases (st_cases (dm_store d))))" using assms by (simp add: ids_ok_def)
    have "map sn_ID (db_cases (put_row s' db1)) = map sn_ID (db_cases (st_cases (dm_store d)))"
      unfolding put_row_def row(3) by (simp del: map_map add: map_put [of sn_ID, OF row(2)])
    then have "ids_ok d'" using assms
      by (simp add: started(7) ids_ok_def with_cases_def)
    moreover have "daemon_load d' = daemon_load d + 1"
      using sum_put [OF dist s row(2), of "\<lambda>s. length (open_attempts s)"] row
      by (simp add: started(7) daemon_load_sum with_cases_def put_row_def)
    ultimately show ?thesis using Pair started(1) by simp
  qed
qed

interpretation issue_slots: slot_scheduler "Scheduler_start cfg getIssue now" daemon_load ids_ok
  for cfg getIssue now
  by unfold_locales (simp_all add: Scheduler_start_load)

lemma started_round:
  assumes "loadBump s = Inr b0" "Bump_StartRepair b0 bg br t cap = (b, Inr a)"
    "persistBumpChanges b s db = Some (s', db')"
  shows "length (open_rounds s') = length (open_rounds s) + 1" "bs_ID s' = bs_ID s"
    "bd_bumps db' = bd_bumps db"
proof -
  have b0: "bp_changes b0 = no_bump_changes (bp_state b0) (bp_headSha b0)"
    using assms(1) by (auto simp: loadBump_def LoadBump_def Bump_ClearChanges_def split: sum.splits if_splits)
  have b: "bp_changes b = (bp_changes b0)\<lparr>bh_Attempts := [a], bh_Transitions :=
      [\<lparr>bt_From = bp_state b0, bt_To = Repairing, bt_Cause = CauseRepairStarted, bt_OccurredAt = t\<rparr>],
      bh_State := Repairing\<rparr>"
    using assms(2) b0 by (auto simp: Bump_StartRepair_def Bump_move_def Let_def no_bump_changes_def split: if_splits)
  from assms(3) have p: "s' = s\<lparr>bs_Attempts := bs_Attempts s @
        [a\<lparr>ra_ID := fresh_id (bd_fresh db), ra_Budget := stored_budget (ra_Budget a),
           ra_Run := None, ra_Outcome := None\<rparr>],
        bs_Transitions := bs_Transitions s @ bh_Transitions (bp_changes b), bs_State := Repairing,
        bs_HeadSha := bp_headSha b0\<rparr>"
      "db' = db\<lparr>bd_fresh := Suc (bd_fresh db)\<rparr>"
    by (auto simp: persistBumpChanges_def b b0 no_bump_changes_def insert_abandonment_def
        insert_bump_closure_def Let_def split: if_splits)
  show "length (open_rounds s') = length (open_rounds s) + 1" "bs_ID s' = bs_ID s"
    "bd_bumps db' = bd_bumps db"
    by (simp_all add: p open_rounds_def RepairAttempt_Open_def)
qed

lemma RepairScheduler_start_cases:
  assumes "RepairScheduler_start cfg getPull now k d = (d', r)"
  obtains (same) "d' = d" "r \<noteq> Some True"
  | (started) s b0 bg br b a s' db1 i where "r = Some True"
      "find (is_bump_key (fst k) (snd k)) (bd_bumps (st_bumps (dm_store d))) = Some s" "loadBump s = Inr b0"
      "Bump_StartRepair b0 bg br now (sc_RoundCap cfg) = (b, Inr a)"
      "persistBumpChanges b s (st_bumps (dm_store d)) = Some (s', db1)"
      "d' = RepairScheduler_mark i True (with_bumps (put_bump s' db1) d)"
proof (cases "r = Some True")
  case False
  with assms have "d' = d"
    by (auto simp: RepairScheduler_start_def Let_def split: sum.splits gherr.splits if_splits prod.splits)
  with False same show ?thesis by blast
next
  case True
  with assms obtain pr db b where
      u: "UpdateBump (fst k) (snd k) (repair_update cfg pr now) (st_bumps (dm_store d)) = Inr (db, b)"
      "d' = RepairScheduler_mark (case Bump_OpenRepair b of None \<Rightarrow> '''' | Some a \<Rightarrow> ra_ID a) True (with_bumps db d)"
    by (auto simp: RepairScheduler_start_def Let_def split: sum.splits gherr.splits if_splits prod.splits)
  from u(1) obtain s b0 b1 s' db1 where
      "find (is_bump_key (fst k) (snd k)) (bd_bumps (st_bumps (dm_store d))) = Some s" "loadBump s = Inr b0"
      "repair_update cfg pr now b0 = (b1, None)"
      "persistBumpChanges b1 s (st_bumps (dm_store d)) = Some (s', db1)" "db = put_bump s' db1"
    by (auto simp: UpdateBump_def split: option.splits sum.splits prod.splits)
  moreover from this(3) obtain br a where
      "Bump_StartRepair b0 (pol_Repair (sc_Budgets cfg)) br now (sc_RoundCap cfg) = (b1, Inr a)"
    by (auto simp: repair_update_def Let_def split: sum.splits prod.splits)
  ultimately show ?thesis using started [OF True] u(2) by metis
qed

lemma RepairScheduler_start_load:
  assumes "ids_ok d"
  shows "ids_ok (fst (RepairScheduler_start cfg getPull now k d)) \<and>
    daemon_load (fst (RepairScheduler_start cfg getPull now k d)) =
      daemon_load d + (if snd (RepairScheduler_start cfg getPull now k d) = Some True then 1 else 0)"
proof (cases "RepairScheduler_start cfg getPull now k d")
  case (Pair d' r)
  then show ?thesis
  proof (cases rule: RepairScheduler_start_cases)
    case same
    with Pair assms show ?thesis by simp
  next
    case (started s b0 bg br b a s' db1 i)
    note row = started_round [OF started(3-5)]
    have s: "s \<in> set (bd_bumps (st_bumps (dm_store d)))" using started(2) by (auto simp: find_Some_iff)
    have dist: "distinct (map bs_ID (bd_bumps (st_bumps (dm_store d))))" using assms by (simp add: ids_ok_def)
    have "map bs_ID (bd_bumps (put_bump s' db1)) = map bs_ID (bd_bumps (st_bumps (dm_store d)))"
      unfolding put_bump_def row(3) by (simp del: map_map add: map_put [of bs_ID, OF row(2)])
    then have "ids_ok d'" using assms
      by (simp add: started(6) ids_ok_def with_bumps_def)
    moreover have "daemon_load d' = daemon_load d + 1"
      using sum_put [OF dist s row(2), of "\<lambda>s. length (open_rounds s)"] row
      by (simp add: started(6) daemon_load_sum with_bumps_def put_bump_def)
    ultimately show ?thesis using Pair started(1) by simp
  qed
qed

interpretation repair_slots: slot_scheduler "RepairScheduler_start cfg getPull now" daemon_load ids_ok
  for cfg getPull now
  by unfold_locales (simp_all add: RepairScheduler_start_load)

lemma Scheduler_Run_load:
  assumes "ids_ok d"
  shows "ids_ok (Scheduler_Run cfg getIssue now d) \<and>
    int (daemon_load (Scheduler_Run cfg getIssue now d)) \<le> max (sc_Concurrency cfg) (int (daemon_load d))"
  using issue_slots.loop_load [OF assms, of "freeSlots (sc_Concurrency cfg) (dm_store d)" cfg getIssue now
      "QueuedCases (dm_store d)"] assms
  by (auto simp: Scheduler_Run_def Let_def freeSlots_def daemon_load_def)

lemma RepairScheduler_Run_load:
  assumes "ids_ok d"
  shows "ids_ok (RepairScheduler_Run cfg getPull now d) \<and>
    int (daemon_load (RepairScheduler_Run cfg getPull now d)) \<le> max (sc_Concurrency cfg) (int (daemon_load d))"
  using repair_slots.loop_load [OF assms, of "freeSlots (sc_Concurrency cfg) (dm_store d)" cfg getPull now
      "QueuedBumps (st_bumps (dm_store d))"] assms
  by (auto simp: RepairScheduler_Run_def Let_def freeSlots_def daemon_load_def)

subsection \<open>Ending an attempt always commits\<close>

definition row_ok :: "Snapshot \<Rightarrow> bool" where
  "row_ok s = (case_row_ok s \<and> int64_budgets (sn_Attempts s))"

definition store_ok :: "CaseDB \<Rightarrow> bool" where
  "store_ok db = ((\<forall>s \<in> set (db_cases db). row_ok s) \<and> distinct (map sn_ID (db_cases db)) \<and>
     distinct (map (\<lambda>s. (sn_Repository s, sn_Number s)) (db_cases db)))"

lemma store_inj:
  assumes "store_ok db" "r \<in> set (db_cases db)" "s \<in> set (db_cases db)"
  shows "sn_Repository r = sn_Repository s \<Longrightarrow> sn_Number r = sn_Number s \<Longrightarrow> r = s"
    and "sn_ID r = sn_ID s \<Longrightarrow> r = s"
  using assms unfolding store_ok_def distinct_map inj_on_def by simp_all

definition all_open :: "CaseDB \<Rightarrow> OpenAttempt set" where
  "all_open db = (\<Union>s \<in> set (db_cases db). set (open_attempts s))"

lemma set_OpenAttempts: "set (OpenAttempts st) = all_open (st_cases st)"
  by (simp add: OpenAttempts_def all_open_def)

definition row_open :: "Snapshot \<Rightarrow> Attempt \<Rightarrow> OpenAttempt" where
  "row_open s a = \<lparr>oa_AttemptID = at_ID a, oa_Repository = sn_Repository s,
       oa_Number = sn_Number s, oa_Ordinal = at_Ordinal a, oa_StartedAt = at_StartedAt a\<rparr>"

lemma open_attempts_row: "open_attempts s = map (row_open s) (filter Attempt_Open (sn_Attempts s))"
  by (simp add: open_attempts_def row_open_def)

text \<open>An open attempt is the last of its row.\<close>

lemma open_row:
  assumes "case_row_ok s" "x \<in> set (open_attempts s)"
  obtains c0 as a where "loadCase s = Inr c0" "case_inv c0" "sn_Attempts s = as @ [a]" "at_Outcome a = None"
    "list_all (\<lambda>y. \<not> Attempt_Open y) as" "x = row_open s a" "open_attempts s = [x]"
proof -
  from assms(1) obtain c0 where c0: "loadCase s = Inr c0" "case_inv c0"
    by (auto simp: case_row_ok_def split: sum.splits)
  have ats: "cs_attempts c0 = sn_Attempts s" using c0(1) by (simp add: loadCase_Inr)
  from assms(2) obtain y where y: "y \<in> set (sn_Attempts s)" "Attempt_Open y" "x = row_open s y"
    by (auto simp: open_attempts_row)
  from inv_only_last [OF c0(2)] have ol: "only_last Attempt_Open (sn_Attempts s)" by (simp add: ats)
  from y(1) obtain as a where as: "sn_Attempts s = as @ [a]" by (cases "sn_Attempts s" rule: rev_cases) auto
  with ol have cl: "list_all (\<lambda>y. \<not> Attempt_Open y) as" by simp
  with y as have "y = a" by (auto simp: list_all_iff)
  moreover from cl have "filter Attempt_Open as = []" by (simp add: list_all_iff filter_empty_conv)
  ultimately show thesis
    using that [OF c0 as _ cl] y by (simp add: open_attempts_row as Attempt_Open_def)
qed

lemma insert_outcomes_single:
  "distinct ns \<Longrightarrow> (n \<in> set ns \<Longrightarrow> insertOutcome n ou s = Some s') \<Longrightarrow>
     insert_outcomes ns [n \<mapsto> ou] s = Some (if n \<in> set ns then s' else s)"
proof (induction ns)
  case (Cons m ns)
  show ?case
  proof (cases "m = n")
    case True
    with Cons.prems have "n \<notin> set ns" "insertOutcome n ou s = Some s'" by auto
    moreover from this(1) have "insert_outcomes ns [n \<mapsto> ou] s' = Some s'"
      by (induction ns) auto
    ultimately show ?thesis using True by (simp add: fun_upd_def)
  next
    case False
    with Cons show ?thesis by simp
  qed
qed simp

lemma first_index_key:
  "distinct (map k xs) \<Longrightarrow> i < length xs \<Longrightarrow> first_index (\<lambda>a. k a = k (xs ! i)) xs = Some i"
proof (induction xs arbitrary: i)
  case (Cons x xs)
  then show ?case by (cases i) (auto simp: image_iff)
qed simp

lemma outcome_commits:
  assumes "loadCase s = Inr c0" "case_inv c0" "Case_RecordOutcome c0 i ou = (c, None)" "outcome_row_ok ou"
  shows "\<exists>s'. persistChanges c s db = Some (s', db)"
proof -
  obtain as a moves c1 where as: "cs_attempts c0 = as @ [a]" "at_Outcome a = None"
    "list_all (\<lambda>x. \<not> Attempt_Open x) as" "oc_Kind ou \<in> set AllOutcomeKinds"
    and tr: "outcome_transition c0 (at_Ordinal a) ou = Inr moves"
    and c1: "c1 = c0\<lparr>cs_attempts := as @ [a\<lparr>at_Outcome := Some ou\<rparr>],
            cs_changes := (cs_changes c0)
              \<lparr>ch_Outcomes := (ch_Outcomes (cs_changes c0))(at_Ordinal a \<mapsto> ou)\<rparr>\<rparr>"
    and c: "c = (case moves of None \<Rightarrow> c1 | Some (s, k) \<Rightarrow> Case_move c1 s k (oc_EndedAt ou))"
    using inv_only_last [OF assms(2)] assms(3) by (rule RecordOutcome_ok)
  have sn: "sn_Attempts s = as @ [a]" "cs_changes c0 = no_changes (cs_state c0)"
    "sn_Requester s = cs_requester c0"
    using assms(1) as(1) by (auto simp: loadCase_Inr)
  have ords: "distinct (map at_Ordinal (as @ [a]))"
    using inv_numbered [OF assms(2)] by (metis as(1) distinct_upt numbered_def)
  have "first_index (\<lambda>x. at_Ordinal x = at_Ordinal a) (as @ [a]) = Some (length as)"
    using first_index_key [OF ords, of "length as"] by simp
  then have ins: "insertOutcome (at_Ordinal a) ou s = Some (s\<lparr>sn_Attempts :=
      (as @ [a])[length as := a\<lparr>at_Outcome := Some (stored_outcome ou)\<rparr>]\<rparr>)"
    using as(2) assms(4) by (simp add: insertOutcome_def attemptIDFor_def sn(1))
  have o: "\<exists>s5. insert_outcomes (map at_Ordinal (as @ [a])) [at_Ordinal a \<mapsto> ou] s = Some s5 \<and>
      sn_Requester s5 = sn_Requester s \<and> sn_Closure s5 = sn_Closure s"
    using insert_outcomes_single [OF ords, of "at_Ordinal a" ou s] ins by simp
  have op: "list_ex Attempt_Open (cs_attempts c0)" using as(1,2) by (simp add: Attempt_Open_def)
  have rows: "list_all transition_row_ok (ch_Transitions (cs_changes c)) \<and>
      state_row_ok (ch_State (cs_changes c)) (cs_requester c0)"
    using tr as(4)
  proof (cases rule: outcome_transition_cases)
    case stays
    then show ?thesis by (simp add: c c1 sn(2) no_changes_def state_row_ok_def AllCaseStates_def)
  next
    case (moves s' k)
    have at: "cs_state c0 = Attempting" using inv_open [OF assms(2) op] moves(1) by blast
    have "k \<in> set AllTransitionCauses" using moves(3) by (cases rule: case_edge.cases) (auto simp: AllTransitionCauses_def)
    with moves(4) at show ?thesis
      by (auto simp: c c1 sn(2) moves(2) no_changes_def transition_row_ok_def state_row_ok_def AllCaseStates_def)
  qed
  have ch: "ch_Triage (cs_changes c) = None" "ch_Approvals (cs_changes c) = []"
    "ch_Attempts (cs_changes c) = []" "ch_Runs (cs_changes c) = Map.empty"
    "ch_Outcomes (cs_changes c) = [at_Ordinal a \<mapsto> ou]" "ch_Closure (cs_changes c) = None"
    by (simp_all add: c c1 sn(2) no_changes_def split: option.splits prod.splits)
  from o rows show ?thesis
    by (auto simp: persistChanges_def insert_triage_def insert_closure_def Let_def ch sn(1) sn(3) simp del: map_append)
qed

lemma int64_stored:
  "list_all2 stored_as as as' \<Longrightarrow> int64_budgets as \<Longrightarrow> int64_budgets as'"
proof (induction rule: list_all2_induct)
  case (Cons a as a' as')
  have "bg_maxWallClock (stored_budget b) < 2 ^ 63" for b
    using i64_range by (simp add: stored_budget_def fromInterval_def)
  with Cons show ?case by (auto simp: int64_budgets_def stored_as_def)
qed simp

text \<open>Replacing a row by one of the same key keeps the store's invariant.\<close>

lemma put_row_rows:
  assumes "store_ok db" "s \<in> set (db_cases db)" "sn_ID s' = sn_ID s"
  shows "set (db_cases (put_row s' db)) = insert s' (set (db_cases db) - {s})"
proof -
  have "\<forall>r \<in> set (db_cases db). sn_ID r = sn_ID s' \<longleftrightarrow> r = s"
    using store_inj(2) [OF assms(1) _ assms(2)] assms(3) by auto
  with assms(2) show ?thesis by (auto simp: put_row_def)
qed

lemma store_ok_put:
  assumes db: "store_ok db" and s: "s \<in> set (db_cases db)" and i: "sn_ID s' = sn_ID s"
    and key: "sn_Repository s' = sn_Repository s" "sn_Number s' = sn_Number s" and rok: "row_ok s'"
  shows "store_ok (put_row s' db)"
proof -
  have m: "map sn_ID (db_cases (put_row s' db)) = map sn_ID (db_cases db)"
    unfolding put_row_def by (simp del: map_map add: map_put [of sn_ID, OF i])
  have "\<forall>r \<in> set (db_cases db). sn_ID r = sn_ID s' \<longrightarrow> r = s"
    using store_inj(2) [OF db _ s] i by auto
  with key have k2: "map (\<lambda>s. (sn_Repository s, sn_Number s)) (db_cases (put_row s' db)) =
      map (\<lambda>s. (sn_Repository s, sn_Number s)) (db_cases db)"
    by (auto simp: put_row_def)
  show ?thesis using db rok unfolding store_ok_def m k2 put_row_rows [OF db s i] by auto
qed

text \<open>
  The update both recoveries make: the open attempt of a row ends, no other row and no other
  attempt changes state, and the store stays within its invariant.
\<close>

lemma end_attempt:
  assumes db: "store_ok db" and x: "x \<in> all_open db"
    and fn: "\<And>c. loadCase s = Inr c \<Longrightarrow> \<exists>ou. fn c = Case_RecordOutcome c (oa_AttemptID x) ou \<and> outcome_row_ok ou \<and>
        snd (fn c) = None"
    and s: "find (is_key (oa_Repository x) (oa_Number x)) (db_cases db) = Some s"
  shows "\<exists>db' out. UpdateCase (oa_Repository x) (oa_Number x) fn db = Inr (db', out) \<and> store_ok db' \<and>
    all_open db' = all_open db - {x}"
proof -
  have sin: "s \<in> set (db_cases db)" "sn_Repository s = oa_Repository x" "sn_Number s = oa_Number x"
    using s by (auto simp: find_Some_iff is_key_def)
  from x obtain t where t: "t \<in> set (db_cases db)" "x \<in> set (open_attempts t)" by (auto simp: all_open_def)
  then have "sn_Repository t = oa_Repository x" "sn_Number t = oa_Number x"
    by (auto simp: open_attempts_row row_open_def)
  with store_inj(1) [OF db t(1) sin(1)] sin(2,3) have "t = s" by simp
  note t = t(2) [unfolded this]
  have ok: "case_row_ok s" "int64_budgets (sn_Attempts s)" using db sin(1) by (auto simp: store_ok_def row_ok_def)
  obtain c0 as a where c0: "loadCase s = Inr c0" "case_inv c0" "sn_Attempts s = as @ [a]" "at_Outcome a = None"
    "list_all (\<lambda>y. \<not> Attempt_Open y) as" "x = row_open s a" "open_attempts s = [x]"
    using ok(1) t by (rule open_row)
  obtain ou where ou: "fn c0 = Case_RecordOutcome c0 (oa_AttemptID x) ou" "outcome_row_ok ou" "snd (fn c0) = None"
    using fn [OF c0(1)] by blast
  then obtain c where c: "fn c0 = (c, None)" "Case_RecordOutcome c0 (oa_AttemptID x) ou = (c, None)"
    by (metis prod.collapse)
  obtain s' where p: "persistChanges c s db = Some (s', db)"
    using outcome_commits [OF c0(1,2) c(2) ou(2)] by blast
  have cats: "cs_attempts c = as @ [a\<lparr>at_Outcome := Some ou\<rparr>]"
  proof -
    have "cs_attempts c0 = as @ [a]" using c0(1,3) by (simp add: loadCase_Inr)
    moreover obtain as' a' moves c1 where "cs_attempts c0 = as' @ [a']"
      "c1 = c0\<lparr>cs_attempts := as' @ [a'\<lparr>at_Outcome := Some ou\<rparr>], cs_changes := (cs_changes c0)
         \<lparr>ch_Outcomes := (ch_Outcomes (cs_changes c0))(at_Ordinal a' \<mapsto> ou)\<rparr>\<rparr>"
      "c = (case moves of None \<Rightarrow> c1 | Some (s, k) \<Rightarrow> Case_move c1 s k (oc_EndedAt ou))"
      using inv_only_last [OF c0(2)] c(2) by (rule RecordOutcome_ok)
    ultimately show ?thesis by (simp split: option.splits prod.splits)
  qed
  have i64: "int64_budgets (cs_attempts c)" using ok(2) by (simp add: cats c0(3) int64_budgets_def)
  obtain out where out: "loadCase s' = Inr out" "case_inv out" "same_facts c s'" "sn_ID s' = sn_ID s"
    using persist_loads [OF c0(1,2) _ _ p i64, of "[CmdOutcome (oa_AttemptID x) ou]"] c(2) by auto
  have st: "list_all2 stored_as (cs_attempts c) (sn_Attempts s')"
    "sn_Repository s' = cs_repository c" "sn_Number s' = cs_number c" using out(3) by (auto simp: same_facts_def)
  have key: "sn_Repository s' = sn_Repository s" "sn_Number s' = sn_Number s"
    using tracks_seq [OF tracks_loaded [OF c0(1)] c0(2), of "[CmdOutcome (oa_AttemptID x) ou]"] c(2) st(2,3)
    by (auto simp: tracks_def Let_def)
  have none: "open_attempts s' = []"
  proof -
    have "True \<notin> set (map Attempt_Open (sn_Attempts s'))"
      using c0(5) unfolding stored_as_list(2) [OF st(1)] by (auto simp: cats Attempt_Open_def list_all_iff)
    then show ?thesis by (auto simp: open_attempts_row filter_empty_conv)
  qed
  have rok: "row_ok s'" using out(1,2) int64_stored [OF st(1) i64] by (simp add: row_ok_def case_row_ok_def)
  have u: "UpdateCase (oa_Repository x) (oa_Number x) fn db = Inr (put_row s' db, out)"
    using s c0(1) c(1) p out(1) by (simp add: UpdateCase_def)
  note rows = put_row_rows [OF db sin(1) out(4)]
  have "store_ok (put_row s' db)" by (rule store_ok_put [OF db sin(1) out(4) key rok])
  moreover have "all_open (put_row s' db) = all_open db - {x}"
  proof -
    have "x \<notin> set (open_attempts r)" if "r \<in> set (db_cases db) - {s}" for r
    proof
      assume "x \<in> set (open_attempts r)"
      then have "sn_Repository r = sn_Repository s" "sn_Number r = sn_Number s"
        using sin(2,3) by (auto simp: open_attempts_row row_open_def)
      with store_inj(1) [OF db _ sin(1), of r] that show False by simp
    qed
    then show ?thesis using sin(1) c0(7) none unfolding all_open_def rows by auto
  qed
  ultimately show ?thesis using u by blast
qed

lemma target_open:
  assumes "case_inv c" "cs_attempts c = as @ [a]" "at_Outcome a = None" "i = at_ID a"
  shows "Case_target c i = Inr (length as)"
proof -
  have "list_all (\<lambda>y. \<not> Attempt_Open y) as" using inv_only_last [OF assms(1)] assms(2) by simp
  then have "first_index Attempt_Open (as @ [a]) = Some (length as)"
    using assms(3) by (induction as) (auto simp: Attempt_Open_def)
  with assms(2,4) show ?thesis by (simp add: Case_target_def Case_openAttempt_def Let_def)
qed

lemma zero_usage_row [simp]: "usage_row_ok zero_usage"
  by (simp add: usage_row_ok_def zero_usage_def int4_def toInterval_def)

lemma OutcomeAborted_row:
  assumes "reason \<in> set AllAbortReasons" "summary \<noteq> ''''"
  obtains ou where "OutcomeAborted reason summary zero_usage now = Inr ou" "outcome_row_ok ou"
    "oc_Kind ou = Aborted" "oc_Reason ou = reason" "oc_Summary ou \<noteq> ''''" "oc_EndedAt ou = now"
  using assms
  by (cases reason) (auto simp: OutcomeAborted_def zero_outcome_def outcome_row_ok_def AllAbortReasons_def)

lemma OutcomeFailed_row:
  assumes "message \<noteq> ''''"
  obtains ou where "OutcomeFailed FailureInfra message zero_usage now = Inr ou" "outcome_row_ok ou"
    "oc_Kind ou = FailedOutcome" "oc_Class ou = FailureInfra" "oc_Summary ou \<noteq> ''''" "oc_EndedAt ou = now"
  using assms
  by (auto simp: OutcomeFailed_def zero_outcome_def outcome_row_ok_def AllFailureClasses_def)

lemma record_open:
  assumes "case_inv c" "cs_attempts c = as @ [a]" "at_Outcome a = None" "i = at_ID a" "oc_Summary ou \<noteq> ''''"
    and "oc_Kind ou \<in> set AllOutcomeKinds"
    and "oc_Kind ou = Aborted \<Longrightarrow> cs_state c = Closed \<or> oc_Reason ou \<in> {AbortOperatorStop, AbortDaemonRestart}"
  shows "snd (Case_RecordOutcome c i ou) = None"
proof -
  have "\<exists>m. outcome_transition c (at_Ordinal a) ou = Inr m"
    using assms(6,7) by (cases "oc_Kind ou") (auto simp: outcome_transition_def AllOutcomeKinds_def)
  then obtain m where "outcome_transition c (at_Ordinal a) ou = Inr m" by blast
  moreover have "ParseOutcomeKind (oc_Kind ou) = Inr (oc_Kind ou)"
    using assms(6) by (simp add: ParseOutcomeKind_Inr)
  ultimately show ?thesis using target_open [OF assms(1-4)] assms(2,5)
    by (simp add: Case_RecordOutcome_def Let_def split: option.splits prod.splits)
qed

lemma loaded_open:
  assumes "case_row_ok s" "x \<in> set (open_attempts s)" "loadCase s = Inr c"
  obtains as a where "case_inv c" "cs_attempts c = as @ [a]" "at_Outcome a = None" "oa_AttemptID x = at_ID a"
proof -
  obtain c0 as a where "loadCase s = Inr c0" "case_inv c0" "sn_Attempts s = as @ [a]"
    "at_Outcome a = None" "x = row_open s a"
    using assms(1,2) by (rule open_row)
  with assms(3) that [of as a] show thesis by (simp add: loadCase_Inr row_open_def)
qed

lemma recovery_outcome:
  assumes "case_row_ok s" "x \<in> set (open_attempts s)" "loadCase s = Inr c"
  shows "\<exists>ou. recovery_update (oa_AttemptID x) now c = Case_RecordOutcome c (oa_AttemptID x) ou \<and>
    outcome_row_ok ou \<and> snd (recovery_update (oa_AttemptID x) now c) = None"
proof -
  obtain as a where a: "case_inv c" "cs_attempts c = as @ [a]" "at_Outcome a = None" "oa_AttemptID x = at_ID a"
    using assms by (rule loaded_open)
  define reason where "reason = (if cs_state c = Closed then AbortIssueClosed else AbortDaemonRestart)"
  define summary where "summary = (if cs_state c = Closed
    then ''The issue was closed while the attempt was running.'' else ''The daemon restarted during the attempt.'')"
  obtain ou where ou: "OutcomeAborted reason summary zero_usage now = Inr ou" "outcome_row_ok ou"
    "oc_Kind ou = Aborted" "oc_Reason ou = reason" "oc_Summary ou \<noteq> ''''"
    by (rule OutcomeAborted_row [of reason summary]) (auto simp: reason_def summary_def AllAbortReasons_def)
  have "recovery_update (oa_AttemptID x) now c = Case_RecordOutcome c (oa_AttemptID x) ou"
    using ou(1) by (simp add: recovery_update_def reason_def summary_def split: if_splits)
  moreover have "snd (Case_RecordOutcome c (oa_AttemptID x) ou) = None"
    using record_open [OF a ou(5)] ou(3,4) by (auto simp: reason_def AllOutcomeKinds_def)
  ultimately show ?thesis using ou(2) by (intro exI [of _ ou]) simp
qed

lemma row_of_open:
  assumes "x \<in> all_open db" "store_ok db"
  obtains s where "find (is_key (oa_Repository x) (oa_Number x)) (db_cases db) = Some s"
    "s \<in> set (db_cases db)" "x \<in> set (open_attempts s)" "case_row_ok s"
proof -
  from assms(1) obtain t where t: "t \<in> set (db_cases db)" "x \<in> set (open_attempts t)" by (auto simp: all_open_def)
  then have k: "is_key (oa_Repository x) (oa_Number x) t" by (auto simp: open_attempts_row row_open_def is_key_def)
  then obtain s where s: "find (is_key (oa_Repository x) (oa_Number x)) (db_cases db) = Some s"
    using t(1) by (cases "find (is_key (oa_Repository x) (oa_Number x)) (db_cases db)") (auto simp: find_None_iff)
  then have "s \<in> set (db_cases db)" "is_key (oa_Repository x) (oa_Number x) s" by (auto simp: find_Some_iff)
  with store_inj(1) [OF assms(2) t(1)] k have "t = s" by (simp add: is_key_def)
  with that s t assms(2) show thesis by (simp add: store_ok_def row_ok_def)
qed

lemma Recovery_one_step:
  assumes "store_ok (st_cases (dm_store d))" "x \<in> all_open (st_cases (dm_store d))"
  shows "store_ok (st_cases (dm_store (Recovery_one now x d))) \<and>
    all_open (st_cases (dm_store (Recovery_one now x d))) = all_open (st_cases (dm_store d)) - {x}"
proof -
  obtain s where s: "find (is_key (oa_Repository x) (oa_Number x)) (db_cases (st_cases (dm_store d))) = Some s"
    "x \<in> set (open_attempts s)" "case_row_ok s"
    using assms(2,1) by (rule row_of_open)
  have "\<exists>ou. recovery_update (oa_AttemptID x) now c = Case_RecordOutcome c (oa_AttemptID x) ou \<and>
      outcome_row_ok ou \<and> snd (recovery_update (oa_AttemptID x) now c) = None" if "loadCase s = Inr c" for c
    using s(3,2) that by (rule recovery_outcome)
  from end_attempt [OF assms this s(1)] obtain db' out where
    "UpdateCase (oa_Repository x) (oa_Number x) (recovery_update (oa_AttemptID x) now)
       (st_cases (dm_store d)) = Inr (db', out)"
    "store_ok db'" "all_open db' = all_open (st_cases (dm_store d)) - {x}" by blast
  then show ?thesis by (simp add: Recovery_one_def with_cases_def)
qed

lemma Recovery_fold:
  "store_ok (st_cases (dm_store d)) \<Longrightarrow> distinct xs \<Longrightarrow> set xs \<subseteq> all_open (st_cases (dm_store d)) \<Longrightarrow>
     store_ok (st_cases (dm_store (fold (Recovery_one now) xs d))) \<and>
     all_open (st_cases (dm_store (fold (Recovery_one now) xs d))) = all_open (st_cases (dm_store d)) - set xs"
proof (induction xs arbitrary: d)
  case (Cons x xs)
  let ?d = "Recovery_one now x d"
  have "store_ok (st_cases (dm_store ?d))" "all_open (st_cases (dm_store ?d)) = all_open (st_cases (dm_store d)) - {x}"
    using Recovery_one_step [of d x now] Cons.prems by auto
  with Cons show ?case by auto
qed simp

lemma distinct_open:
  "(\<forall>s \<in> set rs. case_row_ok s) \<Longrightarrow> distinct (map (\<lambda>s. (sn_Repository s, sn_Number s)) rs) \<Longrightarrow>
     distinct (concat (map open_attempts rs))"
proof (induction rs)
  case (Cons r rs)
  have "distinct (open_attempts r)"
  proof (cases "open_attempts r")
    case (Cons x xs)
    then show ?thesis using Cons.prems by (auto elim: open_row [of r x])
  qed simp
  moreover have "set (open_attempts r) \<inter> set (open_attempts s) = {}" if "s \<in> set rs" for s
  proof -
    have "(sn_Repository s, sn_Number s) \<noteq> (sn_Repository r, sn_Number r)"
      using Cons.prems(2) that by (auto simp: image_iff)
    then show ?thesis by (auto simp: open_attempts_row row_open_def)
  qed
  ultimately show ?case using Cons by auto
qed simp

lemma Recovery_Run_spec:
  assumes "store_ok (st_cases (dm_store d))"
  shows "store_ok (st_cases (dm_store (Recovery_Run now d))) \<and> all_open (st_cases (dm_store (Recovery_Run now d))) = {}"
proof -
  have "distinct (OpenAttempts (dm_store d))"
    using distinct_open assms by (simp add: OpenAttempts_def store_ok_def row_ok_def)
  with Recovery_fold [OF assms this] show ?thesis
    by (simp add: Recovery_Run_def set_OpenAttempts)
qed

definition attempt_ids_ok :: "CaseDB \<Rightarrow> bool" where
  "attempt_ids_ok db = (\<forall>s \<in> set (db_cases db). \<forall>t \<in> set (db_cases db).
     list_ex (\<lambda>a. list_ex (\<lambda>b. at_ID a = at_ID b) (sn_Attempts t)) (sn_Attempts s) \<longrightarrow> s = t)"

lemma find_by_attempt:
  assumes "attempt_ids_ok db" "s \<in> set (db_cases db)" "x \<in> set (open_attempts s)"
  shows "find (\<lambda>s. list_ex (\<lambda>a. at_ID a = oa_AttemptID x) (sn_Attempts s)) (db_cases db) = Some s"
proof -
  obtain a where a: "a \<in> set (sn_Attempts s)" "at_ID a = oa_AttemptID x"
    using assms(3) by (auto simp: open_attempts_row row_open_def)
  then obtain t where t: "find (\<lambda>s. list_ex (\<lambda>a. at_ID a = oa_AttemptID x) (sn_Attempts s)) (db_cases db) = Some t"
    using assms(2) by (cases "find (\<lambda>s. list_ex (\<lambda>a. at_ID a = oa_AttemptID x) (sn_Attempts s)) (db_cases db)")
      (auto simp: find_None_iff list_ex_iff)
  then have "t \<in> set (db_cases db)" "list_ex (\<lambda>a. at_ID a = oa_AttemptID x) (sn_Attempts t)"
    by (auto simp: find_Some_iff)
  with a assms(1,2) have "t = s" unfolding attempt_ids_ok_def list_ex_iff by metis
  with t show ?thesis by simp
qed

lemma backstop_message_nonempty: "backstop_message panic \<noteq> ''''"
  by (simp add: backstop_message_def split: option.splits)

lemma Scheduler_backstop_spec:
  assumes "store_ok (st_cases (dm_store d))" "attempt_ids_ok (st_cases (dm_store d))"
    and x: "x \<in> all_open (st_cases (dm_store d))"
  shows "\<exists>db. Scheduler_backstop False panic now (oa_AttemptID x) d = with_cases db d \<and> store_ok db \<and>
    all_open db = all_open (st_cases (dm_store d)) - {x}"
proof -
  obtain s where s: "find (is_key (oa_Repository x) (oa_Number x)) (db_cases (st_cases (dm_store d))) = Some s"
    "s \<in> set (db_cases (st_cases (dm_store d)))" "x \<in> set (open_attempts s)" "case_row_ok s"
    using x assms(1) by (rule row_of_open)
  obtain c where c: "loadCase s = Inr c" using s(4) by (auto simp: case_row_ok_def split: sum.splits)
  obtain as a where a: "case_inv c" "cs_attempts c = as @ [a]" "at_Outcome a = None" "oa_AttemptID x = at_ID a"
    using s(4,3) c by (rule loaded_open)
  have "first_index Attempt_Open (cs_attempts c) = Some (length as)"
    using target_open [OF a] by (auto simp: Case_target_def Case_openAttempt_def Let_def split: option.splits if_splits)
  then have opn: "Case_OpenAttempt c = Some a" by (simp add: Case_OpenAttempt_def Case_openAttempt_def a(2))
  have get: "GetCaseByAttempt (oa_AttemptID x) (st_cases (dm_store d)) = Inr c"
    using find_by_attempt [OF assms(2) s(2,3)] c by (simp add: GetCaseByAttempt_def)
  have key: "cs_repository c = oa_Repository x" "cs_number c = oa_Number x"
    using c s(3) by (auto simp: loadCase_Inr open_attempts_row row_open_def)
  obtain ou where ou: "OutcomeFailed FailureInfra (backstop_message panic) zero_usage now = Inr ou"
    "outcome_row_ok ou" "oc_Kind ou = FailedOutcome" "oc_Summary ou \<noteq> ''''"
    using backstop_message_nonempty by (rule OutcomeFailed_row)
  have fn: "\<exists>ou'. Case_RecordOutcome c' (oa_AttemptID x) ou = Case_RecordOutcome c' (oa_AttemptID x) ou' \<and>
      outcome_row_ok ou' \<and> snd (Case_RecordOutcome c' (oa_AttemptID x) ou) = None" if "loadCase s = Inr c'" for c'
    using record_open [OF a ou(4)] ou(2,3) that c by (auto simp: AllOutcomeKinds_def)
  from end_attempt [OF assms(1) x fn s(1)] obtain db' out where
    "UpdateCase (oa_Repository x) (oa_Number x) (\<lambda>c. Case_RecordOutcome c (oa_AttemptID x) ou)
       (st_cases (dm_store d)) = Inr (db', out)"
    "store_ok db'" "all_open db' = all_open (st_cases (dm_store d)) - {x}" by blast
  moreover from this(1) have "Scheduler_backstop False panic now (oa_AttemptID x) d = with_cases db' d"
    using get opn ou(1) key a(4) by (simp add: Scheduler_backstop_def)
  ultimately show ?thesis by blast
qed

subsection \<open>A daemon with a running attempt\<close>

definition demo_open_row :: Snapshot where
  "demo_open_row = \<lparr>sn_ID = ''0'', sn_Repository = ''o/r'', sn_Number = 7,
     sn_Requester = demo_rq Trusted, sn_State = Attempting, sn_ReceivedAt = 0,
     sn_Triage = Some \<lparr>tg_Size = Small, tg_Rationale = ''r'', tg_Model = ''m'', tg_TriagedAt = 1\<rparr>,
     sn_Approvals = [], sn_Attempts = [\<lparr>at_ID = ''a1'', at_Ordinal = 1, at_Kind = Auto,
       at_Budget = demo_budget, at_Brief = ''b'', at_StartedAt = 2, at_Run = None, at_Outcome = None\<rparr>],
     sn_Transitions = [], sn_Closure = None\<rparr>"

definition demo_daemon :: "Snapshot list \<Rightarrow> Daemon" where
  "demo_daemon rows = \<lparr>dm_store = \<lparr>st_cases = demo_db\<lparr>db_cases := rows\<rparr>,
       st_bumps = \<lparr>bd_bumps = [], bd_watches = [], bd_closure_deliveries = [], bd_run_ids = [],
         bd_webhooks = [], bd_fresh = 0\<rparr>,
       st_repos = [], st_labels = [], st_deliveries = [], st_processed = [], st_triage_comments = [],
       st_outcome_comments = [], st_comments = [], st_posted = []\<rparr>,
     dm_running = [''a1''], dm_rounds = [], dm_done = 0\<rparr>"

definition sched_cfg :: SchedConfig where
  "sched_cfg = \<lparr>sc_Concurrency = 1, sc_Budgets = \<lparr>pol_Auto = demo_budget, pol_Approved = demo_budget,
     pol_Repair = demo_budget\<rparr>, sc_RoundCap = 3, sc_DependabotLogin = '''', sc_Window = 1\<rparr>"

lemma demo_open_loaded:
  "loadCase demo_open_row = Inr \<lparr>cs_id = ''0'', cs_repository = ''o/r'', cs_number = 7,
      cs_requester = demo_rq Trusted, cs_state = Attempting, cs_receivedAt = 0,
      cs_triage = Some \<lparr>tg_Size = Small, tg_Rationale = ''r'', tg_Model = ''m'', tg_TriagedAt = 1\<rparr>,
      cs_approvals = [], cs_attempts = sn_Attempts demo_open_row, cs_transitions = [], cs_closure = None,
      cs_changes = no_changes Attempting\<rparr>"
  by (simp add: loadCase_Inr demo_open_row_def limits_positive_def demo_budget_def demo_rq_def Attempt_Open_def)

lemma demo_daemon_ok:
  "store_ok (st_cases (dm_store (demo_daemon [demo_open_row])))"
  "attempt_ids_ok (st_cases (dm_store (demo_daemon [demo_open_row])))"
  "OpenAttempts (dm_store (demo_daemon [demo_open_row])) =
     [\<lparr>oa_AttemptID = ''a1'', oa_Repository = ''o/r'', oa_Number = 7, oa_Ordinal = 1, oa_StartedAt = 2\<rparr>]"
  "ids_ok (demo_daemon [demo_open_row])" "daemon_load (demo_daemon [demo_open_row]) = 1"
proof -
  have "row_ok demo_open_row" using demo_open_loaded
    by (simp add: row_ok_def case_row_ok_def inv_defs demo_open_row_def numbered_def only_last_def Attempt_Open_def
        requeues_def AllCaseStates_def demo_rq_def int64_budgets_def demo_budget_def)
  then show "store_ok (st_cases (dm_store (demo_daemon [demo_open_row])))"
    by (simp add: store_ok_def demo_daemon_def)
qed (simp_all add: attempt_ids_ok_def ids_ok_def demo_daemon_def demo_open_row_def OpenAttempts_def
      open_attempts_def Attempt_Open_def daemon_load_sum)

subsection \<open>Properties\<close>

text \<open>One pool of sandboxes serves both halves and is never oversubscribed: after the scheduler of
  attempts and then the scheduler of rounds have run, whatever the queues, GitHub and the
  rows hold, the attempts and rounds that are open are together at most the configured
  concurrency, or no more than were open before.\<close>
theorem pool_never_oversubscribed:
  assumes "ids_ok d"
  shows "int (daemon_load (RepairScheduler_Run cfg getPull now2 (Scheduler_Run cfg getIssue now1 d)))
    \<le> max (sc_Concurrency cfg) (int (daemon_load d))"
  using RepairScheduler_Run_load [of "Scheduler_Run cfg getIssue now1 d" cfg getPull now2]
    Scheduler_Run_load [OF assms, of cfg getIssue now1] by auto

theorem pool_never_oversubscribed_witness:
  "daemon_load (RepairScheduler_Run sched_cfg (\<lambda>_ _. Inl (GitHubError ''down'')) 5
     (Scheduler_Run sched_cfg (\<lambda>_ _. Inl (GitHubError ''down'')) 5 (demo_daemon [demo_open_row]))) \<le> 1"
  using pool_never_oversubscribed [OF demo_daemon_ok(4), of sched_cfg "\<lambda>_ _. Inl (GitHubError ''down'')" 5
      "\<lambda>_ _. Inl (GitHubError ''down'')" 5]
  by (simp add: demo_daemon_ok(5) sched_cfg_def)



text \<open>A runner that panics or returns without an outcome never leaves its case attempting: when a
  run ends while the daemon is up, the attempt it was given is no longer open, nothing else
  changed state, the attempt is off the list of running ones and the hook for a finished
  run fired once. When the daemon is going down the attempt stays open, for the recovery
  of the next boot.\<close>
theorem backstop_ends_the_attempt:
  assumes "store_ok (st_cases (dm_store d))" "attempt_ids_ok (st_cases (dm_store d))"
    and "x \<in> set (OpenAttempts (dm_store d))" "oa_AttemptID x \<noteq> ''''"
  shows "let d' = Scheduler_finish down panic now (oa_AttemptID x) d in
    set (OpenAttempts (dm_store d')) = set (OpenAttempts (dm_store d)) - (if down then {} else {x}) \<and>
    store_ok (st_cases (dm_store d')) \<and> oa_AttemptID x \<notin> set (dm_running d') \<and> dm_done d' = dm_done d + 1"
proof (cases down)
  case True
  with assms show ?thesis
    by (simp add: Scheduler_finish_def Scheduler_backstop_def Scheduler_mark_def mark_list_def Let_def)
next
  case False
  have "x \<in> all_open (st_cases (dm_store d))" using assms(3) by (simp add: set_OpenAttempts)
  from Scheduler_backstop_spec [OF assms(1,2) this] obtain db where
    "Scheduler_backstop False panic now (oa_AttemptID x) d = with_cases db d" "store_ok db"
    "all_open db = all_open (st_cases (dm_store d)) - {x}" by blast
  with False assms(4) show ?thesis
    by (simp add: Scheduler_finish_def Scheduler_mark_def mark_list_def with_cases_def set_OpenAttempts Let_def)
qed

theorem backstop_ends_the_attempt_witness:
  "OpenAttempts (dm_store (Scheduler_finish False (Some ''nil map'') 9 ''a1'' (demo_daemon [demo_open_row]))) = []"
  using backstop_ends_the_attempt [OF demo_daemon_ok(1,2), of
      "\<lparr>oa_AttemptID = ''a1'', oa_Repository = ''o/r'', oa_Number = 7, oa_Ordinal = 1, oa_StartedAt = 2\<rparr>"
      False "Some ''nil map''" 9]
  by (simp add: demo_daemon_ok(3) Let_def)

end
