(* ===== verification/GoText.thy ===== *)
theory GoText
  imports GoBase
begin

section \<open>Text for people\<close>

text \<open>
  What the services use of Go's text functions when they write to people: a string's runes,
  \<^verbatim>\<open>strings.Fields\<close>, the conversion to \<^verbatim>\<open>[]rune\<close> and back, and the printed form of a
  \<^verbatim>\<open>time.Duration\<close>.
\<close>

subsection \<open>Runes\<close>

definition byte_in :: "nat \<Rightarrow> nat \<Rightarrow> char \<Rightarrow> bool" where
  "byte_in lo hi c = (lo \<le> (of_char c :: nat) \<and> (of_char c :: nat) \<le> hi)"

text \<open>The length of the UTF-8 sequence at the head of a string, 0 where it is not valid.\<close>

fun rune_len :: "string \<Rightarrow> nat" where
  "rune_len [] = 0"
| "rune_len (a # s) =
     (if byte_in 0 0x7F a then 1
      else if byte_in 0xC2 0xDF a
      then (case s of b # _ \<Rightarrow> if byte_in 0x80 0xBF b then 2 else 0 | _ \<Rightarrow> 0)
      else if byte_in 0xE0 0xEF a
      then (case s of b # c # _ \<Rightarrow>
              if byte_in (if a = CHR 0xE0 then 0xA0 else 0x80) (if a = CHR 0xED then 0x9F else 0xBF) b \<and>
                 byte_in 0x80 0xBF c then 3 else 0 | _ \<Rightarrow> 0)
      else if byte_in 0xF0 0xF4 a
      then (case s of b # c # d # _ \<Rightarrow>
              if byte_in (if a = CHR 0xF0 then 0x90 else 0x80) (if a = CHR 0xF4 then 0x8F else 0xBF) b \<and>
                 byte_in 0x80 0xBF c \<and> byte_in 0x80 0xBF d then 4 else 0 | _ \<Rightarrow> 0)
      else 0)"

text \<open>A string as the chunks \<^verbatim>\<open>range\<close> steps over; a byte that starts no sequence is a chunk of its own.\<close>

declare rune_len.simps [simp del]

lemma drop_shorter: "length (drop (max 1 n) (c # s)) < length (c # s)"
  by simp

function runes :: "string \<Rightarrow> string list" where
  "runes [] = []"
| "runes (c # s) = (let n = max 1 (rune_len (c # s)) in take n (c # s) # runes (drop n (c # s)))"
  by pat_completeness auto
termination by (relation "measure length") (simp, simp only: in_measure drop_shorter)

declare runes.simps(2) [simp del]

lemma concat_runes [simp]: "concat (runes s) = s"
proof (induction s rule: runes.induct)
  case (2 c s)
  then show ?case by (simp add: runes.simps(2) Let_def)
qed simp

lemma runes_nonempty: "[] \<notin> set (runes s)"
proof (induction s rule: runes.induct)
  case (2 c s)
  then show ?case by (simp add: runes.simps(2) Let_def)
qed simp

text \<open>Back from \<^verbatim>\<open>[]rune\<close>: an invalid byte became U+FFFD.\<close>

definition encode_rune :: "string \<Rightarrow> string" where
  "encode_rune r = (if rune_len r = 0 then [CHR 0xEF, CHR 0xBF, CHR 0xBD] else r)"

declare rune_len.simps [simp]

lemma rune_len_le: "rune_len s \<le> length s \<and> rune_len s \<le> 4"
  by (cases s) (auto split: list.splits)

lemma rune_len_append:
  assumes "rune_len r = length r" "r \<noteq> []"
  shows "rune_len (r @ s) = length r"
proof -
  obtain a r1 where r: "r = a # r1" using assms(2) by (cases r) auto
  show ?thesis
  proof (cases r1)
    case Nil
    then show ?thesis using assms(1) by (auto simp: r split: if_splits list.splits)
  next
    case (Cons b r2)
    note r1 = this
    show ?thesis
    proof (cases r2)
      case Nil
      then show ?thesis using assms(1) by (auto simp: r r1 split: if_splits)
    next
      case (Cons c r3)
      note r2 = this
      show ?thesis
        using assms(1) by (cases r3) (auto simp: r r1 r2 split: if_splits list.splits)
    qed
  qed
qed

lemma rune_len_take:
  assumes "rune_len s = n" "0 < n"
  shows "rune_len (take n s) = n"
proof -
  obtain a t where s: "s = a # t" using assms by (cases s) auto
  consider "t = []" | b where "t = [b]" | b c where "t = [b, c]" | b c d u where "t = b # c # d # u"
    by (cases t; cases "tl t"; cases "tl (tl t)") auto
  then show ?thesis
    using assms by cases (auto simp: s split: if_splits)
qed

lemma runes_chunk: "r \<in> set (runes s) \<Longrightarrow> r \<noteq> [] \<and> (rune_len r = length r \<or> rune_len r = 0)"
proof (induction s rule: runes.induct)
  case (2 c s)
  let ?n = "max 1 (rune_len (c # s))"
  from 2(2) consider "r = take ?n (c # s)" | "r \<in> set (runes (drop ?n (c # s)))"
    by (auto simp: runes.simps(2) Let_def simp del: rune_len.simps)
  then show ?case
  proof cases
    case 1
    show ?thesis
    proof (cases "rune_len (c # s)")
      case 0
      then have "r = [c]" using 1 by (simp del: rune_len.simps)
      then show ?thesis by (auto split: if_splits)
    next
      case (Suc k)
      then have "?n = rune_len (c # s)" by (simp del: rune_len.simps)
      with 1 Suc have "rune_len r = ?n" using rune_len_take [of "c # s" ?n] by (simp del: rune_len.simps)
      moreover have "length r = ?n" using 1 Suc rune_len_le [of "c # s"] by (simp del: rune_len.simps)
      ultimately show ?thesis using Suc by auto
    qed
  next
    case 2
    with "2.IH" show ?thesis by (simp del: rune_len.simps)
  qed
qed simp

lemma encode_rune_valid:
  "r \<in> set (runes s) \<Longrightarrow> rune_len (encode_rune r) = length (encode_rune r) \<and> encode_rune r \<noteq> []"
  using runes_chunk [of r s] by (auto simp: encode_rune_def byte_in_def)

lemma runes_concat:
  "(\<forall>r \<in> set rs. rune_len r = length r \<and> r \<noteq> []) \<Longrightarrow> runes (concat rs @ t) = rs @ runes t"
proof (induction rs)
  case (Cons r rs)
  then obtain c r' where r: "r = c # r'" by (cases r) auto
  have l: "rune_len (r @ concat rs @ t) = length r" using Cons.prems by (intro rune_len_append) auto
  have "max 1 (rune_len (r @ concat rs @ t)) = length r" using l r by simp
  then have "runes (r @ concat rs @ t) = r # runes (concat rs @ t)"
    using runes.simps(2) [of c "r' @ concat rs @ t"] by (simp add: r Let_def)
  with Cons show ?case by simp
qed simp

text \<open>Cutting a string at a rune: the cut has exactly that many runes.\<close>

lemma runes_cut:
  "runes (concat (map encode_rune (take n (runes s))) @ t) = map encode_rune (take n (runes s)) @ runes t"
  by (rule runes_concat) (auto dest!: in_set_takeD simp: encode_rune_valid)

definition unicode_space :: "string \<Rightarrow> bool" where
  "unicode_space r = (r \<in> {[CHR 0x09], [CHR 0x0A], [CHR 0x0B], [CHR 0x0C], [CHR 0x0D], [CHR 0x20],
     [CHR 0xC2, CHR 0x85], [CHR 0xC2, CHR 0xA0], [CHR 0xE1, CHR 0x9A, CHR 0x80],
     [CHR 0xE2, CHR 0x80, CHR 0xA8], [CHR 0xE2, CHR 0x80, CHR 0xA9], [CHR 0xE2, CHR 0x80, CHR 0xAF],
     [CHR 0xE2, CHR 0x81, CHR 0x9F], [CHR 0xE3, CHR 0x80, CHR 0x80]} \<or>
     (case r of [a, b, c] \<Rightarrow> a = CHR 0xE2 \<and> b = CHR 0x80 \<and> byte_in 0x80 0x8A c | _ \<Rightarrow> False))"

text \<open>The maximal runs of chunks that are not white space.\<close>

fun fields_acc :: "string \<Rightarrow> string list \<Rightarrow> string list" where
  "fields_acc cur [] = (if cur = [] then [] else [cur])"
| "fields_acc cur (r # rs) =
     (if unicode_space r then (if cur = [] then [] else [cur]) @ fields_acc [] rs
      else fields_acc (cur @ r) rs)"

definition Fields :: "string \<Rightarrow> string list" where
  "Fields s = fields_acc [] (runes s)"

definition TrimSpace :: "string \<Rightarrow> string" where
  "TrimSpace s = concat (rev (dropWhile unicode_space (rev (dropWhile unicode_space (runes s)))))"

text \<open>The first \<open>n\<close> runes of a longer string, as \<^verbatim>\<open>string([]rune(s)[:n])\<close>.\<close>

definition first_runes :: "nat \<Rightarrow> string \<Rightarrow> string" where
  "first_runes n s = concat (map encode_rune (take n (runes s)))"

lemma runes_first: "n \<le> length (runes s) \<Longrightarrow> length (runes (first_runes n s @ t)) = n + length (runes t)"
  by (simp add: first_runes_def runes_cut)

subsection \<open>Durations\<close>

text \<open>\<^verbatim>\<open>fmtFrac\<close>: the fraction \<open>v / 10 ^ prec\<close> without its trailing zeros.\<close>

fun show_frac :: "nat \<Rightarrow> int \<Rightarrow> string" where
  "show_frac 0 v = []"
| "show_frac (Suc prec) v =
     (if v = 0 then []
      else CHR ''.'' # digit_char (nat (v div 10 ^ prec)) # drop 1 (show_frac prec (v mod 10 ^ prec)))"

definition Duration_String :: "Duration \<Rightarrow> string" where
  "Duration_String d =
     (let u = \<bar>d\<bar>;
          body = (if u = 0 then ''0s''
            else if u < 1000 then show_int u @ ''ns''
            else if u < 1000000 then show_int (u div 1000) @ show_frac 3 (u mod 1000) @ [CHR 0xC2, CHR 0xB5, CHR ''s'']
            else if u < 1000000000 then show_int (u div 1000000) @ show_frac 6 (u mod 1000000) @ ''ms''
            else (let secs = u div 1000000000; mins = secs div 60; hours = mins div 60 in
              (if hours > 0 then show_int hours @ ''h'' else []) @
              (if mins > 0 then show_int (mins mod 60) @ ''m'' else []) @
              show_int (secs mod 60) @ show_frac 9 (u mod 1000000000) @ ''s''))
      in (if d < 0 then CHR ''-'' # body else body))"

text \<open>\<^verbatim>\<open>Duration.Round\<close> for a positive \<open>m\<close>: halves go away from zero, and a result out of range is the extreme.\<close>

definition Duration_Round :: "Duration \<Rightarrow> Duration \<Rightarrow> Duration" where
  "Duration_Round d m =
     (if d < 0
      then (let r = (- d) mod m in
            if 2 * r < m then d + r
            else if d - m + r \<ge> - (2 ^ 63) then d - m + r else - (2 ^ 63))
      else (let r = d mod m in
            if 2 * r < m then d - r
            else if d + m - r < 2 ^ 63 then d + m - r else 2 ^ 63 - 1))"

end
