(* ===== verification/Sizing.thy ===== *)
theory Sizing
  imports SchedulingInv GoText
begin

section \<open>Sizing every received case\<close>

text \<open>
  \<^verbatim>\<open>internal/app/triage.go\<close>. The service keeps, in memory only, how often the model call of a
  case has failed and when the next may go out. The model is the parameter \<open>classify\<close>, any
  function from title and body to an error's text or a triage; \<open>now\<close> is what the clock says
  while one case is worked. Metrics and logging are left out.
\<close>

definition triageBackoff :: Duration where "triageBackoff = 60000000000"
definition triageBackoffCap :: Duration where "triageBackoffCap = 3600000000000"
definition triageGiveUp :: nat where "triageGiveUp = 5"

record TriageFailure =
  tf_count :: nat
  tf_next :: Time

record Sizer =
  sz_store :: Store
  sz_failures :: "(string \<times> int) \<rightharpoonup> TriageFailure"

definition triage_model :: "string \<Rightarrow> string" where
  "triage_model m = (if m = '''' then ''unknown'' else m)"

definition triage_eligible :: "Time \<Rightarrow> string \<times> int \<Rightarrow> Sizer \<Rightarrow> bool" where
  "triage_eligible now k z =
     (case sz_failures z k of None \<Rightarrow> True | Some f \<Rightarrow> \<not> now < tf_next f)"

text \<open>The doubling loop, which stops early at the cap.\<close>

fun double_wait :: "nat \<Rightarrow> Duration \<Rightarrow> Duration" where
  "double_wait 0 wait = wait"
| "double_wait (Suc n) wait = (if triageBackoffCap \<le> wait then wait else double_wait n (i64 (wait * 2)))"

definition triage_fail :: "Time \<Rightarrow> string \<times> int \<Rightarrow> Sizer \<Rightarrow> Sizer \<times> nat \<times> Time" where
  "triage_fail now k z =
     (let n = Suc (case sz_failures z k of None \<Rightarrow> 0 | Some f \<Rightarrow> tf_count f);
          wait = double_wait (n - 1) triageBackoff;
          wait' = (if triageBackoffCap < wait then triageBackoffCap else wait);
          next' = now + wait'
      in (z\<lparr>sz_failures := (sz_failures z)(k \<mapsto> \<lparr>tf_count = n, tf_next = next'\<rparr>)\<rparr>, n, next'))"

definition triage_clear :: "string \<times> int \<Rightarrow> Sizer \<Rightarrow> Sizer" where
  "triage_clear k z = z\<lparr>sz_failures := (sz_failures z)(k := None)\<rparr>"

text \<open>One line of at most 300 runes and three dots.\<close>

definition oneLine :: "string \<Rightarrow> string" where
  "oneLine s =
     (let t = Join (Fields s) '' ''; r = runes t in
      if 300 < length r then concat (map encode_rune (take 300 r)) @ ''...'' else t)"

definition park_triage :: "string \<Rightarrow> nat \<Rightarrow> string \<Rightarrow> Triage" where
  "park_triage model n err =
     \<lparr>tg_Size = Large,
      tg_Rationale = ''triage failed '' @ show_nat n @ '' times, last error: '' @ oneLine err,
      tg_Model = triage_model model, tg_TriagedAt = 0\<rparr>"

text \<open>The second component is whether an error was returned (and logged).\<close>

definition triage_one ::
    "string \<Rightarrow> (string \<Rightarrow> int \<Rightarrow> gherr + IssueDetail) \<Rightarrow> (string \<Rightarrow> string \<Rightarrow> string + Triage) \<Rightarrow> Time \<Rightarrow>
     string \<times> int \<Rightarrow> Sizer \<Rightarrow> Sizer \<times> bool" where
  "triage_one model getIssue classify now k z =
     (case getIssue (fst k) (snd k) of Inl _ \<Rightarrow> (z, True)
      | Inr detail \<Rightarrow>
        (let finish = (\<lambda>tr z. let tr' = tr\<lparr>tg_TriagedAt := now\<rparr> in
               case UpdateCase (fst k) (snd k) (\<lambda>c. Case_RecordTriage c tr') (st_cases (sz_store z)) of
                 Inl _ \<Rightarrow> (z, True)
               | Inr (db, _) \<Rightarrow> (triage_clear k (z\<lparr>sz_store := (sz_store z)\<lparr>st_cases := db\<rparr>\<rparr>), False))
         in case classify (is_Title detail) (is_Body detail) of
              Inr tr \<Rightarrow> finish tr z
            | Inl cerr \<Rightarrow>
              (case triage_fail now k z of (z1, n, next') \<Rightarrow>
                 if n < triageGiveUp then (z1, True)
                 else finish (park_triage model n cerr) z1)))"

definition Triage_Run ::
    "string \<Rightarrow> (string \<Rightarrow> int \<Rightarrow> gherr + IssueDetail) \<Rightarrow> (string \<Rightarrow> string \<Rightarrow> string + Triage) \<Rightarrow> Time \<Rightarrow>
     Sizer \<Rightarrow> Sizer" where
  "Triage_Run model getIssue classify now z =
     fold (\<lambda>k z. if triage_eligible now k z then fst (triage_one model getIssue classify now k z) else z)
       (ReceivedWithoutTriage (sz_store z)) z"

subsection \<open>The wait\<close>

lemma double_wait_closed:
  "0 < w \<Longrightarrow> w \<le> triageBackoffCap \<Longrightarrow> min (double_wait n w) triageBackoffCap = min (w * 2 ^ n) triageBackoffCap"
proof (induction n arbitrary: w)
  case (Suc n)
  show ?case
  proof (cases "triageBackoffCap \<le> w")
    case True
    have "w * 1 \<le> w * 2 ^ Suc n" using Suc.prems(1) one_le_power [of "2::int" "Suc n"]
      by (intro mult_left_mono) simp_all
    with True Suc.prems show ?thesis by simp
  next
    case False
    then have i: "i64 (w * 2) = w * 2" using Suc.prems by (intro i64_id) (simp_all add: triageBackoffCap_def)
    show ?thesis
    proof (cases "w * 2 \<le> triageBackoffCap")
      case True
      with False Suc.IH [of "w * 2"] Suc.prems i show ?thesis by (simp add: mult.assoc)
    next
      case big: False
      have "w * 2 * 1 \<le> w * 2 * 2 ^ n" using Suc.prems(1) one_le_power [of "2::int" n]
        by (intro mult_left_mono) simp_all
      moreover have "double_wait n (w * 2) = w * 2" using big by (cases n) simp_all
      ultimately have "triageBackoffCap \<le> w * 2 ^ Suc n" "double_wait n (w * 2) = w * 2" using big by simp_all
      then show ?thesis using False big i by (simp add: mult.assoc del: power_Suc)
    qed
  qed
qed simp

text \<open>The wait after the n-th failure is what the comment promises: the doubling loop, its early stop
  and the final cap together compute one minute times two to the failures before it, capped at
  one hour, for every number of failures (the doubling never wraps), and the failure is counted.\<close>
theorem triage_backoff_closed_form:
  "triage_fail now k z =
     (let n = (case sz_failures z k of None \<Rightarrow> 0 | Some f \<Rightarrow> tf_count f);
          next' = now + min (triageBackoff * 2 ^ n) triageBackoffCap
      in (z\<lparr>sz_failures := (sz_failures z)(k \<mapsto> \<lparr>tf_count = n + 1, tf_next = next'\<rparr>)\<rparr>, n + 1, next'))"
proof -
  have "(if triageBackoffCap < double_wait n triageBackoff then triageBackoffCap else double_wait n triageBackoff) =
      min (triageBackoff * 2 ^ n) triageBackoffCap" for n
  proof -
    have "(if c < x then c else x) = min x c" for c x :: int by (simp add: min_def)
    moreover have "0 < triageBackoff" "triageBackoff \<le> triageBackoffCap"
      by (simp_all add: triageBackoff_def triageBackoffCap_def)
    ultimately show ?thesis using double_wait_closed by metis
  qed
  then show ?thesis by (simp add: triage_fail_def Let_def)
qed

subsection \<open>What a sizing writes\<close>

definition sized :: "Triage \<Rightarrow> Snapshot \<Rightarrow> Snapshot" where
  "sized t s = (let st = (if tg_Size t = Small then Queued else AwaitingApproval) in
     s\<lparr>sn_Triage := Some t, sn_State := st,
       sn_Transitions := sn_Transitions s @ [\<lparr>tr_From = Received, tr_To = st,
         tr_Cause = (if tg_Size t = Small then CauseTriageSmall else CauseTriageLarge),
         tr_OccurredAt = tg_TriagedAt t\<rparr>]\<rparr>)"

definition sizeable :: "Triage \<Rightarrow> Snapshot \<Rightarrow> bool" where
  "sizeable t s = (tg_Size t \<in> {Small, Large} \<and> tg_Rationale t \<noteq> '''' \<and> tg_Model t \<noteq> '''' \<and>
     sn_State s = Received \<and> sn_Triage s = None)"

lemma sized_key [simp]: "sn_ID (sized t s) = sn_ID s" "is_key r n (sized t s) = is_key r n s"
    "sn_Repository (sized t s) = sn_Repository s" "sn_Number (sized t s) = sn_Number s"
    "sn_State (sized t s) \<noteq> Received"
  by (simp_all add: sized_def is_key_def Let_def)

lemma loaded_row:
  assumes "row_ok s"
  obtains c where "loadCase s = Inr c" "case_inv c"
  using assms by (auto simp: row_ok_def case_row_ok_def split: sum.splits)

lemma triage_update:
  assumes db: "store_ok db" and s: "find (is_key r n) (db_cases db) = Some s"
  shows "if sizeable t s
    then \<exists>out. UpdateCase r n (\<lambda>c. Case_RecordTriage c t) db = Inr (put_row (sized t s) db, out) \<and> row_ok (sized t s)
    else \<exists>e. UpdateCase r n (\<lambda>c. Case_RecordTriage c t) db = Inl e"
proof -
  have ok: "row_ok s" using db s by (auto simp: store_ok_def find_Some_iff)
  then obtain c0 where c0: "loadCase s = Inr c0" "case_inv c0" by (rule loaded_row)
  have f: "cs_state c0 = sn_State s" "cs_triage c0 = sn_Triage s" using c0(1) by (simp_all add: loadCase_Inr)
  show ?thesis
  proof (cases "sizeable t s")
    case False
    then have "\<nexists>c. Case_RecordTriage c0 t = (c, None)" by (auto simp: RecordTriage_ok sizeable_def f)
    then obtain c e where "Case_RecordTriage c0 t = (c, Some e)" by (metis not_None_eq surj_pair)
    with False s c0(1) show ?thesis by (simp add: UpdateCase_def)
  next
    case True
    then obtain c where c: "Case_RecordTriage c0 t = (c, None)" by (auto simp: RecordTriage_ok sizeable_def f)
    have p: "persistChanges c s db = Some (sized t s, db)"
      using c c0(1) True
      by (auto simp: RecordTriage_ok persistChanges_def Let_def loadCase_Inr no_changes_def insert_triage_def
          insert_closure_def AllSizes_def sized_def sizeable_def transition_row_ok_def state_row_ok_def
          AllCaseStates_def AllTransitionCauses_def)
    have at: "cs_attempts c = sn_Attempts s" using c c0(1) by (auto simp: RecordTriage_ok loadCase_Inr Case_move_def Let_def)
    have i: "int64_budgets (cs_attempts c)" using ok by (simp add: at row_ok_def)
    obtain out where out: "loadCase (sized t s) = Inr out" "case_inv out"
      using persist_loads [OF c0 _ _ p i, of "[CmdTriage t]"] c by auto
    have "sn_Attempts (sized t s) = sn_Attempts s" by (simp add: sized_def Let_def)
    with ok out have "row_ok (sized t s)" by (simp add: row_ok_def case_row_ok_def)
    moreover have "UpdateCase r n (\<lambda>c. Case_RecordTriage c t) db = Inr (put_row (sized t s) db, out)"
      using s c0(1) c p out(1) by (simp add: UpdateCase_def)
    ultimately show ?thesis using True by auto
  qed
qed

subsection \<open>One pass\<close>

abbreviation sz_row :: "string \<times> int \<Rightarrow> Sizer \<Rightarrow> Snapshot option" where
  "sz_row k z \<equiv> find (is_key (fst k) (snd k)) (db_cases (st_cases (sz_store z)))"

definition same_for :: "string \<times> int \<Rightarrow> Sizer \<Rightarrow> Sizer \<Rightarrow> bool" where
  "same_for k z z' = (sz_row k z' = sz_row k z \<and> sz_failures z' k = sz_failures z k)"

definition sizer_ok :: "Sizer \<Rightarrow> bool" where
  "sizer_ok z = store_ok (st_cases (sz_store z))"

definition record_triage :: "string \<times> int \<Rightarrow> Triage \<Rightarrow> Sizer \<Rightarrow> Sizer" where
  "record_triage k tr z =
     (case UpdateCase (fst k) (snd k) (\<lambda>c. Case_RecordTriage c tr) (st_cases (sz_store z)) of
        Inl _ \<Rightarrow> z | Inr (db, _) \<Rightarrow> triage_clear k (z\<lparr>sz_store := (sz_store z)\<lparr>st_cases := db\<rparr>\<rparr>))"

lemma triage_one_eq:
  "fst (triage_one model getIssue classify now k z) =
     (case getIssue (fst k) (snd k) of Inl _ \<Rightarrow> z
      | Inr detail \<Rightarrow> (case classify (is_Title detail) (is_Body detail) of
          Inr tr \<Rightarrow> record_triage k (tr\<lparr>tg_TriagedAt := now\<rparr>) z
        | Inl cerr \<Rightarrow> (case triage_fail now k z of (z1, n, next') \<Rightarrow>
            if n < triageGiveUp then z1
            else record_triage k ((park_triage model n cerr)\<lparr>tg_TriagedAt := now\<rparr>) z1)))"
  by (auto simp: triage_one_def record_triage_def Let_def split: sum.splits prod.splits)

lemma record_triage_effect:
  assumes "sizer_ok z"
  shows "sizer_ok (record_triage k tr z) \<and>
    (\<forall>k'. k' \<noteq> k \<longrightarrow> same_for k' z (record_triage k tr z)) \<and>
    (case sz_row k z of None \<Rightarrow> True | Some s \<Rightarrow>
       if sizeable tr s then sz_row k (record_triage k tr z) = Some (sized tr s) \<and> sz_failures (record_triage k tr z) k = None
       else record_triage k tr z = z)"
proof (cases "sz_row k z")
  case None
  then have "record_triage k tr z = z" by (simp add: record_triage_def UpdateCase_def)
  with assms None show ?thesis by (simp add: same_for_def)
next
  case (Some s)
  have db: "store_ok (st_cases (sz_store z))" using assms by (simp add: sizer_ok_def)
  have s: "s \<in> set (db_cases (st_cases (sz_store z)))" "is_key (fst k) (snd k) s"
    using Some by (auto simp: find_Some_iff)
  show ?thesis
  proof (cases "sizeable tr s")
    case False
    with triage_update [OF db Some, of tr] have "record_triage k tr z = z" by (auto simp: record_triage_def)
    with assms Some False show ?thesis by (simp add: same_for_def)
  next
    case True
    with triage_update [OF db Some, of tr] obtain out where
        u: "UpdateCase (fst k) (snd k) (\<lambda>c. Case_RecordTriage c tr) (st_cases (sz_store z)) =
          Inr (put_row (sized tr s) (st_cases (sz_store z)), out)" and rok: "row_ok (sized tr s)" by auto
    then have r: "record_triage k tr z = triage_clear k
        (z\<lparr>sz_store := (sz_store z)\<lparr>st_cases := put_row (sized tr s) (st_cases (sz_store z))\<rparr>\<rparr>)"
      by (simp add: record_triage_def)
    have ids: "distinct (map sn_ID (db_cases (st_cases (sz_store z))))" using db by (simp add: store_ok_def)
    have other: "sz_row k' (record_triage k tr z) = sz_row k' z" if "k' \<noteq> k" for k'
    proof -
      have "\<not> is_key (fst k') (snd k') s" using s(2) that by (auto simp: is_key_def prod_eq_iff)
      then show ?thesis using find_other_row [OF ids s(1), of "is_key (fst k') (snd k')" "sized tr s"]
        by (simp add: r triage_clear_def put_row_def)
    qed
    have "sz_row k (record_triage k tr z) = Some (sized tr s)"
      using find_put_row [OF Some, of "sized tr s"] s(2) by (simp add: r triage_clear_def put_row_def)
    moreover have "sizer_ok (record_triage k tr z)"
      using store_ok_put [OF db s(1) _ _ _ rok] by (simp add: r sizer_ok_def triage_clear_def)
    ultimately show ?thesis using True Some other by (simp add: r same_for_def triage_clear_def)
  qed
qed

lemma triage_fail_effect:
  "triage_fail now k z = (z1, n, next') \<Longrightarrow> sz_store z1 = sz_store z \<and>
     (\<forall>k'. k' \<noteq> k \<longrightarrow> same_for k' z z1) \<and> sz_row k z1 = sz_row k z"
  by (auto simp: triage_fail_def Let_def same_for_def)

abbreviation triage_step where
  "triage_step model getIssue classify now k z \<equiv>
     (if triage_eligible now k z then fst (triage_one model getIssue classify now k z) else z)"

lemma triage_step_frame:
  assumes "sizer_ok z"
  shows "sizer_ok (triage_step model getIssue classify now k z) \<and>
    (\<forall>k'. k' \<noteq> k \<longrightarrow> same_for k' z (triage_step model getIssue classify now k z))"
proof -
  have f: "sizer_ok z1 \<and> (\<forall>k'. k' \<noteq> k \<longrightarrow> same_for k' z z1)" if "triage_fail now k z = (z1, n, next')" for z1 n next'
    using triage_fail_effect [OF that] assms by (simp add: sizer_ok_def)
  have t: "sizer_ok (record_triage k tr z1) \<and> (\<forall>k'. k' \<noteq> k \<longrightarrow> same_for k' z (record_triage k tr z1))"
    if "sizer_ok z1 \<and> (\<forall>k'. k' \<noteq> k \<longrightarrow> same_for k' z z1)" for z1 tr
    using record_triage_effect [of z1 k tr] that by (auto simp: same_for_def)
  have self: "sizer_ok z \<and> (\<forall>k'. k' \<noteq> k \<longrightarrow> same_for k' z z)" using assms by (simp add: same_for_def)
  show ?thesis
    using self t [OF self] f t [OF f]
    by (auto simp: triage_one_eq split: sum.splits prod.splits)
qed

lemma triage_fold_frame:
  "sizer_ok z \<Longrightarrow> k \<notin> set ks \<Longrightarrow>
     sizer_ok (fold (triage_step model getIssue classify now) ks z) \<and>
     same_for k z (fold (triage_step model getIssue classify now) ks z)"
proof (induction ks arbitrary: z)
  case (Cons k' ks)
  note step = triage_step_frame [OF Cons.prems(1), of now k' model getIssue classify]
  have "sizer_ok (triage_step model getIssue classify now k' z)" by (rule conjunct1 [OF step])
  moreover have "same_for k z (triage_step model getIssue classify now k' z)"
    using conjunct2 [OF step] Cons.prems(2) by (metis list.set_intros(1))
  ultimately show ?case
    using Cons.IH [of "triage_step model getIssue classify now k' z"] Cons.prems(2)
    by (simp only: fold_simps o_apply same_for_def set_simps insert_iff) simp
qed (simp add: same_for_def)

lemma ReceivedWithoutTriage_iff:
  assumes "store_ok (st_cases st)"
  shows "distinct (ReceivedWithoutTriage st)"
    and "k \<in> set (ReceivedWithoutTriage st) \<longleftrightarrow>
      (\<exists>s. find (is_key (fst k) (snd k)) (db_cases (st_cases st)) = Some s \<and> sn_State s = Received \<and>
         sn_Triage s = None \<and> \<not> removed st (fst k))"
proof -
  have d: "distinct (map (\<lambda>s. (sn_Repository s, sn_Number s)) (db_cases (st_cases st)))"
    using assms by (simp add: store_ok_def)
  then have "distinct (map (\<lambda>s. (sn_Repository s, sn_Number s)) (filter P (db_cases (st_cases st))))" for P
    by (rule distinct_map_filter)
  then show "distinct (ReceivedWithoutTriage st)"
    by (simp only: ReceivedWithoutTriage_def case_keys_def distinct_map set_sort distinct_sort)
  have f: "find (is_key r n) (db_cases (st_cases st)) = Some s"
    if "s \<in> set (db_cases (st_cases st))" "is_key r n s" for s r n
  proof -
    have "find (is_key r n) (db_cases (st_cases st)) \<noteq> None" unfolding find_None_iff using that by blast
    then obtain s' where s': "find (is_key r n) (db_cases (st_cases st)) = Some s'" by blast
    then have "s' \<in> set (db_cases (st_cases st))" "is_key r n s'" by (auto simp: find_Some_iff)
    with that assms store_inj(1) [of "st_cases st" s' s] have "s' = s" by (simp add: is_key_def)
    with s' show ?thesis by simp
  qed
  show "k \<in> set (ReceivedWithoutTriage st) \<longleftrightarrow>
      (\<exists>s. find (is_key (fst k) (snd k)) (db_cases (st_cases st)) = Some s \<and> sn_State s = Received \<and>
         sn_Triage s = None \<and> \<not> removed st (fst k))" (is "_ = ?r")
  proof
    assume "k \<in> set (ReceivedWithoutTriage st)"
    then obtain s where "s \<in> set (db_cases (st_cases st))" "k = (sn_Repository s, sn_Number s)"
        "sn_State s = Received" "sn_Triage s = None" "\<not> removed st (fst k)"
      by (auto simp: ReceivedWithoutTriage_def case_keys_def)
    with f [of s "fst k" "snd k"] show ?r by (auto simp: is_key_def)
  next
    assume ?r
    then obtain s where s: "find (is_key (fst k) (snd k)) (db_cases (st_cases st)) = Some s"
        "sn_State s = Received" "sn_Triage s = None" "\<not> removed st (fst k)" by blast
    then have "s \<in> set (db_cases (st_cases st))" "k = (sn_Repository s, sn_Number s)"
      by (auto simp: find_Some_iff is_key_def prod_eq_iff)
    with s show "k \<in> set (ReceivedWithoutTriage st)"
      by (auto simp: ReceivedWithoutTriage_def case_keys_def image_iff)
  qed
qed

lemma triage_run_at:
  assumes "sizer_ok z" "k \<in> set (ReceivedWithoutTriage (sz_store z))"
  shows "\<exists>z1. sizer_ok z1 \<and> same_for k z z1 \<and>
    same_for k (triage_step model getIssue classify now k z1) (Triage_Run model getIssue classify now z) \<and>
    sizer_ok (Triage_Run model getIssue classify now z)"
proof -
  have d: "distinct (ReceivedWithoutTriage (sz_store z))"
    using ReceivedWithoutTriage_iff(1) assms(1) by (simp add: sizer_ok_def)
  obtain as bs where ks: "ReceivedWithoutTriage (sz_store z) = as @ k # bs" using assms(2) by (meson split_list)
  with d have n: "k \<notin> set as" "k \<notin> set bs" by auto
  let ?f = "triage_step model getIssue classify now"
  note a = triage_fold_frame [OF assms(1) n(1), of now model getIssue classify]
  note s = triage_step_frame [OF conjunct1 [OF a], of now k model getIssue classify]
  note b = triage_fold_frame [OF conjunct1 [OF s] n(2), of now model getIssue classify]
  have "Triage_Run model getIssue classify now z = fold ?f bs (?f k (fold ?f as z))"
    by (simp add: Triage_Run_def ks)
  with a b show ?thesis by (intro exI [of _ "fold ?f as z"]) simp
qed

subsection \<open>Properties\<close>

definition failures_so_far :: "string \<times> int \<Rightarrow> Sizer \<Rightarrow> nat" where
  "failures_so_far k z = (case sz_failures z k of None \<Rightarrow> 0 | Some f \<Rightarrow> tf_count f)"

lemma triage_fail_wait:
  "triage_fail now k z = (let n = failures_so_far k z + 1;
       next' = now + (if triageBackoffCap < double_wait (n - 1) triageBackoff then triageBackoffCap
                      else double_wait (n - 1) triageBackoff)
     in (z\<lparr>sz_failures := (sz_failures z)(k \<mapsto> \<lparr>tf_count = n, tf_next = next'\<rparr>)\<rparr>, n, next'))"
  by (simp add: triage_fail_def failures_so_far_def Let_def)

lemma park_triage_sizeable:
  "sn_State s = Received \<Longrightarrow> sn_Triage s = None \<Longrightarrow> sizeable ((park_triage model n err)\<lparr>tg_TriagedAt := now\<rparr>) s"
  by (simp add: sizeable_def park_triage_def triage_model_def)

text \<open>C21. A case the model will not size reaches a human: while the model call of a received case fails,
  a pass counts the failure and leaves the case as it was (not even looking at it inside its
  backoff), and the pass that meets the fifth failure parks it - it is awaiting approval with a
  Large triage and a rationale, its failures are forgotten, and it is never again among the
  cases to size - whatever the passes do with the other cases, and however those calls end.\<close>
theorem triage_gives_up_after_five:
  assumes "store_ok (st_cases (sz_store z))" "k \<in> set (ReceivedWithoutTriage (sz_store z))"
    and "getIssue (fst k) (snd k) = Inr detail" "classify (is_Title detail) (is_Body detail) = Inl err"
  shows "\<exists>s s'. sz_row k z = Some s \<and> sz_row k (Triage_Run model getIssue classify now z) = Some s' \<and>
    (if \<not> triage_eligible now k z
     then s' = s \<and> sz_failures (Triage_Run model getIssue classify now z) k = sz_failures z k
     else if failures_so_far k z + 1 < 5
     then s' = s \<and> failures_so_far k (Triage_Run model getIssue classify now z) = failures_so_far k z + 1
     else sn_State s' = AwaitingApproval \<and> (\<exists>t. sn_Triage s' = Some t \<and> tg_Size t = Large \<and> tg_Rationale t \<noteq> '''') \<and>
       sz_failures (Triage_Run model getIssue classify now z) k = None \<and>
       k \<notin> set (ReceivedWithoutTriage (sz_store (Triage_Run model getIssue classify now z)))) \<and>
    store_ok (st_cases (sz_store (Triage_Run model getIssue classify now z)))"
proof -
  let ?z' = "Triage_Run model getIssue classify now z"
  obtain s where s: "sz_row k z = Some s" "sn_State s = Received" "sn_Triage s = None"
    using ReceivedWithoutTriage_iff(2) [OF assms(1)] assms(2) by blast
  obtain z1 where z1: "sizer_ok z1" "same_for k z z1"
      "same_for k (triage_step model getIssue classify now k z1) ?z'" "sizer_ok ?z'"
    using triage_run_at assms(1,2) unfolding sizer_ok_def by blast
  have e: "triage_eligible now k z1 = triage_eligible now k z" "failures_so_far k z1 = failures_so_far k z"
    using z1(2) by (simp_all add: same_for_def triage_eligible_def failures_so_far_def)
  have row1: "sz_row k z1 = Some s" using z1(2) s(1) by (simp add: same_for_def)
  consider (waits) "\<not> triage_eligible now k z"
    | (counts) "triage_eligible now k z" "failures_so_far k z + 1 < 5"
    | (parks) "triage_eligible now k z" "\<not> failures_so_far k z + 1 < 5" by blast
  then show ?thesis
  proof cases
    case waits
    with z1 e s row1 show ?thesis by (simp add: same_for_def sizer_ok_def)
  next
    case counts
    then have "triage_step model getIssue classify now k z1 = fst (triage_fail now k z1)"
      by (simp add: triage_one_eq assms(3,4) e triage_fail_wait Let_def triageGiveUp_def)
    with z1(3) row1 s have "sz_row k ?z' = Some s" "failures_so_far k ?z' = failures_so_far k z + 1"
      by (simp_all add: same_for_def triage_fail_wait Let_def failures_so_far_def [of _ ?z'] e)
    with counts s z1(4) show ?thesis by (simp add: sizer_ok_def)
  next
    case parks
    obtain z2 n next' where f: "triage_fail now k z1 = (z2, n, next')" by (cases "triage_fail now k z1")
    have n: "\<not> n < triageGiveUp" using f parks by (auto simp: triage_fail_wait Let_def e triageGiveUp_def)
    let ?tr = "(park_triage model n err)\<lparr>tg_TriagedAt := now\<rparr>"
    have st: "triage_step model getIssue classify now k z1 = record_triage k ?tr z2"
      using parks n by (simp add: triage_one_eq assms(3,4) e f)
    have "sizer_ok z2" "sz_row k z2 = Some s"
      using triage_fail_effect [OF f] z1(1) row1 by (simp_all add: sizer_ok_def)
    with record_triage_effect [of z2 k ?tr] park_triage_sizeable [OF s(2,3), of now model n err]
    have r: "sz_row k ?z' = Some (sized ?tr s)" "sz_failures ?z' k = None"
      using z1(3) st by (simp_all add: same_for_def)
    moreover have "sn_State (sized ?tr s) = AwaitingApproval" "sn_Triage (sized ?tr s) = Some ?tr"
        "tg_Size ?tr = Large" "tg_Rationale ?tr \<noteq> ''''"
      by (simp_all add: sized_def park_triage_def)
    moreover have "k \<notin> set (ReceivedWithoutTriage (sz_store ?z'))"
      using ReceivedWithoutTriage_iff(2) z1(4) r(1) by (simp add: sizer_ok_def)
    ultimately show ?thesis using parks s(1) z1(4) by (simp add: sizer_ok_def)
  qed
qed

definition demo_sizer :: Sizer where
  "demo_sizer = \<lparr>sz_store = dm_store (demo_daemon (db_cases demo_db)),
     sz_failures = [(''o/r'', 7) \<mapsto> \<lparr>tf_count = 4, tf_next = 10\<rparr>]\<rparr>"

definition demo_issue :: IssueDetail where
  "demo_issue = \<lparr>is_Title = ''t'', is_Body = ''b'', is_Open = True\<rparr>"

theorem triage_gives_up_after_five_witness:
  "\<exists>s'. sz_row (''o/r'', 7) (Triage_Run '''' (\<lambda>_ _. Inr demo_issue) (\<lambda>_ _. Inl ''overloaded'') 10 demo_sizer) =
     Some s' \<and> sn_State s' = AwaitingApproval"
proof -
  have db: "st_cases (sz_store demo_sizer) = demo_db" by (simp add: demo_sizer_def demo_daemon_def demo_db_def)
  have ok: "store_ok (st_cases (sz_store demo_sizer))"
    using demo_db_ok unfolding db by (simp add: store_ok_def row_ok_def demo_db_def int64_budgets_def)
  have k: "(''o/r'', 7) \<in> set (ReceivedWithoutTriage (sz_store demo_sizer))"
    unfolding ReceivedWithoutTriage_iff(2) [OF ok] db
    by (simp add: demo_db_def is_key_def demo_sizer_def demo_daemon_def removed_def)
  show ?thesis
    using triage_gives_up_after_five [OF ok k, of "\<lambda>_ _. Inr demo_issue" demo_issue "\<lambda>_ _. Inl ''overloaded''"
        "''overloaded''" "''''" 10]
    by (auto simp: demo_sizer_def triage_eligible_def failures_so_far_def)
qed

end
