(* ===== verification/CheckRollup.thy ===== *)
theory CheckRollup
  imports Scheduling
begin

section \<open>The combined state of the checks of a head\<close>

text \<open>
  \<^verbatim>\<open>CheckRollup\<close> of \<^verbatim>\<open>internal/github/rollup.go\<close> and the types of \<^verbatim>\<open>bumps.go\<close> it fills. GitHub
  is the two functions \<open>statuses\<close> and \<open>runs\<close> from a page number to a page or an error; a page
  carries the total GitHub claims and the number of the next page (\<open>None\<close> for a response the
  client library left nil). Nothing stops a server from linking its pages in a circle, so a
  loop over pages is a partial function: \<open>None\<close> is not returning.
\<close>

record StatusEntry =
  se_State :: string
  se_Context :: string
  se_TargetURL :: string

record CheckRun =
  cr_Status :: string
  cr_Conclusion :: string
  cr_Name :: string
  cr_HTMLURL :: string

record 'e Page =
  pg_Total :: int
  pg_Entries :: "'e list"
  pg_Next :: "int option"

record Rollup =
  rl_Conclusive :: bool
  rl_Conclusion :: CheckConclusion
  rl_FailingContexts :: "string list"
  rl_DetailsURL :: string

definition zero_rollup :: Rollup where
  "zero_rollup = \<lparr>rl_Conclusive = False, rl_Conclusion = CheckConclusion_other '''',
     rl_FailingContexts = [], rl_DetailsURL = ''''\<rparr>"

lemma zero_rollup_fields [simp]:
  "\<not> rl_Conclusive zero_rollup" "rl_FailingContexts zero_rollup = []"
  by (simp_all add: zero_rollup_def)

text \<open>The variables the closure and the loops share: \<^verbatim>\<open>roll\<close>, \<^verbatim>\<open>seen\<close> and \<^verbatim>\<open>failed\<close>.\<close>

record RollState =
  rs_roll :: Rollup
  rs_seen :: nat
  rs_failed :: bool

definition rollup_fail :: "string \<Rightarrow> string \<Rightarrow> RollState \<Rightarrow> RollState" where
  "rollup_fail label url st =
     (let label' = (if label = '''' then ''(unnamed check)'' else label);
          roll = rs_roll st;
          roll' = roll\<lparr>rl_FailingContexts := rl_FailingContexts roll @ [label'],
                       rl_DetailsURL := (if rl_DetailsURL roll = '''' then url else rl_DetailsURL roll)\<rparr>
      in st\<lparr>rs_roll := roll', rs_failed := True\<rparr>)"

text \<open>One entry: \<open>None\<close> is the early \<^verbatim>\<open>return Rollup{}, nil\<close>.\<close>

definition status_entry :: "StatusEntry \<Rightarrow> RollState \<Rightarrow> RollState option" where
  "status_entry e st =
     (let st1 = st\<lparr>rs_seen := Suc (rs_seen st)\<rparr> in
      if se_State e = ''success'' then Some st1
      else if se_State e = ''failure'' \<or> se_State e = ''error''
      then Some (rollup_fail (se_Context e) (se_TargetURL e) st1)
      else None)"

definition run_entry :: "CheckRun \<Rightarrow> RollState \<Rightarrow> RollState option" where
  "run_entry r st =
     (let st1 = st\<lparr>rs_seen := Suc (rs_seen st)\<rparr> in
      if cr_Status r \<noteq> ''completed'' then None
      else if cr_Conclusion r \<in> {''success'', ''skipped'', ''neutral''} then Some st1
      else if cr_Conclusion r \<in> {''failure'', ''timed_out'', ''action_required''}
      then Some (rollup_fail (cr_Name r) (cr_HTMLURL r) st1)
      else None)"

fun page_entries :: "('e \<Rightarrow> RollState \<Rightarrow> RollState option) \<Rightarrow> 'e list \<Rightarrow> RollState \<Rightarrow> RollState option" where
  "page_entries f [] st = Some st"
| "page_entries f (e # es) st = (case f e st of None \<Rightarrow> None | Some st' \<Rightarrow> page_entries f es st')"

text \<open>Both loops; the last page's total is the one the code keeps.\<close>

partial_function (option) page_loop ::
    "('e \<Rightarrow> RollState \<Rightarrow> RollState option) \<Rightarrow> (int \<Rightarrow> gherr + 'e Page) \<Rightarrow> int \<Rightarrow> RollState \<Rightarrow>
     (gherr + (RollState \<times> int) option) option" where
  "page_loop f get page st =
     (case get page of Inl e \<Rightarrow> Some (Inl e)
      | Inr p \<Rightarrow>
        (case page_entries f (pg_Entries p) st of None \<Rightarrow> Some (Inr None)
         | Some st' \<Rightarrow>
           if pg_Next p = None \<or> pg_Next p = Some 0 then Some (Inr (Some (st', pg_Total p)))
           else page_loop f get (the (pg_Next p)) st'))"

definition CheckRollup ::
    "(int \<Rightarrow> gherr + StatusEntry Page) \<Rightarrow> (int \<Rightarrow> gherr + CheckRun Page) \<Rightarrow> (gherr + Rollup) option" where
  "CheckRollup statuses runs =
     Option.bind (page_loop status_entry statuses 0 \<lparr>rs_roll = zero_rollup, rs_seen = 0, rs_failed = False\<rparr>)
       (\<lambda>r. case r of Inl e \<Rightarrow> Some (Inl e) | Inr None \<Rightarrow> Some (Inr zero_rollup)
        | Inr (Some (st1, statusTotal)) \<Rightarrow>
          (let statusSeen = rs_seen st1 in
           Option.bind (page_loop run_entry runs 0 st1)
             (\<lambda>r. case r of Inl e \<Rightarrow> Some (Inl e) | Inr None \<Rightarrow> Some (Inr zero_rollup)
              | Inr (Some (st2, runTotal)) \<Rightarrow>
                  if int statusSeen < statusTotal \<or> int (rs_seen st2) - int statusSeen < runTotal
                  then Some (Inr zero_rollup)
                  else if rs_seen st2 = 0 then Some (Inr zero_rollup)
                  else Some (Inr ((rs_roll st2)\<lparr>rl_Conclusive := True,
                         rl_Conclusion := (if rs_failed st2 then CheckFailure else CheckSuccess)\<rparr>)))))"

subsection \<open>A server whose pages end\<close>

text \<open>The pages \<open>ps\<close> are what the links from page number \<open>k\<close> lead through.\<close>

fun serves :: "(int \<Rightarrow> gherr + 'e Page) \<Rightarrow> int \<Rightarrow> 'e Page list \<Rightarrow> bool" where
  "serves get k [] = False"
| "serves get k [p] = (get k = Inr p \<and> (pg_Next p = None \<or> pg_Next p = Some 0))"
| "serves get k (p # q # ps) = (get k = Inr p \<and> pg_Next p \<noteq> None \<and> pg_Next p \<noteq> Some 0 \<and>
     serves get (the (pg_Next p)) (q # ps))"

abbreviation entries :: "'e Page list \<Rightarrow> 'e list" where
  "entries ps \<equiv> concat (map pg_Entries ps)"

lemma page_entries_append:
  "page_entries f (xs @ ys) st = (case page_entries f xs st of None \<Rightarrow> None | Some st' \<Rightarrow> page_entries f ys st')"
  by (induction xs arbitrary: st) (auto split: option.splits)

lemma page_loop_serves:
  "serves get k ps \<Longrightarrow> page_loop f get k st = Some (Inr
     (case page_entries f (entries ps) st of None \<Rightarrow> None | Some st' \<Rightarrow> Some (st', pg_Total (last ps))))"
proof (induction get k ps arbitrary: st rule: serves.induct)
  case (2 get k p)
  then show ?case by (auto simp: page_loop.simps [of f get k] split: option.splits)
next
  case (3 get k p q ps)
  then show ?case
    by (auto simp: page_loop.simps [of f get k] page_entries_append split: option.splits)
qed simp

text \<open>What an entry means to the rollup: undecided, or decided and maybe failing under a name.\<close>

definition status_decided :: "StatusEntry \<Rightarrow> bool" where
  "status_decided e = (se_State e \<in> {''success'', ''failure'', ''error''})"

definition run_decided :: "CheckRun \<Rightarrow> bool" where
  "run_decided r = (cr_Status r = ''completed'' \<and>
     cr_Conclusion r \<in> {''success'', ''skipped'', ''neutral'', ''failure'', ''timed_out'', ''action_required''})"

definition named :: "string \<Rightarrow> string" where
  "named l = (if l = '''' then ''(unnamed check)'' else l)"

definition status_label :: "StatusEntry \<Rightarrow> string list" where
  "status_label e = (if se_State e = ''success'' then [] else [named (se_Context e)])"

definition run_label :: "CheckRun \<Rightarrow> string list" where
  "run_label r = (if cr_Conclusion r \<in> {''success'', ''skipped'', ''neutral''} then [] else [named (cr_Name r)])"

lemma rollup_fail_fields [simp]:
  "rs_seen (rollup_fail l u st) = rs_seen st" "rs_failed (rollup_fail l u st)"
  "rl_FailingContexts (rs_roll (rollup_fail l u st)) = rl_FailingContexts (rs_roll st) @ [named l]"
  by (simp_all add: rollup_fail_def named_def Let_def)

text \<open>What the loop over one half relies on in its treatment of one entry.\<close>

locale rollup_half =
  fixes entry :: "'e \<Rightarrow> RollState \<Rightarrow> RollState option"
    and decided :: "'e \<Rightarrow> bool"
    and label :: "'e \<Rightarrow> string list"
  assumes decided_entry: "decided e \<Longrightarrow> \<exists>st'. entry e st = Some st' \<and> rs_seen st' = rs_seen st + 1 \<and>
      rl_FailingContexts (rs_roll st') = rl_FailingContexts (rs_roll st) @ label e \<and>
      rs_failed st' = (rs_failed st \<or> label e \<noteq> [])"
    and undecided_entry: "\<not> decided e \<Longrightarrow> entry e st = None"
begin

lemma all_decided:
  "(\<forall>e \<in> set es. decided e) \<Longrightarrow> \<exists>st'. page_entries entry es st = Some st' \<and>
     rs_seen st' = rs_seen st + length es \<and>
     rl_FailingContexts (rs_roll st') = rl_FailingContexts (rs_roll st) @ concat (map label es) \<and>
     rs_failed st' = (rs_failed st \<or> concat (map label es) \<noteq> [])"
proof (induction es arbitrary: st)
  case (Cons e es)
  obtain st1 where s1: "entry e st = Some st1" "rs_seen st1 = rs_seen st + 1"
      "rl_FailingContexts (rs_roll st1) = rl_FailingContexts (rs_roll st) @ label e"
      "rs_failed st1 = (rs_failed st \<or> label e \<noteq> [])"
    using decided_entry [of e st] Cons.prems by auto
  obtain st' where "page_entries entry es st1 = Some st'" "rs_seen st' = rs_seen st1 + length es"
      "rl_FailingContexts (rs_roll st') = rl_FailingContexts (rs_roll st1) @ concat (map label es)"
      "rs_failed st' = (rs_failed st1 \<or> concat (map label es) \<noteq> [])"
    using Cons.IH [of st1] Cons.prems by auto
  with s1 show ?case by auto
qed simp

lemma some_undecided: "e \<in> set es \<Longrightarrow> \<not> decided e \<Longrightarrow> page_entries entry es st = None"
  by (induction es arbitrary: st) (auto simp: undecided_entry split: option.splits)

end

interpretation status_half: rollup_half status_entry status_decided status_label
  by unfold_locales (auto simp: status_entry_def status_decided_def status_label_def Let_def)

interpretation run_half: rollup_half run_entry run_decided run_label
  by unfold_locales (auto simp: run_entry_def run_decided_def run_label_def Let_def)

definition failing :: "StatusEntry list \<Rightarrow> CheckRun list \<Rightarrow> string list" where
  "failing ss rs = concat (map status_label ss) @ concat (map run_label rs)"

lemma Join_empty: "(\<forall>x \<in> set xs. x \<noteq> '''') \<Longrightarrow> (Join xs sep = '''') = (xs = [])"
  by (induction xs sep rule: Join.induct) auto

lemma failing_nonempty: "\<forall>x \<in> set (failing ss rs). x \<noteq> ''''"
  by (auto simp: failing_def status_label_def run_label_def named_def split: if_splits)

subsection \<open>Properties\<close>

text \<open>C14. The rollup is conclusive exactly when everything is: against any server whose page links end,
  however the entries are spread over pages, the rollup returns; it is conclusive exactly
  when at least one check exists, every status and every run on every page has been decided
  and no page went missing by GitHub's own totals; and a conclusive one is a success exactly
  when nothing failed, and a failure names every failing check, in order, with a name that
  is never empty - so the verdict built from it passes the aggregate's own check.\<close>
theorem rollup_is_exact:
  assumes "serves statuses 0 ps" "serves runs 0 qs"
  shows "\<exists>roll. CheckRollup statuses runs = Some (Inr roll) \<and>
    (rl_Conclusive roll \<longleftrightarrow>
       (\<forall>e \<in> set (entries ps). status_decided e) \<and> (\<forall>r \<in> set (entries qs). run_decided r) \<and>
       pg_Total (last ps) \<le> int (length (entries ps)) \<and> pg_Total (last qs) \<le> int (length (entries qs)) \<and>
       (entries ps \<noteq> [] \<or> entries qs \<noteq> [])) \<and>
    (rl_Conclusive roll \<longrightarrow>
       rl_Conclusion roll = (if failing (entries ps) (entries qs) = [] then CheckSuccess else CheckFailure) \<and>
       rl_FailingContexts roll = failing (entries ps) (entries qs) \<and>
       (rl_Conclusion roll = CheckSuccess) = (Join (rl_FailingContexts roll) [CHR 0x0A] = ''''))" (is "?goal (entries ps) (entries qs)")
proof -
  let ?st0 = "\<lparr>rs_roll = zero_rollup, rs_seen = 0, rs_failed = False\<rparr>"
  define es where "es = entries ps"
  define rs where "rs = entries qs"
  note loops = page_loop_serves [OF assms(1), folded es_def] page_loop_serves [OF assms(2), folded rs_def]
  have "?goal es rs"
  proof (cases "\<forall>e \<in> set es. status_decided e")
    case False
    then obtain e where "e \<in> set es" "\<not> status_decided e" by blast
    from status_half.some_undecided [OF this] False show ?thesis
      by (simp add: CheckRollup_def loops)
  next
    case sd: True
    obtain st1 where s1: "page_entries status_entry es ?st0 = Some st1"
        "rs_seen st1 = length es"
        "rl_FailingContexts (rs_roll st1) = concat (map status_label es)"
        "rs_failed st1 = (concat (map status_label es) \<noteq> [])"
      using status_half.all_decided [OF sd, of ?st0] by auto
    show ?thesis
    proof (cases "\<forall>r \<in> set rs. run_decided r")
      case False
      then obtain r where "r \<in> set rs" "\<not> run_decided r" by blast
      from run_half.some_undecided [OF this] False show ?thesis
        by (simp add: CheckRollup_def loops s1(1))
    next
      case rd: True
      obtain st2 where s2: "page_entries run_entry rs st1 = Some st2"
          "rs_seen st2 = rs_seen st1 + length rs"
          "rl_FailingContexts (rs_roll st2) = rl_FailingContexts (rs_roll st1) @ concat (map run_label rs)"
          "rs_failed st2 = (rs_failed st1 \<or> concat (map run_label rs) \<noteq> [])"
        using run_half.all_decided [OF rd, of st1] by auto
      have fl: "rl_FailingContexts (rs_roll st2) = failing es rs"
        and fd: "rs_failed st2 = (failing es rs \<noteq> [])"
        using s2(3,4) s1(3,4) by (auto simp: failing_def)
      have j: "(Join (failing es rs) [CHR 0x0A] = '''') = (failing es rs = [])"
        by (rule Join_empty [OF failing_nonempty])
      from sd rd show ?thesis
        by (simp add: CheckRollup_def loops s1(1,2) s2(1,2) fl fd j)
    qed
  qed
  then show ?thesis by (simp add: es_def rs_def)
qed

definition demo_statuses :: "int \<Rightarrow> gherr + StatusEntry Page" where
  "demo_statuses k = Inr (if k = 0
     then \<lparr>pg_Total = 2, pg_Entries = [\<lparr>se_State = ''success'', se_Context = ''ci'', se_TargetURL = ''''\<rparr>], pg_Next = Some 2\<rparr>
     else \<lparr>pg_Total = 2, pg_Entries = [\<lparr>se_State = ''error'', se_Context = '''', se_TargetURL = ''u''\<rparr>], pg_Next = Some 0\<rparr>)"

definition demo_runs :: "int \<Rightarrow> gherr + CheckRun Page" where
  "demo_runs k = Inr \<lparr>pg_Total = 0, pg_Entries = [], pg_Next = None\<rparr>"

lemma rollup_is_exact_witness:
  "serves demo_statuses 0 [projr (demo_statuses 0), projr (demo_statuses 2)] \<and> serves demo_runs 0 [projr (demo_runs 0)] \<and>
   (\<exists>roll. CheckRollup demo_statuses demo_runs = Some (Inr roll) \<and> rl_Conclusive roll \<and>
      rl_Conclusion roll = CheckFailure \<and> rl_FailingContexts roll = [''(unnamed check)''])"
proof -
  have s: "serves demo_statuses 0 [projr (demo_statuses 0), projr (demo_statuses 2)]"
    and r: "serves demo_runs 0 [projr (demo_runs 0)]"
    by (simp_all add: demo_statuses_def demo_runs_def)
  from rollup_is_exact [OF s r] s r show ?thesis
    by (auto simp: demo_statuses_def demo_runs_def status_decided_def run_decided_def failing_def
        status_label_def run_label_def named_def)
qed

end
