(* ===== verification/Translator.thy ===== *)
theory Translator
  imports CheckRollup
begin

section \<open>From deliveries to commands\<close>

text \<open>
  \<^verbatim>\<open>internal/github/translate.go\<close> and \<^verbatim>\<open>bumps.go\<close>. The client library's webhook parser is the
  parameter \<open>parse\<close>: any function from the event name and the payload to an error or an
  \<open>Event\<close>, which holds what the translator reads off the parsed value (a getter on an absent
  part answers the zero value). \<open>rollup\<close> is the \<^verbatim>\<open>Roller\<close>, \<open>None\<close> when Upkeep is not wired.
  \<open>now\<close> is what the clock says during one delivery. A detail is the text for people in the
  processing row; the arguments of \<^verbatim>\<open>%q\<close> and of an error are left out of it.
\<close>

subsection \<open>What the webhook parser answers\<close>

record IssueEv =
  ie_Action :: string
  ie_Repo :: string
  ie_Number :: int
  ie_Label :: string
  ie_Sender :: string
  ie_Association :: string
  ie_Author :: string

record PREv =
  pe_Action :: string
  pe_Repo :: string
  pe_Number :: int
  pe_Author :: string
  pe_HeadSha :: string
  pe_HeadRef :: string
  pe_HeadRepo :: string
  pe_BaseRef :: string
  pe_Merged :: bool

record CheckEv =
  ce_Action :: string
  ce_Repo :: string
  ce_HeadSha :: string
  ce_Numbers :: "int list"

record InstEv =
  in_Action :: string
  in_ID :: int
  in_Repos :: "(string \<times> string) list"

record InstReposEv =
  ir_ID :: int
  ir_Added :: "(string \<times> string) list"
  ir_Removed :: "(string \<times> string) list"

datatype Event = IssuesEvent IssueEv | PullRequestEvent PREv | CheckSuiteEvent CheckEv
  | WorkflowRunEvent CheckEv | InstallationEvent InstEv | InstallationRepositoriesEvent InstReposEv
  | OtherEvent

record TranslatorT =
  tl_ApprovedLabel :: string
  tl_BotLogin :: string
  tl_DependabotLogin :: string
  tl_Rollup :: "(string \<Rightarrow> string \<Rightarrow> gherr + Rollup) option"
  tl_RoundCap :: int

text \<open>The errors a command answers; \<open>errUnsubscribed\<close> is the translator's own.\<close>

datatype terr = errUnsubscribed | StoreError serr | RollupError gherr

definition opt_err :: "derr option \<Rightarrow> terr option" where
  "opt_err e = map_option (\<lambda>e. StoreError (Domain e)) e"

subsection \<open>Repositories\<close>

fun enroll :: "int \<Rightarrow> Time \<Rightarrow> (string \<times> string) list \<Rightarrow> nat \<Rightarrow> Store \<Rightarrow> Store \<times> string \<times> terr option" where
  "enroll installationID now [] n st = (st, ''RepoEnrolled x'' @ show_nat n, None)"
| "enroll installationID now ((name, dflt) # rs) n st =
     (let branch = (if dflt = '''' then ''main'' else dflt) in
      case NewRepository name installationID branch now of
        Inl err \<Rightarrow> (st, ''RepoEnrolled'', Some (StoreError (Domain err)))
      | Inr repo \<Rightarrow> enroll installationID now rs (Suc n) (EnrollRepository repo st))"

fun remove :: "Time \<Rightarrow> (string \<times> string) list \<Rightarrow> nat \<Rightarrow> Store \<Rightarrow> Store \<times> string \<times> terr option" where
  "remove now [] n st = (st, ''RepoRemoved x'' @ show_nat n, None)"
| "remove now ((name, _) # rs) n st = remove now rs (Suc n) (RemoveRepository name now st)"

definition installation :: "Time \<Rightarrow> InstEv \<Rightarrow> Store \<Rightarrow> Store \<times> string \<times> terr option" where
  "installation now e st =
     (if in_Action e \<in> {''created'', ''unsuspend'', ''new_permissions_accepted''}
      then enroll (in_ID e) now (in_Repos e) 0 st
      else if in_Action e \<in> {''deleted'', ''suspend''} then remove now (in_Repos e) 0 st
      else (st, ''installation.'' @ in_Action e, Some errUnsubscribed))"

definition installationRepositories :: "Time \<Rightarrow> InstReposEv \<Rightarrow> Store \<Rightarrow> Store \<times> string \<times> terr option" where
  "installationRepositories now e st =
     (case enroll (ir_ID e) now (ir_Added e) 0 st of
        (st1, added, Some err) \<Rightarrow> (st1, added, Some err)
      | (st1, added, None) \<Rightarrow>
        (case remove now (ir_Removed e) 0 st1 of
           (st2, removed', Some err) \<Rightarrow> (st2, removed', Some err)
         | (st2, removed', None) \<Rightarrow> (st2, added @ ''; '' @ removed', None)))"

subsection \<open>Issues\<close>

definition open_case :: "Time \<Rightarrow> IssueEv \<Rightarrow> Store \<Rightarrow> Store \<times> string \<times> terr option" where
  "open_case now e st =
     (case GetRepository (ie_Repo e) st of
        Inl ErrNotFound \<Rightarrow> (st, ''repository not enrolled'', Some (StoreError ErrNotFound))
      | Inl err \<Rightarrow> (st, ''IssueOpened'', Some (StoreError err))
      | Inr r \<Rightarrow>
        if \<not> Enrolled r then (st, ''repository not enrolled'', Some (StoreError ErrNotFound))
        else (case ParseAssociation (Association_of (ie_Association e)) of
          Inl err \<Rightarrow> (st, ''IssueOpened'', Some (StoreError (Domain err)))
        | Inr assoc \<Rightarrow>
          (case NewRequester (ie_Author e) assoc of
            Inl err \<Rightarrow> (st, ''IssueOpened'', Some (StoreError (Domain err)))
          | Inr req \<Rightarrow>
            (case NewCase (ie_Repo e) (ie_Number e) req now of
              Inl err \<Rightarrow> (st, ''IssueOpened'', Some (StoreError (Domain err)))
            | Inr c \<Rightarrow>
              (case CreateCase c (st_cases st) of
                Inl ErrConflict \<Rightarrow> (st, ''case exists'', Some (StoreError ErrConflict))
              | Inl err \<Rightarrow> (st, ''IssueOpened'', Some (StoreError err))
              | Inr (db, _) \<Rightarrow>
                  (st\<lparr>st_cases := db\<rparr>,
                   ''IssueOpened '' @ ie_Repo e @ ''#'' @ show_int (ie_Number e) @ '' by '' @ rq_Login req @
                   '' ('' @ Trust_string (rq_Trust req) @ '')'', None))))))"

definition issue_key_text :: "IssueEv \<Rightarrow> string" where
  "issue_key_text e = ie_Repo e @ ''#'' @ show_int (ie_Number e)"

text \<open>The \<^verbatim>\<open>labeled\<close> and \<^verbatim>\<open>closed\<close> branches of \<^verbatim>\<open>issue\<close>.\<close>

definition issue_labeled ::
    "TranslatorT \<Rightarrow> Time \<Rightarrow> Delivery \<Rightarrow> IssueEv \<Rightarrow> Store \<Rightarrow> Store \<times> string \<times> terr option" where
  "issue_labeled t now d e st =
     (if ie_Label e \<noteq> tl_ApprovedLabel t then (st, ''label %q'', Some errUnsubscribed)
      else case open_case now e st of (st1, detail, oerr) \<Rightarrow>
        if oerr \<noteq> None \<and> oerr \<noteq> Some (StoreError ErrConflict) then (st1, detail, oerr)
        else (case NewRequester (ie_Sender e) AssociationCollaborator of
            Inl err \<Rightarrow> (st1, ''LabelAdded'', Some (StoreError (Domain err)))
          | Inr approver \<Rightarrow>
            let a = \<lparr>ap_ID = '''', ap_Approver = approver, ap_Source = SourceLabel,
                     ap_ApprovedAt = now, ap_DeliveryID = dl_ID d\<rparr>;
                detail = ''LabelAdded '' @ issue_key_text e @ '' by '' @ rq_Login approver @
                  '' (association recorded as collaborator: GitHub let them label)''
            in (case UpdateCase (ie_Repo e) (ie_Number e) (\<lambda>c. Case_RecordApproval c a) (st_cases st1) of
                  Inl err \<Rightarrow> (st1, detail, Some (StoreError err))
                | Inr (db, _) \<Rightarrow> (st1\<lparr>st_cases := db\<rparr>, detail, None))))"

definition issue_closed :: "Time \<Rightarrow> Delivery \<Rightarrow> IssueEv \<Rightarrow> Store \<Rightarrow> Store \<times> string \<times> terr option" where
  "issue_closed now d e st =
     (let cl = \<lparr>cl_DeliveryID = dl_ID d, cl_ClosedAt = now\<rparr> in
      case UpdateCase (ie_Repo e) (ie_Number e) (\<lambda>c. Case_Close c cl) (st_cases st) of
        Inl ErrNotFound \<Rightarrow> (st, ''IssueClosed for unknown case'', Some (StoreError ErrNotFound))
      | Inl err \<Rightarrow> (st, ''IssueClosed '' @ issue_key_text e, Some (StoreError err))
      | Inr (db, _) \<Rightarrow> (st\<lparr>st_cases := db\<rparr>, ''IssueClosed '' @ issue_key_text e, None))"

definition issue ::
    "TranslatorT \<Rightarrow> Time \<Rightarrow> Delivery \<Rightarrow> IssueEv \<Rightarrow> Store \<Rightarrow> Store \<times> string \<times> terr option" where
  "issue t now d e st =
     (if ie_Action e = ''opened'' then open_case now e st
      else if ie_Action e = ''labeled'' then issue_labeled t now d e st
      else if ie_Action e = ''closed'' then issue_closed now d e st
      else (st, ''issues.'' @ ie_Action e, Some errUnsubscribed))"

subsection \<open>Pull requests\<close>

definition pr_key_text :: "string \<Rightarrow> int \<Rightarrow> string" where
  "pr_key_text repo number = repo @ ''#'' @ show_int number"

definition openBump :: "Time \<Rightarrow> PREv \<Rightarrow> Store \<Rightarrow> Store \<times> string \<times> terr option" where
  "openBump now e st =
     (let repo = pe_Repo e; head = pe_HeadRepo e in
      if head \<noteq> '''' \<and> head \<noteq> repo
      then (st, ''head is on '' @ head @ '', not '' @ repo, Some errUnsubscribed)
      else case NewBump repo (pe_Number e) (pe_HeadRef e) (pe_BaseRef e) (pe_HeadSha e) now of
        Inl err \<Rightarrow> (st, ''BumpOpened'', Some (StoreError (Domain err)))
      | Inr b \<Rightarrow>
        (case CreateBump b (st_bumps st) of
           Inl ErrConflict \<Rightarrow> (st, ''bump exists'', Some (StoreError ErrConflict))
         | Inl ErrNotFound \<Rightarrow> (st, ''repository not watched for upkeep'', Some (StoreError ErrNotFound))
         | Inl err \<Rightarrow> (st, ''BumpOpened'', Some (StoreError err))
         | Inr (db, _) \<Rightarrow> (st\<lparr>st_bumps := db\<rparr>,
             ''BumpOpened '' @ pr_key_text repo (pe_Number e) @ '' on '' @ bp_branch b, None)))"

text \<open>One \<^verbatim>\<open>UpdateBump\<close> of a delivery and the detail it leaves.\<close>

definition bump_command ::
    "PREv \<Rightarrow> (Bump \<Rightarrow> Bump \<times> derr option) \<Rightarrow> string \<Rightarrow> string \<Rightarrow> Store \<Rightarrow> Store \<times> string \<times> terr option" where
  "bump_command e fn unknown detail st =
     (case UpdateBump (pe_Repo e) (pe_Number e) fn (st_bumps st) of
        Inl ErrNotFound \<Rightarrow> (st, unknown, Some (StoreError ErrNotFound))
      | Inl err \<Rightarrow> (st, detail, Some (StoreError err))
      | Inr (db, _) \<Rightarrow> (st\<lparr>st_bumps := db\<rparr>, detail, None))"

definition pullRequest ::
    "TranslatorT \<Rightarrow> Time \<Rightarrow> Delivery \<Rightarrow> PREv \<Rightarrow> Store \<Rightarrow> Store \<times> string \<times> terr option" where
  "pullRequest t now d e st =
     (if pe_Author e \<noteq> tl_DependabotLogin t
      then (st, ''pull request by '' @ pe_Author e, Some errUnsubscribed)
      else if pe_Action e = ''opened'' \<or> pe_Action e = ''reopened'' then openBump now e st
      else if pe_Action e = ''synchronize''
      then bump_command e (\<lambda>b. Bump_AdvanceHead b (pe_HeadSha e) now) ''synchronize for unknown bump''
             (''HeadAdvanced '' @ pr_key_text (pe_Repo e) (pe_Number e) @ '' to '' @ pe_HeadSha e) st
      else if pe_Action e = ''closed''
      then (let kind = (if pe_Merged e then Merged else Discarded);
                cl = \<lparr>bc_Kind = kind, bc_DeliveryID = dl_ID d, bc_ClosedAt = now\<rparr>
            in bump_command e (\<lambda>b. Bump_Close b cl) ''closed for unknown bump''
                 (''BumpClosed '' @ pr_key_text (pe_Repo e) (pe_Number e) @ '' ('' @ ClosureKind_string kind @ '')'') st)
      else (st, ''pull_request.'' @ pe_Action e, Some errUnsubscribed))"

subsection \<open>Checks\<close>

definition prNumbers :: "int list \<Rightarrow> int list" where
  "prNumbers ns = filter (\<lambda>n. 0 < n) ns"

text \<open>One number of the payload: the state, and the detail to append or the early return.\<close>

definition check_one ::
    "TranslatorT \<Rightarrow> (string \<Rightarrow> string \<Rightarrow> gherr + Rollup) \<Rightarrow> Time \<Rightarrow> string \<Rightarrow> string \<Rightarrow> int \<Rightarrow> Store \<Rightarrow>
     Store \<times> (string \<times> terr + string)" where
  "check_one t rollup now repository headSha number st =
     (let num = ''#'' @ show_int number in
      case GetBump repository number (st_bumps st) of
        Inl ErrNotFound \<Rightarrow> (st, Inr (num @ '' is not a bump''))
      | Inl err \<Rightarrow> (st, Inl (''checks'', StoreError err))
      | Inr b \<Rightarrow>
        if bp_headSha b \<noteq> headSha then (st, Inr (num @ '' moved past '' @ headSha))
        else (case rollup repository headSha of
            Inl err \<Rightarrow> (st, Inl (''check rollup'', RollupError err))
          | Inr roll \<Rightarrow>
            if \<not> rl_Conclusive roll then (st, Inr (num @ '' rollup still running''))
            else let v = \<lparr>cv_ID = '''', cv_HeadSha = headSha, cv_Conclusion = rl_Conclusion roll,
                          cv_FailingContexts = Join (rl_FailingContexts roll) [CHR 0x0A],
                          cv_DetailsURL = rl_DetailsURL roll, cv_ConcludedAt = now\<rparr>
            in (case UpdateBump repository number (\<lambda>b. Bump_RecordVerdict b v (tl_RoundCap t)) (st_bumps st) of
                  Inl (Domain (Refused s)) \<Rightarrow> (st, Inr (num @ '' refused the verdict: '' @ s))
                | Inl err \<Rightarrow> (st, Inl (num @ '' verdict '' @ CheckConclusion_string (rl_Conclusion roll), StoreError err))
                | Inr (db, _) \<Rightarrow> (st\<lparr>st_bumps := db\<rparr>, Inr (''VerdictRecorded '' @ repository @ num @ '' '' @
                    CheckConclusion_string (rl_Conclusion roll))))))"

fun check_loop ::
    "TranslatorT \<Rightarrow> (string \<Rightarrow> string \<Rightarrow> gherr + Rollup) \<Rightarrow> Time \<Rightarrow> string \<Rightarrow> string \<Rightarrow> int list \<Rightarrow> string list \<Rightarrow>
     Store \<Rightarrow> Store \<times> (string \<times> terr + string list)" where
  "check_loop t rollup now repository headSha [] details st = (st, Inr details)"
| "check_loop t rollup now repository headSha (n # ns) details st =
     (case check_one t rollup now repository headSha n st of
        (st', Inl err) \<Rightarrow> (st', Inl err)
      | (st', Inr detail) \<Rightarrow> check_loop t rollup now repository headSha ns (details @ [detail]) st')"

definition checks ::
    "TranslatorT \<Rightarrow> (string \<Rightarrow> string \<Rightarrow> gherr + Rollup) \<Rightarrow> Time \<Rightarrow> string \<Rightarrow> string \<Rightarrow> int list \<Rightarrow> Store \<Rightarrow>
     Store \<times> string \<times> terr option" where
  "checks t rollup now repository headSha numbers st =
     (if numbers = [] then (st, ''check completion with no pull request'', Some errUnsubscribed)
      else case check_loop t rollup now repository headSha numbers [] st of
        (st', Inl (detail, err)) \<Rightarrow> (st', detail, Some err)
      | (st', Inr details) \<Rightarrow>
          let detail = Join details ''; '' in
          if \<not> Contains detail ''VerdictRecorded'' then (st', detail, Some errUnsubscribed)
          else (st', detail, None))"

subsection \<open>Translation and its processing row\<close>

text \<open>The result is empty when no row is to be written.\<close>

definition error_text :: "derr \<Rightarrow> string" where
  "error_text e = (case e of Refused s \<Rightarrow> ''refused: '' @ s | Invalid s \<Rightarrow> ''invalid: '' @ s)"

definition translate_result :: "string \<Rightarrow> terr option \<Rightarrow> string \<times> string" where
  "translate_result detail cmdErr =
     (case cmdErr of
        None \<Rightarrow> (''translated'', detail)
      | Some errUnsubscribed \<Rightarrow> (''ignored'', detail)
      | Some (StoreError ErrNotFound) \<Rightarrow> (''ignored'', detail)
      | Some (StoreError ErrConflict) \<Rightarrow> (''ignored'', detail)
      | Some (StoreError (Domain err)) \<Rightarrow> (''rejected'', error_text err)
      | Some _ \<Rightarrow> ('''', detail @ '': %v''))"

definition translate_checks ::
    "TranslatorT \<Rightarrow> Time \<Rightarrow> string \<Rightarrow> CheckEv \<Rightarrow> Store \<Rightarrow> Store \<times> string \<times> terr option" where
  "translate_checks t now name e st =
     (case tl_Rollup t of None \<Rightarrow> (st, ''upkeep not wired'', Some errUnsubscribed)
      | Some rollup \<Rightarrow>
        if ce_Action e \<noteq> ''completed'' then (st, name @ ''.'' @ ce_Action e, Some errUnsubscribed)
        else checks t rollup now (ce_Repo e) (ce_HeadSha e) (prNumbers (ce_Numbers e)) st)"

definition translate_event ::
    "TranslatorT \<Rightarrow> Time \<Rightarrow> Delivery \<Rightarrow> Event \<Rightarrow> Store \<Rightarrow> Store \<times> string \<times> terr option" where
  "translate_event t now d ev st =
     (case ev of
        IssuesEvent e \<Rightarrow> issue t now d e st
      | PullRequestEvent e \<Rightarrow>
          (if tl_Rollup t = None then (st, ''upkeep not wired'', Some errUnsubscribed)
           else pullRequest t now d e st)
      | CheckSuiteEvent e \<Rightarrow> translate_checks t now ''check_suite'' e st
      | WorkflowRunEvent e \<Rightarrow> translate_checks t now ''workflow_run'' e st
      | InstallationEvent e \<Rightarrow> installation now e st
      | InstallationRepositoriesEvent e \<Rightarrow> installationRepositories now e st
      | OtherEvent \<Rightarrow> (st, ''unsubscribed '' @ dl_Event d @ ''.'' @ dl_Action d, Some errUnsubscribed))"

definition translate ::
    "(string \<Rightarrow> string \<Rightarrow> string + Event) \<Rightarrow> TranslatorT \<Rightarrow> Time \<Rightarrow> Delivery \<Rightarrow> Store \<Rightarrow>
     Store \<times> string \<times> string" where
  "translate parse t now d st =
     (if dl_SenderLogin d \<noteq> '''' \<and> dl_SenderLogin d = tl_BotLogin t then (st, ''ignored'', ''own event'')
      else case parse (dl_Event d) (dl_Payload d) of
        Inl err \<Rightarrow> (st, ''ignored'', ''unparseable '' @ dl_Event d @ '': '' @ err)
      | Inr ev \<Rightarrow>
        (case translate_event t now d ev st of (st', detail, cmdErr) \<Rightarrow>
           (st', translate_result detail cmdErr)))"

text \<open>\<open>Process\<close> answers the error it returns, if any; the caller only logs it.\<close>

definition Process ::
    "(string \<Rightarrow> string \<Rightarrow> string + Event) \<Rightarrow> TranslatorT \<Rightarrow> Time \<Rightarrow> Delivery \<Rightarrow> Store \<Rightarrow> Store \<times> string option" where
  "Process parse t now d st =
     (case translate parse t now d st of (st', result, detail) \<Rightarrow>
        if result = '''' then (st', Some detail)
        else case RecordProcessing (dl_ID d) result detail st' of
          Inl _ \<Rightarrow> (st', Some ''record processing'')
        | Inr st'' \<Rightarrow> (st'', None))"

definition ProcessPending ::
    "(string \<Rightarrow> string \<Rightarrow> string + Event) \<Rightarrow> TranslatorT \<Rightarrow> Time \<Rightarrow> Store \<Rightarrow> Store" where
  "ProcessPending parse t now st =
     fold (\<lambda>d st. fst (Process parse t now d st)) (UnprocessedDeliveries st) st"

end
