(* ===== verification/TranslatorInv.thy ===== *)
theory TranslatorInv
  imports Translator SchedulingInv
begin

section \<open>What the translator promises\<close>

text \<open>
  Lemmas and properties of \<^verbatim>\<open>Translator\<close>: what a delivery can leave pending, and what it can
  bring into the store.
\<close>

subsection \<open>The ledger is written by nobody else\<close>

definition same_ledger :: "Store \<Rightarrow> Store \<Rightarrow> bool" where
  "same_ledger st st' = (st_deliveries st' = st_deliveries st \<and> st_processed st' = st_processed st)"

lemma same_ledger_refl [simp]: "same_ledger st st"
  by (simp add: same_ledger_def)

lemma same_ledger_upd [simp]:
  "same_ledger st (s\<lparr>st_cases := c\<rparr>) = same_ledger st s"
  "same_ledger st (s\<lparr>st_bumps := b\<rparr>) = same_ledger st s"
  by (simp_all add: same_ledger_def)

lemma same_ledger_repos [simp]:
  "same_ledger st (EnrollRepository r s) = same_ledger st s"
  "same_ledger st (RemoveRepository n t s) = same_ledger st s"
  by (simp_all add: same_ledger_def EnrollRepository_def RemoveRepository_def)

text \<open>What every command of a delivery keeps to: the ledger is untouched and the detail says something.\<close>

definition tidy :: "Store \<Rightarrow> Store \<times> string \<times> terr option \<Rightarrow> bool" where
  "tidy st r = (same_ledger st (fst r) \<and> fst (snd r) \<noteq> '''')"

lemma enroll_tidy: "same_ledger st0 st \<Longrightarrow> tidy st0 (enroll i now rs n st)"
  by (induction i now rs n st rule: enroll.induct) (auto simp: tidy_def Let_def split: sum.splits)

lemma remove_tidy: "same_ledger st0 st \<Longrightarrow> tidy st0 (remove now rs n st)"
  by (induction now rs n st rule: remove.induct) (auto simp: tidy_def)

lemma installation_tidy: "tidy st (installation now e st)"
  by (auto simp: installation_def enroll_tidy remove_tidy) (auto simp: tidy_def)

lemma installationRepositories_tidy: "tidy st (installationRepositories now e st)"
proof (cases "enroll (ir_ID e) now (ir_Added e) 0 st")
  case (fields st1 added err)
  then have 1: "tidy st (st1, added, err)" using enroll_tidy [of st st] by (metis same_ledger_refl)
  then have "tidy st (remove now (ir_Removed e) 0 st1)" by (intro remove_tidy) (simp add: tidy_def)
  with 1 fields show ?thesis
    by (auto simp: installationRepositories_def tidy_def split: option.splits prod.splits)
qed

lemma open_case_tidy: "tidy st (open_case now e st)"
  by (auto simp: open_case_def tidy_def split: sum.splits serr.splits)

lemma issue_labeled_tidy: "tidy st (issue_labeled t now d e st)"
  using open_case_tidy [of st now e]
  by (auto simp: issue_labeled_def tidy_def Let_def split: sum.splits prod.splits)

lemma issue_closed_tidy: "tidy st (issue_closed now d e st)"
  by (auto simp: issue_closed_def tidy_def Let_def split: sum.splits serr.splits)

lemma issue_tidy: "tidy st (issue t now d e st)"
  by (auto simp: issue_def open_case_tidy issue_labeled_tidy issue_closed_tidy) (auto simp: tidy_def)

lemma openBump_tidy: "tidy st (openBump now e st)"
  by (auto simp: openBump_def tidy_def Let_def split: sum.splits serr.splits)

lemma bump_command_tidy: "u \<noteq> '''' \<Longrightarrow> x \<noteq> '''' \<Longrightarrow> tidy st (bump_command e fn u x st)"
  by (auto simp: bump_command_def tidy_def split: sum.splits serr.splits)

lemma pullRequest_tidy: "tidy st (pullRequest t now d e st)"
  by (auto simp: pullRequest_def openBump_tidy bump_command_tidy Let_def) (auto simp: tidy_def)

lemma check_one_ledger:
  "check_one t rollup now repo sha n st = (st', r) \<Longrightarrow> same_ledger st st' \<and>
     (case r of Inl (x, _) \<Rightarrow> x \<noteq> '''' | Inr x \<Rightarrow> x \<noteq> '''')"
  by (auto simp: check_one_def Let_def split: sum.splits serr.splits derr.splits if_splits)

lemma same_ledger_trans: "same_ledger a b \<Longrightarrow> same_ledger b c \<Longrightarrow> same_ledger a c"
  by (simp add: same_ledger_def)

lemma check_loop_ledger:
  "check_loop t rollup now repo sha ns ds st = (st', r) \<Longrightarrow> \<forall>x \<in> set ds. x \<noteq> '''' \<Longrightarrow>
     same_ledger st st' \<and>
     (case r of Inl (x, _) \<Rightarrow> x \<noteq> '''' | Inr xs \<Rightarrow> length xs = length ds + length ns \<and> (\<forall>x \<in> set xs. x \<noteq> ''''))"
proof (induction t rollup now repo sha ns ds st rule: check_loop.induct)
  case (2 t rollup now repo sha n ns ds st)
  obtain st1 r1 where c: "check_one t rollup now repo sha n st = (st1, r1)" by (cases "check_one t rollup now repo sha n st")
  note one = check_one_ledger [OF c]
  show ?case
  proof (cases r1)
    case (Inl e)
    with 2(2) c one show ?thesis by auto
  next
    case (Inr x)
    then show ?thesis using 2(1) [OF c [symmetric] Inr] 2(2,3) c one
      by (auto split: sum.splits intro: same_ledger_trans)
  qed
qed auto

lemma checks_tidy: "tidy st (checks t rollup now repo sha ns st)"
proof (cases "ns = []")
  case False
  obtain st' r where c: "check_loop t rollup now repo sha ns [] st = (st', r)" by fastforce
  note l = check_loop_ledger [OF c]
  show ?thesis
  proof (cases r)
    case (Inr xs)
    with l False have "xs \<noteq> []" "\<forall>x \<in> set xs. x \<noteq> ''''" by auto
    then have "Join xs ''; '' \<noteq> ''''" using Join_empty by blast
    with False c l Inr show ?thesis by (simp add: checks_def tidy_def Let_def)
  qed (use False c l in \<open>auto simp: checks_def tidy_def\<close>)
qed (simp add: checks_def tidy_def)

lemma translate_checks_tidy: "tidy st (translate_checks t now name e st)"
  by (auto simp: translate_checks_def checks_tidy split: option.splits) (auto simp: tidy_def)

lemma translate_event_tidy: "tidy st (translate_event t now d ev st)"
  by (cases ev) (auto simp: translate_event_def issue_tidy pullRequest_tidy translate_checks_tidy
      installation_tidy installationRepositories_tidy, auto simp: tidy_def)

subsection \<open>Only a failure leaves a delivery pending\<close>

definition transient :: "terr \<Rightarrow> bool" where
  "transient err = (case err of StoreError DbError \<Rightarrow> True | RollupError _ \<Rightarrow> True | _ \<Rightarrow> False)"

text \<open>What one call of \<open>Process\<close> does to the ledger: one row, or none and a failure.\<close>

definition recorded_one :: "Delivery \<Rightarrow> Store \<Rightarrow> Store \<Rightarrow> bool" where
  "recorded_one d st st' = (\<exists>result detail.
     st_processed st' = st_processed st @ [(dl_ID d, result, detail)] \<and>
     result \<in> {''translated'', ''ignored'', ''rejected''} \<and> detail \<noteq> '''')"

definition failed_on ::
    "(string \<Rightarrow> string \<Rightarrow> string + Event) \<Rightarrow> TranslatorT \<Rightarrow> Time \<Rightarrow> Delivery \<Rightarrow> Store \<Rightarrow> bool" where
  "failed_on parse t now d st = (\<not> (dl_SenderLogin d \<noteq> '''' \<and> dl_SenderLogin d = tl_BotLogin t) \<and>
     (\<exists>ev st' detail err. parse (dl_Event d) (dl_Payload d) = Inr ev \<and>
     translate_event t now d ev st = (st', detail, Some err) \<and> transient err))"

lemma translate_result_cases:
  assumes "x \<noteq> ''''"
  obtains (row) "fst (translate_result x e) \<in> {''translated'', ''ignored'', ''rejected''}"
      "snd (translate_result x e) \<noteq> ''''" "\<forall>err. e = Some err \<longrightarrow> \<not> transient err"
  | (none) err where "e = Some err" "transient err" "fst (translate_result x e) = ''''"
proof (cases e)
  case (Some err)
  have tr: "transient err \<or> fst (translate_result x e) \<in> {''translated'', ''ignored'', ''rejected''} \<and>
      snd (translate_result x e) \<noteq> '''' \<and> \<not> transient err"
    using assms Some
    by (cases err) (auto simp: translate_result_def transient_def error_text_def split: serr.splits derr.splits)
  have "transient err \<Longrightarrow> fst (translate_result x e) = ''''"
    using Some by (cases err) (auto simp: translate_result_def transient_def split: serr.splits)
  with tr Some row none show ?thesis by blast
qed (use assms row in \<open>simp add: translate_result_def\<close>)

lemma Process_ledger:
  assumes "dl_ID d \<in> dl_ID ` set (st_deliveries st)" "dl_ID d \<notin> fst ` set (st_processed st)"
    and "Process parse t now d st = (st', r)"
  shows "st_deliveries st' = st_deliveries st \<and>
    (if r = None then recorded_one d st st' \<and> \<not> failed_on parse t now d st
     else st_processed st' = st_processed st \<and> failed_on parse t now d st)"
proof -
  have rec: "\<exists>st2. RecordProcessing (dl_ID d) res x st1 = Inr st2 \<and> st_deliveries st2 = st_deliveries st \<and>
      recorded_one d st st2" if "same_ledger st st1" "res \<in> {''translated'', ''ignored'', ''rejected''}" "x \<noteq> ''''"
    for st1 res x
    using assms(1,2) that by (simp add: RecordProcessing_def same_ledger_def recorded_one_def)
  show ?thesis
  proof (cases "dl_SenderLogin d \<noteq> '''' \<and> dl_SenderLogin d = tl_BotLogin t \<or> isl (parse (dl_Event d) (dl_Payload d))")
    case True
    then have "\<exists>x. translate parse t now d st = (st, ''ignored'', x) \<and> x \<noteq> ''''"
      by (cases "parse (dl_Event d) (dl_Payload d)") (auto simp: translate_def)
    then obtain x where tr: "translate parse t now d st = (st, ''ignored'', x)" "x \<noteq> ''''" by blast
    have "\<not> failed_on parse t now d st" using True by (auto simp: failed_on_def)
    with rec [of st "''ignored''" x] tr assms(3) show ?thesis by (auto simp: Process_def)
  next
    case False
    then obtain ev where ev: "parse (dl_Event d) (dl_Payload d) = Inr ev" by (cases "parse (dl_Event d) (dl_Payload d)") auto
    obtain st1 x e where te: "translate_event t now d ev st = (st1, x, e)" by (cases "translate_event t now d ev st")
    with translate_event_tidy [of st t now d ev] have td: "same_ledger st st1" "x \<noteq> ''''" by (auto simp: tidy_def)
    have tr: "translate parse t now d st = (st1, translate_result x e)"
      using False ev te by (auto simp: translate_def)
    have f: "failed_on parse t now d st = (\<exists>err. e = Some err \<and> transient err)"
      using False by (auto simp: failed_on_def ev te)
    from td(2) show ?thesis
    proof (cases rule: translate_result_cases [of x e])
      case row
      with rec [OF td(1) row(1,2)] tr f assms(3) show ?thesis
        by (auto simp: Process_def split: prod.splits)
    next
      case (none err)
      with tr f assms(3) td(1) show ?thesis
        by (auto simp: Process_def same_ledger_def split: prod.splits)
    qed
  qed
qed

text \<open>A pass over a list of deliveries of distinct ids, none processed yet.\<close>

lemma fold_Process:
  assumes "distinct (map dl_ID ds)" "dl_ID ` set ds \<subseteq> dl_ID ` set (st_deliveries st)"
    "\<forall>d \<in> set ds. dl_ID d \<notin> fst ` set (st_processed st)"
  shows "\<exists>rows. st_processed (fold (\<lambda>d st. fst (Process parse t now d st)) ds st) = st_processed st @ rows \<and>
    st_deliveries (fold (\<lambda>d st. fst (Process parse t now d st)) ds st) = st_deliveries st \<and>
    distinct (map fst rows) \<and> fst ` set rows \<subseteq> dl_ID ` set ds \<and>
    (\<forall>d \<in> set ds. dl_ID d \<in> fst ` set rows \<or> (\<exists>st1. failed_on parse t now d st1))"
  using assms
proof (induction ds arbitrary: st)
  case (Cons d ds)
  obtain st1 r where p: "Process parse t now d st = (st1, r)" by fastforce
  have l: "st_deliveries st1 = st_deliveries st" "r = None \<Longrightarrow> recorded_one d st st1"
      "r \<noteq> None \<Longrightarrow> st_processed st1 = st_processed st \<and> failed_on parse t now d st"
    using Process_ledger [OF _ _ p] Cons.prems(2,3) by (simp_all split: if_splits)
  obtain row where row: "st_processed st1 = st_processed st @ row" "fst ` set row \<subseteq> {dl_ID d}" "distinct (map fst row)"
      "row = [] \<Longrightarrow> failed_on parse t now d st"
    using l(2,3) by (cases r) (auto simp: recorded_one_def)
  have "fst ` set (st_processed st1) \<subseteq> insert (dl_ID d) (fst ` set (st_processed st))"
    using row(1,2) by (auto simp: image_Un)
  moreover have dn: "dl_ID d \<notin> dl_ID ` set ds" using Cons.prems(1) by simp
  ultimately have "\<forall>x \<in> set ds. dl_ID x \<notin> fst ` set (st_processed st1)"
    using Cons.prems(3) by (metis (no_types, lifting) image_eqI insertE list.set_intros(2) subsetD)
  moreover have "dl_ID ` set ds \<subseteq> dl_ID ` set (st_deliveries st1)" using Cons.prems(2) l(1) by simp
  ultimately obtain rows where rows:
      "st_processed (fold (\<lambda>d st. fst (Process parse t now d st)) ds st1) = st_processed st1 @ rows"
      "st_deliveries (fold (\<lambda>d st. fst (Process parse t now d st)) ds st1) = st_deliveries st1"
      "distinct (map fst rows)" "fst ` set rows \<subseteq> dl_ID ` set ds"
      "\<forall>x \<in> set ds. dl_ID x \<in> fst ` set rows \<or> (\<exists>st1. failed_on parse t now x st1)"
    using Cons.IH [of st1] Cons.prems(1) by auto
  have "{dl_ID d} \<inter> dl_ID ` set ds = {}" by (rule Int_insert_left_if0 [OF dn, of "{}", unfolded Int_empty_left])
  then have "fst ` set row \<inter> fst ` set rows = {}"
    using Int_mono [OF row(2) rows(4)] by (metis subset_empty)
  then have "distinct (map fst (row @ rows))"
    unfolding map_append distinct_append set_map using row(3) rows(3) by blast
  moreover have "dl_ID d \<in> fst ` set row \<or> (\<exists>st1. failed_on parse t now d st1)"
    using row(2,4) by (cases row) auto
  ultimately show ?case using rows row(1,2) l(1) p
    by (intro exI [of _ "row @ rows"]) (auto simp: image_Un)
qed simp

lemma UnprocessedDeliveries_set:
  "set (UnprocessedDeliveries st) = {d \<in> set (st_deliveries st). dl_ID d \<notin> fst ` set (st_processed st)}"
  by (auto simp: UnprocessedDeliveries_def)

lemma distinct_map_sort_key: "distinct (map f (sort_key k xs)) = distinct (map f xs)"
  by (metis distinct_map distinct_sort set_sort)

lemma UnprocessedDeliveries_distinct:
  "distinct (map dl_ID (st_deliveries st)) \<Longrightarrow> distinct (map dl_ID (UnprocessedDeliveries st))"
  by (simp add: UnprocessedDeliveries_def distinct_map_sort_key distinct_map_filter)


subsection \<open>Only an opening adds a row\<close>

text \<open>What a row says of where its work came from.\<close>

definition case_origin :: "Snapshot \<Rightarrow> string \<times> int \<times> Requester \<times> Time" where
  "case_origin s = (sn_Repository s, sn_Number s, sn_Requester s, sn_ReceivedAt s)"

definition bump_origin :: "BumpSnapshot \<Rightarrow> string \<times> int \<times> string \<times> string \<times> Time" where
  "bump_origin s = (bs_Repository s, bs_Number s, bs_Branch s, bs_BaseBranch s, bs_OpenedAt s)"

text \<open>Writing changes leaves alone which row it is, the other rows, and the ids drawn before.\<close>

definition case_frame :: "Snapshot \<Rightarrow> CaseDB \<Rightarrow> Snapshot \<Rightarrow> CaseDB \<Rightarrow> bool" where
  "case_frame s db s' db' = (case_origin s' = case_origin s \<and> sn_ID s' = sn_ID s \<and>
     db_cases db' = db_cases db \<and> db_fresh db \<le> db_fresh db')"

definition bump_frame :: "BumpSnapshot \<Rightarrow> BumpDB \<Rightarrow> BumpSnapshot \<Rightarrow> BumpDB \<Rightarrow> bool" where
  "bump_frame s db s' db' = (bump_origin s' = bump_origin s \<and> bs_ID s' = bs_ID s \<and>
     bd_bumps db' = bd_bumps db \<and> bd_watches db' = bd_watches db \<and> bd_fresh db \<le> bd_fresh db')"

lemma insert_run_frame:
  "insert_run n r s db = Some (s', db') \<Longrightarrow> case_frame s db s' db'"
  by (auto simp: insert_run_def case_origin_def case_frame_def split: option.splits if_splits)

lemma insertOutcome_frame: "insertOutcome n r s = Some s' \<Longrightarrow> case_origin s' = case_origin s \<and> sn_ID s' = sn_ID s"
  by (auto simp: insertOutcome_def case_origin_def case_frame_def split: option.splits if_splits)

lemma insert_approvals_frame:
  "insert_approvals aps s db = Some (s', db') \<Longrightarrow> case_frame s db s' db'"
  by (induction aps s db rule: insert_approvals.induct) (auto simp: case_origin_def case_frame_def split: if_splits)

lemma insert_attempts_frame:
  "insert_attempts as s db = Some (s', db') \<Longrightarrow> case_frame s db s' db'"
  by (induction as s db rule: insert_attempts.induct) (auto simp: case_origin_def case_frame_def split: if_splits)

lemma insert_runs_frame:
  "insert_runs ns m s db = Some (s', db') \<Longrightarrow> case_frame s db s' db'"
  by (induction ns m s db rule: insert_runs.induct) (fastforce simp: case_frame_def dest: insert_run_frame split: option.splits)+

lemma insert_outcomes_frame: "insert_outcomes ns m s = Some s' \<Longrightarrow> case_origin s' = case_origin s \<and> sn_ID s' = sn_ID s"
  by (induction ns m s rule: insert_outcomes.induct) (fastforce dest: insertOutcome_frame split: option.splits)+

lemma insert_triage_frame: "insert_triage t s = Some s' \<Longrightarrow> case_origin s' = case_origin s \<and> sn_ID s' = sn_ID s"
  by (auto simp: insert_triage_def case_origin_def case_frame_def split: option.splits if_splits)

lemma insert_closure_frame:
  "insert_closure cl s db = Some (s', db') \<Longrightarrow> case_frame s db s' db'"
  by (auto simp: insert_closure_def case_origin_def case_frame_def split: option.splits if_splits)

lemmas case_frames = insert_triage_frame insert_approvals_frame insert_attempts_frame insert_runs_frame
  insert_outcomes_frame insert_closure_frame

lemma persistChanges_frame:
  assumes "persistChanges c s db = Some (s', db')"
  shows "case_frame s db s' db'"
proof -
  let ?ch = "cs_changes c"
  let ?ords = "map at_Ordinal (sn_Attempts s @ ch_Attempts ?ch)"
  from assms obtain s1 s2 db2 s3 db3 s4 db4 s5 s6 where
      i: "insert_triage (ch_Triage ?ch) s = Some s1" "insert_approvals (ch_Approvals ?ch) s1 db = Some (s2, db2)"
        "insert_attempts (ch_Attempts ?ch) s2 db2 = Some (s3, db3)"
        "insert_runs ?ords (ch_Runs ?ch) s3 db3 = Some (s4, db4)"
        "insert_outcomes ?ords (ch_Outcomes ?ch) s4 = Some s5"
        "insert_closure (ch_Closure ?ch) s5 db4 = Some (s6, db')"
    and s': "case_origin s' = case_origin s6" "sn_ID s' = sn_ID s6"
    by (auto simp: persistChanges_def Let_def bind_eq_Some_conv case_origin_def split: if_splits prod.splits)
  show ?thesis
    using s' case_frames(1) [OF i(1)] case_frames(2) [OF i(2)] case_frames(3) [OF i(3)]
      case_frames(4) [OF i(4)] case_frames(5) [OF i(5)] case_frames(6) [OF i(6)] by (simp add: case_frame_def)
qed

lemma UpdateCase_origins:
  assumes "UpdateCase repository number fn db = Inr (db', out)"
  shows "case_origin ` set (db_cases db') \<subseteq> case_origin ` set (db_cases db)"
  using assms
proof (cases rule: UpdateCase_Inr)
  case (1 s c0 c s' db1)
  then have "s \<in> set (db_cases db)" "case_origin s' = case_origin s" "db_cases db1 = db_cases db"
    using persistChanges_frame [OF 1(4)] by (auto simp: find_Some_iff case_frame_def)
  then show ?thesis by (auto simp: 1(6) put_row_def)
qed

lemma insert_verdicts_frame:
  "insert_verdicts vs s db = Some (s', db') \<Longrightarrow>
     bump_frame s db s' db'"
  by (induction vs s db rule: insert_verdicts.induct) (auto simp: bump_origin_def bump_frame_def split: if_splits)

lemma insert_repairs_frame:
  "insert_repairs as s db = Some (s', db') \<Longrightarrow>
     bump_frame s db s' db'"
  by (induction as s db rule: insert_repairs.induct) (auto simp: bump_origin_def bump_frame_def split: if_splits)

lemma insert_repair_run_frame:
  "insert_repair_run n r s db = Some (s', db') \<Longrightarrow>
     bump_frame s db s' db'"
  by (auto simp: insert_repair_run_def bump_origin_def bump_frame_def split: option.splits if_splits)

lemma insert_repair_runs_frame:
  "insert_repair_runs ns m s db = Some (s', db') \<Longrightarrow>
     bump_frame s db s' db'"
  by (induction ns m s db rule: insert_repair_runs.induct)
    (fastforce simp: bump_frame_def dest: insert_repair_run_frame split: option.splits)+

lemma insertRepairOutcome_frame: "insertRepairOutcome n r s = Some s' \<Longrightarrow> bump_origin s' = bump_origin s \<and> bs_ID s' = bs_ID s"
  by (auto simp: insertRepairOutcome_def bump_origin_def bump_frame_def split: option.splits if_splits)

lemma insert_repair_outcomes_frame: "insert_repair_outcomes ns m s = Some s' \<Longrightarrow> bump_origin s' = bump_origin s \<and> bs_ID s' = bs_ID s"
  by (induction ns m s rule: insert_repair_outcomes.induct)
    (fastforce dest: insertRepairOutcome_frame split: option.splits)+

lemma insert_abandonment_frame: "insert_abandonment dr ab s = Some s' \<Longrightarrow> bump_origin s' = bump_origin s \<and> bs_ID s' = bs_ID s"
  by (auto simp: insert_abandonment_def bump_origin_def bump_frame_def Let_def split: option.splits if_splits)

lemma insert_bump_closure_frame:
  "insert_bump_closure cl s db = Some (s', db') \<Longrightarrow>
     bump_frame s db s' db'"
  by (auto simp: insert_bump_closure_def bump_origin_def bump_frame_def split: option.splits if_splits)

lemmas bump_frames = insert_verdicts_frame insert_repairs_frame insert_repair_runs_frame
  insert_repair_outcomes_frame insert_abandonment_frame insert_bump_closure_frame

lemma persistBumpChanges_frame:
  assumes "persistBumpChanges b s db = Some (s', db')"
  shows "bump_frame s db s' db'"
proof -
  let ?ch = "bp_changes b"
  let ?rounds = "map ra_Round (bs_Attempts s @ bh_Attempts ?ch)"
  from assms obtain s1 db1 s2 db2 s3 db3 s4 s5 s6 where
      i: "insert_verdicts (bh_Verdicts ?ch) s db = Some (s1, db1)"
        "insert_repairs (bh_Attempts ?ch) s1 db1 = Some (s2, db2)"
        "insert_repair_runs ?rounds (bh_Runs ?ch) s2 db2 = Some (s3, db3)"
        "insert_repair_outcomes ?rounds (bh_Outcomes ?ch) s3 = Some s4"
        "insert_abandonment (bh_DropAbandon ?ch) (bh_Abandonment ?ch) s4 = Some s5"
        "insert_bump_closure (bh_Closure ?ch) s5 db3 = Some (s6, db')"
    and s': "bump_origin s' = bump_origin s6" "bs_ID s' = bs_ID s6"
    by (auto simp: persistBumpChanges_def Let_def bind_eq_Some_conv bump_origin_def split: if_splits prod.splits)
  show ?thesis
    using s' bump_frames(1) [OF i(1)] bump_frames(2) [OF i(2)] bump_frames(3) [OF i(3)]
      bump_frames(4) [OF i(4)] bump_frames(5) [OF i(5)] bump_frames(6) [OF i(6)] by (simp add: bump_frame_def)
qed

lemma UpdateBump_origins:
  assumes "UpdateBump repository number fn db = Inr (db', out)"
  shows "bump_origin ` set (bd_bumps db') \<subseteq> bump_origin ` set (bd_bumps db)" "bd_watches db' = bd_watches db"
proof -
  from assms obtain s b s' db1 where s: "find (is_bump_key repository number) (bd_bumps db) = Some s"
      "persistBumpChanges b s db = Some (s', db1)" "db' = put_bump s' db1"
    by (auto simp: UpdateBump_def split: option.splits sum.splits prod.splits)
  then have "s \<in> set (bd_bumps db)" "bump_origin s' = bump_origin s" "bd_bumps db1 = bd_bumps db"
      "bd_watches db1 = bd_watches db"
    using persistBumpChanges_frame [OF s(2)] by (auto simp: find_Some_iff bump_frame_def)
  then show "bump_origin ` set (bd_bumps db') \<subseteq> bump_origin ` set (bd_bumps db)" "bd_watches db' = bd_watches db"
    by (auto simp: s(3) put_bump_def)
qed

definition new_cases :: "Store \<Rightarrow> Store \<Rightarrow> (string \<times> int \<times> Requester \<times> Time) set" where
  "new_cases st st' = case_origin ` set (db_cases (st_cases st')) - case_origin ` set (db_cases (st_cases st))"

definition new_bumps :: "Store \<Rightarrow> Store \<Rightarrow> (string \<times> int \<times> string \<times> string \<times> Time) set" where
  "new_bumps st st' = bump_origin ` set (bd_bumps (st_bumps st')) - bump_origin ` set (bd_bumps (st_bumps st))"

lemma new_none [simp]:
  "st_cases st' = st_cases st \<Longrightarrow> new_cases st st' = {}" "st_bumps st' = st_bumps st \<Longrightarrow> new_bumps st st' = {}"
  by (simp_all add: new_cases_def new_bumps_def)

lemma repos_keep_work [simp]:
  "st_cases (EnrollRepository r st) = st_cases st" "st_bumps (EnrollRepository r st) = st_bumps st"
  "st_cases (RemoveRepository n t st) = st_cases st" "st_bumps (RemoveRepository n t st) = st_bumps st"
  by (simp_all add: EnrollRepository_def RemoveRepository_def)

lemma enroll_keeps_work:
  "enroll i now rs n st = (st', x) \<Longrightarrow> st_cases st' = st_cases st \<and> st_bumps st' = st_bumps st"
  by (induction i now rs n st rule: enroll.induct) (auto simp: Let_def split: sum.splits if_splits)

lemma remove_keeps_work:
  "remove now rs n st = (st', x) \<Longrightarrow> st_cases st' = st_cases st \<and> st_bumps st' = st_bumps st"
  by (induction now rs n st rule: remove.induct) auto

lemma installation_keeps_work:
  "installation now e st = (st', x) \<Longrightarrow> st_cases st' = st_cases st \<and> st_bumps st' = st_bumps st"
  by (auto simp: installation_def dest: enroll_keeps_work remove_keeps_work split: if_splits)

lemma installationRepositories_keeps_work:
  "installationRepositories now e st = (st', x) \<Longrightarrow> st_cases st' = st_cases st \<and> st_bumps st' = st_bumps st"
  by (auto simp: installationRepositories_def dest!: enroll_keeps_work remove_keeps_work
      split: prod.splits option.splits)

text \<open>What an admitted case and an admitted bump come from.\<close>

definition author_requester :: "IssueEv \<Rightarrow> Requester \<Rightarrow> bool" where
  "author_requester e rq = (\<exists>assoc. ParseAssociation (Association_of (ie_Association e)) = Inr assoc \<and>
     NewRequester (ie_Author e) assoc = Inr rq)"

definition admits_case :: "TranslatorT \<Rightarrow> IssueEv \<Rightarrow> Store \<Rightarrow> string \<times> int \<times> Requester \<times> Time \<Rightarrow> bool" where
  "admits_case t e st k = ((ie_Action e = ''opened'' \<or> ie_Action e = ''labeled'' \<and> ie_Label e = tl_ApprovedLabel t) \<and>
     (\<exists>r. GetRepository (ie_Repo e) st = Inr r \<and> Enrolled r) \<and>
     fst k = ie_Repo e \<and> fst (snd k) = ie_Number e \<and> author_requester e (fst (snd (snd k))))"

definition admits_bump :: "TranslatorT \<Rightarrow> PREv \<Rightarrow> Store \<Rightarrow> string \<times> int \<times> string \<times> string \<times> Time \<Rightarrow> bool" where
  "admits_bump t e st k = (tl_Rollup t \<noteq> None \<and> pe_Author e = tl_DependabotLogin t \<and>
     pe_Action e \<in> {''opened'', ''reopened''} \<and> pe_HeadRepo e \<in> {'''', pe_Repo e} \<and>
     pe_Repo e \<in> set (WatchedRepositories (st_bumps st)) \<and>
     fst k = pe_Repo e \<and> fst (snd k) = pe_Number e \<and> fst (snd (snd k)) = pe_HeadRef e)"

lemma open_case_new:
  assumes "open_case now e st = (st', x, err)"
  shows "st_bumps st' = st_bumps st \<and> (\<forall>k \<in> new_cases st st'.
    (\<exists>r. GetRepository (ie_Repo e) st = Inr r \<and> Enrolled r) \<and>
     fst k = ie_Repo e \<and> fst (snd k) = ie_Number e \<and> author_requester e (fst (snd (snd k))))"
proof (cases "err = None")
  case False
  with assms have "st' = st" by (auto simp: open_case_def split: sum.splits serr.splits if_splits)
  then show ?thesis by simp
next
  case True
  with assms obtain r req c db u where
      g: "GetRepository (ie_Repo e) st = Inr r" "Enrolled r"
      "author_requester e req" "NewCase (ie_Repo e) (ie_Number e) req now = Inr c"
      "CreateCase c (st_cases st) = Inr (db, u)" "st' = st\<lparr>st_cases := db\<rparr>"
    unfolding author_requester_def
    by (auto simp: open_case_def split: sum.splits serr.splits if_splits)
  have "new_cases st st' \<subseteq> {(ie_Repo e, ie_Number e, req, now)}"
    using g(4,5) by (auto simp: g(6) new_cases_def CreateCase_def NewCase_def case_origin_def Let_def
        split: if_splits prod.splits option.splits)
  with g(1-3,6) show ?thesis by auto
qed

lemma issue_new:
  assumes "issue t now d e st = (st', x, err)"
  shows "st_bumps st' = st_bumps st \<and> (\<forall>k \<in> new_cases st st'. admits_case t e st k)"
proof (cases "ie_Action e = ''closed''")
  case True
  with assms have "issue_closed now d e st = (st', x, err)" by (simp add: issue_def)
  then have "st_bumps st' = st_bumps st \<and> new_cases st st' = {}"
    by (auto simp: issue_closed_def new_cases_def Let_def dest!: UpdateCase_origins split: sum.splits serr.splits)
  then show ?thesis by simp
next
  case False
  show ?thesis
  proof (cases "ie_Action e = ''opened''")
    case True
    with assms open_case_new [of now e st] show ?thesis by (auto simp: issue_def admits_case_def)
  next
    case no: False
    show ?thesis
    proof (cases "ie_Action e = ''labeled'' \<and> ie_Label e = tl_ApprovedLabel t")
      case True
      obtain st1 x1 err1 where oc: "open_case now e st = (st1, x1, err1)" by (cases "open_case now e st")
      from assms True oc have "issue_labeled t now d e st = (st', x, err)" by (simp add: issue_def)
      then have "st_bumps st' = st_bumps st1 \<and> new_cases st st' \<subseteq> new_cases st st1"
        by (auto simp: issue_labeled_def oc True new_cases_def Let_def dest!: UpdateCase_origins
            split: sum.splits if_splits)
      with open_case_new [OF oc] True show ?thesis by (auto simp: admits_case_def)
    next
      case other: False
      with assms no False have "st' = st" by (auto simp: issue_def issue_labeled_def split: if_splits)
      then show ?thesis by simp
    qed
  qed
qed

lemma watched_iff: "(r \<in> set (WatchedRepositories db)) = list_ex (\<lambda>w. wt_Repository w = r) (bd_watches db)"
  by (auto simp: WatchedRepositories_def list_ex_iff)

lemma openBump_new:
  assumes "openBump now e st = (st', x, err)"
  shows "st_cases st' = st_cases st \<and> (\<forall>k \<in> new_bumps st st'. pe_HeadRepo e \<in> {'''', pe_Repo e} \<and>
     pe_Repo e \<in> set (WatchedRepositories (st_bumps st)) \<and>
     fst k = pe_Repo e \<and> fst (snd k) = pe_Number e \<and> fst (snd (snd k)) = pe_HeadRef e)"
proof (cases "err = None")
  case False
  with assms have "st' = st" by (auto simp: openBump_def Let_def split: sum.splits serr.splits if_splits)
  then show ?thesis by simp
next
  case True
  with assms obtain b db u where
      g: "pe_HeadRepo e = '''' \<or> pe_HeadRepo e = pe_Repo e"
      "NewBump (pe_Repo e) (pe_Number e) (pe_HeadRef e) (pe_BaseRef e) (pe_HeadSha e) now = Inr b"
      "CreateBump b (st_bumps st) = Inr (db, u)" "st' = st\<lparr>st_bumps := db\<rparr>"
    by (auto simp: openBump_def Let_def split: sum.splits serr.splits if_splits)
  have new: "new_bumps st st' \<subseteq> {(pe_Repo e, pe_Number e, pe_HeadRef e, pe_BaseRef e, now)}"
    using g(2,3) by (auto simp: g(4) new_bumps_def CreateBump_def NewBump_def bump_origin_def Let_def
        split: if_splits prod.splits option.splits)
  have "list_ex (\<lambda>w. wt_Repository w = bp_repository b) (bd_watches (st_bumps st))"
    using g(3) by (simp add: CreateBump_def split: if_splits)
  moreover have "bp_repository b = pe_Repo e" using g(2) by (auto simp: NewBump_def split: if_splits)
  ultimately have w: "pe_Repo e \<in> set (WatchedRepositories (st_bumps st))" by (simp add: watched_iff)
  have "\<forall>k \<in> new_bumps st st'. k = (pe_Repo e, pe_Number e, pe_HeadRef e, pe_BaseRef e, now)"
    using new by blast
  with w g(1) show ?thesis by (auto simp: g(4))
qed

lemma bump_command_new:
  "bump_command e fn u x st = (st', y, err) \<Longrightarrow> st_cases st' = st_cases st \<and> new_bumps st st' = {}"
  by (auto simp: bump_command_def new_bumps_def dest!: UpdateBump_origins(1) split: sum.splits serr.splits)

lemma pullRequest_new:
  assumes "pullRequest t now d e st = (st', x, err)" "tl_Rollup t \<noteq> None"
  shows "st_cases st' = st_cases st \<and> (\<forall>k \<in> new_bumps st st'. admits_bump t e st k)"
  using assms openBump_new [of now e st]
  by (auto simp: pullRequest_def admits_bump_def Let_def dest: bump_command_new split: if_splits)

lemma check_one_new:
  "check_one t rollup now repo sha n st = (st', r) \<Longrightarrow> st_cases st' = st_cases st \<and>
     bump_origin ` set (bd_bumps (st_bumps st')) \<subseteq> bump_origin ` set (bd_bumps (st_bumps st))"
  by (auto simp: check_one_def Let_def dest!: UpdateBump_origins(1)
      split: sum.splits serr.splits derr.splits if_splits)

lemma check_loop_new:
  "check_loop t rollup now repo sha ns ds st = (st', r) \<Longrightarrow> st_cases st' = st_cases st \<and>
     bump_origin ` set (bd_bumps (st_bumps st')) \<subseteq> bump_origin ` set (bd_bumps (st_bumps st))"
proof (induction t rollup now repo sha ns ds st rule: check_loop.induct)
  case (2 t rollup now repo sha n ns ds st)
  obtain st1 r1 where c: "check_one t rollup now repo sha n st = (st1, r1)" by fastforce
  show ?case
  proof (cases r1)
    case (Inl e)
    with 2(2) c check_one_new [OF c] show ?thesis by auto
  next
    case (Inr x)
    with 2(2) c have "check_loop t rollup now repo sha ns (ds @ [x]) st1 = (st', r)" by simp
    note rest = 2(1) [OF c [symmetric] Inr this] and one = check_one_new [OF c]
    show ?thesis
      using subset_trans [OF conjunct2 [OF rest] conjunct2 [OF one]] rest one by simp
  qed
qed auto

lemma translate_checks_new:
  "translate_checks t now name e st = (st', x, err) \<Longrightarrow> st_cases st' = st_cases st \<and> new_bumps st st' = {}"
  by (auto simp: translate_checks_def checks_def new_bumps_def Let_def dest!: check_loop_new
      split: option.splits if_splits prod.splits sum.splits)

lemma translate_event_new:
  assumes "translate_event t now d ev st = (st', x, err)"
  shows "(\<forall>k \<in> new_cases st st'. \<exists>e. ev = IssuesEvent e \<and> admits_case t e st k) \<and>
    (\<forall>k \<in> new_bumps st st'. \<exists>e. ev = PullRequestEvent e \<and> admits_bump t e st k)"
proof (cases ev)
  case (IssuesEvent e)
  with assms issue_new [of t now d e st] show ?thesis by (simp add: translate_event_def)
next
  case (PullRequestEvent e)
  with assms pullRequest_new [of t now d e st] show ?thesis by (auto simp: translate_event_def split: if_splits)
qed (use assms in \<open>auto simp: translate_event_def dest!: translate_checks_new installation_keeps_work
    installationRepositories_keeps_work\<close>)

lemma RecordProcessing_work:
  "RecordProcessing i res x st = Inr st' \<Longrightarrow> st_cases st' = st_cases st \<and> st_bumps st' = st_bumps st"
  by (auto simp: RecordProcessing_def split: if_splits)

text \<open>C9. Only admitted work comes in: whatever a delivery carries and in whatever state the store is,
  a case that was not there before is for an enrolled repository, comes from an issue that
  was opened or given the approval label, and its trust is computed from the issue's author
  (not from the sender of the event); a bump that was not there before is dependabot's, for
  a pull request opened from inside a watched repository while Upkeep is wired; and an event
  of the daemon's own login changes no case and no bump.\<close>
theorem only_admitted_work_comes_in:
  assumes "Process parse t now d st = (st', r)"
  shows "(\<forall>k \<in> new_cases st st'. \<exists>e. parse (dl_Event d) (dl_Payload d) = Inr (IssuesEvent e) \<and> admits_case t e st k) \<and>
    (\<forall>k \<in> new_bumps st st'. \<exists>e. parse (dl_Event d) (dl_Payload d) = Inr (PullRequestEvent e) \<and> admits_bump t e st k) \<and>
    (dl_SenderLogin d = tl_BotLogin t \<and> dl_SenderLogin d \<noteq> '''' \<longrightarrow>
       st_cases st' = st_cases st \<and> st_bumps st' = st_bumps st)"
proof -
  obtain st1 res x where tr: "translate parse t now d st = (st1, res, x)" by (cases "translate parse t now d st")
  with assms have w: "st_cases st' = st_cases st1" "st_bumps st' = st_bumps st1"
    by (auto simp: Process_def dest!: RecordProcessing_work split: if_splits sum.splits)
  have n: "new_cases st st' = new_cases st st1" "new_bumps st st' = new_bumps st st1"
    by (simp_all add: new_cases_def new_bumps_def w)
  consider (same) "st1 = st" | (event) ev x err where "parse (dl_Event d) (dl_Payload d) = Inr ev"
      "translate_event t now d ev st = (st1, x, err)"
      "\<not> (dl_SenderLogin d \<noteq> '''' \<and> dl_SenderLogin d = tl_BotLogin t)"
    using tr by (auto simp: translate_def split: if_splits sum.splits prod.splits)
  then show ?thesis
  proof cases
    case same
    then show ?thesis by (simp add: n w)
  next
    case (event ev x err)
    from translate_event_new [OF event(2)] event(1,3) show ?thesis by (auto simp: n)
  qed
qed

subsection \<open>Concrete runs\<close>

definition demo_sha :: string where "demo_sha = replicate 40 CHR ''a''"

definition demo_tl :: TranslatorT where
  "demo_tl = \<lparr>tl_ApprovedLabel = ''autophage'', tl_BotLogin = ''autophage[bot]'',
     tl_DependabotLogin = ''dependabot[bot]'', tl_Rollup = Some (\<lambda>_ _. Inr zero_rollup), tl_RoundCap = 2\<rparr>"

definition demo_pr :: PREv where
  "demo_pr = \<lparr>pe_Action = ''opened'', pe_Repo = ''o/r'', pe_Number = 7, pe_Author = ''dependabot[bot]'',
     pe_HeadSha = demo_sha, pe_HeadRef = ''dep'', pe_HeadRepo = ''o/r'', pe_BaseRef = ''main'', pe_Merged = False\<rparr>"

text \<open>A parser that reads the event off the name alone.\<close>

definition demo_parse :: "string \<Rightarrow> string \<Rightarrow> string + Event" where
  "demo_parse name payload =
     (if name = ''pull_request'' then Inr (PullRequestEvent demo_pr)
      else if name = ''installation''
      then Inr (InstallationEvent \<lparr>in_Action = ''deleted'', in_ID = 1, in_Repos = [(''o/r'', '''')]\<rparr>)
      else Inl ''unknown'')"

definition demo_delivery :: "string \<Rightarrow> string \<Rightarrow> Delivery" where
  "demo_delivery i name = \<lparr>dl_ID = i, dl_Event = name, dl_Action = '''', dl_SenderLogin = ''someone'',
     dl_Payload = ''{}'', dl_ReceivedAt = 0\<rparr>"

definition demo_store :: "Delivery list \<Rightarrow> Store" where
  "demo_store ds = \<lparr>st_cases = \<lparr>db_cases = [], db_approval_deliveries = [], db_closure_deliveries = [],
       db_run_ids = [], db_webhooks = map dl_ID ds, db_fresh = 0\<rparr>,
     st_bumps = \<lparr>bd_bumps = [], bd_watches = [\<lparr>wt_Repository = ''o/r'', wt_WatchedAt = 0\<rparr>],
       bd_closure_deliveries = [], bd_run_ids = [], bd_webhooks = map dl_ID ds, bd_fresh = 0\<rparr>,
     st_repos = [\<lparr>rp_FullName = ''o/r'', rp_InstallationID = 1, rp_DefaultBranch = ''main'',
       rp_EnrolledAt = 0, rp_Removed = None\<rparr>],
     st_labels = [], st_deliveries = ds, st_processed = [], st_triage_comments = [],
     st_outcome_comments = [], st_comments = [], st_posted = []\<rparr>"

lemma demo_sha_ok: "shaRe demo_sha"
  by (simp add: demo_sha_def shaRe_def hex_byte_def list_all_iff)

lemma demo_opens:
  assumes "st_bumps st = st_bumps (demo_store ds)" "dl_ID d \<in> dl_ID ` set (st_deliveries st)"
    "dl_ID d \<notin> fst ` set (st_processed st)" "d = demo_delivery i ''pull_request''"
  shows "\<exists>st'. Process demo_parse demo_tl now d st = (st', None) \<and>
    new_bumps st st' = {(''o/r'', 7, ''dep'', ''main'', now)} \<and> st_repos st' = st_repos st \<and>
    length (bd_bumps (st_bumps st')) = 1 \<and> st_processed st' = st_processed st @ [(dl_ID d, ''translated'', ''BumpOpened o/r#7 on dep'')]"
proof -
  have c: "int4 7" by (simp add: int4_def)
  have ch: "char_of (55::nat) = CHR ''7''" by (simp add: char_of_def bit_0)
  show ?thesis
    using assms(1-3)
    by (simp add: Process_def translate_def translate_event_def demo_parse_def demo_delivery_def assms(4)
        pullRequest_def openBump_def demo_pr_def demo_tl_def NewBump_def demo_sha_ok CreateBump_def
        demo_store_def is_bump_key_def c Bump_AssignID_def Let_def translate_result_def
        RecordProcessing_def new_bumps_def bump_origin_def pr_key_text_def show_int_def
        show_nat.simps digit_char_def AllBumpStates_def
        fresh_id_def ch)
qed


theorem only_admitted_work_comes_in_witness:
  "\<exists>st'. new_bumps (demo_store [demo_delivery ''d1'' ''pull_request'']) st' = {(''o/r'', 7, ''dep'', ''main'', 5)} \<and>
     admits_bump demo_tl demo_pr (demo_store [demo_delivery ''d1'' ''pull_request'']) (''o/r'', 7, ''dep'', ''main'', 5)"
proof -
  let ?d = "demo_delivery ''d1'' ''pull_request''"
  let ?st = "demo_store [?d]"
  obtain st' where p: "Process demo_parse demo_tl 5 ?d ?st = (st', None)"
      "new_bumps ?st st' = {(''o/r'', 7, ''dep'', ''main'', 5)}"
    using demo_opens [of ?st "[?d]" ?d "''d1''" 5] by (auto simp: demo_store_def)
  from only_admitted_work_comes_in [OF p(1)] p(2) show ?thesis
    by (auto simp: demo_parse_def demo_delivery_def)
qed

text \<open>A removed repository still gets bumps: after the installation is deleted its watch stays, so
  the next dependabot pull request opens a bump there, translated rather than ignored, though
  the case side would refuse the repository as not enrolled and \<^verbatim>\<open>openBump\<close>'s own comment says
  an unenrolled repository is ignored.\<close>
theorem removed_repository_gets_bumps:
  "\<exists>st. ProcessPending demo_parse demo_tl 5
       (demo_store [demo_delivery ''d1'' ''installation'', demo_delivery ''d2'' ''pull_request'']) = st \<and>
     EnrolledRepositories st = [] \<and> (\<exists>r. GetRepository ''o/r'' st = Inr r \<and> \<not> Enrolled r) \<and>
     length (bd_bumps (st_bumps st)) = 1 \<and>
     map (\<lambda>(i, result, _). (i, result)) (st_processed st) = [(''d1'', ''translated''), (''d2'', ''translated'')]"
proof -
  let ?d1 = "demo_delivery ''d1'' ''installation''" and ?d2 = "demo_delivery ''d2'' ''pull_request''"
  let ?st = "demo_store [?d1, ?d2]"
  let ?st1 = "fst (Process demo_parse demo_tl 5 ?d1 ?st)"
  have u: "UnprocessedDeliveries ?st = [?d1, ?d2]"
    by (simp add: UnprocessedDeliveries_def demo_store_def demo_delivery_def)
  have 1: "st_bumps ?st1 = st_bumps ?st" "st_deliveries ?st1 = [?d1, ?d2]"
      "\<exists>x. st_processed ?st1 = [(''d1'', ''translated'', x)]"
      "\<exists>r. st_repos ?st1 = [r] \<and> rp_FullName r = ''o/r'' \<and> rp_Removed r \<noteq> None"
    by (simp_all add: Process_def translate_def demo_parse_def demo_delivery_def demo_tl_def
        translate_event_def installation_def RemoveRepository_def demo_store_def translate_result_def
        RecordProcessing_def)
  obtain st2 where 2: "Process demo_parse demo_tl 5 ?d2 ?st1 = (st2, None)" "st_repos st2 = st_repos ?st1"
      "length (bd_bumps (st_bumps st2)) = 1"
      "st_processed st2 = st_processed ?st1 @ [(dl_ID ?d2, ''translated'', ''BumpOpened o/r#7 on dep'')]"
    using demo_opens [of ?st1 "[?d1, ?d2]" ?d2 "''d2''" 5] 1 by (auto simp: demo_delivery_def)
  have "ProcessPending demo_parse demo_tl 5 ?st = st2"
    using 2(1) by (simp add: ProcessPending_def u)
  with 1(3,4) 2(2-4) show ?thesis
    by (auto simp: EnrolledRepositories_def GetRepository_def Enrolled_def demo_delivery_def)
qed

end
