(* ===== verification/Outbox.thy ===== *)
theory Outbox
  imports TranslatorInv GoText
begin

section \<open>Comments and enrollment\<close>

text \<open>
  \<^verbatim>\<open>internal/app/commenter.go\<close> and \<^verbatim>\<open>enrollment.go\<close>. GitHub is \<open>post\<close> (the id of the comment it
  made, or an error), \<open>defaultBranch\<close> and \<open>ensureLabel\<close>, any functions. \<open>written\<close> says for
  which comments the write of the post row goes through, since the service carries on after
  one that does not. The comments GitHub holds are \<open>ob_github\<close>, in the order they were made.
\<close>

record Outbox =
  ob_store :: Store
  ob_github :: "Comment list"

subsection \<open>Bodies\<close>

definition NL :: string where "NL = [CHR 0x0A]"

definition TriageBody :: "Triage \<Rightarrow> string \<Rightarrow> string" where
  "TriageBody t label =
     ''autophage sized this issue **large** and will not start on its own.'' @ NL @ NL @ tg_Rationale t @
     NL @ NL @ ''Add the `'' @ label @ ''` label to have autophage attempt it.''"

definition outcome_head :: "Case \<Rightarrow> Attempt \<Rightarrow> Outcome \<Rightarrow> string" where
  "outcome_head c a o' =
     (let n = ''autophage attempt '' @ show_nat (at_Ordinal a) in
      case oc_Kind o' of
        BudgetExhausted \<Rightarrow>
          n @ '' stopped: budget exhausted ('' @
          map (\<lambda>ch. if ch = CHR ''_'' then CHR '' '' else ch) (Limit_string (oc_Limit o')) @ '').'' @
          (if oc_PRNumber o' \<noteq> 0
           then '' The partial work is in pull request #'' @ show_int (oc_PRNumber o') @
                ''; it is incomplete until the approved run finishes.''
           else '' The work so far is on branch `'' @ Case_Branch c @ ''`.'')
      | FailedOutcome \<Rightarrow> n @ '' failed ('' @ FailureClass_string (oc_Class o') @ '').''
      | Aborted \<Rightarrow> n @ '' was stopped by the operator. The work so far is on branch `'' @ Case_Branch c @ ''`.''
      | k \<Rightarrow> n @ '' ended: '' @ OutcomeKind_string k @ ''.'')"

text \<open>The listing only names attempts that have an outcome, so \<open>the\<close> is defined where it is used.\<close>

definition OutcomeBody :: "Case \<Rightarrow> Attempt \<Rightarrow> string \<Rightarrow> string" where
  "OutcomeBody c a label =
     (let o' = the (at_Outcome a); u = oc_Usage o' in
      outcome_head c a o' @ NL @ NL @ oc_Summary o' @ NL @ NL @
      ''Used '' @ show_int (us_Turns u) @ '' turns, '' @
      Duration_String (Duration_Round (us_WallClock u) 1000000000) @ '', '' @
      show_int (us_DiffLines u) @ '' diff lines.'' @ NL @ NL @
      ''Add the `'' @ label @ ''` label to run again with the larger budget.'')"

subsection \<open>The commenter\<close>

definition enqueueTriage :: "string \<Rightarrow> string \<times> int \<Rightarrow> Store \<Rightarrow> Store" where
  "enqueueTriage label k st =
     (case GetCase (fst k) (snd k) (st_cases st) of Inl _ \<Rightarrow> st
      | Inr c \<Rightarrow> (case cs_triage c of None \<Rightarrow> st
          | Some t \<Rightarrow> EnqueueTriageComment (cs_id c) (cs_repository c) (cs_number c) (TriageBody t label) st))"

definition enqueueOutcome :: "string \<Rightarrow> string \<Rightarrow> Store \<Rightarrow> Store" where
  "enqueueOutcome label attemptID st =
     (case GetCaseByAttempt attemptID (st_cases st) of Inl _ \<Rightarrow> st
      | Inr c \<Rightarrow>
        (case find (\<lambda>a. at_ID a = attemptID) (cs_attempts c) of None \<Rightarrow> st
         | Some a \<Rightarrow> EnqueueOutcomeComment attemptID (cs_repository c) (cs_number c) (OutcomeBody c a label) st))"

definition enqueue :: "string \<Rightarrow> Store \<Rightarrow> Store" where
  "enqueue label st =
     (let st1 = fold (enqueueTriage label) (TriagesNeedingComment st) st
      in fold (enqueueOutcome label) (OutcomesNeedingComment st1) st1)"

definition post_one :: "(string \<Rightarrow> int \<Rightarrow> string \<Rightarrow> gherr + int) \<Rightarrow> (string \<Rightarrow> bool) \<Rightarrow> Comment \<Rightarrow> Outbox \<Rightarrow> Outbox" where
  "post_one post written c ob =
     (case post (cm_Repository c) (cm_Number c) (cm_Body c) of Inl _ \<Rightarrow> ob
      | Inr i \<Rightarrow>
          let ob1 = ob\<lparr>ob_github := ob_github ob @ [c]\<rparr> in
          if written (cm_ID c) then ob1\<lparr>ob_store := RecordCommentPost (cm_ID c) i (ob_store ob1)\<rparr> else ob1)"

definition Commenter_Run ::
    "string \<Rightarrow> (string \<Rightarrow> int \<Rightarrow> string \<Rightarrow> gherr + int) \<Rightarrow> (string \<Rightarrow> bool) \<Rightarrow> Outbox \<Rightarrow> Outbox" where
  "Commenter_Run label post written ob =
     (let ob1 = ob\<lparr>ob_store := enqueue label (ob_store ob)\<rparr>
      in fold (post_one post written) (UnpostedComments (ob_store ob1)) ob1)"

subsection \<open>Enrollment\<close>

datatype label_error = ErrRepositoryReadOnly | LabelFailed string

text \<open>The repository refreshed, or \<open>None\<close> for an error.\<close>

definition refreshBranch :: "(Repository \<Rightarrow> gherr + string) \<Rightarrow> Repository \<Rightarrow> Store \<Rightarrow> Store option" where
  "refreshBranch defaultBranch r st =
     (case defaultBranch r of Inl _ \<Rightarrow> None
      | Inr branch \<Rightarrow>
          if branch = '''' \<or> branch = rp_DefaultBranch r then Some st
          else (case NewRepository (rp_FullName r) (rp_InstallationID r) branch (rp_EnrolledAt r) of
                  Inl _ \<Rightarrow> None | Inr fresh \<Rightarrow> Some (EnrollRepository fresh st)))"

definition enroll_one ::
    "string \<Rightarrow> (Repository \<Rightarrow> gherr + string) \<Rightarrow> (string \<Rightarrow> string \<Rightarrow> label_error option) \<Rightarrow> Time \<Rightarrow>
     Repository \<Rightarrow> Store \<Rightarrow> Store" where
  "enroll_one label defaultBranch ensureLabel now r st =
     (case refreshBranch defaultBranch r st of None \<Rightarrow> st
      | Some st1 \<Rightarrow>
        (case ensureLabel (rp_FullName r) label of
           Some ErrRepositoryReadOnly \<Rightarrow> RemoveRepository (rp_FullName r) now st1
         | Some (LabelFailed _) \<Rightarrow> st1
         | None \<Rightarrow> (case RecordLabelSetup (rp_FullName r) label st1 of Inl _ \<Rightarrow> st1 | Inr st2 \<Rightarrow> st2)))"

definition Enrollment_Run ::
    "string \<Rightarrow> (Repository \<Rightarrow> gherr + string) \<Rightarrow> (string \<Rightarrow> string \<Rightarrow> label_error option) \<Rightarrow> Time \<Rightarrow>
     Store \<Rightarrow> Store" where
  "Enrollment_Run label defaultBranch ensureLabel now st =
     fold (enroll_one label defaultBranch ensureLabel now) (RepositoriesNeedingLabel st) st"

subsection \<open>A comment is posted once\<close>

text \<open>
  The ids of the outbox are those its table drew, what GitHub holds is distinct, and each of
  it has its post row.
\<close>

definition outbox_ok :: "Outbox \<Rightarrow> bool" where
  "outbox_ok ob = (let st = ob_store ob in
     map cm_ID (st_comments st) = map fresh_id [0..<length (st_comments st)] \<and>
     distinct (map cm_ID (ob_github ob)) \<and>
     cm_ID ` set (ob_github ob) = fst ` set (st_posted st))"

lemma show_nat_value: "foldl (\<lambda>v c. 10 * v + (of_char c - 48)) 0 (show_nat n) = (n :: nat)"
proof (induction n rule: show_nat.induct)
  case (1 n)
  have d: "of_char (digit_char m) - 48 = m" if "m < 10" for m :: nat
    using that by (simp add: digit_char_def)
  show ?case
  proof (cases "n < 10")
    case True
    with d [of n] show ?thesis by (simp add: show_nat.simps [of n])
  next
    case False
    with 1 d [of "n mod 10"] show ?thesis by (simp add: show_nat.simps [of n])
  qed
qed

lemma fresh_id_inj: "inj fresh_id"
  unfolding inj_def fresh_id_def by (metis show_nat_value)

lemma outbox_ids:
  assumes "map cm_ID (st_comments st) = map fresh_id [0..<length (st_comments st)]"
  shows "distinct (map cm_ID (st_comments st))"
  unfolding assms distinct_map using inj_on_subset [OF fresh_id_inj] by simp

lemma enqueue_steps:
  "st_posted (enqueueTriage label k st) = st_posted st" "st_posted (enqueueOutcome label i st) = st_posted st"
  by (simp_all add: enqueueTriage_def enqueueOutcome_def EnqueueTriageComment_def EnqueueOutcomeComment_def
      split: sum.splits option.splits)

definition ids_drawn :: "Store \<Rightarrow> bool" where
  "ids_drawn st = (map cm_ID (st_comments st) = map fresh_id [0..<length (st_comments st)])"

lemma enqueue_ids:
  "ids_drawn st \<Longrightarrow> ids_drawn (enqueueTriage label k st)" "ids_drawn st \<Longrightarrow> ids_drawn (enqueueOutcome label i st)"
  by (simp_all add: ids_drawn_def enqueueTriage_def enqueueOutcome_def EnqueueTriageComment_def
      EnqueueOutcomeComment_def split: sum.splits option.splits)

lemma fold_keeps: "(\<And>x s. P s \<Longrightarrow> P (f x s)) \<Longrightarrow> P s \<Longrightarrow> P (fold f xs s)"
  by (induction xs arbitrary: s) auto

lemma enqueue_keeps:
  "ids_drawn st \<Longrightarrow> ids_drawn (enqueue label st) \<and> st_posted (enqueue label st) = st_posted st"
proof -
  let ?P = "\<lambda>s. ids_drawn s \<and> st_posted s = st_posted st"
  assume st: "ids_drawn st"
  have 1: "?P (fold (enqueueTriage label) xs s)" if "?P s" for xs s
    by (rule fold_keeps [where P = ?P]) (use that in \<open>simp_all add: enqueue_steps enqueue_ids\<close>)
  have 2: "?P (fold (enqueueOutcome label) xs s)" if "?P s" for xs s
    by (rule fold_keeps [where P = ?P]) (use that in \<open>simp_all add: enqueue_steps enqueue_ids\<close>)
  show ?thesis using 1 2 st by (simp add: enqueue_def Let_def)
qed

lemma post_fold:
  assumes "outbox_ok ob" "distinct (map cm_ID cs)" "\<forall>c \<in> set cs. cm_ID c \<notin> fst ` set (st_posted (ob_store ob))"
  shows "\<exists>new. ob_github (fold (post_one post (\<lambda>_. True)) cs ob) = ob_github ob @ new \<and> set new \<subseteq> set cs \<and>
    outbox_ok (fold (post_one post (\<lambda>_. True)) cs ob) \<and>
    (\<forall>c \<in> set cs. (\<exists>e. post (cm_Repository c) (cm_Number c) (cm_Body c) = Inl e) \<or>
       cm_ID c \<in> fst ` set (st_posted (ob_store (fold (post_one post (\<lambda>_. True)) cs ob)))) \<and>
    fst ` set (st_posted (ob_store ob)) \<subseteq> fst ` set (st_posted (ob_store (fold (post_one post (\<lambda>_. True)) cs ob))) \<and>
    st_comments (ob_store (fold (post_one post (\<lambda>_. True)) cs ob)) = st_comments (ob_store ob) \<and>
    st_repos (ob_store (fold (post_one post (\<lambda>_. True)) cs ob)) = st_repos (ob_store ob)"
  using assms
proof (induction cs arbitrary: ob)
  case (Cons c cs)
  let ?ob1 = "post_one post (\<lambda>_. True) c ob"
  show ?case
  proof (cases "post (cm_Repository c) (cm_Number c) (cm_Body c)")
    case (Inl e)
    then have "?ob1 = ob" by (simp add: post_one_def)
    moreover have "\<forall>c \<in> set cs. cm_ID c \<notin> fst ` set (st_posted (ob_store ob))" "distinct (map cm_ID cs)"
      using Cons.prems(2,3) by auto
    ultimately show ?thesis using Cons.IH [of ob] Cons.prems(1) Inl by auto
  next
    case (Inr i)
    have fresh: "cm_ID c \<notin> fst ` set (st_posted (ob_store ob))" "cm_ID c \<notin> cm_ID ` set cs"
      using Cons.prems(2,3) by auto
    have p: "ob_github ?ob1 = ob_github ob @ [c]" "st_comments (ob_store ?ob1) = st_comments (ob_store ob)"
        "fst ` set (st_posted (ob_store ?ob1)) = insert (cm_ID c) (fst ` set (st_posted (ob_store ob)))"
        "st_repos (ob_store ?ob1) = st_repos (ob_store ob)"
      using fresh(1) by (simp_all add: post_one_def Inr RecordCommentPost_def image_Un)
    have "outbox_ok ?ob1"
      using Cons.prems(1) fresh(1) by (simp add: outbox_ok_def Let_def p)
    moreover have "\<forall>x \<in> set cs. cm_ID x \<notin> fst ` set (st_posted (ob_store ?ob1))"
      unfolding p(3) using Cons.prems(3) fresh(2) by (metis image_eqI insertE list.set_intros(2))
    moreover have "distinct (map cm_ID cs)" using Cons.prems(2) by simp
    ultimately obtain new where n:
        "ob_github (fold (post_one post (\<lambda>_. True)) cs ?ob1) = ob_github ?ob1 @ new" "set new \<subseteq> set cs"
        "outbox_ok (fold (post_one post (\<lambda>_. True)) cs ?ob1)"
        "\<forall>c \<in> set cs. (\<exists>e. post (cm_Repository c) (cm_Number c) (cm_Body c) = Inl e) \<or>
           cm_ID c \<in> fst ` set (st_posted (ob_store (fold (post_one post (\<lambda>_. True)) cs ?ob1)))"
        "fst ` set (st_posted (ob_store ?ob1)) \<subseteq>
           fst ` set (st_posted (ob_store (fold (post_one post (\<lambda>_. True)) cs ?ob1)))"
        "st_comments (ob_store (fold (post_one post (\<lambda>_. True)) cs ?ob1)) = st_comments (ob_store ?ob1)"
        "st_repos (ob_store (fold (post_one post (\<lambda>_. True)) cs ?ob1)) = st_repos (ob_store ?ob1)"
      using Cons.IH by blast
    have "cm_ID c \<in> fst ` set (st_posted (ob_store (fold (post_one post (\<lambda>_. True)) cs ?ob1)))"
      using n(5) unfolding p(3) by blast
    moreover have "fst ` set (st_posted (ob_store ob)) \<subseteq>
        fst ` set (st_posted (ob_store (fold (post_one post (\<lambda>_. True)) cs ?ob1)))"
      using n(5) unfolding p(3) by blast
    moreover have "set (c # new) \<subseteq> set (c # cs)" using n(2) by auto
    ultimately show ?thesis using n(1,3,4,6,7) p(1,2,4)
      by (intro exI [of _ "c # new"]) simp
  qed
qed auto

text \<open>C31. A comment is posted once: as long as the write of its post row goes through, a pass posts only
  comments that have no post row, each of them once, whatever GitHub answers; what GitHub
  holds stays distinct and is exactly what has a post row, and a comment of the outbox that
  is still without one is one GitHub refused in this pass.\<close>
theorem comments_are_posted_once:
  assumes "outbox_ok ob"
  shows "outbox_ok (Commenter_Run label post (\<lambda>_. True) ob) \<and>
    (\<exists>new. ob_github (Commenter_Run label post (\<lambda>_. True) ob) = ob_github ob @ new \<and>
       (\<forall>c \<in> set new. cm_ID c \<notin> fst ` set (st_posted (ob_store ob)))) \<and>
    (\<forall>c \<in> set (UnpostedComments (ob_store (Commenter_Run label post (\<lambda>_. True) ob))).
       \<exists>e. post (cm_Repository c) (cm_Number c) (cm_Body c) = Inl e)"
proof -
  let ?ob1 = "ob\<lparr>ob_store := enqueue label (ob_store ob)\<rparr>"
  let ?ob2 = "Commenter_Run label post (\<lambda>_. True) ob"
  let ?cs = "UnpostedComments (ob_store ?ob1)"
  have "ids_drawn (ob_store ob)" using assms by (simp add: outbox_ok_def ids_drawn_def Let_def)
  note e = enqueue_keeps [OF this, of label]
  have ok: "outbox_ok ?ob1" using assms e by (simp add: outbox_ok_def ids_drawn_def Let_def)
  have "distinct (map cm_ID (st_comments (enqueue label (ob_store ob))))"
    using e unfolding ids_drawn_def by (intro outbox_ids) blast
  then have d: "distinct (map cm_ID ?cs)" by (simp add: UnpostedComments_def distinct_map_filter)
  have f: "\<forall>c \<in> set ?cs. cm_ID c \<notin> fst ` set (st_posted (ob_store ?ob1))" by (auto simp: UnpostedComments_def)
  have run: "?ob2 = fold (post_one post (\<lambda>_. True)) ?cs ?ob1" by (simp add: Commenter_Run_def Let_def)
  from post_fold [OF ok d f, of post, folded run] obtain new where
      n: "ob_github ?ob2 = ob_github ob @ new" "set new \<subseteq> set ?cs" "outbox_ok ?ob2"
        "\<forall>c \<in> set ?cs. (\<exists>e. post (cm_Repository c) (cm_Number c) (cm_Body c) = Inl e) \<or>
           cm_ID c \<in> fst ` set (st_posted (ob_store ?ob2))"
        "fst ` set (st_posted (ob_store ?ob1)) \<subseteq> fst ` set (st_posted (ob_store ?ob2))"
        "st_comments (ob_store ?ob2) = st_comments (ob_store ?ob1)"
        "st_repos (ob_store ?ob2) = st_repos (ob_store ?ob1)"
    by auto
  have "\<forall>c \<in> set new. cm_ID c \<notin> fst ` set (st_posted (ob_store ob))"
    using n(2) f e by (metis Outbox.select_convs(1) Outbox.surjective Outbox.update_convs(1) subsetD)
  moreover have "c \<in> set ?cs \<and> cm_ID c \<notin> fst ` set (st_posted (ob_store ?ob2))"
    if "c \<in> set (UnpostedComments (ob_store ?ob2))" for c
  proof -
    have "cm_ID c \<notin> fst ` set (st_posted (ob_store ?ob2))" "c \<in> set (st_comments (ob_store ?ob1))"
        "\<not> removed (ob_store ?ob1) (cm_Repository c)"
      using that by (simp_all add: UnpostedComments_def n(6,7) removed_def)
    with n(5) show ?thesis by (auto simp: UnpostedComments_def)
  qed
  ultimately show ?thesis using n(1,3,4) by blast
qed

definition demo_outbox :: Outbox where
  "demo_outbox = \<lparr>ob_store = (demo_store [])\<lparr>st_comments := [\<lparr>cm_ID = fresh_id 0, cm_Repository = ''o/r'',
     cm_Number = 7, cm_Body = ''hello''\<rparr>]\<rparr>, ob_github = []\<rparr>"

theorem comments_are_posted_once_witness:
  "outbox_ok demo_outbox \<and> outbox_ok (Commenter_Run ''l'' (\<lambda>_ _ _. Inr 1) (\<lambda>_. True) demo_outbox) \<and>
   UnpostedComments (ob_store (Commenter_Run ''l'' (\<lambda>_ _ _. Inr 1) (\<lambda>_. True) demo_outbox)) = []"
proof -
  have ok: "outbox_ok demo_outbox" by (simp add: outbox_ok_def demo_outbox_def demo_store_def Let_def)
  from comments_are_posted_once [OF ok, of "''l''" "\<lambda>_ _ _. Inr 1"] ok show ?thesis by auto
qed

lemma demo_enqueue: "enqueue label (ob_store demo_outbox) = ob_store demo_outbox"
  by (simp add: enqueue_def demo_outbox_def demo_store_def TriagesNeedingComment_def
      OutcomesNeedingComment_def case_keys_def Let_def)

text \<open>A lost write posts a comment twice: the comment was posted, its post row was not written, and
  the next pass posts the same comment again - although the type's comment says that both
  halves are idempotent.\<close>
theorem lost_post_row_posts_again:
  "map cm_Body (ob_github (Commenter_Run ''l'' (\<lambda>_ _ _. Inr 2) (\<lambda>_. True)
     (Commenter_Run ''l'' (\<lambda>_ _ _. Inr 1) (\<lambda>_. False) demo_outbox))) = [''hello'', ''hello'']"
proof -
  let ?c = "\<lparr>cm_ID = fresh_id 0, cm_Repository = ''o/r'', cm_Number = 7, cm_Body = ''hello''\<rparr>"
  have u: "UnpostedComments (ob_store demo_outbox) = [?c]"
    by (simp add: UnpostedComments_def demo_outbox_def demo_store_def removed_def)
  have 1: "Commenter_Run ''l'' (\<lambda>_ _ _. Inr 1) (\<lambda>_. False) demo_outbox = demo_outbox\<lparr>ob_github := [?c]\<rparr>"
    by (simp add: Commenter_Run_def demo_enqueue u post_one_def Let_def) (simp add: demo_outbox_def)
  show ?thesis
    unfolding 1 by (simp add: Commenter_Run_def demo_enqueue u post_one_def Let_def)
qed

end
