(* ===== verification/Sweep.thy ===== *)
theory Sweep
  imports Sizing Outbox
begin

section \<open>The dispatcher\<close>

text \<open>
  \<^verbatim>\<open>internal/app/dispatcher.go\<close>: the order in which one sweep runs the services, the two
  cancelling steps, and the recoveries before the first sweep. What the services ask the
  world in one sweep is a \<open>World\<close>; nothing is assumed of it. The notifications and the ticker
  only decide when a sweep runs, so a sweep is a step that may happen at any time.
\<close>

record World =
  w_parse :: "string \<Rightarrow> string \<Rightarrow> string + Event"
  w_getIssue :: "string \<Rightarrow> int \<Rightarrow> gherr + IssueDetail"
  w_getPull :: "string \<Rightarrow> int \<Rightarrow> gherr + PullRequestDetail"
  w_classify :: "string \<Rightarrow> string \<Rightarrow> string + Triage"
  w_post :: "string \<Rightarrow> int \<Rightarrow> string \<Rightarrow> gherr + int"
  w_written :: "string \<Rightarrow> bool"
  w_defaultBranch :: "Repository \<Rightarrow> gherr + string"
  w_ensureLabel :: "string \<Rightarrow> string \<Rightarrow> label_error option"
  w_rollup :: "string \<Rightarrow> string \<Rightarrow> gherr + Rollup"

text \<open>\<open>dc_Upkeep\<close> is whether the Upkeep half is wired, \<open>dc_Cancel\<close> whether there is a canceller of attempts.\<close>

record DispatchConfig =
  dc_Sched :: SchedConfig
  dc_Label :: string
  dc_BotLogin :: string
  dc_Model :: string
  dc_Upkeep :: bool
  dc_Cancel :: bool

text \<open>The cancel signals sent so far are \<open>dp_cancels\<close> and \<open>dp_repair_cancels\<close>.\<close>

record Dispatcher =
  dp_daemon :: Daemon
  dp_failures :: "(string \<times> int) \<rightharpoonup> TriageFailure"
  dp_github :: "Comment list"
  dp_cancels :: "(string \<times> AbortReason) list"
  dp_repair_cancels :: "(string \<times> RepairAbortReason) list"

definition dp_store :: "Dispatcher \<Rightarrow> Store" where
  "dp_store p = dm_store (dp_daemon p)"

definition with_store :: "Store \<Rightarrow> Dispatcher \<Rightarrow> Dispatcher" where
  "with_store st p = p\<lparr>dp_daemon := (dp_daemon p)\<lparr>dm_store := st\<rparr>\<rparr>"

definition translator_of :: "DispatchConfig \<Rightarrow> World \<Rightarrow> TranslatorT" where
  "translator_of cfg w = \<lparr>tl_ApprovedLabel = dc_Label cfg, tl_BotLogin = dc_BotLogin cfg,
     tl_DependabotLogin = sc_DependabotLogin (dc_Sched cfg),
     tl_Rollup = (if dc_Upkeep cfg then Some (w_rollup w) else None), tl_RoundCap = sc_RoundCap (dc_Sched cfg)\<rparr>"

definition translate_step :: "DispatchConfig \<Rightarrow> World \<Rightarrow> Time \<Rightarrow> Dispatcher \<Rightarrow> Dispatcher" where
  "translate_step cfg w now p =
     with_store (ProcessPending (w_parse w) (translator_of cfg w) now (dp_store p)) p"

definition cancelClosed :: "DispatchConfig \<Rightarrow> Dispatcher \<Rightarrow> Dispatcher" where
  "cancelClosed cfg p =
     (if dc_Cancel cfg
      then p\<lparr>dp_cancels := dp_cancels p @
             map (\<lambda>i. (i, AbortIssueClosed)) (OpenAttemptsOnClosedCases (dp_store p))\<rparr>
      else p)"

definition enroll_step :: "DispatchConfig \<Rightarrow> World \<Rightarrow> Time \<Rightarrow> Dispatcher \<Rightarrow> Dispatcher" where
  "enroll_step cfg w now p =
     with_store (Enrollment_Run (dc_Label cfg) (w_defaultBranch w) (w_ensureLabel w) now (dp_store p)) p"

definition triage_pass :: "DispatchConfig \<Rightarrow> World \<Rightarrow> Time \<Rightarrow> Dispatcher \<Rightarrow> Dispatcher" where
  "triage_pass cfg w now p =
     (let z = Triage_Run (dc_Model cfg) (w_getIssue w) (w_classify w) now
                \<lparr>sz_store = dp_store p, sz_failures = dp_failures p\<rparr>
      in (with_store (sz_store z) p)\<lparr>dp_failures := sz_failures z\<rparr>)"

definition comment_step :: "DispatchConfig \<Rightarrow> World \<Rightarrow> Dispatcher \<Rightarrow> Dispatcher" where
  "comment_step cfg w p =
     (let ob = Commenter_Run (dc_Label cfg) (w_post w) (w_written w)
                 \<lparr>ob_store = dp_store p, ob_github = dp_github p\<rparr>
      in (with_store (ob_store ob) p)\<lparr>dp_github := ob_github ob\<rparr>)"

definition on_daemon :: "(Daemon \<Rightarrow> Daemon) \<Rightarrow> Dispatcher \<Rightarrow> Dispatcher" where
  "on_daemon f p = p\<lparr>dp_daemon := f (dp_daemon p)\<rparr>"

definition cancelClosedBumps :: "Dispatcher \<Rightarrow> Dispatcher" where
  "cancelClosedBumps p = p\<lparr>dp_repair_cancels := dp_repair_cancels p @
     map (\<lambda>i. (i, AbortPullRequestClosed)) (OpenRepairsOnClosedBumps (st_bumps (dp_store p)))\<rparr>"

definition Dispatcher_Sweep :: "DispatchConfig \<Rightarrow> World \<Rightarrow> Time \<Rightarrow> Dispatcher \<Rightarrow> Dispatcher" where
  "Dispatcher_Sweep cfg w now p =
     (let p1 = translate_step cfg w now p;
          p2 = cancelClosed cfg p1;
          p3 = enroll_step cfg w now p2;
          p4 = triage_pass cfg w now p3;
          p5 = comment_step cfg w p4;
          p6 = on_daemon (Scheduler_Run (dc_Sched cfg) (w_getIssue w) now) p5
      in if \<not> dc_Upkeep cfg then p6
         else (let p7 = on_daemon (StaleCheckSweeper_Run (dc_Sched cfg) Duration_String now) p6;
                   p8 = cancelClosedBumps p7
               in on_daemon (RepairScheduler_Run (dc_Sched cfg) (w_getPull w) now) p8))"

text \<open>What \<^verbatim>\<open>Run\<close> does before it waits for the first wake-up.\<close>

definition Dispatcher_boot :: "DispatchConfig \<Rightarrow> World \<Rightarrow> Time \<Rightarrow> Dispatcher \<Rightarrow> Dispatcher" where
  "Dispatcher_boot cfg w now p =
     (let p1 = on_daemon (Recovery_Run now) p;
          p2 = (if dc_Upkeep cfg then on_daemon (BumpRecovery_Run (dc_Sched cfg) now) p1 else p1)
      in Dispatcher_Sweep cfg w now p2)"

text \<open>
  The daemon between two restarts: a sweep, a delivery that arrives, a write of a runner or an
  operator to a case or a bump, a watch that begins or ends, and the end of a run's goroutine.
\<close>

fun outside_cmd :: "case_cmd \<Rightarrow> bool" where
  "outside_cmd (CmdRun _ _) = True"
| "outside_cmd (CmdOutcome _ _) = True"
| "outside_cmd (CmdApproval _) = True"
| "outside_cmd _ = False"

fun outside_bump_cmd :: "bump_cmd \<Rightarrow> bool" where
  "outside_bump_cmd (BRun _ _) = True"
| "outside_bump_cmd (BOutcome _ _) = True"
| "outside_bump_cmd (BRetry _) = True"
| "outside_bump_cmd _ = False"

inductive daemon_step :: "DispatchConfig \<Rightarrow> Dispatcher \<Rightarrow> Dispatcher \<Rightarrow> bool" for cfg where
  sweep: "daemon_step cfg p (Dispatcher_Sweep cfg w now p)"
| receive: "StoreDelivery d (dp_store p) = Inr (st, dup) \<Longrightarrow> daemon_step cfg p (with_store st p)"
| case_write: "outside_cmd x \<Longrightarrow> UpdateCase r n (\<lambda>c. case_exec c x) (st_cases (dp_store p)) = Inr (db, c) \<Longrightarrow>
    daemon_step cfg p (on_daemon (with_cases db) p)"
| bump_write: "outside_bump_cmd x \<Longrightarrow>
    UpdateBump r n (\<lambda>b. bump_exec (sc_RoundCap (dc_Sched cfg)) b x) (st_bumps (dp_store p)) = Inr (db, b) \<Longrightarrow>
    daemon_step cfg p (on_daemon (with_bumps db) p)"
| watch: "WatchRepository repos wt (st_bumps (dp_store p)) = Inr db \<Longrightarrow>
    daemon_step cfg p (on_daemon (with_bumps db) p)"
| unwatch: "daemon_step cfg p (on_daemon (with_bumps (UnwatchRepository r (st_bumps (dp_store p)))) p)"
| attempt_end: "daemon_step cfg p (on_daemon (Scheduler_finish down panic now i) p)"
| round_end: "daemon_step cfg p (on_daemon (RepairScheduler_finish (dc_Sched cfg) down panic now i) p)"

end
