(* ===== verification/SweepInv.thy ===== *)
theory SweepInv
  imports Sweep
begin

section \<open>Capacity over the daemon's life\<close>

text \<open>
  No step of the daemon but a scheduler's start opens an attempt or a round, so the bound each
  scheduler keeps in its own pass holds of every reachable state.
\<close>

subsection \<open>Counting in the tables\<close>

definition case_load :: "CaseDB \<Rightarrow> nat" where
  "case_load db = (\<Sum>s\<leftarrow>db_cases db. length (open_attempts s))"

definition bump_load :: "BumpDB \<Rightarrow> nat" where
  "bump_load db = (\<Sum>s\<leftarrow>bd_bumps db. length (open_rounds s))"

text \<open>The ids of the rows are distinct and were drawn by the table's generator.\<close>

definition case_ids :: "CaseDB \<Rightarrow> bool" where
  "case_ids db = (distinct (map sn_ID (db_cases db)) \<and> sn_ID ` set (db_cases db) \<subseteq> fresh_id ` {..<db_fresh db})"

definition bump_ids :: "BumpDB \<Rightarrow> bool" where
  "bump_ids db = (distinct (map bs_ID (bd_bumps db)) \<and> bs_ID ` set (bd_bumps db) \<subseteq> fresh_id ` {..<bd_fresh db})"

lemma filter_update_le:
  "(P y \<Longrightarrow> P (xs ! i)) \<Longrightarrow> length (filter P (xs[i := y])) \<le> length (filter P xs)"
proof (induction xs arbitrary: i)
  case (Cons x xs)
  show ?case
  proof (cases i)
    case 0
    with Cons.prems show ?thesis by simp
  next
    case (Suc k)
    with Cons.prems have "length (filter P (xs[k := y])) \<le> length (filter P xs)" by (intro Cons.IH) simp
    with Suc show ?thesis by simp
  qed
qed simp

lemma open_attempts_length: "length (open_attempts s) = length (filter Attempt_Open (sn_Attempts s))"
  by (simp add: open_attempts_def)

lemma open_rounds_length: "length (open_rounds s) = length (filter RepairAttempt_Open (bs_Attempts s))"
  by (simp add: open_rounds_def)

definition fewer_open :: "Snapshot \<Rightarrow> Snapshot \<Rightarrow> bool" where
  "fewer_open s s' = (length (open_attempts s') \<le> length (open_attempts s))"

definition fewer_rounds :: "BumpSnapshot \<Rightarrow> BumpSnapshot \<Rightarrow> bool" where
  "fewer_rounds s s' = (length (open_rounds s') \<le> length (open_rounds s))"

lemma fewer_same [simp]:
  "sn_Attempts s' = sn_Attempts s \<Longrightarrow> fewer_open s s'" "bs_Attempts b' = bs_Attempts b \<Longrightarrow> fewer_rounds b b'"
  by (simp_all add: fewer_open_def fewer_rounds_def open_attempts_length open_rounds_length)

lemma fewer_trans:
  "fewer_open a b \<Longrightarrow> fewer_open b c \<Longrightarrow> fewer_open a c"
  "fewer_rounds x y \<Longrightarrow> fewer_rounds y z \<Longrightarrow> fewer_rounds x z"
  by (simp_all add: fewer_open_def fewer_rounds_def)

lemma insert_runs_fewer: "insert_runs ns m s db = Some (s', db') \<Longrightarrow> fewer_open s s'"
proof (induction ns m s db rule: insert_runs.induct)
  case (2 n ns m s db)
  show ?case
  proof (cases "m n")
    case None
    with 2 show ?thesis by simp
  next
    case (Some r)
    with 2(3) obtain s1 db1 where i: "insert_run n r s db = Some (s1, db1)" "insert_runs ns m s1 db1 = Some (s', db')"
      by (auto split: option.splits)
    have "fewer_open s s1"
      using i(1) by (auto simp: insert_run_def fewer_open_def open_attempts_length Attempt_Open_def
          split: option.splits if_splits intro!: filter_update_le)
    from this 2(2) [OF Some i(1) refl i(2)] show ?thesis by (rule fewer_trans)
  qed
qed simp

lemma insert_outcomes_fewer: "insert_outcomes ns m s = Some s' \<Longrightarrow> fewer_open s s'"
proof (induction ns m s rule: insert_outcomes.induct)
  case (2 n ns m s)
  show ?case
  proof (cases "m n")
    case None
    with 2 show ?thesis by simp
  next
    case (Some r)
    with 2(3) obtain s1 where i: "insertOutcome n r s = Some s1" "insert_outcomes ns m s1 = Some s'"
      by (auto split: option.splits)
    have "fewer_open s s1"
      using i(1) by (auto simp: insertOutcome_def fewer_open_def open_attempts_length Attempt_Open_def
          split: option.splits if_splits intro!: filter_update_le)
    from this 2(2) [OF Some i(1) i(2)] show ?thesis by (rule fewer_trans)
  qed
qed simp

lemma insert_repair_runs_fewer: "insert_repair_runs ns m s db = Some (s', db') \<Longrightarrow> fewer_rounds s s'"
proof (induction ns m s db rule: insert_repair_runs.induct)
  case (2 n ns m s db)
  show ?case
  proof (cases "m n")
    case None
    with 2 show ?thesis by simp
  next
    case (Some r)
    with 2(3) obtain s1 db1 where i: "insert_repair_run n r s db = Some (s1, db1)"
        "insert_repair_runs ns m s1 db1 = Some (s', db')"
      by (auto split: option.splits)
    have "fewer_rounds s s1"
      using i(1) by (auto simp: insert_repair_run_def fewer_rounds_def open_rounds_length RepairAttempt_Open_def
          split: option.splits if_splits intro!: filter_update_le)
    from this 2(2) [OF Some i(1) refl i(2)] show ?thesis by (rule fewer_trans)
  qed
qed simp

lemma insert_repair_outcomes_fewer: "insert_repair_outcomes ns m s = Some s' \<Longrightarrow> fewer_rounds s s'"
proof (induction ns m s rule: insert_repair_outcomes.induct)
  case (2 n ns m s)
  show ?case
  proof (cases "m n")
    case None
    with 2 show ?thesis by simp
  next
    case (Some r)
    with 2(3) obtain s1 where i: "insertRepairOutcome n r s = Some s1" "insert_repair_outcomes ns m s1 = Some s'"
      by (auto split: option.splits)
    have "fewer_rounds s s1"
      using i(1) by (auto simp: insertRepairOutcome_def fewer_rounds_def open_rounds_length RepairAttempt_Open_def
          split: option.splits if_splits intro!: filter_update_le)
    from this 2(2) [OF Some i(1) i(2)] show ?thesis by (rule fewer_trans)
  qed
qed simp

subsection \<open>A write that opens nothing\<close>

lemma persist_fewer:
  assumes "persistChanges c s db = Some (s', db')" "ch_Attempts (cs_changes c) = []"
  shows "fewer_open s s'"
proof -
  let ?ch = "cs_changes c"
  let ?ords = "map at_Ordinal (sn_Attempts s @ ch_Attempts ?ch)"
  from assms(1) obtain s1 s2 db2 s3 db3 s4 db4 s5 s6 where
      i: "insert_triage (ch_Triage ?ch) s = Some s1" "insert_approvals (ch_Approvals ?ch) s1 db = Some (s2, db2)"
        "insert_attempts (ch_Attempts ?ch) s2 db2 = Some (s3, db3)"
        "insert_runs ?ords (ch_Runs ?ch) s3 db3 = Some (s4, db4)"
        "insert_outcomes ?ords (ch_Outcomes ?ch) s4 = Some s5"
        "insert_closure (ch_Closure ?ch) s5 db4 = Some (s6, db')"
    and s': "sn_Attempts s' = sn_Attempts s6"
    by (auto simp: persistChanges_def Let_def bind_eq_Some_conv split: if_splits prod.splits)
  have "sn_Attempts s1 = sn_Attempts s" using insert_triage_Some [OF i(1)] by simp
  moreover have "sn_Attempts s2 = sn_Attempts s1" using insert_approvals_Some [OF i(2)] by auto
  moreover have "s3 = s2" using i(3) assms(2) by simp
  moreover have "sn_Attempts s6 = sn_Attempts s5" using insert_closure_Some [OF i(6)] by simp
  ultimately have "fewer_open s s3" "fewer_open s5 s'" using s' by simp_all
  with insert_runs_fewer [OF i(4)] insert_outcomes_fewer [OF i(5)] show ?thesis by (meson fewer_trans(1))
qed

lemma persist_bump_fewer:
  assumes "persistBumpChanges b s db = Some (s', db')" "bh_Attempts (bp_changes b) = []"
  shows "fewer_rounds s s'"
proof -
  let ?ch = "bp_changes b"
  let ?rounds = "map ra_Round (bs_Attempts s @ bh_Attempts ?ch)"
  from assms(1) obtain s1 db1 s2 db2 s3 db3 s4 s5 s6 where
      i: "insert_verdicts (bh_Verdicts ?ch) s db = Some (s1, db1)"
        "insert_repairs (bh_Attempts ?ch) s1 db1 = Some (s2, db2)"
        "insert_repair_runs ?rounds (bh_Runs ?ch) s2 db2 = Some (s3, db3)"
        "insert_repair_outcomes ?rounds (bh_Outcomes ?ch) s3 = Some s4"
        "insert_abandonment (bh_DropAbandon ?ch) (bh_Abandonment ?ch) s4 = Some s5"
        "insert_bump_closure (bh_Closure ?ch) s5 db3 = Some (s6, db')"
    and s': "bs_Attempts s' = bs_Attempts s6"
    by (auto simp: persistBumpChanges_def Let_def bind_eq_Some_conv split: if_splits prod.splits)
  have v: "insert_verdicts vs x d = Some (y, e) \<Longrightarrow> bs_Attempts y = bs_Attempts x" for vs x d y e
    by (induction vs x d rule: insert_verdicts.induct) (auto split: if_splits)
  have "bs_Attempts s1 = bs_Attempts s" by (rule v [OF i(1)])
  moreover have "s2 = s1" using i(2) assms(2) by simp
  moreover have "bs_Attempts s5 = bs_Attempts s4"
    using i(5) by (auto simp: insert_abandonment_def Let_def split: option.splits if_splits)
  moreover have "bs_Attempts s6 = bs_Attempts s5"
    using i(6) by (auto simp: insert_bump_closure_def split: option.splits if_splits)
  ultimately have "fewer_rounds s s2" "fewer_rounds s4 s'" using s' by simp_all
  with insert_repair_runs_fewer [OF i(3)] insert_repair_outcomes_fewer [OF i(4)] show ?thesis
    by (meson fewer_trans(2))
qed

text \<open>An update keeps the ids; a calm one opens nothing.\<close>

definition calm :: "(Case \<Rightarrow> Case \<times> derr option) \<Rightarrow> bool" where
  "calm fn = (\<forall>c c'. fn c = (c', None) \<longrightarrow> ch_Attempts (cs_changes c') = ch_Attempts (cs_changes c))"

definition calm_bump :: "(Bump \<Rightarrow> Bump \<times> derr option) \<Rightarrow> bool" where
  "calm_bump fn = (\<forall>b b'. fn b = (b', None) \<longrightarrow> bh_Attempts (bp_changes b') = bh_Attempts (bp_changes b))"

lemma drawn_mono: "m \<le> n \<Longrightarrow> fresh_id ` {..<m} \<subseteq> fresh_id ` {..<n}"
  by (intro image_mono) auto

lemma UpdateCase_calm:
  assumes u: "UpdateCase r n fn db = Inr (db', out)" and ids: "case_ids db"
  shows "case_ids db' \<and> (calm fn \<longrightarrow> case_load db' \<le> case_load db)"
proof -
  from u obtain s c0 c s' db1 where s: "find (is_key r n) (db_cases db) = Some s" "loadCase s = Inr c0"
      "fn c0 = (c, None)" "persistChanges c s db = Some (s', db1)" "db' = put_row s' db1"
    by (rule UpdateCase_Inr)
  have f: "sn_ID s' = sn_ID s" "db_cases db1 = db_cases db" "db_fresh db \<le> db_fresh db1"
    using persistChanges_frame [OF s(4)] by (simp_all add: case_frame_def)
  have sin: "s \<in> set (db_cases db)" using s(1) by (auto simp: find_Some_iff)
  have m: "map sn_ID (db_cases db') = map sn_ID (db_cases db)"
    unfolding s(5) put_row_def f(2) by (simp del: map_map add: map_put [of sn_ID, OF f(1)] f(2))
  have "sn_ID ` set (db_cases db') = sn_ID ` set (db_cases db)" using m by (metis set_map)
  moreover have "db_fresh db' = db_fresh db1" by (simp add: s(5) put_row_def)
  ultimately have "case_ids db'" using ids drawn_mono [OF f(3)] m
    unfolding case_ids_def by (metis subset_trans)
  moreover have "case_load db' \<le> case_load db" if "calm fn"
  proof -
    have "ch_Attempts (cs_changes c) = []"
      using that s(2,3) by (simp add: calm_def loadCase_Inr no_changes_def)
    then have "length (open_attempts s') \<le> length (open_attempts s)"
      using persist_fewer [OF s(4)] by (simp add: fewer_open_def)
    with sum_put [of sn_ID "db_cases db" s s' "\<lambda>s. length (open_attempts s)"] ids sin f(1)
    show ?thesis by (simp add: case_load_def case_ids_def s(5) put_row_def f(2))
  qed
  ultimately show ?thesis by blast
qed

lemma loadBump_fresh: "loadBump s = Inr b \<Longrightarrow> bh_Attempts (bp_changes b) = []"
  by (auto simp: loadBump_def LoadBump_def Bump_ClearChanges_def no_bump_changes_def split: sum.splits if_splits option.splits)

lemma UpdateBump_calm:
  assumes u: "UpdateBump r n fn db = Inr (db', out)" and ids: "bump_ids db"
  shows "bump_ids db' \<and> (calm_bump fn \<longrightarrow> bump_load db' \<le> bump_load db)"
proof -
  from u obtain s b0 b s' db1 where s: "find (is_bump_key r n) (bd_bumps db) = Some s" "loadBump s = Inr b0"
      "fn b0 = (b, None)" "persistBumpChanges b s db = Some (s', db1)" "db' = put_bump s' db1"
    by (auto simp: UpdateBump_def split: option.splits sum.splits prod.splits)
  have f: "bs_ID s' = bs_ID s" "bd_bumps db1 = bd_bumps db" "bd_fresh db \<le> bd_fresh db1"
    using persistBumpChanges_frame [OF s(4)] by (simp_all add: bump_frame_def)
  have sin: "s \<in> set (bd_bumps db)" using s(1) by (auto simp: find_Some_iff)
  have m: "map bs_ID (bd_bumps db') = map bs_ID (bd_bumps db)"
    unfolding s(5) put_bump_def f(2) by (simp del: map_map add: map_put [of bs_ID, OF f(1)] f(2))
  have "bs_ID ` set (bd_bumps db') = bs_ID ` set (bd_bumps db)" using m by (metis set_map)
  moreover have "bd_fresh db' = bd_fresh db1" by (simp add: s(5) put_bump_def)
  ultimately have "bump_ids db'" using ids drawn_mono [OF f(3)] m
    unfolding bump_ids_def by (metis subset_trans)
  moreover have "bump_load db' \<le> bump_load db" if "calm_bump fn"
  proof -
    have "bh_Attempts (bp_changes b) = []"
      using that s(3) loadBump_fresh [OF s(2)] by (simp add: calm_bump_def)
    then have "length (open_rounds s') \<le> length (open_rounds s)"
      using persist_bump_fewer [OF s(4)] by (simp add: fewer_rounds_def)
    with sum_put [of bs_ID "bd_bumps db" s s' "\<lambda>s. length (open_rounds s)"] ids sin f(1)
    show ?thesis by (simp add: bump_load_def bump_ids_def s(5) put_bump_def f(2))
  qed
  ultimately show ?thesis by blast
qed

subsection \<open>The calm commands\<close>

lemma calm_cmds:
  "calm (\<lambda>c. Case_RecordTriage c t)" "calm (\<lambda>c. Case_RecordApproval c a)" "calm (\<lambda>c. Case_Close c cl)"
  "calm (\<lambda>c. Case_RecordRun c i r)" "calm (\<lambda>c. Case_RecordOutcome c i ou)"
  by (auto simp: calm_def cmd_defs Let_def split: sum.splits if_splits option.splits prod.splits)

lemma calm_bump_cmds:
  "calm_bump (\<lambda>b. Bump_RecordVerdict b v mr)" "calm_bump (\<lambda>b. Bump_AdvanceHead b sha t)"
  "calm_bump (\<lambda>b. Bump_RecordRun b i r)"
  "calm_bump (\<lambda>b. Bump_Abandon b ab)" "calm_bump (\<lambda>b. Bump_Retry b t)" "calm_bump (\<lambda>b. Bump_Close b bc)"
  unfolding calm_bump_def
  by (auto simp: Bump_RecordVerdict_def Bump_AdvanceHead_def Bump_RecordRun_def Bump_Abandon_def
      Bump_Retry_def Bump_Close_def Bump_move_def Bump_setAbandonment_def Let_def
      split: sum.splits if_splits option.splits)

lemma calm_moves [simp]:
  "bh_Attempts (bp_changes (Bump_move b st k t)) = bh_Attempts (bp_changes b)"
  "bh_Attempts (bp_changes (Bump_setAbandonment b r x t)) = bh_Attempts (bp_changes b)"
  by (simp_all add: Bump_move_def Bump_setAbandonment_def Let_def)

lemma calm_bump_outcome: "calm_bump (\<lambda>b. Bump_RecordOutcome b i ou mr)"
  by (auto simp: calm_bump_def Bump_RecordOutcome_def Let_def
      split: sum.splits if_splits option.splits prod.splits)

subsection \<open>Steps that open nothing\<close>

definition store_wf :: "Store \<Rightarrow> bool" where
  "store_wf st = (case_ids (st_cases st) \<and> bump_ids (st_bumps st))"

definition store_load :: "Store \<Rightarrow> nat" where
  "store_load st = case_load (st_cases st) + bump_load (st_bumps st)"

definition lighter :: "Store \<Rightarrow> Store \<Rightarrow> bool" where
  "lighter st st' = (store_wf st \<longrightarrow> store_wf st' \<and> store_load st' \<le> store_load st)"

lemma lighter_refl [simp]: "lighter st st"
  by (simp add: lighter_def)

lemma lighter_trans: "lighter a b \<Longrightarrow> lighter b c \<Longrightarrow> lighter a c"
  by (auto simp: lighter_def)

lemma lighter_same:
  "db_cases (st_cases st') = db_cases (st_cases st) \<Longrightarrow> db_fresh (st_cases st') = db_fresh (st_cases st) \<Longrightarrow>
   bd_bumps (st_bumps st') = bd_bumps (st_bumps st) \<Longrightarrow> bd_fresh (st_bumps st') = bd_fresh (st_bumps st) \<Longrightarrow>
   lighter st st'"
  by (simp add: lighter_def store_wf_def store_load_def case_ids_def bump_ids_def case_load_def bump_load_def)

lemma lighter_work: "st_cases st' = st_cases st \<Longrightarrow> st_bumps st' = st_bumps st \<Longrightarrow> lighter st st'"
  by (simp add: lighter_same)

lemma lighter_case:
  "UpdateCase r n fn (st_cases st) = Inr (db, out) \<Longrightarrow> calm fn \<Longrightarrow> lighter st (st\<lparr>st_cases := db\<rparr>)"
  using UpdateCase_calm by (fastforce simp: lighter_def store_wf_def store_load_def)

lemma lighter_bump:
  "UpdateBump r n fn (st_bumps st) = Inr (db, out) \<Longrightarrow> calm_bump fn \<Longrightarrow> lighter st (st\<lparr>st_bumps := db\<rparr>)"
  using UpdateBump_calm by (fastforce simp: lighter_def store_wf_def store_load_def)

lemma new_id:
  assumes "ids \<subseteq> fresh_id ` {..<n}"
  shows "fresh_id n \<notin> ids" "insert (fresh_id n) ids \<subseteq> fresh_id ` {..<Suc n}"
proof -
  show "fresh_id n \<notin> ids" using assms fresh_id_inj by (auto simp: inj_def)
  show "insert (fresh_id n) ids \<subseteq> fresh_id ` {..<Suc n}" using assms by (auto simp: lessThan_Suc)
qed

lemma lighter_create_case:
  assumes "CreateCase c (st_cases st) = Inr (db, out)" shows "lighter st (st\<lparr>st_cases := db\<rparr>)"
proof -
  from assms obtain row where "db_cases db = db_cases (st_cases st) @ [row]" "sn_Attempts row = []"
      "sn_ID row = fresh_id (db_fresh (st_cases st))" "db_fresh db = Suc (db_fresh (st_cases st))"
    by (auto simp: CreateCase_def Let_def split: if_splits prod.splits option.splits)
  then show ?thesis
    using new_id [of "sn_ID ` set (db_cases (st_cases st))" "db_fresh (st_cases st)"]
    by (auto simp: lighter_def store_wf_def store_load_def case_ids_def case_load_def open_attempts_def)
qed

lemma lighter_create_bump:
  assumes "CreateBump b (st_bumps st) = Inr (db, out)" shows "lighter st (st\<lparr>st_bumps := db\<rparr>)"
proof -
  from assms obtain row where "bd_bumps db = bd_bumps (st_bumps st) @ [row]" "bs_Attempts row = []"
      "bs_ID row = fresh_id (bd_fresh (st_bumps st))" "bd_fresh db = Suc (bd_fresh (st_bumps st))"
    by (auto simp: CreateBump_def Let_def split: if_splits prod.splits option.splits)
  then show ?thesis
    using new_id [of "bs_ID ` set (bd_bumps (st_bumps st))" "bd_fresh (st_bumps st)"]
    by (auto simp: lighter_def store_wf_def store_load_def bump_ids_def bump_load_def open_rounds_def)
qed

text \<open>The translator.\<close>

lemma open_case_lighter: "lighter st (fst (open_case now e st))"
  by (auto simp: open_case_def lighter_create_case split: sum.splits serr.splits)

lemma issue_lighter: "lighter st (fst (issue t now d e st))"
proof -
  have "lighter st (fst (issue_labeled t now d e st))"
    using open_case_lighter [of st now e]
    by (auto simp: issue_labeled_def Let_def split: sum.splits prod.splits
        intro: lighter_trans lighter_case [OF _ calm_cmds(2)])
  moreover have "lighter st (fst (issue_closed now d e st))"
    by (auto simp: issue_closed_def Let_def split: sum.splits serr.splits intro: lighter_case [OF _ calm_cmds(3)])
  ultimately show ?thesis by (simp add: issue_def open_case_lighter)
qed

lemma bump_command_lighter: "calm_bump fn \<Longrightarrow> lighter st (fst (bump_command e fn u x st))"
  by (auto simp: bump_command_def split: sum.splits serr.splits intro: lighter_bump)

lemma pullRequest_lighter: "lighter st (fst (pullRequest t now d e st))"
proof -
  have "lighter st (fst (openBump now e st))"
    by (auto simp: openBump_def Let_def lighter_create_bump split: sum.splits serr.splits)
  then show ?thesis by (simp add: pullRequest_def Let_def bump_command_lighter calm_bump_cmds)
qed

lemma check_one_lighter: "lighter st (fst (check_one t rollup now repo sha n st))"
  by (auto simp: check_one_def Let_def split: sum.splits serr.splits derr.splits
      intro: lighter_bump [OF _ calm_bump_cmds(1)])

lemma check_loop_lighter: "lighter st (fst (check_loop t rollup now repo sha ns ds st))"
proof (induction t rollup now repo sha ns ds st rule: check_loop.induct)
  case (2 t rollup now repo sha n ns ds st)
  obtain st1 r1 where c: "check_one t rollup now repo sha n st = (st1, r1)" by fastforce
  with check_one_lighter [of st t rollup now repo sha n] have "lighter st st1" by simp
  with 2 c show ?case by (cases r1) (auto intro: lighter_trans)
qed simp

lemma translate_event_lighter: "lighter st (fst (translate_event t now d ev st))"
proof -
  have "lighter st (fst (translate_checks t now x e st))" for x e
    using check_loop_lighter [of st t "the (tl_Rollup t)" now]
    by (auto simp: translate_checks_def checks_def Let_def split: option.splits prod.splits sum.splits)
      (metis fst_conv)+
  moreover have "lighter st (fst (installation now e st))" for e
    by (metis lighter_work installation_keeps_work prod.collapse)
  moreover have "lighter st (fst (installationRepositories now e st))" for e
    by (metis lighter_work installationRepositories_keeps_work prod.collapse)
  ultimately show ?thesis
    by (cases ev) (simp_all add: translate_event_def issue_lighter pullRequest_lighter)
qed

lemma Process_lighter: "lighter st (fst (Process parse t now d st))"
proof -
  obtain st1 res x where tr: "translate parse t now d st = (st1, res, x)" by (cases "translate parse t now d st")
  have "lighter st st1"
    using tr translate_event_lighter [of st t now d]
    by (auto simp: translate_def split: if_splits sum.splits prod.splits) (metis fst_conv)+
  moreover have "lighter st1 (fst (Process parse t now d st))"
    using tr by (auto simp: Process_def split: sum.splits intro: lighter_work dest: RecordProcessing_work)
  ultimately show ?thesis by (rule lighter_trans)
qed

lemma fold_lighter: "(\<And>x st. lighter st (f x st)) \<Longrightarrow> lighter st (fold f xs st)"
  by (induction xs arbitrary: st) (auto intro: lighter_trans)

lemma ProcessPending_lighter: "lighter st (ProcessPending parse t now st)"
  unfolding ProcessPending_def by (rule fold_lighter) (rule Process_lighter)

text \<open>The other services.\<close>

lemma Enrollment_lighter: "lighter st (Enrollment_Run label db el now st)"
proof -
  have "st_cases (enroll_one label db el now r st) = st_cases st \<and> st_bumps (enroll_one label db el now r st) = st_bumps st"
    for r st
    by (auto simp: enroll_one_def refreshBranch_def RecordLabelSetup_def
        split: option.splits sum.splits if_splits label_error.splits)
  then show ?thesis unfolding Enrollment_Run_def by (intro fold_lighter lighter_work) simp_all
qed

lemma Triage_lighter:
  "lighter (sz_store z) (sz_store (Triage_Run model getIssue classify now z))"
proof -
  have rt: "lighter (sz_store z) (sz_store (record_triage k tr z))" for k tr z
    by (auto simp: record_triage_def triage_clear_def split: sum.splits
        intro: lighter_case [OF _ calm_cmds(1)])
  have tf: "sz_store z1 = sz_store z" if "triage_fail now k z = (z1, n, next')" for k z z1 n next'
    using triage_fail_effect [OF that] by simp
  have one: "lighter (sz_store z) (sz_store (triage_step model getIssue classify now k z))" for k z
    by (auto simp: triage_one_eq rt tf split: sum.splits prod.splits) (metis rt tf)+
  have "lighter (sz_store z) (sz_store (fold (triage_step model getIssue classify now) ks z))" for ks
  proof (induction ks arbitrary: z)
    case (Cons k ks)
    have "fold (triage_step model getIssue classify now) (k # ks) z =
        fold (triage_step model getIssue classify now) ks (triage_step model getIssue classify now k z)" by simp
    with Cons.IH [of "triage_step model getIssue classify now k z"] one [of z k] show ?case
      by (metis (no_types, lifting) lighter_trans)
  qed simp
  then show ?thesis by (simp add: Triage_Run_def)
qed

lemma Commenter_lighter: "lighter (ob_store ob) (ob_store (Commenter_Run label post written ob))"
proof -
  let ?P = "\<lambda>s. st_cases s = st_cases (ob_store ob) \<and> st_bumps s = st_bumps (ob_store ob)"
  have 1: "?P (enqueueTriage label k s)" "?P (enqueueOutcome label i s)" if "?P s" for k i s
    using that by (auto simp: enqueueTriage_def enqueueOutcome_def EnqueueTriageComment_def
        EnqueueOutcomeComment_def split: sum.splits option.splits)
  have e: "?P (enqueue label (ob_store ob))"
    unfolding enqueue_def Let_def by (rule fold_keeps [where P = ?P], erule 1, rule fold_keeps [where P = ?P], erule 1) simp
  have "?P (ob_store (fold (post_one post written) cs o'))" if "?P (ob_store o')" for cs o'
    by (rule fold_keeps [where P = "\<lambda>x. ?P (ob_store x)"])
      (use that in \<open>auto simp: post_one_def RecordCommentPost_def Let_def split: sum.splits\<close>)
  with e have "?P (ob_store (Commenter_Run label post written ob))" by (simp add: Commenter_Run_def Let_def)
  then show ?thesis by (intro lighter_work) simp_all
qed

definition daemon_lighter :: "Daemon \<Rightarrow> Daemon \<Rightarrow> bool" where
  "daemon_lighter d d' = lighter (dm_store d) (dm_store d')"

lemma daemon_lighter_writes:
  "UpdateCase r n fn (st_cases (dm_store d)) = Inr (cdb, out) \<Longrightarrow> calm fn \<Longrightarrow> daemon_lighter d (with_cases cdb d)"
  "UpdateBump r n bfn (st_bumps (dm_store d)) = Inr (db, bout) \<Longrightarrow> calm_bump bfn \<Longrightarrow> daemon_lighter d (with_bumps db d)"
  by (simp_all add: daemon_lighter_def with_cases_def with_bumps_def lighter_case lighter_bump)

lemma daemon_lighter_refl [simp]: "daemon_lighter d d"
  by (simp add: daemon_lighter_def)

lemma fold_daemon_lighter: "(\<And>x d. daemon_lighter d (f x d)) \<Longrightarrow> daemon_lighter d (fold f xs d)"
proof (induction xs arbitrary: d)
  case (Cons x xs)
  have "daemon_lighter d (f x d)" by (rule Cons.prems)
  moreover have "daemon_lighter (f x d) (fold f xs (f x d))" using Cons by blast
  ultimately show ?case by (simp add: daemon_lighter_def lighter_trans)
qed simp

lemma UpdateBumpByRepair_UpdateBump:
  "UpdateBumpByRepair i fn db = Inr x \<Longrightarrow> \<exists>r n. UpdateBump r n fn db = Inr x"
  by (auto simp: UpdateBumpByRepair_def split: option.splits)

lemma sweeper_lighter: "daemon_lighter d (StaleCheckSweeper_Run cfg sd now d)"
  by (auto simp: StaleCheckSweeper_Run_def intro!: fold_daemon_lighter split: sum.splits
      intro: daemon_lighter_writes(2) [OF _ calm_bump_cmds(4)])

lemma finish_lighter:
  "daemon_lighter d (Scheduler_finish down panic now i d)"
  "daemon_lighter d (RepairScheduler_finish cfg down panic now i d)"
proof -
  have "daemon_lighter d (Scheduler_backstop down panic now i d)"
    by (auto simp: Scheduler_backstop_def split: sum.splits option.splits
        intro: daemon_lighter_writes(1) [OF _ calm_cmds(5)])
  then show "daemon_lighter d (Scheduler_finish down panic now i d)"
    by (simp add: Scheduler_finish_def daemon_lighter_def)
  have "daemon_lighter d (RepairScheduler_backstop cfg down panic now i d)"
    by (auto simp: RepairScheduler_backstop_def Let_def split: sum.splits option.splits
        dest!: UpdateBumpByRepair_UpdateBump intro: daemon_lighter_writes(2) [OF _ calm_bump_outcome])
  then show "daemon_lighter d (RepairScheduler_finish cfg down panic now i d)"
    by (simp add: RepairScheduler_finish_def daemon_lighter_def)
qed

subsection \<open>The schedulers' passes\<close>

lemma slot_loop_keeps:
  "(\<And>k d. P d \<Longrightarrow> P (fst (start k d))) \<Longrightarrow> P d \<Longrightarrow> P (slot_loop start ks n d)"
proof (induction ks arbitrary: n d)
  case (Cons k ks)
  obtain d' r where s: "start k d = (d', r)" by fastforce
  have "P d'" using Cons.prems(1) [of d k] Cons.prems(2) s by simp
  then have "P (slot_loop start ks n' d')" for n' using Cons.IH Cons.prems(1) by blast
  with s Cons.prems(2) show ?case by (auto split: option.splits)
qed simp

lemma Scheduler_start_wf:
  assumes "store_wf (dm_store d)" shows "store_wf (dm_store (fst (Scheduler_start cfg getIssue now k d)))"
  using assms UpdateCase_calm
  by (fastforce simp: Scheduler_start_def store_wf_def with_cases_def Let_def split: sum.splits)

lemma RepairScheduler_start_wf:
  assumes "store_wf (dm_store d)" shows "store_wf (dm_store (fst (RepairScheduler_start cfg getPull now k d)))"
  using assms UpdateBump_calm
  by (fastforce simp: RepairScheduler_start_def store_wf_def with_bumps_def Let_def
      split: sum.splits gherr.splits)

lemma schedulers_wf:
  assumes "store_wf (dm_store d)"
  shows "store_wf (dm_store (Scheduler_Run cfg getIssue now d))"
    and "store_wf (dm_store (RepairScheduler_Run cfg getPull now d))"
proof -
  have "store_wf (dm_store (slot_loop (Scheduler_start cfg getIssue now) ks n d))" for ks n
    by (rule slot_loop_keeps [where P = "\<lambda>d. store_wf (dm_store d)"]) (use assms Scheduler_start_wf in auto)
  moreover have "store_wf (dm_store (slot_loop (RepairScheduler_start cfg getPull now) ks n d))" for ks n
    by (rule slot_loop_keeps [where P = "\<lambda>d. store_wf (dm_store d)"]) (use assms RepairScheduler_start_wf in auto)
  ultimately show "store_wf (dm_store (Scheduler_Run cfg getIssue now d))"
      "store_wf (dm_store (RepairScheduler_Run cfg getPull now d))"
    using assms by (simp_all add: Scheduler_Run_def RepairScheduler_Run_def Let_def)
qed

lemma store_load_daemon: "daemon_load d = store_load (dm_store d)"
  by (simp add: daemon_load_sum store_load_def case_load_def bump_load_def)

lemma wf_ids: "store_wf (dm_store d) \<Longrightarrow> ids_ok d"
  by (simp add: store_wf_def ids_ok_def case_ids_def bump_ids_def)

text \<open>Well formed, and with at most \<open>m\<close> attempts and rounds open.\<close>

definition within :: "int \<Rightarrow> Dispatcher \<Rightarrow> bool" where
  "within m p = (store_wf (dp_store p) \<and> int (daemon_load (dp_daemon p)) \<le> m)"

lemma within_lighter: "within m p \<Longrightarrow> lighter (dp_store p) (dp_store p') \<Longrightarrow> within m p'"
  by (auto simp: within_def lighter_def store_load_daemon dp_store_def)

lemma dp_store_simps [simp]:
  "dp_store (with_store st p) = st" "dp_store (on_daemon f p) = dm_store (f (dp_daemon p))"
  "dp_store (cancelClosedBumps p) = dp_store p" "dp_store (cancelClosed cfg p) = dp_store p"
  "dp_daemon (cancelClosedBumps p) = dp_daemon p"
  by (simp_all add: dp_store_def with_store_def on_daemon_def cancelClosedBumps_def cancelClosed_def)

lemma within_daemon:
  "within m p \<Longrightarrow> daemon_lighter (dp_daemon p) (f (dp_daemon p)) \<Longrightarrow> within m (on_daemon f p)"
  by (rule within_lighter [of m p]) (simp_all add: daemon_lighter_def dp_store_def on_daemon_def)

lemma within_sweep:
  assumes "within m p" "sc_Concurrency (dc_Sched cfg) \<le> m"
  shows "within m (Dispatcher_Sweep cfg w now p)"
proof -
  have sched: "within m (on_daemon (Scheduler_Run (dc_Sched cfg) (w_getIssue w) now) p)" if "within m p" for p
    using that assms(2) schedulers_wf(1) Scheduler_Run_load [OF wf_ids, of "dp_daemon p" "dc_Sched cfg" "w_getIssue w" now]
    by (fastforce simp: within_def on_daemon_def dp_store_def)
  have repair: "within m (on_daemon (RepairScheduler_Run (dc_Sched cfg) (w_getPull w) now) p)" if "within m p" for p
    using that assms(2) schedulers_wf(2) RepairScheduler_Run_load [OF wf_ids, of "dp_daemon p" "dc_Sched cfg" "w_getPull w" now]
    by (fastforce simp: within_def on_daemon_def dp_store_def)
  have t: "within m (translate_step cfg w now p)"
    by (rule within_lighter [OF assms(1)]) (simp add: translate_step_def ProcessPending_lighter)
  have c: "within m (cancelClosed cfg (translate_step cfg w now p))"
    by (rule within_lighter [OF t]) simp
  have e: "within m (enroll_step cfg w now p)" if "within m p" for p
    by (rule within_lighter [OF that]) (simp add: enroll_step_def Enrollment_lighter)
  have z: "within m (triage_pass cfg w now p)" if "within m p" for p
    using Triage_lighter [of "\<lparr>sz_store = dp_store p, sz_failures = dp_failures p\<rparr>"]
    by (intro within_lighter [OF that]) (simp add: triage_pass_def Let_def dp_store_def with_store_def)
  have o': "within m (comment_step cfg w p)" if "within m p" for p
    using Commenter_lighter [of "\<lparr>ob_store = dp_store p, ob_github = dp_github p\<rparr>"]
    by (intro within_lighter [OF that]) (simp add: comment_step_def Let_def dp_store_def with_store_def)
  have st: "within m (on_daemon (StaleCheckSweeper_Run (dc_Sched cfg) Duration_String now) p)" if "within m p" for p
    by (rule within_daemon [OF that], rule sweeper_lighter)
  have cb: "within m (cancelClosedBumps p)" if "within m p" for p
    by (rule within_lighter [OF that]) simp
  show ?thesis
    unfolding Dispatcher_Sweep_def Let_def
    by (auto intro!: sched repair e z o' st cb c)
qed

lemma within_step:
  assumes "daemon_step cfg p p'" "within m p" "sc_Concurrency (dc_Sched cfg) \<le> m"
  shows "within m p'"
  using assms(1)
proof cases
  case (sweep w now)
  with within_sweep assms(2,3) show ?thesis by simp
next
  case (receive d st dup)
  then have "lighter (dp_store p) st"
    by (auto simp: StoreDelivery_def split: if_splits intro: lighter_same)
  with receive show ?thesis by (auto intro: within_lighter [OF assms(2)])
next
  case (case_write x r n db c)
  have "calm (\<lambda>c. case_exec c x)" using case_write(2) calm_cmds by (cases x) auto
  with daemon_lighter_writes(1) [OF _ this, of r n "dp_daemon p" db c] case_write(1,3) show ?thesis
    by (auto simp: dp_store_def intro: within_daemon [OF assms(2)])
next
  case (bump_write x r n db b)
  have "calm_bump (\<lambda>b. bump_exec (sc_RoundCap (dc_Sched cfg)) b x)"
    using bump_write(2) calm_bump_cmds calm_bump_outcome by (cases x) auto
  with daemon_lighter_writes(2) [OF _ this, of r n "dp_daemon p" db b] bump_write(1,3) show ?thesis
    by (auto simp: dp_store_def intro: within_daemon [OF assms(2)])
next
  case (watch repos wt db)
  then have "daemon_lighter (dp_daemon p) (with_bumps db (dp_daemon p))"
    by (auto simp: daemon_lighter_def WatchRepository_def with_bumps_def dp_store_def split: if_splits
        intro!: lighter_same)
  with watch within_daemon [OF assms(2)] show ?thesis by metis
next
  case (unwatch r)
  have "daemon_lighter d (with_bumps (UnwatchRepository r (st_bumps (dm_store d))) d)" for d
    by (simp add: daemon_lighter_def UnwatchRepository_def with_bumps_def lighter_same)
  with unwatch show ?thesis by (auto simp: dp_store_def intro: within_daemon [OF assms(2)])
next
  case (attempt_end down panic now i)
  with within_daemon [OF assms(2)] finish_lighter(1) show ?thesis by metis
next
  case (round_end down panic now i)
  with within_daemon [OF assms(2)] finish_lighter(2) show ?thesis by metis
qed

subsection \<open>Properties\<close>


definition demo_world :: World where
  "demo_world = \<lparr>w_parse = demo_parse, w_getIssue = \<lambda>_ _. Inl (GitHubError ''down''),
     w_getPull = \<lambda>_ _. Inl (GitHubError ''down''), w_classify = \<lambda>_ _. Inl ''down'',
     w_post = \<lambda>_ _ _. Inr 1, w_written = \<lambda>_. True, w_defaultBranch = \<lambda>_. Inr ''main'',
     w_ensureLabel = \<lambda>_ _. None, w_rollup = \<lambda>_ _. Inr zero_rollup\<rparr>"

definition demo_dispatch :: DispatchConfig where
  "demo_dispatch = \<lparr>dc_Sched = sched_cfg, dc_Label = ''autophage'', dc_BotLogin = ''autophage[bot]'',
     dc_Model = ''m'', dc_Upkeep = True, dc_Cancel = True\<rparr>"

definition demo_dispatcher :: Dispatcher where
  "demo_dispatcher = \<lparr>dp_daemon = \<lparr>dm_store = demo_store [demo_delivery ''d1'' ''pull_request''], dm_running = [],
     dm_rounds = [], dm_done = 0\<rparr>, dp_failures = Map.empty, dp_github = [], dp_cancels = [], dp_repair_cancels = []\<rparr>"


end
