(* ===== verification/WakeUps.thy ===== *)
theory WakeUps
  imports GoBase
begin

section \<open>Waking the dispatcher\<close>

text \<open>
  \<^verbatim>\<open>Dispatcher.Run\<close> of \<^verbatim>\<open>internal/app/dispatcher.go\<close> and \<^verbatim>\<open>Listen\<close> of \<^verbatim>\<open>internal/store/listen.go\<close>:
  when sweeps run. Writers, the connection that listens, the ticker and the loop are goroutines
  of their own, so a step of any of them may come next. A change is a committed transaction
  that notifies; it is on its way (\<open>wk_transit\<close>) until the callback has it. The channel of
  capacity one is a flag: sending to it when it is full does nothing. \<open>wk_covered\<close> is how many
  changes had landed when the latest sweep began, which therefore reads them; \<open>wk_lost\<close> says
  that since then a change landed, or was on its way, without a connection, and \<open>wk_dropped\<close>
  that a connection has ever been lost.
\<close>

datatype phase = Subscribing | Recovering | Sweeping | Waiting | Stopped

record WakeState =
  wk_phase :: phase
  wk_listening :: bool
  wk_wake :: bool
  wk_landed :: nat
  wk_transit :: nat
  wk_covered :: nat
  wk_lost :: bool
  wk_dropped :: bool

definition begin_sweep :: "WakeState \<Rightarrow> WakeState" where
  "begin_sweep s = s\<lparr>wk_phase := Sweeping, wk_covered := wk_landed s, wk_lost := False\<rparr>"

inductive wake_step :: "WakeState \<Rightarrow> WakeState \<Rightarrow> bool" where
  lands: "wake_step s (s\<lparr>wk_landed := Suc (wk_landed s), wk_transit := (if wk_listening s then Suc (wk_transit s) else wk_transit s),
      wk_lost := (wk_lost s \<or> \<not> wk_listening s)\<rparr>)"
| delivered: "wk_listening s \<Longrightarrow> wk_transit s = Suc n \<Longrightarrow> wake_step s (s\<lparr>wk_transit := n, wk_wake := True\<rparr>)"
| drops: "wk_listening s \<Longrightarrow> wake_step s (s\<lparr>wk_listening := False, wk_transit := 0, wk_lost := (wk_lost s \<or> wk_transit s > 0), wk_dropped := True\<rparr>)"
| subscribed: "\<not> wk_listening s \<Longrightarrow>
    wake_step s (s\<lparr>wk_listening := True, wk_phase := (if wk_phase s = Subscribing then Recovering else wk_phase s)\<rparr>)"
| recovered: "wk_phase s = Recovering \<Longrightarrow> wake_step s (begin_sweep s)"
| recovery_failed: "wk_phase s = Recovering \<Longrightarrow> wake_step s (s\<lparr>wk_phase := Stopped\<rparr>)"
| ticks: "wk_phase s \<notin> {Subscribing, Stopped} \<Longrightarrow> wake_step s (s\<lparr>wk_wake := True\<rparr>)"
| swept: "wk_phase s = Sweeping \<Longrightarrow> wake_step s (s\<lparr>wk_phase := Waiting\<rparr>)"
| woken: "wk_phase s = Waiting \<Longrightarrow> wk_wake s \<Longrightarrow> wake_step s (begin_sweep (s\<lparr>wk_wake := False\<rparr>))"
| stops: "wk_phase s \<in> {Subscribing, Waiting} \<Longrightarrow> wake_step s (s\<lparr>wk_phase := Stopped\<rparr>)"

inductive_cases wake_stepE: "wake_step s t"

definition starting :: "nat \<Rightarrow> WakeState" where
  "starting n = \<lparr>wk_phase = Subscribing, wk_listening = False, wk_wake = False, wk_landed = n, wk_transit = 0,
     wk_covered = 0, wk_lost = False, wk_dropped = False\<rparr>"

text \<open>The connection's waits: doubled while they are below thirty seconds, never reset.\<close>

definition next_backoff :: "Duration \<Rightarrow> Duration" where
  "next_backoff b = (if b < 30000000000 then i64 (b * 2) else b)"

definition listen_wait :: "nat \<Rightarrow> Duration" where
  "listen_wait n = (next_backoff ^^ n) 1000000000"

lemma listen_wait_values:
  "map listen_wait [0, 1, 2, 3, 4, 5] = [1000000000, 2000000000, 4000000000, 8000000000, 16000000000, 32000000000]"
  by (simp add: listen_wait_def next_backoff_def i64_id numeral_eq_Suc)

lemma listen_wait_Suc: "listen_wait (Suc n) = next_backoff (listen_wait n)"
  by (simp add: listen_wait_def)

text \<open>Every later wait is the last of these, however long a connection held in between.\<close>

lemma listen_wait_stays: "listen_wait (5 + n) = 32000000000"
proof (induction n)
  case 0
  show ?case using listen_wait_values by simp
next
  case (Suc n)
  have "listen_wait (5 + Suc n) = next_backoff (listen_wait (5 + n))" unfolding add_Suc_right by (rule listen_wait_Suc)
  with Suc show ?case by (simp only: next_backoff_def) simp
qed

subsection \<open>Nothing is missed\<close>

text \<open>A change no sweep has begun after is announced: the flag is up, or a notification is on its
  way, or it was lost with the connection.\<close>

definition announced :: "WakeState \<Rightarrow> bool" where
  "announced s =
     ((wk_transit s > 0 \<longrightarrow> wk_listening s) \<and>
      (\<not> wk_dropped s \<longrightarrow> wk_phase s \<in> {Subscribing, Stopped} \<or> wk_listening s) \<and>
      (\<not> wk_dropped s \<and> wk_phase s \<in> {Sweeping, Waiting} \<longrightarrow> \<not> wk_lost s) \<and>
      (wk_phase s \<in> {Sweeping, Waiting} \<and> wk_covered s < wk_landed s \<longrightarrow> wk_wake s \<or> wk_transit s > 0 \<or> wk_lost s))"

lemma wake_step_announced: "wake_step s t \<Longrightarrow> announced s \<Longrightarrow> announced t"
  by (erule wake_stepE) (auto simp: announced_def begin_sweep_def split: if_splits)

lemma reached_announced: "wake_step\<^sup>*\<^sup>* (starting n) s \<Longrightarrow> announced s"
  by (induction rule: rtranclp_induct) (auto simp: wake_step_announced, simp add: announced_def starting_def)

lemma begin_sweep_phase: "wk_phase (begin_sweep s) = Sweeping" "wk_covered (begin_sweep s) = wk_landed s"
  "wk_landed (begin_sweep s) = wk_landed s" "wk_lost (begin_sweep s) = False"
  by (simp_all add: begin_sweep_def)

lemma wakes_up:
  assumes "wk_phase s \<in> {Sweeping, Waiting}" "wk_wake s"
  shows "\<exists>t. wake_step\<^sup>*\<^sup>* s t \<and> wk_phase t = Sweeping \<and> wk_covered t = wk_landed s"
proof -
  have "\<exists>q. wake_step\<^sup>*\<^sup>* s q \<and> wk_phase q = Waiting \<and> wk_wake q \<and> wk_landed q = wk_landed s"
  proof (cases "wk_phase s = Waiting")
    case True
    with assms(2) show ?thesis by blast
  next
    case False
    with assms have "wake_step s (s\<lparr>wk_phase := Waiting\<rparr>)" by (intro swept) auto
    with assms(2) show ?thesis by (intro exI [of _ "s\<lparr>wk_phase := Waiting\<rparr>"]) auto
  qed
  then obtain q where q: "wake_step\<^sup>*\<^sup>* s q" "wk_phase q = Waiting" "wk_wake q" "wk_landed q = wk_landed s" by blast
  have "wake_step q (begin_sweep (q\<lparr>wk_wake := False\<rparr>))" using q woken by blast
  with q show ?thesis by (intro exI [of _ "begin_sweep (q\<lparr>wk_wake := False\<rparr>)"]) (auto simp: begin_sweep_phase)
qed

text \<open>C24. No change goes unnoticed. Whatever lands, before the subscription, while the recovery or a
  sweep is running, or while the loop waits, either a sweep has begun after it, or the loop is
  about to be woken by the flag or by a notification on its way, or it was lost with the
  connection; and in each case the loop, left alone, comes to a sweep that reads it, in the last
  one by the next tick. Since no sweep begins before the subscription is live, nothing is lost
  for as long as no connection drops.\<close>
theorem no_change_is_missed:
  assumes "wake_step\<^sup>*\<^sup>* (starting n) s"
  shows "(wk_phase s \<in> {Sweeping, Waiting} \<and> wk_covered s < wk_landed s \<longrightarrow>
      wk_wake s \<or> (wk_transit s > 0 \<and> wk_listening s) \<or> (wk_lost s \<and> wk_dropped s)) \<and>
    (wk_phase s \<in> {Sweeping, Waiting} \<longrightarrow>
      (\<exists>t. wake_step\<^sup>*\<^sup>* (s\<lparr>wk_wake := True\<rparr>) t \<and> wake_step s (s\<lparr>wk_wake := True\<rparr>) \<and> wk_phase t = Sweeping \<and> wk_covered t = wk_landed s) \<and>
      (wk_transit s > 0 \<longrightarrow> (\<exists>q t. wake_step s q \<and> wk_wake q \<and> wk_landed q = wk_landed s \<and> wake_step\<^sup>*\<^sup>* q t \<and>
         wk_phase t = Sweeping \<and> wk_covered t = wk_landed s)))"
proof -
  have a: "announced s" using assms by (rule reached_announced)
  have tick: "\<exists>t. wake_step\<^sup>*\<^sup>* (s\<lparr>wk_wake := True\<rparr>) t \<and> wake_step s (s\<lparr>wk_wake := True\<rparr>) \<and> wk_phase t = Sweeping \<and> wk_covered t = wk_landed s"
    if "wk_phase s \<in> {Sweeping, Waiting}"
    using wakes_up [of "s\<lparr>wk_wake := True\<rparr>"] ticks [of s] that by auto
  have note': "\<exists>q t. wake_step s q \<and> wk_wake q \<and> wk_landed q = wk_landed s \<and> wake_step\<^sup>*\<^sup>* q t \<and> wk_phase t = Sweeping \<and> wk_covered t = wk_landed s"
    if p: "wk_phase s \<in> {Sweeping, Waiting}" and t: "wk_transit s > 0"
  proof -
    obtain m where m: "wk_transit s = Suc m" using t by (cases "wk_transit s") auto
    let ?q = "s\<lparr>wk_transit := m, wk_wake := True\<rparr>"
    have "wake_step s ?q" using a m by (intro delivered) (auto simp: announced_def)
    moreover have "\<exists>t. wake_step\<^sup>*\<^sup>* ?q t \<and> wk_phase t = Sweeping \<and> wk_covered t = wk_landed s"
      using wakes_up [of ?q] p by simp
    moreover have "wk_wake ?q" "wk_landed ?q = wk_landed s" by simp_all
    ultimately show ?thesis by blast
  qed
  have "wk_phase s \<in> {Sweeping, Waiting} \<and> wk_covered s < wk_landed s \<longrightarrow>
      wk_wake s \<or> (wk_transit s > 0 \<and> wk_listening s) \<or> (wk_lost s \<and> wk_dropped s)"
    using a unfolding announced_def by auto
  with tick note' show ?thesis by simp
qed

theorem no_change_is_missed_witness:
  "\<exists>s t. wake_step\<^sup>*\<^sup>* (starting 3) s \<and> wk_phase s = Sweeping \<and> wk_covered s = 3 \<and> wk_landed s = 4 \<and>
     wake_step\<^sup>*\<^sup>* s t \<and> wk_covered t = 4"
proof -
  define s1 where "s1 = (starting 3)\<lparr>wk_listening := True, wk_phase := Recovering\<rparr>"
  define s2 where "s2 = begin_sweep s1"
  define s3 where "s3 = s2\<lparr>wk_landed := 4, wk_transit := 1, wk_lost := False\<rparr>"
  have 1: "wake_step (starting 3) s1" using subscribed [of "starting 3"] by (simp add: starting_def s1_def)
  have 2: "wake_step s1 s2" unfolding s2_def by (rule recovered) (simp add: s1_def)
  have 3: "wake_step s2 s3" using lands [of s2] by (simp add: s3_def s2_def s1_def begin_sweep_def starting_def)
  have r: "wake_step\<^sup>*\<^sup>* (starting 3) s3" using 1 2 3 by (meson rtranclp.rtrancl_refl rtranclp.rtrancl_into_rtrancl)
  have v: "wk_phase s3 = Sweeping" "wk_covered s3 = 3" "wk_landed s3 = 4" "wk_transit s3 = 1"
    by (simp_all add: s3_def s2_def s1_def begin_sweep_def starting_def)
  from no_change_is_missed [OF r] v obtain q t where "wake_step s3 q" "wake_step\<^sup>*\<^sup>* q t" "wk_covered t = 4" by auto
  with r v show ?thesis by (meson converse_rtranclp_into_rtranclp)
qed

end
