(* ===== verification/Configuration.thy ===== *)
theory Configuration
  imports Translator Complex_Main
begin

section \<open>Configuration\<close>

text \<open>
  \<^verbatim>\<open>internal/config/config.go\<close>: the file's shape, its defaults and the validation that turns it
  into budgets. Reading TOML and the environment is outside; \<^verbatim>\<open>time.ParseDuration\<close> is the
  parameter \<open>parse\<close> (an error's text, or the duration). An error is its text, less the
  value it quotes; the model tiers,
  which the code ranges over in no fixed order, are taken in the order the literal lists them.
\<close>

subsection \<open>The file\<close>

record DBConfig =
  db_URL :: string

record GitHubConfig =
  gc_AppID :: int
  gc_PrivateKey :: string
  gc_BotLogin :: string
  gc_OperatorLogin :: string

record ModelTier =
  mt_Model :: string
  mt_Route :: string
  mt_LocalOnly :: bool

record RoutingConfig =
  rg_LocalProviders :: "string list"
  rg_LocalContextTokens :: "(string \<times> int) list"
  rg_Scores :: "(string \<times> (string \<times> rat) list) list"
  rg_HistoryMinRuns :: int

record ModelConfig =
  mc_Triage :: ModelTier
  mc_Auto :: ModelTier
  mc_Approved :: ModelTier
  mc_Repair :: ModelTier

record BudgetTier =
  bt_Turns :: int
  bt_WallClock :: string
  bt_DiffLines :: int

record BudgetConfig =
  bc_Auto :: BudgetTier
  bc_Approved :: BudgetTier

record SandboxConfig =
  sx_Image :: string
  sx_WorkspacesDir :: string
  sx_Concurrency :: int

record LabelConfig =
  lc_Approved :: string

record UpkeepConfig =
  uc_Enabled :: bool
  uc_DependabotLogin :: string
  uc_RoundCap :: int
  uc_CheckWindow :: string
  uc_Budget :: BudgetTier

record DeploySection =
  ds_Repo :: string
  ds_InstallDir :: string

record Config =
  cf_Listen :: string
  cf_DB :: DBConfig
  cf_GitHub :: GitHubConfig
  cf_Model :: ModelConfig
  cf_Budget :: BudgetConfig
  cf_Sandbox :: SandboxConfig
  cf_Label :: LabelConfig
  cf_Upkeep :: UpkeepConfig
  cf_Deploy :: DeploySection
  cf_Routing :: RoutingConfig

definition plain_tier :: "string \<Rightarrow> ModelTier" where
  "plain_tier model = \<lparr>mt_Model = model, mt_Route = '''', mt_LocalOnly = False\<rparr>"

definition Default :: Config where
  "Default = \<lparr>cf_Listen = ''127.0.0.1:8080'', cf_DB = \<lparr>db_URL = ''postgres:///autophage''\<rparr>,
     cf_GitHub = \<lparr>gc_AppID = 0, gc_PrivateKey = '''', gc_BotLogin = ''autophage[bot]'', gc_OperatorLogin = ''''\<rparr>,
     cf_Model = \<lparr>mc_Triage = plain_tier ''qwen-35b-a3b'', mc_Auto = plain_tier ''qwen-35b-a3b'',
       mc_Approved = plain_tier ''anthropic/claude-sonnet-5.5'', mc_Repair = plain_tier ''qwen-35b-a3b''\<rparr>,
     cf_Budget = \<lparr>bc_Auto = \<lparr>bt_Turns = 80, bt_WallClock = ''90m'', bt_DiffLines = 2000\<rparr>,
       bc_Approved = \<lparr>bt_Turns = 300, bt_WallClock = ''6h'', bt_DiffLines = 10000\<rparr>\<rparr>,
     cf_Sandbox = \<lparr>sx_Image = ''localhost/autophage-sandbox:latest'',
       sx_WorkspacesDir = ''~/.local/share/autophage/workspaces'', sx_Concurrency = 2\<rparr>,
     cf_Label = \<lparr>lc_Approved = ''approved''\<rparr>,
     cf_Upkeep = \<lparr>uc_Enabled = False, uc_DependabotLogin = ''dependabot[bot]'', uc_RoundCap = 3,
       uc_CheckWindow = ''6h'', uc_Budget = \<lparr>bt_Turns = 25, bt_WallClock = ''30m'', bt_DiffLines = 300\<rparr>\<rparr>,
     cf_Deploy = \<lparr>ds_Repo = '''', ds_InstallDir = ''''\<rparr>,
     cf_Routing = \<lparr>rg_LocalProviders = [''trig'', ''vllm''],
       rg_LocalContextTokens = [(''qwen-35b-a3b'', 131072), (''qwen'', 32768)], rg_Scores = [], rg_HistoryMinRuns = 5\<rparr>\<rparr>"

subsection \<open>Validation\<close>

record Budgets =
  bs_Auto :: Budget
  bs_Approved :: Budget
  bs_Repair :: Budget
  bs_UpkeepEnabled :: bool
  bs_RoundCap :: int
  bs_CheckWindow :: Duration

definition zero_budget :: Budget where
  "zero_budget = \<lparr>bg_maxTurns = 0, bg_maxWallClock = 0, bg_maxDiffLines = 0\<rparr>"

definition parseDuration :: "(string \<Rightarrow> string + Duration) \<Rightarrow> string \<Rightarrow> string \<Rightarrow> Duration \<times> string option" where
  "parseDuration parse field v =
     (case parse v of Inl err \<Rightarrow> (0, Some (field @ '': '' @ err))
      | Inr d \<Rightarrow> if d \<le> 0 then (0, Some (field @ '' must be positive'')) else (d, None))"

definition tier_budget :: "(string \<Rightarrow> string + Duration) \<Rightarrow> string \<Rightarrow> BudgetTier \<Rightarrow> Budget \<times> string option" where
  "tier_budget parse name t =
     (let label = (if CHR ''.'' \<in> set name then name else ''budget.'' @ name) in
      case parse (bt_WallClock t) of Inl err \<Rightarrow> (zero_budget, Some (label @ ''.wall_clock: '' @ err))
      | Inr wall \<Rightarrow>
         (case NewBudget (bt_Turns t) wall (bt_DiffLines t) of
            Inl err \<Rightarrow> (zero_budget, Some (label @ '': '' @ error_text err))
          | Inr b \<Rightarrow> (b, None)))"

definition tiers :: "ModelConfig \<Rightarrow> (string \<times> ModelTier) list" where
  "tiers m = [(''triage'', mc_Triage m), (''auto'', mc_Auto m), (''approved'', mc_Approved m), (''repair'', mc_Repair m)]"

definition tier_errs :: "string \<times> ModelTier \<Rightarrow> string list" where
  "tier_errs nt = (let (name, tier) = nt in
     (if mt_Model tier = '''' then [''model.'' @ name @ ''.model is required''] else []) @
     (if mt_Route tier \<noteq> '''' \<and> mt_Route tier \<noteq> ''cost'' \<and> mt_Route tier \<noteq> ''quality''
      then [''model.'' @ name @ ''.route must be cost, quality or empty''] else []))"

definition local_errs :: "RoutingConfig \<Rightarrow> string \<times> ModelTier \<Rightarrow> string list" where
  "local_errs r nt = (let (name, tier) = nt in
     if \<not> mt_LocalOnly tier then []
     else (if mt_Route tier = '''' then [''model.'' @ name @ ''.local_only needs model.'' @ name @ ''.route''] else []) @
          (if mt_Model tier \<notin> fst ` set (rg_LocalContextTokens r)
           then [''model.'' @ name @ ''.local_only needs a local model''] else []))"

definition repo_errs :: "string \<Rightarrow> string list" where
  "repo_errs r =
     (if r = '''' then []
      else case Split r CHR ''/'' of
             [owner, name] \<Rightarrow>
               if owner = '''' \<or> name = '''' \<or> (\<exists>c \<in> set r. c = CHR '' '' \<or> c = CHR 0x09)
               then [''deploy.repo must be owner/name''] else []
           | _ \<Rightarrow> [''deploy.repo must be owner/name''])"

definition login_errs :: "string \<Rightarrow> string list" where
  "login_errs login =
     (if login = '''' then [''upkeep.dependabot_login is required'']
      else if \<not> HasSuffix login ''[bot]'' then [''upkeep.dependabot_login is not a bot account''] else [])"

definition err_list :: "string option \<Rightarrow> string list" where
  "err_list e = (case e of None \<Rightarrow> [] | Some s \<Rightarrow> [s])"

definition Validate :: "(string \<Rightarrow> string + Duration) \<Rightarrow> Config \<Rightarrow> Budgets \<times> string list" where
  "Validate parse c =
     (let (auto, e1) = tier_budget parse ''auto'' (bc_Auto (cf_Budget c));
          (approved, e2) = tier_budget parse ''approved'' (bc_Approved (cf_Budget c));
          errs =
            (if gc_AppID (cf_GitHub c) \<le> 0 then [''github.app_id is required''] else []) @
            (if gc_PrivateKey (cf_GitHub c) = '''' then [''github.private_key is required''] else []) @
            (if gc_OperatorLogin (cf_GitHub c) = '''' then [''github.operator_login is required''] else []) @
            repo_errs (ds_Repo (cf_Deploy c)) @
            concat (map tier_errs (tiers (cf_Model c))) @
            concat (map (local_errs (cf_Routing c)) (tiers (cf_Model c))) @
            (if rg_HistoryMinRuns (cf_Routing c) < 1 then [''routing.history_min_runs must be at least 1''] else []) @
            (if sx_Concurrency (cf_Sandbox c) \<le> 0 then [''sandbox.concurrency must be positive''] else []) @
            (if lc_Approved (cf_Label c) = '''' then [''label.approved is required''] else []) @
            err_list e1 @ err_list e2;
          u = cf_Upkeep c
      in if \<not> uc_Enabled u
         then (\<lparr>bs_Auto = auto, bs_Approved = approved, bs_Repair = zero_budget, bs_UpkeepEnabled = False,
                bs_RoundCap = 0, bs_CheckWindow = 0\<rparr>, errs)
         else let (window, e3) = parseDuration parse ''upkeep.check_window'' (uc_CheckWindow u);
                  (repair, e4) = tier_budget parse ''upkeep.budget'' (uc_Budget u)
              in (\<lparr>bs_Auto = auto, bs_Approved = approved, bs_Repair = repair, bs_UpkeepEnabled = True,
                   bs_RoundCap = uc_RoundCap u, bs_CheckWindow = window\<rparr>,
                  errs @ login_errs (uc_DependabotLogin u) @
                  (if uc_RoundCap u < 1 then [''upkeep.round_cap must be at least 1''] else []) @
                  err_list e3 @ err_list e4))"

record Secrets =
  sc_WebhookSecret :: string
  sc_DeployWebhookSecret :: string

definition LoadSecrets :: "(string \<Rightarrow> string) \<Rightarrow> string + Secrets" where
  "LoadSecrets getenv =
     (let ws = getenv ''AUTOPHAGE_GITHUB_WEBHOOK_SECRET'' in
      if ws = '''' then Inl ''AUTOPHAGE_GITHUB_WEBHOOK_SECRET is not set''
      else Inr \<lparr>sc_WebhookSecret = ws, sc_DeployWebhookSecret = getenv ''AUTOPHAGE_DEPLOY_WEBHOOK_SECRET''\<rparr>)"

subsection \<open>What a valid configuration gives the daemon\<close>

definition positive :: "Budget \<Rightarrow> bool" where
  "positive b = (0 < bg_maxTurns b \<and> 0 < bg_maxWallClock b \<and> 0 < bg_maxDiffLines b)"

lemma tier_budget_ok: "tier_budget parse name t = (b, None) \<Longrightarrow> positive b"
  by (auto simp: tier_budget_def NewBudget_def positive_def Let_def split: sum.splits if_splits)

lemma parseDuration_ok: "parseDuration parse field v = (d, None) \<Longrightarrow> 0 < d"
  by (auto simp: parseDuration_def split: sum.splits if_splits)

lemma err_list_Nil [simp]: "err_list e = [] \<longleftrightarrow> e = None"
  by (simp add: err_list_def split: option.splits)

lemma login_ok: "login_errs login = [] \<Longrightarrow> HasSuffix login ''[bot]''"
  by (simp add: login_errs_def split: if_splits)

definition tier_ok :: "RoutingConfig \<Rightarrow> ModelTier \<Rightarrow> bool" where
  "tier_ok r t = (mt_Model t \<noteq> '''' \<and> mt_Route t \<in> {'''', ''cost'', ''quality''} \<and>
     (mt_LocalOnly t \<longrightarrow> mt_Route t \<noteq> '''' \<and> mt_Model t \<in> fst ` set (rg_LocalContextTokens r)))"

lemma tier_errs_ok: "tier_errs (n, t) = [] \<Longrightarrow> local_errs r (n, t) = [] \<Longrightarrow> tier_ok r t"
  by (auto simp: tier_errs_def local_errs_def tier_ok_def split: if_splits)

text \<open>What validation accepts is a configuration the daemon can run on: a client can be built and an
  operator is named, every model tier names a model and a known route, a tier kept local falls
  back to a local model only, at least one attempt may run at a time, and both attempt budgets
  are positive; with upkeep on, the trusted login is a bot's, at least one round is allowed, the
  check window is positive, and so is the repair budget. With upkeep off, nothing of its section
  matters.\<close>
theorem validated_configuration_runs:
  assumes "Validate parse c = (b, [])"
  shows "0 < gc_AppID (cf_GitHub c) \<and> gc_PrivateKey (cf_GitHub c) \<noteq> '''' \<and> gc_OperatorLogin (cf_GitHub c) \<noteq> '''' \<and>
    (\<forall>t \<in> {mc_Triage (cf_Model c), mc_Auto (cf_Model c), mc_Approved (cf_Model c), mc_Repair (cf_Model c)}.
       tier_ok (cf_Routing c) t) \<and>
    0 < sx_Concurrency (cf_Sandbox c) \<and> lc_Approved (cf_Label c) \<noteq> '''' \<and> positive (bs_Auto b) \<and> positive (bs_Approved b) \<and>
    (uc_Enabled (cf_Upkeep c) \<longrightarrow> HasSuffix (uc_DependabotLogin (cf_Upkeep c)) ''[bot]'' \<and> 1 \<le> bs_RoundCap b \<and>
       0 < bs_CheckWindow b \<and> positive (bs_Repair b)) \<and>
    (\<not> uc_Enabled (cf_Upkeep c) \<longrightarrow> (\<forall>u. \<not> uc_Enabled u \<longrightarrow> Validate parse (c\<lparr>cf_Upkeep := u\<rparr>) = (b, [])))"
proof -
  obtain auto e1 where a: "tier_budget parse ''auto'' (bc_Auto (cf_Budget c)) = (auto, e1)" by (rule prod.exhaust)
  obtain approved e2 where p: "tier_budget parse ''approved'' (bc_Approved (cf_Budget c)) = (approved, e2)" by (rule prod.exhaust)
  obtain window e3 where w: "parseDuration parse ''upkeep.check_window'' (uc_CheckWindow (cf_Upkeep c)) = (window, e3)"
    by (rule prod.exhaust)
  obtain repair e4 where r: "tier_budget parse ''upkeep.budget'' (uc_Budget (cf_Upkeep c)) = (repair, e4)" by (rule prod.exhaust)
  note v = assms [unfolded Validate_def Let_def a p w r prod.case]
  have base: "0 < gc_AppID (cf_GitHub c)" "gc_PrivateKey (cf_GitHub c) \<noteq> ''''" "gc_OperatorLogin (cf_GitHub c) \<noteq> ''''"
    "\<forall>nt \<in> set (tiers (cf_Model c)). tier_errs nt = [] \<and> local_errs (cf_Routing c) nt = []"
    "0 < sx_Concurrency (cf_Sandbox c)" "lc_Approved (cf_Label c) \<noteq> ''''" "e1 = None" "e2 = None" "bs_Auto b = auto" "bs_Approved b = approved"
    using v by (auto split: if_splits)
  have "tier_ok (cf_Routing c) (mc_Triage (cf_Model c))" "tier_ok (cf_Routing c) (mc_Auto (cf_Model c))"
    "tier_ok (cf_Routing c) (mc_Approved (cf_Model c))" "tier_ok (cf_Routing c) (mc_Repair (cf_Model c))"
    using base(4) tier_errs_ok unfolding tiers_def by (metis list.set_intros)+
  then have tiers: "\<forall>t \<in> {mc_Triage (cf_Model c), mc_Auto (cf_Model c), mc_Approved (cf_Model c), mc_Repair (cf_Model c)}.
      tier_ok (cf_Routing c) t" by blast
  have up: "HasSuffix (uc_DependabotLogin (cf_Upkeep c)) ''[bot]'' \<and> 1 \<le> bs_RoundCap b \<and> 0 < bs_CheckWindow b \<and> positive (bs_Repair b)"
    if "uc_Enabled (cf_Upkeep c)"
  proof -
    have "login_errs (uc_DependabotLogin (cf_Upkeep c)) = []" "1 \<le> uc_RoundCap (cf_Upkeep c)" "e3 = None" "e4 = None"
      "bs_RoundCap b = uc_RoundCap (cf_Upkeep c)" "bs_CheckWindow b = window" "bs_Repair b = repair"
      using v that by (auto split: if_splits)
    with w r login_ok parseDuration_ok tier_budget_ok show ?thesis by auto
  qed
  have off: "Validate parse (c\<lparr>cf_Upkeep := u\<rparr>) = (b, [])" if "\<not> uc_Enabled (cf_Upkeep c)" "\<not> uc_Enabled u" for u
    using v that by (simp add: Validate_def a p)
  have "positive auto" "positive approved"
    using tier_budget_ok [OF a [unfolded base(7)]] tier_budget_ok [OF p [unfolded base(8)]] by simp_all
  then have "positive (bs_Auto b)" "positive (bs_Approved b)" by (simp_all add: base)
  with base(1-3,5,6) tiers up off show ?thesis by blast
qed

definition sample_parse :: "string \<Rightarrow> string + Duration" where
  "sample_parse s = (if s = ''90m'' then Inr 5400000000000 else if s = ''6h'' then Inr 21600000000000
     else if s = ''30m'' then Inr 1800000000000 else Inl ''time: invalid duration'')"

definition demo_file :: Config where
  "demo_file = Default\<lparr>cf_GitHub := \<lparr>gc_AppID = 7, gc_PrivateKey = ''key.pem'', gc_BotLogin = ''autophage[bot]'',
     gc_OperatorLogin = ''me''\<rparr>, cf_Upkeep := (cf_Upkeep Default)\<lparr>uc_Enabled := True\<rparr>\<rparr>"

theorem validated_configuration_runs_witness:
  "\<exists>b. Validate sample_parse demo_file = (b, []) \<and> positive (bs_Repair b) \<and> 0 < bs_CheckWindow b"
proof -
  obtain b e where v: "Validate sample_parse demo_file = (b, e)" by (rule prod.exhaust)
  have "snd (Validate sample_parse demo_file) = []" by code_simp
  with v have "Validate sample_parse demo_file = (b, [])" by simp
  moreover have "uc_Enabled (cf_Upkeep demo_file)" by (simp add: demo_file_def)
  ultimately show ?thesis using validated_configuration_runs [of sample_parse demo_file b] by blast
qed

end
