(* ===== verification/Routing.thy ===== *)
theory Routing
  imports GoText
begin

section \<open>Picking a model\<close>

text \<open>
  \<^verbatim>\<open>internal/routing/router.go\<close> and the \<^verbatim>\<open>Models\<close> of \<^verbatim>\<open>internal/agent/models.go\<close>. The
  registry's answer, the outcomes recorded so far, the ranker (package agent-select) and the
  adapter (package llm) are parameters; \<open>rank\<close> is any function of candidates, task and scorer.
  A price stays the gateway's text; its conversion to a float is the parameter \<open>price\<close>. The
  error texts, which are only logged, are left out. A nil scorer or function is \<open>None\<close>.
\<close>

datatype Tier = TierTriage | TierAttempt | TierApproved | TierRepair | Tier_other string

record TierRequest =
  tq_task :: string
  tq_input :: int
  tq_output :: int
  tq_needsTools :: bool

fun tierRequests :: "Tier \<Rightarrow> TierRequest option" where
  "tierRequests TierTriage = Some \<lparr>tq_task = ''triage'', tq_input = 8000, tq_output = 400, tq_needsTools = False\<rparr>"
| "tierRequests TierAttempt = Some \<lparr>tq_task = ''code'', tq_input = 100000, tq_output = 16000, tq_needsTools = True\<rparr>"
| "tierRequests TierApproved = Some \<lparr>tq_task = ''code'', tq_input = 150000, tq_output = 16000, tq_needsTools = True\<rparr>"
| "tierRequests TierRepair = Some \<lparr>tq_task = ''code'', tq_input = 60000, tq_output = 8000, tq_needsTools = True\<rparr>"
| "tierRequests (Tier_other _) = None"

record ModelInfo =
  mi_ID :: string
  mi_Endpoints :: "string list"
  mi_RequiresClientAuth :: bool
  mi_Provider :: string
  mi_ContextTokens :: int
  mi_MaxOutputTokens :: int
  mi_InputPrice :: string
  mi_OutputPrice :: string

text \<open>A price is a known number or unknown (nil); \<open>Some 0\<close> of a local model is \<open>zero\<close>.\<close>

datatype 'f price = Zero | PerMillion 'f

record 'f Candidate =
  cd_ID :: string
  cd_Caps :: "string list"
  cd_ContextTokens :: int
  cd_MaxOutputTokens :: int
  cd_Input :: "'f price option"
  cd_Output :: "'f price option"

record Tally =
  ty_Tier :: Tier
  ty_Model :: string
  ty_Passes :: int
  ty_Fails :: int

text \<open>A history is the verdicts recorded into it, with the runs a model needs before it counts.\<close>

datatype 'q Scorer = Declared 'q | History int "(string \<times> string \<times> bool) list" | Chain "'q Scorer list"

record Task =
  tk_Name :: string
  tk_Mode :: string
  tk_Need :: "string list"
  tk_InputTokens :: int
  tk_OutputTokens :: int
  tk_AllowUnscored :: bool

record Ranked =
  rk_ID :: string
  rk_Warnings :: "string list"
  rk_Basis :: "string option"

record ('f, 'q) Router =
  rr_registry :: "string + ModelInfo list"
  rr_modes :: "Tier \<Rightarrow> string"
  rr_localOnly :: "Tier \<Rightarrow> bool"
  rr_local :: "string list"
  rr_localContext :: "string \<Rightarrow> int"
  rr_scorer :: "'q Scorer option"
  rr_outcomes :: "(string + Tally list) option"
  rr_minRuns :: int
  rr_price :: "string \<Rightarrow> 'f option"
  rr_rank :: "'f Candidate list \<Rightarrow> Task \<Rightarrow> 'q Scorer option \<Rightarrow> Ranked option"

record Choice =
  ch_ModelID :: string
  ch_Warnings :: "string list"
  ch_Score :: string

datatype RouteError = ErrNotRouted | RegistryError | NothingAdmissible

definition Routed :: "('f, 'q) Router \<Rightarrow> Tier \<Rightarrow> bool" where
  "Routed r t = (rr_modes r t \<noteq> '''')"

definition chatEndpoint :: string where
  "chatEndpoint = ''/v1/chat/completions''"

text \<open>\<^verbatim>\<open>unicode.IsControl\<close>: the C0 and C1 controls.\<close>

definition control_rune :: "string \<Rightarrow> bool" where
  "control_rune r = (case r of [c] \<Rightarrow> byte_in 0 0x1F c \<or> c = CHR 0x7F
     | [a, b] \<Rightarrow> a = CHR 0xC2 \<and> byte_in 0x80 0x9F b | _ \<Rightarrow> False)"

definition validID :: "string \<Rightarrow> bool" where
  "validID s = (s \<noteq> '''' \<and> s = TrimSpace s \<and> \<not> list_ex control_rune (runes s))"

definition perMillion :: "(string \<Rightarrow> 'f option) \<Rightarrow> string \<Rightarrow> 'f price option" where
  "perMillion price perToken =
     (if perToken = '''' \<or> \<not> list_all (\<lambda>c. c \<in> set ''0123456789.'') perToken then None
      else map_option PerMillion (price perToken))"

definition servable :: "('f, 'q) Router \<Rightarrow> bool \<Rightarrow> ModelInfo \<Rightarrow> bool" where
  "servable r onlyLocal m =
     (chatEndpoint \<in> set (mi_Endpoints m) \<and> \<not> mi_RequiresClientAuth m \<and>
      (\<not> onlyLocal \<or> mi_Provider m \<in> set (rr_local r)))"

definition candidate :: "('f, 'q) Router \<Rightarrow> ModelInfo \<Rightarrow> 'f Candidate" where
  "candidate r m =
     (let isLocal = mi_Provider m \<in> set (rr_local r) in
      \<lparr>cd_ID = mi_ID m, cd_Caps = [''text'', ''tools''],
       cd_ContextTokens = (if mi_ContextTokens m = 0 \<and> isLocal then rr_localContext r (mi_ID m)
                           else mi_ContextTokens m),
       cd_MaxOutputTokens = mi_MaxOutputTokens m,
       cd_Input = (if isLocal then Some Zero else perMillion (rr_price r) (mi_InputPrice m)),
       cd_Output = (if isLocal then Some Zero else perMillion (rr_price r) (mi_OutputPrice m))\<rparr>)"

fun candidates_from :: "('f, 'q) Router \<Rightarrow> bool \<Rightarrow> string list \<Rightarrow> ModelInfo list \<Rightarrow> 'f Candidate list" where
  "candidates_from r onlyLocal seen [] = []"
| "candidates_from r onlyLocal seen (m # ms) =
     (if \<not> validID (mi_ID m) \<or> mi_ID m \<in> set seen then candidates_from r onlyLocal seen ms
      else if \<not> servable r onlyLocal m then candidates_from r onlyLocal seen ms
      else candidate r m # candidates_from r onlyLocal (mi_ID m # seen) ms)"

definition toCandidates :: "('f, 'q) Router \<Rightarrow> bool \<Rightarrow> ModelInfo list \<Rightarrow> 'f Candidate list" where
  "toCandidates r onlyLocal infos = candidates_from r onlyLocal [] infos"

definition tally_records :: "Tally \<Rightarrow> (string \<times> string \<times> bool) list" where
  "tally_records t =
     (case tierRequests (ty_Tier t) of None \<Rightarrow> []
      | Some tr \<Rightarrow> replicate (nat (ty_Passes t)) (tq_task tr, ty_Model t, True) @
                  replicate (nat (ty_Fails t)) (tq_task tr, ty_Model t, False))"

definition scorerNow :: "('f, 'q) Router \<Rightarrow> 'q Scorer option \<times> string" where
  "scorerNow r =
     (case rr_outcomes r of None \<Rightarrow> (rr_scorer r, '''')
      | Some (Inl _) \<Rightarrow> (rr_scorer r, ''history_unavailable'')
      | Some (Inr tallies) \<Rightarrow>
          let h = History (rr_minRuns r) (concat (map tally_records tallies)) in
          (case rr_scorer r of None \<Rightarrow> (Some h, '''') | Some s \<Rightarrow> (Some (Chain [h, s]), '''')))"

definition Choose :: "('f, 'q) Router \<Rightarrow> Tier \<Rightarrow> RouteError + Choice" where
  "Choose r tier =
     (let mode = rr_modes r tier in
      case tierRequests tier of None \<Rightarrow> Inl ErrNotRouted
      | Some tr \<Rightarrow>
        if mode = '''' then Inl ErrNotRouted
        else case rr_registry r of Inl _ \<Rightarrow> Inl RegistryError
        | Inr infos \<Rightarrow>
          let cands = toCandidates r (rr_localOnly r tier) infos;
              task = \<lparr>tk_Name = tq_task tr, tk_Mode = mode,
                tk_Need = (if tq_needsTools tr then [''text'', ''tools''] else [''text'']),
                tk_InputTokens = tq_input tr, tk_OutputTokens = tq_output tr, tk_AllowUnscored = True\<rparr>
          in (case scorerNow r of (scorer, warning) \<Rightarrow>
              (case rr_rank r cands task scorer of None \<Rightarrow> Inl NothingAdmissible
               | Some best \<Rightarrow> Inr \<lparr>ch_ModelID = rk_ID best,
                   ch_Warnings = rk_Warnings best @ (if warning \<noteq> '''' then [warning] else []),
                   ch_Score = (case rk_Basis best of None \<Rightarrow> '''' | Some b \<Rightarrow> b)\<rparr>)))"

text \<open>\<^verbatim>\<open>Models.Resolve\<close>, with the chooser of the daemon, or none, and \<^verbatim>\<open>Models.Tier\<close>.\<close>

definition Models_Resolve :: "('f, 'q) Router option \<Rightarrow> Tier \<Rightarrow> string \<Rightarrow> string" where
  "Models_Resolve chooser tier static =
     (case chooser of None \<Rightarrow> static
      | Some r \<Rightarrow> (case Choose r tier of Inl _ \<Rightarrow> static | Inr c \<Rightarrow> ch_ModelID c))"

definition Models_Tier :: "(string \<Rightarrow> string option) \<Rightarrow> string \<Rightarrow> string option" where
  "Models_Tier build modelID =
     (if modelID = '''' then Some ''agent: model id is empty'' else build modelID)"

subsection \<open>Lemmas\<close>

lemma candidates_from_spec:
  "(\<forall>c \<in> set (candidates_from r l seen ms). cd_ID c \<notin> set seen \<and> validID (cd_ID c) \<and>
      (\<exists>m \<in> set ms. c = candidate r m \<and> servable r l m)) \<and>
   distinct (map cd_ID (candidates_from r l seen ms))"
proof (induction ms arbitrary: seen)
  case (Cons m ms)
  have i: "cd_ID (candidate r m) = mi_ID m" by (simp add: candidate_def Let_def)
  show ?case
  proof (cases "validID (mi_ID m) \<and> mi_ID m \<notin> set seen \<and> servable r l m")
    case True
    with Cons [of "mi_ID m # seen"] i show ?thesis by (auto simp: image_iff)
  next
    case False
    then have "candidates_from r l seen (m # ms) = candidates_from r l seen ms" by auto
    with Cons [of seen] show ?thesis by auto
  qed
qed simp

lemma count_replicate: "count_list (replicate n x) y = (if x = y then n else 0)"
  by (induction n) auto

lemma count_concat: "count_list (concat xss) y = sum_list (map (\<lambda>xs. count_list xs y) xss)"
  by (induction xss) (auto simp: count_list_append)

subsection \<open>Properties\<close>

text \<open>A run never gets a model the host cannot run: given that the ranker picks among its candidates,
  the id a tier resolves to is its configured one, or a well-formed id of a registry entry that
  is served on the chat endpoint, needs no client key and, for a tier restricted to local
  models, belongs to a local provider. Candidate ids are distinct and the configured id is kept
  whenever the tier is not routed or routing fails.\<close>
theorem resolved_model_is_servable:
  assumes "\<And>cands task scorer best. rr_rank r cands task scorer = Some best \<Longrightarrow> rk_ID best \<in> cd_ID ` set cands"
  shows "(Models_Resolve (Some r) tier static = static \<or>
     (\<exists>infos m. rr_registry r = Inr infos \<and> m \<in> set infos \<and> Models_Resolve (Some r) tier static = mi_ID m \<and>
        validID (mi_ID m) \<and> servable r (rr_localOnly r tier) m \<and> Routed r tier)) \<and>
    (\<not> Routed r tier \<or> isl (rr_registry r) \<longrightarrow> Models_Resolve (Some r) tier static = static) \<and>
    distinct (map cd_ID (toCandidates r onlyLocal infos))"
proof -
  have "\<exists>infos m. rr_registry r = Inr infos \<and> m \<in> set infos \<and> ch_ModelID c = mi_ID m \<and>
      validID (mi_ID m) \<and> servable r (rr_localOnly r tier) m \<and> Routed r tier" if c: "Choose r tier = Inr c" for c
  proof -
    obtain tr infos where i: "tierRequests tier = Some tr" "rr_modes r tier \<noteq> ''''" "rr_registry r = Inr infos"
      using c by (auto simp: Choose_def Let_def split: option.splits if_splits sum.splits)
    then obtain task scorer best where b: "rr_rank r (toCandidates r (rr_localOnly r tier) infos) task scorer = Some best"
      "ch_ModelID c = rk_ID best"
      using c by (auto simp: Choose_def Let_def split: option.splits prod.splits)
    from assms [OF b(1)] obtain d where d: "d \<in> set (toCandidates r (rr_localOnly r tier) infos)" "cd_ID d = rk_ID best"
      by auto
    with candidates_from_spec [of r "rr_localOnly r tier" "[]" infos] obtain m where
      "m \<in> set infos" "d = candidate r m" "servable r (rr_localOnly r tier) m" "validID (cd_ID d)"
      by (auto simp: toCandidates_def)
    with b d i show ?thesis by (auto simp: candidate_def Let_def Routed_def)
  qed
  moreover have "Choose r tier = Inl ErrNotRouted" if "\<not> Routed r tier"
    using that by (auto simp: Choose_def Routed_def Let_def split: option.splits)
  moreover have "\<exists>e. Choose r tier = Inl e" if "isl (rr_registry r)"
    using that by (auto simp: Choose_def Let_def isl_def split: option.splits)
  moreover have "distinct (map cd_ID (toCandidates r onlyLocal infos))"
    using candidates_from_spec by (auto simp: toCandidates_def)
  ultimately show ?thesis by (auto simp: Models_Resolve_def split: sum.splits)
qed

definition demo_router :: "(string, unit) Router" where
  "demo_router = \<lparr>rr_registry = Inr [\<lparr>mi_ID = ''local-7b'', mi_Endpoints = [''/v1/chat/completions''],
       mi_RequiresClientAuth = False, mi_Provider = ''rudy'', mi_ContextTokens = 0, mi_MaxOutputTokens = 8000,
       mi_InputPrice = '''', mi_OutputPrice = ''''\<rparr>],
     rr_modes = (\<lambda>t. if t = TierTriage then ''cost'' else ''''), rr_localOnly = (\<lambda>_. True),
     rr_local = [''rudy''], rr_localContext = (\<lambda>_. 131072), rr_scorer = None, rr_outcomes = None, rr_minRuns = 5,
     rr_price = Some,
     rr_rank = (\<lambda>cs _ _. case cs of [] \<Rightarrow> None
       | c # _ \<Rightarrow> Some \<lparr>rk_ID = cd_ID c, rk_Warnings = [], rk_Basis = None\<rparr>)\<rparr>"

theorem resolved_model_is_servable_witness:
  "Models_Resolve (Some demo_router) TierRepair ''static'' = ''static'' \<and>
   Models_Resolve (Some demo_router) TierTriage ''static'' = ''local-7b''"
proof -
  have "rk_ID best \<in> cd_ID ` set cands" if "rr_rank demo_router cands task scorer = Some best" for cands task scorer best
    using that by (auto simp: demo_router_def split: list.splits)
  from resolved_model_is_servable [where r = demo_router and tier = TierRepair and static = "''static''", OF this]
  have "Models_Resolve (Some demo_router) TierRepair ''static'' = ''static''"
    by (simp add: Routed_def demo_router_def)
  moreover have "Models_Resolve (Some demo_router) TierTriage ''static'' = ''local-7b''" by code_simp
  ultimately show ?thesis by simp
qed

text \<open>The history a choice is scored by is exactly the verdicts recorded: for a task and a model it
  holds as many passes, and as many failures, as the tallies of the tiers with that task report,
  and nothing of an unknown tier; it ranks before the configured scorer.\<close>
theorem history_counts_verdicts:
  assumes "rr_outcomes r = Some (Inr tallies)"
  shows "\<exists>recs. fst (scorerNow r) = Some (case rr_scorer r of None \<Rightarrow> History (rr_minRuns r) recs
       | Some s \<Rightarrow> Chain [History (rr_minRuns r) recs, s]) \<and> snd (scorerNow r) = '''' \<and>
     count_list recs (task, model, b) = sum_list (map (\<lambda>t.
       if map_option tq_task (tierRequests (ty_Tier t)) = Some task \<and> ty_Model t = model
       then nat (if b then ty_Passes t else ty_Fails t) else 0) tallies)"
proof -
  have "count_list (tally_records t) (task, model, b) =
      (if map_option tq_task (tierRequests (ty_Tier t)) = Some task \<and> ty_Model t = model
       then nat (if b then ty_Passes t else ty_Fails t) else 0)" for t
    by (auto simp: tally_records_def count_list_append count_replicate split: option.splits)
  then show ?thesis
    using assms by (intro exI [of _ "concat (map tally_records tallies)"])
      (simp add: scorerNow_def Let_def count_concat comp_def split: option.splits)
qed

theorem history_counts_verdicts_witness:
  "\<exists>recs. fst (scorerNow (demo_router\<lparr>rr_outcomes := Some (Inr [\<lparr>ty_Tier = TierRepair, ty_Model = ''m'', ty_Passes = 2, ty_Fails = 1\<rparr>])\<rparr>)) =
     Some (History 5 recs) \<and> count_list recs (''code'', ''m'', True) = 2"
  using history_counts_verdicts [of "demo_router\<lparr>rr_outcomes := Some (Inr [\<lparr>ty_Tier = TierRepair, ty_Model = ''m'',
      ty_Passes = 2, ty_Fails = 1\<rparr>])\<rparr>" _ "''code''" "''m''" True]
  by (auto simp: demo_router_def)

end
