(* ===== verification/Listings.thy ===== *)
theory Listings
  imports StoreWorld
begin

section \<open>The operator's listings and counts\<close>

text \<open>
  \<^verbatim>\<open>internal/store/queries.go\<close> and the listings of \<^verbatim>\<open>bumps.go\<close>: pages of cases and bumps, newest
  first, the counts, and the verdicts the routing learns from. Ids are UUIDs, whose order is that
  of their text. Package \<^verbatim>\<open>time\<close>'s formatting and parsing and the test whether a text is a UUID
  (PostgreSQL's) are the fields of \<open>CursorLib\<close>; a query that fails is \<open>ListDb\<close>.
\<close>

subsection \<open>Pages\<close>

record ListFilter =
  lf_State :: string
  lf_Repository :: string
  lf_Limit :: int
  lf_After :: string

type_synonym BumpFilter = ListFilter

record CursorLib =
  cl_format :: "Time \<Rightarrow> string"
  cl_parse :: "string \<Rightarrow> Time option"
  cl_uuid :: "string \<Rightarrow> bool"

datatype lerr = ErrBadCursor | ListDb

definition page_limit :: "int \<Rightarrow> nat" where
  "page_limit n = nat (let n1 = (if n \<le> 0 then 50 else n) in if n1 > 500 then 500 else n1)"

definition key_less :: "Time \<times> string \<Rightarrow> Time \<times> string \<Rightarrow> bool" where
  "key_less a b = (fst a < fst b \<or> (fst a = fst b \<and> snd a < snd b))"

definition next_cursor :: "CursorLib \<Rightarrow> Time \<times> string \<Rightarrow> string" where
  "next_cursor lib k = cl_format lib (fst k) @ ''|'' @ snd k"

definition parse_after :: "CursorLib \<Rightarrow> string \<Rightarrow> lerr + (Time \<times> string) option" where
  "parse_after lib after =
     (if after = '''' then Inr None
      else case Cut after CHR ''|'' of (ts, i, ok) \<Rightarrow>
        (case cl_parse lib ts of None \<Rightarrow> Inl ErrBadCursor
         | Some at \<Rightarrow> if \<not> ok then Inl ErrBadCursor
             else if \<not> cl_uuid lib i then Inl ListDb else Inr (Some (at, i))))"

definition newest_first :: "('r \<Rightarrow> Time \<times> string) \<Rightarrow> 'r list \<Rightarrow> 'r list" where
  "newest_first key rows = rev (sort_key (\<lambda>r. fst (key r)) (sort_key (\<lambda>r. snd (key r)) rows))"

definition list_page ::
    "CursorLib \<Rightarrow> ('r \<Rightarrow> Time \<times> string) \<Rightarrow> ('r \<Rightarrow> bool) \<Rightarrow> int \<Rightarrow> string \<Rightarrow> 'r list \<Rightarrow> lerr + 'r list \<times> string" where
  "list_page lib key wanted limit after rows =
     (case parse_after lib after of Inl e \<Rightarrow> Inl e
      | Inr cursor \<Rightarrow>
          let n = page_limit limit;
              found = take (n + 1) (newest_first key (filter (\<lambda>r. wanted r \<and>
                (case cursor of None \<Rightarrow> True | Some c \<Rightarrow> key_less (key r) c)) rows))
          in if length found > n then (let page = take n found in Inr (page, next_cursor lib (key (last page))))
             else Inr (found, ''''))"

subsection \<open>Cases\<close>

record CaseRow =
  cr_ID :: string
  cr_Repository :: string
  cr_Number :: int
  cr_State :: string
  cr_RequesterLogin :: string
  cr_RequesterTrust :: string
  cr_ReceivedAt :: Time
  cr_LatestOutcomeKind :: string

definition latest_outcome :: "Snapshot \<Rightarrow> string" where
  "latest_outcome s =
     (case rev (filter (\<lambda>a. at_Outcome a \<noteq> None) (sort_key at_Ordinal (sn_Attempts s))) of
        [] \<Rightarrow> ''none''
      | a # _ \<Rightarrow> OutcomeKind_string (oc_Kind (the (at_Outcome a))))"

definition case_row :: "Snapshot \<Rightarrow> CaseRow" where
  "case_row s = \<lparr>cr_ID = sn_ID s, cr_Repository = sn_Repository s, cr_Number = sn_Number s,
     cr_State = CaseState_string (sn_State s), cr_RequesterLogin = rq_Login (sn_Requester s),
     cr_RequesterTrust = Trust_string (rq_Trust (sn_Requester s)), cr_ReceivedAt = sn_ReceivedAt s,
     cr_LatestOutcomeKind = latest_outcome s\<rparr>"

definition case_wanted :: "ListFilter \<Rightarrow> Snapshot \<Rightarrow> bool" where
  "case_wanted f s = ((lf_State f = '''' \<or> CaseState_string (sn_State s) = lf_State f) \<and>
     (lf_Repository f = '''' \<or> sn_Repository s = lf_Repository f))"

definition case_key :: "Snapshot \<Rightarrow> Time \<times> string" where
  "case_key s = (sn_ReceivedAt s, sn_ID s)"

definition ListCases :: "CursorLib \<Rightarrow> ListFilter \<Rightarrow> Store \<Rightarrow> lerr + CaseRow list \<times> string" where
  "ListCases lib f st =
     map_sum id (map_prod (map case_row) id)
       (list_page lib case_key (case_wanted f) (lf_Limit f) (lf_After f) (db_cases (st_cases st)))"

definition group_count :: "'a list \<Rightarrow> ('a \<Rightarrow> string) \<Rightarrow> string \<rightharpoonup> nat" where
  "group_count xs label l =
     (let n = length (filter (\<lambda>x. label x = l) xs) in if n = 0 then None else Some n)"

definition CountByState :: "Store \<Rightarrow> string \<rightharpoonup> nat" where
  "CountByState st = group_count (db_cases (st_cases st)) (\<lambda>s. CaseState_string (sn_State s))"

subsection \<open>Bumps\<close>

record BumpRow =
  br_ID :: string
  br_Repository :: string
  br_Number :: int
  br_Branch :: string
  br_State :: string
  br_HeadSha :: string
  br_Rounds :: nat
  br_LatestConclusion :: string
  br_OpenedAt :: Time

definition bump_row :: "BumpSnapshot \<Rightarrow> BumpRow" where
  "bump_row b = \<lparr>br_ID = bs_ID b, br_Repository = bs_Repository b, br_Number = bs_Number b,
     br_Branch = bs_Branch b, br_State = BumpState_string (bs_State b), br_HeadSha = bs_HeadSha b,
     br_Rounds = length (bs_Attempts b),
     br_LatestConclusion = (case find (\<lambda>v. cv_HeadSha v = bs_HeadSha b) (bs_Verdicts b) of
        None \<Rightarrow> ''none'' | Some v \<Rightarrow> CheckConclusion_string (cv_Conclusion v)),
     br_OpenedAt = bs_OpenedAt b\<rparr>"

definition bump_wanted :: "BumpFilter \<Rightarrow> BumpSnapshot \<Rightarrow> bool" where
  "bump_wanted f b = ((lf_State f = '''' \<or> BumpState_string (bs_State b) = lf_State f) \<and>
     (lf_Repository f = '''' \<or> bs_Repository b = lf_Repository f))"

definition bump_key :: "BumpSnapshot \<Rightarrow> Time \<times> string" where
  "bump_key b = (bs_OpenedAt b, bs_ID b)"

definition ListBumps :: "CursorLib \<Rightarrow> BumpFilter \<Rightarrow> Store \<Rightarrow> lerr + BumpRow list \<times> string" where
  "ListBumps lib f st =
     map_sum id (map_prod (map bump_row) id)
       (list_page lib bump_key (bump_wanted f) (lf_Limit f) (lf_After f) (bd_bumps (st_bumps st)))"

text \<open>\<^verbatim>\<open>countInto\<close>: the counts over a map that holds a zero for every label of the vocabulary.\<close>

definition seeded :: "string list \<Rightarrow> string \<rightharpoonup> nat" where
  "seeded labels l = (if l \<in> set labels then Some 0 else None)"

definition countInto :: "(string \<rightharpoonup> nat) \<Rightarrow> (string \<rightharpoonup> nat) \<Rightarrow> string \<rightharpoonup> nat" where
  "countInto out rows = out ++ rows"

definition CountBumpsByState :: "Store \<Rightarrow> string \<rightharpoonup> nat" where
  "CountBumpsByState st = countInto (seeded (map BumpState_string AllBumpStates))
     (group_count (bd_bumps (st_bumps st)) (\<lambda>b. BumpState_string (bs_State b)))"

definition CountVerdictsByConclusion :: "Store \<Rightarrow> string \<rightharpoonup> nat" where
  "CountVerdictsByConclusion st = countInto (seeded (map CheckConclusion_string AllCheckConclusions))
     (group_count (concat (map bs_Verdicts (bd_bumps (st_bumps st)))) (\<lambda>v. CheckConclusion_string (cv_Conclusion v)))"

definition CountAbandonmentsByReason :: "Store \<Rightarrow> string \<rightharpoonup> nat" where
  "CountAbandonmentsByReason st = countInto (seeded (map AbandonReason_string AllAbandonReasons))
     (group_count (List.map_filter bs_Abandonment (bd_bumps (st_bumps st))) (\<lambda>a. AbandonReason_string (ab_Reason a)))"

text \<open>The join of pushes, runs and verdicts: the model of each judged push and what was concluded.\<close>

record ModelVerdicts =
  mv_Model :: string
  mv_Passes :: nat
  mv_Fails :: nat

definition judged_push :: "BumpSnapshot \<Rightarrow> RepairAttempt \<Rightarrow> (string \<times> CheckConclusion) list" where
  "judged_push b a =
     (case (ra_Outcome a, ra_Run a) of
        (Some ou, Some run) \<Rightarrow>
          if ro_Kind ou = Pushed
          then map (\<lambda>v. (rn_Model run, cv_Conclusion v)) (filter (\<lambda>v. cv_HeadSha v = ro_HeadSha ou) (bs_Verdicts b))
          else []
      | _ \<Rightarrow> [])"

definition judged_pushes :: "Store \<Rightarrow> (string \<times> CheckConclusion) list" where
  "judged_pushes st = concat (map (\<lambda>b. concat (map (judged_push b) (bs_Attempts b))) (bd_bumps (st_bumps st)))"

definition RepairVerdictsByModel :: "Store \<Rightarrow> ModelVerdicts list" where
  "RepairVerdictsByModel st =
     (let js = judged_pushes st in
      map (\<lambda>m. \<lparr>mv_Model = m, mv_Passes = length (filter (\<lambda>j. j = (m, CheckSuccess)) js),
                mv_Fails = length (filter (\<lambda>j. j = (m, CheckFailure)) js)\<rparr>)
        (sort (remdups (map fst js))))"

end
