(* ===== verification/AgentRun.thy ===== *)
theory AgentRun
  imports Briefs GoText
begin

section \<open>One budgeted run of the agent\<close>

text \<open>
  \<^verbatim>\<open>internal/agent/run.go\<close>, \<^verbatim>\<open>budget_tool.go\<close> and \<^verbatim>\<open>ledger.go\<close>. The agent itself (packages
  jess and agentcore, the model behind them) is not under src/: what it does during one run
  is data, the record \<open>RunEnv\<close>, any value of it. It lists, in their order, the tool calls it
  made and the messages it committed (both reach this code on the loop's own goroutine), the
  events and ledger rows it delivered, its closing summary, and what the contexts, the clock
  and the diff count answered. What this code tells the agent is a list of \<open>AgentCall\<close>.
  Logging and metrics are left out.
\<close>

subsection \<open>Stops\<close>

datatype Stop = StopNone | StopTurns | StopWallClock | StopDiffLines | StopCancelled | StopModelErr

fun Stop_string :: "Stop \<Rightarrow> string" where
  "Stop_string StopNone = ''''"
| "Stop_string StopTurns = ''turns''"
| "Stop_string StopWallClock = ''wall_clock''"
| "Stop_string StopDiffLines = ''diff_lines''"
| "Stop_string StopCancelled = ''cancelled''"
| "Stop_string StopModelErr = ''model_error''"

text \<open>The first stop reason, set once, and the last diff count.\<close>

record stopFlag =
  sf_stop :: Stop
  sf_lines :: int

definition stopFlag_set :: "Stop \<Rightarrow> stopFlag \<Rightarrow> stopFlag \<times> bool" where
  "stopFlag_set v s = (if sf_stop s \<noteq> StopNone then (s, False) else (s\<lparr>sf_stop := v\<rparr>, True))"

definition stopFlag_diff :: "int \<Rightarrow> stopFlag \<Rightarrow> stopFlag" where
  "stopFlag_diff n s = s\<lparr>sf_lines := n\<rparr>"

subsection \<open>What the run shares with the agent's loop\<close>

datatype AgentCall = Steer string | Abort | SetTools | ClearAllQueues | Stream string

definition wrapUp :: string where
  "wrapUp = ''Budget is nearly used up. Stop investigating. Commit what you have now with git, then reply with your final summary in the required shape.''"

definition summaryPrompt :: string where
  "summaryPrompt = ''The run has ended. Reply now with only your final summary in exactly this shape:'' @
     NL @ NL @ SummaryShape"

record AgentSt =
  ag_flag :: stopFlag
  ag_turnsSeen :: "32 word"
  ag_turnSteered :: bool
  ag_wallTimer :: bool
  ag_mainRunEnded :: bool
  ag_told :: "AgentCall list"

definition tell :: "AgentCall \<Rightarrow> AgentSt \<Rightarrow> AgentSt" where
  "tell c st = st\<lparr>ag_told := ag_told st @ [c]\<rparr>"

text \<open>
  \<^verbatim>\<open>budgetTool.Execute\<close>: \<open>out\<close> is what the inner tool answered, \<open>readOnly\<close> what it declares of
  the call, \<open>diff\<close> what the count answers.
\<close>

definition budgetTool_Execute ::
    "int \<Rightarrow> bool \<Rightarrow> 'r \<Rightarrow> string + int \<Rightarrow> AgentSt \<Rightarrow> AgentSt \<times> 'r" where
  "budgetTool_Execute limit readOnly out diff st =
     (if readOnly then (st, out)
      else case diff of Inl _ \<Rightarrow> (st, out)
      | Inr n \<Rightarrow>
          let f1 = stopFlag_diff n (ag_flag st) in
          if n \<ge> limit
          then (case stopFlag_set StopDiffLines f1 of
                  (f2, True) \<Rightarrow> (tell Abort (st\<lparr>ag_flag := f2\<rparr>), out)
                | (f2, False) \<Rightarrow> (st\<lparr>ag_flag := f2\<rparr>, out))
          else (st\<lparr>ag_flag := f1\<rparr>, out))"

text \<open>The turn steer: \<open>atomic.Int32\<close> counts in 32 bits.\<close>

definition onMessage :: "int \<Rightarrow> bool \<Rightarrow> AgentSt \<Rightarrow> AgentSt" where
  "onMessage warnTurns isAssistant st =
     (if ag_mainRunEnded st \<or> \<not> isAssistant then st
      else let n = ag_turnsSeen st + 1; st1 = st\<lparr>ag_turnsSeen := n\<rparr> in
           if sint n \<ge> warnTurns \<and> \<not> ag_turnSteered st1
           then tell (Steer wrapUp) (st1\<lparr>ag_turnSteered := True\<rparr>)
           else st1)"

definition wallTimer_fires :: "AgentSt \<Rightarrow> AgentSt" where
  "wallTimer_fires st =
     (if ag_wallTimer st then tell (Steer wrapUp) (st\<lparr>ag_wallTimer := False\<rparr>) else st)"

datatype LoopStep = ToolCall bool "string + int" | CommitMessage bool | WallWarning

fun loop_step :: "Budget \<Rightarrow> LoopStep \<Rightarrow> AgentSt \<Rightarrow> AgentSt" where
  "loop_step b (ToolCall readOnly diff) st = fst (budgetTool_Execute (bg_maxDiffLines b) readOnly () diff st)"
| "loop_step b (CommitMessage isAssistant) st = onMessage (fst (WarnAt b)) isAssistant st"
| "loop_step b WallWarning st = wallTimer_fires st"

subsection \<open>The run id\<close>

record captureRun =
  cr_done :: bool
  cr_runID :: string
  cr_began :: "string list"

definition capture_see :: "string \<Rightarrow> captureRun \<Rightarrow> captureRun" where
  "capture_see runID c =
     (if runID = '''' then c
      else if cr_done c then c
      else \<lparr>cr_done = True, cr_runID = runID, cr_began = cr_began c @ [runID]\<rparr>)"

text \<open>\<open>Record\<close> and \<open>CommitAction\<close>: the sink's answer goes back unchanged.\<close>

definition capture_Record :: "string \<Rightarrow> 'e \<Rightarrow> captureRun \<Rightarrow> captureRun \<times> 'e" where
  "capture_Record runID answer c = (capture_see runID c, answer)"

subsection \<open>Events\<close>

text \<open>\<open>ms_Aborted\<close>: the message is an \<^verbatim>\<open>ac.Message\<close> that carries \<^verbatim>\<open>StopReasonAborted\<close>.\<close>

record AMessage =
  ms_Assistant :: bool
  ms_Aborted :: bool
  ms_Text :: string

datatype AgentEvent =
    EventTurnEnd
  | EventMessageEnd "AMessage option"
  | EventError "string option"
  | Event_other

fun assistantText :: "AgentEvent \<Rightarrow> string" where
  "assistantText (EventMessageEnd (Some m)) =
     (if \<not> ms_Assistant m then '''' else if ms_Aborted m then '''' else ms_Text m)"
| "assistantText _ = ''''"

fun run_event :: "AgentEvent \<Rightarrow> int \<times> string \<times> string option \<Rightarrow> int \<times> string \<times> string option" where
  "run_event EventTurnEnd (turns, last', err) = (turns + 1, last', err)"
| "run_event (EventMessageEnd m) (turns, last', err) =
     (let t = assistantText (EventMessageEnd m) in (turns, (if t \<noteq> '''' then t else last'), err))"
| "run_event (EventError e) (turns, last', err) = (turns, last', (case e of None \<Rightarrow> err | Some _ \<Rightarrow> e))"
| "run_event Event_other s = s"

definition summary_event :: "AgentEvent \<Rightarrow> string \<Rightarrow> string" where
  "summary_event ev last' = (let t = assistantText ev in if t \<noteq> '''' then t else last')"

datatype EndReason = EndReasonMaxTurns | EndReasonAborted | EndReasonError | EndReason_other

record RunSum =
  su_EndReason :: EndReason
  su_TurnCount :: int

subsection \<open>The summary\<close>

definition byte_trim :: "char set \<Rightarrow> string \<Rightarrow> string" where
  "byte_trim cs s = rev (dropWhile (\<lambda>c. c \<in> cs) (rev (dropWhile (\<lambda>c. c \<in> cs) s)))"

definition normaliseHeading :: "string \<Rightarrow> string" where
  "normaliseHeading s = ToLower (byte_trim {CHR '' '', CHR 0x09, CHR 0x0D, CHR ''*'', CHR ''#''} s)"

definition summaryHead :: string where
  "summaryHead = normaliseHeading (hd (Split SummaryShape CHR 0x0A))"

definition hasSummaryShape :: "string \<Rightarrow> bool" where
  "hasSummaryShape text =
     list_ex (\<lambda>line. HasPrefix (normaliseHeading line) summaryHead) (Split text CHR 0x0A)"

definition truncateSummary :: "string \<Rightarrow> string" where
  "truncateSummary s =
     (if length (runes s) \<le> 20000 then s
      else first_runes 20000 s @ NL @ NL @ ''[summary truncated]'')"

subsection \<open>RunAttempt\<close>

record RunEnv =
  rv_steps :: "LoopStep list"
  rv_ledger :: "string list"
  rv_events :: "AgentEvent list"
  rv_sum :: "RunSum option"
  rv_deadline :: bool
  rv_ctxDone :: bool
  rv_ctxDoneLater :: bool
  rv_sumSteps :: "LoopStep list"
  rv_sumEvents :: "AgentEvent list"
  rv_sumTurns :: "int option"
  rv_Input :: int
  rv_CacheRead :: int
  rv_Output :: int
  rv_diff :: "string + int"
  rv_started :: Time
  rv_ended :: Time

record RunReport =
  rr_RunID :: string
  rr_Usage :: Usage
  rr_Summary :: string
  rr_Stop :: Stop
  rr_Err :: "string option"

text \<open>
  The stop: \<open>flag\<close> is the stop recorded by the tools, \<open>deadline\<close> and \<open>ctxDone\<close> whether the
  run's own deadline has passed and whether the caller's context has ended.
\<close>

definition run_stop :: "Stop \<Rightarrow> RunSum option \<Rightarrow> bool \<Rightarrow> bool \<Rightarrow> Stop" where
  "run_stop flag closing deadline ctxDone =
     (case closing of
        Some s \<Rightarrow>
          (case su_EndReason s of
             EndReasonMaxTurns \<Rightarrow> (if flag = StopNone then StopTurns else flag)
           | EndReasonAborted \<Rightarrow>
               (if flag = StopNone
                then (if deadline \<and> \<not> ctxDone then StopWallClock else StopCancelled) else flag)
           | EndReasonError \<Rightarrow> StopModelErr
           | EndReason_other \<Rightarrow> flag)
      | None \<Rightarrow> if ctxDone then StopCancelled else if deadline then StopWallClock else flag)"

definition run_err :: "Stop \<Rightarrow> string option \<Rightarrow> string option" where
  "run_err stop modelErr =
     (if stop = StopModelErr
      then Some (case modelErr of None \<Rightarrow> ''model run ended with an error'' | Some e \<Rightarrow> e) else None)"

text \<open>The forced summary turn, on the same agent and so the same message hook.\<close>

definition summary_turn :: "Budget \<Rightarrow> RunEnv \<Rightarrow> AgentSt \<Rightarrow> string \<Rightarrow> AgentSt \<times> string \<times> int" where
  "summary_turn b env st last' =
     (let st1 = tell (Stream summaryPrompt) (tell ClearAllQueues (tell SetTools st));
          st2 = fold (loop_step b) (rv_sumSteps env) st1
      in (st2, fold summary_event (rv_sumEvents env) last',
          (case rv_sumTurns env of None \<Rightarrow> 0 | Some n \<Rightarrow> n)))"

definition shaped_summary :: "string \<Rightarrow> string" where
  "shaped_summary last' =
     (if hasSummaryShape last' then last'
      else if last' = '''' then ''The agent produced no summary.''
      else ''The agent produced no summary in the required shape. Its last message:'' @ NL @ NL @ last')"

text \<open>\<open>Time.Sub\<close> saturates.\<close>

definition Time_Sub :: "Time \<Rightarrow> Time \<Rightarrow> Duration" where
  "Time_Sub t u = max (- (2 ^ 63)) (min (2 ^ 63 - 1) (t - u))"

definition initial_agent :: "Budget \<Rightarrow> AgentSt" where
  "initial_agent b = \<lparr>ag_flag = \<lparr>sf_stop = StopNone, sf_lines = 0\<rparr>, ag_turnsSeen = 0, ag_turnSteered = False,
     ag_wallTimer = True, ag_mainRunEnded = False, ag_told = []\<rparr>"

definition main_run :: "Budget \<Rightarrow> RunEnv \<Rightarrow> AgentSt" where
  "main_run b env = (fold (loop_step b) (rv_steps env) (initial_agent b))
     \<lparr>ag_mainRunEnded := True, ag_wallTimer := False\<rparr>"

definition captured :: "RunEnv \<Rightarrow> captureRun" where
  "captured env = fold capture_see (rv_ledger env) \<lparr>cr_done = False, cr_runID = '''', cr_began = []\<rparr>"

definition RunAttempt :: "Budget \<Rightarrow> RunEnv \<Rightarrow> RunReport \<times> AgentSt" where
  "RunAttempt b env =
     (let st1 = main_run b env in
      case fold run_event (rv_events env) (0, '''', None) of (turns, last', modelErr) \<Rightarrow>
        let stop = run_stop (sf_stop (ag_flag st1)) (rv_sum env) (rv_deadline env) (rv_ctxDone env);
            skip = (stop = StopModelErr \<or> (stop = StopCancelled \<and> rv_ctxDoneLater env))
        in case (if \<not> hasSummaryShape last' \<and> \<not> skip then summary_turn b env st1 last'
                 else (st1, last', 0)) of (st2, last2, summaryTurns) \<Rightarrow>
          let lines = (case rv_diff env of Inl _ \<Rightarrow> sf_lines (ag_flag st2) | Inr n \<Rightarrow> n);
              turnCount = (case rv_sum env of
                  Some s \<Rightarrow> (if su_TurnCount s > turns then i64 (su_TurnCount s + summaryTurns)
                            else i64 (turns + summaryTurns))
                | None \<Rightarrow> i64 (turns + summaryTurns))
          in (\<lparr>rr_RunID = cr_runID (captured env),
               rr_Usage = \<lparr>us_Turns = turnCount, us_InputTokens = i64 (rv_Input env + rv_CacheRead env),
                 us_OutputTokens = rv_Output env, us_WallClock = Time_Sub (rv_ended env) (rv_started env),
                 us_DiffLines = lines\<rparr>,
               rr_Summary = truncateSummary (shaped_summary last2), rr_Stop = stop,
               rr_Err = run_err stop modelErr\<rparr>, st2))"

end
