(* ===== verification/GoPath.thy ===== *)
theory GoPath
  imports GoText
begin

section \<open>Paths and encodings of the host\<close>

text \<open>
  What the sandbox uses of Go's \<^verbatim>\<open>path/filepath\<close> (on Unix), \<^verbatim>\<open>strings.ReplaceAll\<close>,
  \<^verbatim>\<open>strings.Index\<close> and \<^verbatim>\<open>encoding/base64\<close>.
\<close>

subsection \<open>Paths\<close>

text \<open>\<^verbatim>\<open>Clean\<close> on the elements of a path; \<open>acc\<close> is what is kept, the last element first.\<close>

fun clean_elems :: "bool \<Rightarrow> string list \<Rightarrow> string list \<Rightarrow> string list" where
  "clean_elems rooted acc [] = rev acc"
| "clean_elems rooted acc (e # es) =
     (if e = '''' \<or> e = ''.'' then clean_elems rooted acc es
      else if e = ''..''
      then (case acc of
              [] \<Rightarrow> clean_elems rooted (if rooted then [] else [''..'']) es
            | a # as \<Rightarrow> if a = ''..'' then clean_elems rooted (''..'' # acc) es
                        else clean_elems rooted as es)
      else clean_elems rooted (e # acc) es)"

definition Clean :: "string \<Rightarrow> string" where
  "Clean p =
     (if p = '''' then ''.''
      else let rooted = HasPrefix p ''/'';
               es = clean_elems rooted [] (Split p CHR ''/'')
           in if rooted then CHR ''/'' # Join es ''/''
              else if es = [] then ''.'' else Join es ''/'')"

definition path_Join :: "string list \<Rightarrow> string" where
  "path_Join elem =
     (let es = dropWhile (\<lambda>e. e = '''') elem in if es = [] then '''' else Clean (Join es ''/''))"

definition path_Dir :: "string \<Rightarrow> string" where
  "path_Dir p = Clean (rev (dropWhile (\<lambda>c. c \<noteq> CHR ''/'') (rev p)))"

text \<open>A directory that \<^verbatim>\<open>Clean\<close> leaves as it is, absolute and not the root.\<close>

definition plain_elem :: "string \<Rightarrow> bool" where
  "plain_elem e = (e \<noteq> '''' \<and> e \<noteq> ''.'' \<and> e \<noteq> ''..'' \<and> CHR ''/'' \<notin> set e)"

definition absolute_dir :: "string \<Rightarrow> bool" where
  "absolute_dir d = (\<exists>es. es \<noteq> [] \<and> list_all plain_elem es \<and> d = CHR ''/'' # Join es ''/'')"

lemma Split_no_sep: "sep \<notin> set s \<Longrightarrow> Split s sep = [s]"
  by (induction s) auto

lemma Split_append: "sep \<notin> set s \<Longrightarrow> Split (s @ sep # t) sep = s # Split t sep"
  by (induction s) auto

lemma Split_Join:
  "es \<noteq> [] \<Longrightarrow> list_all (\<lambda>e. CHR ''/'' \<notin> set e) es \<Longrightarrow> Split (Join es ''/'') CHR ''/'' = es"
  by (induction es "''/''" rule: Join.induct) (auto simp: Split_no_sep Split_append)

lemma clean_plain: "list_all plain_elem es \<Longrightarrow> clean_elems r acc es = rev acc @ es"
  by (induction es arbitrary: acc) (auto simp: plain_elem_def)

lemma Clean_plain:
  assumes "es \<noteq> []" "list_all plain_elem es"
  shows "Clean (CHR ''/'' # Join es ''/'') = CHR ''/'' # Join es ''/''"
proof -
  have "list_all (\<lambda>e. CHR ''/'' \<notin> set e) es" using assms(2) by (simp add: list_all_iff plain_elem_def)
  with assms(1) have "Split (Join es ''/'') CHR ''/'' = es" by (rule Split_Join)
  moreover have "clean_elems True [] ([] # es) = es" using clean_plain [OF assms(2)] by simp
  ultimately show ?thesis by (simp add: Clean_def Let_def)
qed

lemma Join_append:
  "xs \<noteq> [] \<Longrightarrow> ys \<noteq> [] \<Longrightarrow> Join (xs @ ys) sep = Join xs sep @ sep @ Join ys sep"
proof (induction xs sep rule: Join.induct)
  case (2 p sep)
  then show ?case by (cases ys) auto
qed auto

lemma path_Join_plain:
  assumes "absolute_dir d" "list_all plain_elem es" "es \<noteq> []"
  shows "path_Join (d # es) = d @ ''/'' @ Join es ''/''" "absolute_dir (path_Join (d # es))"
proof -
  obtain ds where ds: "ds \<noteq> []" "list_all plain_elem ds" "d = CHR ''/'' # Join ds ''/''"
    using assms(1) by (auto simp: absolute_dir_def)
  have "Join (d # es) ''/'' = d @ ''/'' @ Join es ''/''" using assms(3) by (cases es) auto
  then have j: "Join (d # es) ''/'' = CHR ''/'' # Join (ds @ es) ''/''"
    by (simp add: ds(3) Join_append [OF ds(1) assms(3)])
  have all: "ds @ es \<noteq> []" "list_all plain_elem (ds @ es)" using ds assms by simp_all
  have p: "path_Join (d # es) = CHR ''/'' # Join (ds @ es) ''/''"
  proof -
    have "path_Join (d # es) = Clean (Join (d # es) ''/'')" by (simp add: path_Join_def Let_def ds(3))
    then show ?thesis by (simp only: j Clean_plain [OF all])
  qed
  then show "path_Join (d # es) = d @ ''/'' @ Join es ''/''"
    by (simp add: ds(3) Join_append [OF ds(1) assms(3)])
  show "absolute_dir (path_Join (d # es))" unfolding absolute_dir_def p using all by blast
qed

subsection \<open>Substrings\<close>

text \<open>\<^verbatim>\<open>strings.ReplaceAll\<close> for an \<open>old\<close> that is not empty.\<close>

function ReplaceAll :: "string \<Rightarrow> string \<Rightarrow> string \<Rightarrow> string" where
  "ReplaceAll [] old new = []"
| "ReplaceAll (c # s) old new =
     (if old \<noteq> [] \<and> HasPrefix (c # s) old then new @ ReplaceAll (drop (length old) (c # s)) old new
      else c # ReplaceAll s old new)"
  by pat_completeness auto
termination
  by (relation "measure (\<lambda>(s, _, _). length s)") (auto simp: neq_Nil_conv)

declare ReplaceAll.simps(2) [simp del]

fun Index :: "string \<Rightarrow> string \<Rightarrow> nat option" where
  "Index s sub =
     (if HasPrefix s sub then Some 0
      else (case s of [] \<Rightarrow> None | _ # t \<Rightarrow> map_option Suc (Index t sub)))"

declare Index.simps [simp del]

lemma Index_Some: "Index s sub = Some i \<Longrightarrow> \<exists>b. s = take i s @ sub @ b \<and> i \<le> length s"
proof (induction s sub arbitrary: i rule: Index.induct)
  case (1 s sub)
  show ?case
  proof (cases "HasPrefix s sub")
    case True
    then have "i = 0" using "1.prems" by (simp add: Index.simps)
    with True show ?thesis by (auto simp: HasPrefix_iff)
  next
    case False
    then obtain c t j where t: "s = c # t" "Index t sub = Some j" "i = Suc j"
      using "1.prems" by (subst (asm) Index.simps) (auto split: list.splits)
    from "1.IH" [OF False t(1) t(2)] show ?thesis by (auto simp: t(1,3))
  qed
qed

text \<open>
  Replacing by a text whose first and last characters do not occur in \<open>old\<close> leaves no
  occurrence of \<open>old\<close>.
\<close>

lemma Contains_append_guard:
  assumes "Contains (w @ x # s) old" "x \<notin> set old"
  shows "Contains w old \<or> Contains s old"
proof -
  obtain a b where e: "w @ x # s = a @ old @ b" using assms(1) by (auto simp: Contains_iff)
  consider (left) u where "a @ old = w @ x # u" | (right) u where "w = (a @ old) @ u"
    using e by (auto simp: append_eq_append_conv2 Cons_eq_append_conv append_eq_Cons_conv)
  then show ?thesis
  proof cases
    case right
    then show ?thesis by (auto simp: Contains_iff)
  next
    case left
    have s: "s = u @ b"
    proof -
      have "w @ x # s = (a @ old) @ b" using e by simp
      then show ?thesis by (simp add: left)
    qed
    consider v where "a = w @ x # v" | v where "w = a @ v" "old = v @ x # u"
      using left by (auto simp: append_eq_append_conv2 Cons_eq_append_conv append_eq_Cons_conv)
    then show ?thesis
    proof cases
      case 1
      then have "s = v @ old @ b" using e by simp
      then show ?thesis by (auto simp: Contains_iff)
    next
      case 2
      then show ?thesis using assms(2) by simp
    qed
  qed
qed

lemma ReplaceAll_prefix:
  assumes "new = x # m" "x \<notin> set p" "HasPrefix (ReplaceAll s old new) p"
  shows "HasPrefix s p"
  using assms(2,3)
proof (induction s arbitrary: p)
  case (Cons c s)
  show ?case
  proof (cases p)
    case (Cons d q)
    show ?thesis
    proof (cases "old \<noteq> [] \<and> HasPrefix (c # s) old")
      case True
      with Cons.prems Cons show ?thesis by (simp add: ReplaceAll.simps(2) assms(1))
    next
      case False
      with Cons.prems Cons Cons.IH [of q] show ?thesis by (auto simp: ReplaceAll.simps(2))
    qed
  qed simp
qed simp

lemma ReplaceAll_gone:
  assumes "old \<noteq> []" "new = x # m @ [y]" "x \<notin> set old" "y \<notin> set old" "\<not> Contains new old"
  shows "\<not> Contains (ReplaceAll s old new) old"
proof (induction "length s" arbitrary: s rule: less_induct)
  case less
  show ?case
  proof (cases s)
    case Nil
    then show ?thesis using assms(1) by simp
  next
    case (Cons c t)
    show ?thesis
    proof (cases "HasPrefix (c # t) old")
      case True
      let ?r = "ReplaceAll (drop (length old) (c # t)) old new"
      have "\<not> Contains ?r old" using assms(1) Cons by (intro less) (cases old, auto)
      moreover have "\<not> Contains (x # m) old"
        using assms(5) unfolding assms(2) Contains_iff by (metis append.assoc append_Cons)
      ultimately have "\<not> Contains ((x # m) @ y # ?r) old"
        using Contains_append_guard [OF _ assms(4), of "x # m" ?r] by blast
      with True assms(1) show ?thesis by (simp add: Cons ReplaceAll.simps(2)) (simp add: assms(2))
    next
      case False
      have "\<not> Contains (ReplaceAll t old new) old" using Cons by (intro less) simp
      moreover have "\<not> HasPrefix (c # ReplaceAll t old new) old"
      proof
        assume h: "HasPrefix (c # ReplaceAll t old new) old"
        obtain d q where o: "old = d # q" using assms(1) by (cases old) auto
        with h have "c = d" "HasPrefix (ReplaceAll t old new) q" by simp_all
        moreover have "x \<notin> set q" using assms(3) o by simp
        ultimately have "HasPrefix t q" using ReplaceAll_prefix [OF assms(2)] by blast
        with \<open>c = d\<close> o False show False by simp
      qed
      ultimately show ?thesis using False by (simp add: Cons ReplaceAll.simps(2))
    qed
  qed
qed

subsection \<open>Numbers\<close>

text \<open>\<^verbatim>\<open>strconv.Atoi\<close>: an optional sign and decimal digits, within 64 bits.\<close>

definition digit_val :: "char \<Rightarrow> int option" where
  "digit_val c = (let n = int (of_char c) in if 48 \<le> n \<and> n \<le> 57 then Some (n - 48) else None)"

fun digits_val :: "int \<Rightarrow> string \<Rightarrow> int option" where
  "digits_val acc [] = Some acc"
| "digits_val acc (c # s) = Option.bind (digit_val c) (\<lambda>d. digits_val (acc * 10 + d) s)"

definition Atoi :: "string \<Rightarrow> int option" where
  "Atoi s =
     (let (neg, ds) = (case s of c # t \<Rightarrow> if c = CHR ''-'' then (True, t)
                                  else if c = CHR ''+'' then (False, t) else (False, s)
                     | [] \<Rightarrow> (False, s))
      in if ds = [] then None
         else case digits_val 0 ds of None \<Rightarrow> None
         | Some n \<Rightarrow> let v = (if neg then - n else n) in
             if - (2 ^ 63) \<le> v \<and> v < 2 ^ 63 then Some v else None)"

subsection \<open>Base64\<close>

definition b64_char :: "nat \<Rightarrow> char" where
  "b64_char n = ''ABCDEFGHIJKLMNOPQRSTUVWXYZabcdefghijklmnopqrstuvwxyz0123456789+/'' ! n"

fun b64 :: "nat list \<Rightarrow> string" where
  "b64 (a # b # c # r) =
     [b64_char (a div 4), b64_char ((a mod 4) * 16 + b div 16),
      b64_char ((b mod 16) * 4 + c div 64), b64_char (c mod 64)] @ b64 r"
| "b64 [a, b] = [b64_char (a div 4), b64_char ((a mod 4) * 16 + b div 16), b64_char ((b mod 16) * 4), CHR ''='']"
| "b64 [a] = [b64_char (a div 4), b64_char ((a mod 4) * 16), CHR ''='', CHR ''='']"
| "b64 [] = []"

definition EncodeToString :: "string \<Rightarrow> string" where
  "EncodeToString s = b64 (map of_char s)"

definition angle :: "char \<Rightarrow> bool" where
  "angle c = (c = CHR ''<'' \<or> c = CHR ''>'')"

lemma b64_char_range: "n < 64 \<Longrightarrow> \<not> angle (b64_char n)"
proof -
  assume "n < 64"
  then have "b64_char n \<in> set ''ABCDEFGHIJKLMNOPQRSTUVWXYZabcdefghijklmnopqrstuvwxyz0123456789+/''"
    unfolding b64_char_def by (intro nth_mem) simp
  then show ?thesis by (auto simp: angle_def)
qed

lemma sextets:
  fixes a b c :: nat
  shows "a < 256 \<Longrightarrow> a div 4 < 64" "(a mod 4) * 16 < 64" "(b mod 16) * 4 < 64" "c mod 64 < 64"
    "b < 256 \<Longrightarrow> (a mod 4) * 16 + b div 16 < 64" "c < 256 \<Longrightarrow> (b mod 16) * 4 + c div 64 < 64"
proof -
  have m: "a mod 4 < 4" "b mod 16 < 16" by simp_all
  show "a < 256 \<Longrightarrow> a div 4 < 64" by (rule less_mult_imp_div_less) simp
  show "(a mod 4) * 16 < 64" "(b mod 16) * 4 < 64" "c mod 64 < 64" using m by simp_all
  have "b < 256 \<Longrightarrow> b div 16 < 16" by (rule less_mult_imp_div_less) simp
  then show "b < 256 \<Longrightarrow> (a mod 4) * 16 + b div 16 < 64" using m(1) by linarith
  have "c < 256 \<Longrightarrow> c div 64 < 4" by (rule less_mult_imp_div_less) simp
  then show "c < 256 \<Longrightarrow> (b mod 16) * 4 + c div 64 < 64" using m(2) by linarith
qed

lemma b64_no_angle: "list_all (\<lambda>n. n < 256) ns \<Longrightarrow> list_all (\<lambda>c. \<not> angle c) (b64 ns)"
proof (induction ns rule: b64.induct)
  case (1 a b c r)
  then show ?case by (simp add: b64_char_range sextets)
next
  case (2 a b)
  then show ?case by (simp add: b64_char_range sextets) (simp add: angle_def)
next
  case (3 a)
  then show ?case by (simp add: b64_char_range sextets) (simp add: angle_def)
qed simp

lemma Encode_no_angle: "CHR ''<'' \<notin> set (EncodeToString s)" "CHR ''>'' \<notin> set (EncodeToString s)"
proof -
  have "list_all (\<lambda>n. n < 256) (map (of_char :: char \<Rightarrow> nat) s)"
    by (induction s) (simp_all add: of_char_def)
  from b64_no_angle [OF this]
  show "CHR ''<'' \<notin> set (EncodeToString s)" "CHR ''>'' \<notin> set (EncodeToString s)"
    by (auto simp: EncodeToString_def list_all_iff angle_def)
qed

end
