(* ===== verification/Sandbox.thy ===== *)
theory Sandbox
  imports GoPath
begin

section \<open>The sandbox\<close>

text \<open>
  \<^verbatim>\<open>internal/sandbox\<close>: \<^verbatim>\<open>sandbox.go\<close>, \<^verbatim>\<open>git.go\<close>, \<^verbatim>\<open>head.go\<close>, \<^verbatim>\<open>manager.go\<close> and
  \<^verbatim>\<open>podman.go\<close>. Git, podman and the file system are not under src/: a command is recorded in
  the trace and answered by \<open>host\<close>, any function of the commands so far and this one. A command
  carries the whole argument vector and environment the code builds. An operation maps the
  manager's state to the new state and an error text (\<open>Inl\<close>) or a result. Timeouts are part of
  the answers; logging is left out.
\<close>

subsection \<open>The host\<close>

datatype HostCmd =
    Exec string "string list" string "string list"
  | StatPath string
  | MkdirAll string
  | Lstat string
  | RemoveFile string
  | WriteFile string string

record Answer =
  an_err :: "string option"
  an_combined :: string
  an_stdout :: string
  an_realDir :: bool
  an_notExist :: bool

type_synonym host = "HostCmd list \<Rightarrow> HostCmd \<Rightarrow> Answer"

record Lease =
  le_repository :: string
  le_seq :: nat

record Workspace =
  ws_Path :: string
  ws_Repository :: string
  ws_CloneURL :: string
  ws_Branch :: string
  ws_DefaultBranch :: string
  ws_BaseSha :: string
  ws_RemoteHead :: string
  ws_lease :: "Lease option"

record Container =
  ct_Name :: string
  ct_Workspace :: Workspace

text \<open>The configuration, with the first eight hex digits of a repository's SHA-256 (\<open>mg_sum8\<close>).\<close>

record Manager =
  mg_Podman :: string
  mg_Image :: string
  mg_WorkspacesDir :: string
  mg_BotName :: string
  mg_BotEmail :: string
  mg_sum8 :: "string \<Rightarrow> string"

text \<open>
  The state under the manager's mutex: the lease serial, the channels that are full, the
  holders, and the container last started on each path. \<open>sb_trace\<close> is what the host was asked.
\<close>

record SandboxSt =
  sb_seq :: nat
  sb_locks :: "string set"
  sb_holders :: "string \<rightharpoonup> Lease"
  sb_containers :: "string \<rightharpoonup> string"
  sb_trace :: "HostCmd list"

type_synonym 'a sandboxed = "SandboxSt \<Rightarrow> SandboxSt \<times> (string + 'a)"

definition ask :: "host \<Rightarrow> HostCmd \<Rightarrow> SandboxSt \<Rightarrow> SandboxSt \<times> Answer" where
  "ask host c s = (s\<lparr>sb_trace := sb_trace s @ [c]\<rparr>, host (sb_trace s) c)"

definition ret :: "'a \<Rightarrow> 'a sandboxed" where
  "ret x = (\<lambda>s. (s, Inr x))"

definition fail :: "string \<Rightarrow> 'a sandboxed" where
  "fail e = (\<lambda>s. (s, Inl e))"

definition andThen :: "'a sandboxed \<Rightarrow> ('a \<Rightarrow> 'b sandboxed) \<Rightarrow> 'b sandboxed" where
  "andThen m f = (\<lambda>s. case m s of (s', Inl e) \<Rightarrow> (s', Inl e) | (s', Inr x) \<Rightarrow> f x s')"

text \<open>\<open>attempt\<close> hands the error on as a value, for the calls whose error the code inspects or drops.\<close>

definition attempt :: "'a sandboxed \<Rightarrow> (string + 'a) sandboxed" where
  "attempt m = (\<lambda>s. case m s of (s', r) \<Rightarrow> (s', Inr r))"

definition wrap :: "string \<Rightarrow> 'a sandboxed \<Rightarrow> 'a sandboxed" where
  "wrap t m = (\<lambda>s. case m s of (s', Inl e) \<Rightarrow> (s', Inl (t @ '': '' @ e)) | (s', Inr x) \<Rightarrow> (s', Inr x))"

subsection \<open>Running a program\<close>

definition redact_arg :: "string \<Rightarrow> string" where
  "redact_arg a = (case Index a ''.extraheader='' of None \<Rightarrow> a
     | Some j \<Rightarrow> take (j + length ''.extraheader='') a @ ''<redacted>'')"

definition redact :: "string list \<Rightarrow> string list" where
  "redact args = map redact_arg args"

definition exec_error :: "string \<Rightarrow> string list \<Rightarrow> string \<Rightarrow> string \<Rightarrow> string" where
  "exec_error name args e s = name @ '' '' @ Join (redact args) '' '' @ '': '' @ e @ '': '' @ s"

text \<open>
  Combined output, trimmed, with the error if any; \<^verbatim>\<open>out\<close> answers stdout alone. In \<^verbatim>\<open>out\<close> the
  error text quotes stdout followed by stderr, which the answer's combined output stands for.
\<close>

definition run :: "host \<Rightarrow> string \<Rightarrow> string list \<Rightarrow> string \<Rightarrow> string list \<Rightarrow> SandboxSt \<Rightarrow> SandboxSt \<times> string \<times> string option" where
  "run host dir env name args s =
     (case ask host (Exec dir env name args) s of (s', a) \<Rightarrow>
        let t = TrimSpace (an_combined a)
        in (s', t, map_option (\<lambda>e. exec_error name args e t) (an_err a)))"

definition out :: "host \<Rightarrow> string \<Rightarrow> string list \<Rightarrow> string \<Rightarrow> string list \<Rightarrow> string sandboxed" where
  "out host dir env name args s =
     (case ask host (Exec dir env name args) s of (s', a) \<Rightarrow>
        (s', case an_err a of None \<Rightarrow> Inr (TrimSpace (an_stdout a))
           | Some e \<Rightarrow> Inl (exec_error name args e (TrimSpace (an_combined a)))))"

definition validateSha :: "string \<Rightarrow> string + string" where
  "validateSha s = (if shaRe s then Inr s else Inl (''not a 40-character hex sha: '' @ s))"

definition sha_of_out :: "string \<Rightarrow> string sandboxed" where
  "sha_of_out s = (\<lambda>st. (st, validateSha s))"

subsection \<open>Git\<close>

definition isLocalRemote :: "string \<Rightarrow> bool" where
  "isLocalRemote remote =
     (if remote = '''' then False
      else if HasPrefix remote ''file://'' then True
      else if Contains remote ''://'' then False
      else (case Index remote '':'' of None \<Rightarrow> True | Some i \<Rightarrow> Contains (take i remote) ''/''))"

definition hardeningArgs :: "string \<Rightarrow> string list" where
  "hardeningArgs remote =
     [''-c'', ''core.hooksPath=/dev/null'', ''-c'', ''core.fsmonitor=false'', ''-c'', ''credential.helper='',
      ''-c'', ''core.sshCommand='', ''-c'', ''core.askPass='', ''-c'', ''core.gitProxy='',
      ''-c'', ''uploadpack.packObjectsHook='', ''-c'', ''protocol.allow=never'',
      ''-c'', ''protocol.https.allow=always''] @
     (if isLocalRemote remote then [''-c'', ''protocol.file.allow=always''] else [])"

definition authEnvVar :: string where
  "authEnvVar = ''AUTOPHAGE_GIT_AUTH''"

definition gitArgs :: "Manager \<Rightarrow> string \<Rightarrow> bool \<Rightarrow> string list \<Rightarrow> string list" where
  "gitArgs m remote withAuth args =
     [''-c'', ''user.name='' @ mg_BotName m, ''-c'', ''user.email='' @ mg_BotEmail m] @
     hardeningArgs remote @
     (if withAuth then [''--config-env=http.https://github.com/.extraheader='' @ authEnvVar] else []) @ args"

definition gitEnv :: "string \<Rightarrow> string list \<times> string" where
  "gitEnv token =
     (let env = [''GIT_TERMINAL_PROMPT=0'', ''GIT_CONFIG_GLOBAL=/dev/null'', ''GIT_CONFIG_NOSYSTEM=1''] in
      if token \<noteq> ''''
      then (let auth = EncodeToString (''x-access-token:'' @ token)
            in (env @ [authEnvVar @ ''=AUTHORIZATION: basic '' @ auth], auth))
      else (env, ''''))"

definition redactAuth :: "string \<Rightarrow> string option \<Rightarrow> string \<Rightarrow> string \<times> string option" where
  "redactAuth s err auth =
     (if auth = '''' then (s, err)
      else (ReplaceAll s auth ''<redacted>'', map_option (\<lambda>e. ReplaceAll e auth ''<redacted>'') err))"

definition result_of :: "string \<times> string option \<Rightarrow> string + string" where
  "result_of r = (case snd r of None \<Rightarrow> Inr (fst r) | Some e \<Rightarrow> Inl e)"

definition git :: "host \<Rightarrow> Manager \<Rightarrow> string \<Rightarrow> string list \<Rightarrow> string sandboxed" where
  "git host m dir args s =
     (case run host dir (fst (gitEnv '''')) ''git'' (gitArgs m '''' False args) s of (s', r) \<Rightarrow> (s', result_of r))"

definition gitOut :: "host \<Rightarrow> Manager \<Rightarrow> string \<Rightarrow> string list \<Rightarrow> string sandboxed" where
  "gitOut host m dir args = out host dir (fst (gitEnv '''')) ''git'' (gitArgs m '''' False args)"

definition gitRemote :: "host \<Rightarrow> Manager \<Rightarrow> string \<Rightarrow> string \<Rightarrow> string \<Rightarrow> string list \<Rightarrow> string sandboxed" where
  "gitRemote host m dir token remote args s =
     (case gitEnv token of (env, auth) \<Rightarrow>
      (case run host dir env ''git'' (gitArgs m remote (token \<noteq> '''') args) s of
         (s', r) \<Rightarrow> (s', result_of (redactAuth (fst r) (snd r) auth))))"

subsection \<open>Workspaces\<close>

definition workspacePath :: "Manager \<Rightarrow> string \<Rightarrow> string + string" where
  "workspacePath m repository =
     (case Split repository CHR ''/'' of
        [owner, name] \<Rightarrow>
          if owner = '''' \<or> name = ''''
          then Inl ''invalid repository: want exactly two non-empty segments owner/name''
          else if Contains owner ''..'' \<or> Contains name ''..''
          then Inl ''invalid repository: must not contain two dots''
          else Inr (path_Join [mg_WorkspacesDir m, owner, name])
      | _ \<Rightarrow> Inl ''invalid repository: want exactly two non-empty segments owner/name'')"

definition config_template :: "string \<Rightarrow> string" where
  "config_template cloneURL =
     (let nl = [CHR 0x0A]; tab = [CHR 0x09] in
      ''[core]'' @ nl @ tab @ ''repositoryformatversion = 0'' @ nl @ tab @ ''filemode = true'' @ nl @
      tab @ ''bare = false'' @ nl @ tab @ ''logallrefupdates = true'' @ nl @
      ''[remote '' @ [CHR 0x22] @ ''origin'' @ [CHR 0x22] @ '']'' @ nl @ tab @ ''url = '' @ cloneURL @ nl @
      tab @ ''fetch = +refs/heads/*:refs/remotes/origin/*'' @ nl)"

definition resetGitConfig :: "host \<Rightarrow> string \<Rightarrow> string \<Rightarrow> unit sandboxed" where
  "resetGitConfig host path cloneURL s =
     (let gitDir = path_Join [path, ''.git'']; configPath = path_Join [gitDir, ''config''] in
      case ask host (Lstat gitDir) s of (s1, a) \<Rightarrow>
      (case an_err a of Some e \<Rightarrow> (s1, Inl (''stat '' @ gitDir @ '': '' @ e))
       | None \<Rightarrow>
         if \<not> an_realDir a then (s1, Inl (''refusing workspace: '' @ gitDir @ '' is not a real directory''))
         else case ask host (RemoveFile configPath) s1 of (s2, b) \<Rightarrow>
           if an_err b \<noteq> None \<and> \<not> an_notExist b then (s2, Inl (''remove '' @ configPath))
           else case ask host (WriteFile configPath (config_template cloneURL)) s2 of (s3, c) \<Rightarrow>
             (s3, case an_err c of Some e \<Rightarrow> Inl (''write '' @ configPath @ '': '' @ e) | None \<Rightarrow> Inr ())))"

text \<open>The clone of a first use: \<open>start\<close> is the branch it is asked for.\<close>

definition clone :: "host \<Rightarrow> Manager \<Rightarrow> string \<Rightarrow> string \<Rightarrow> string \<Rightarrow> string \<Rightarrow> string \<Rightarrow> unit sandboxed" where
  "clone host m path repository cloneURL start token =
     andThen (\<lambda>s. case ask host (MkdirAll (path_Dir path)) s of
                (s', a) \<Rightarrow> (s', case an_err a of Some e \<Rightarrow> Inl e | None \<Rightarrow> Inr ()))
       (\<lambda>_. andThen (wrap (''clone '' @ repository)
               (gitRemote host m (path_Dir path) token cloneURL
                  [''clone'', ''--no-tags'', ''--branch'', start, cloneURL, path]))
          (\<lambda>_. ret ()))"

definition reset_config :: "host \<Rightarrow> string \<Rightarrow> string \<Rightarrow> string \<Rightarrow> unit sandboxed" where
  "reset_config host repository path cloneURL =
     wrap (''reset git config for '' @ repository) (resetGitConfig host path cloneURL)"

definition fetch :: "host \<Rightarrow> Manager \<Rightarrow> string \<Rightarrow> string \<Rightarrow> string \<Rightarrow> string \<Rightarrow> unit sandboxed" where
  "fetch host m path repository cloneURL token =
     andThen (wrap (''fetch '' @ repository)
        (gitRemote host m path token cloneURL
           [''fetch'', ''--prune'', cloneURL, ''+refs/heads/*:refs/remotes/origin/*'']))
       (\<lambda>_. ret ())"

definition clean_tree :: "host \<Rightarrow> Manager \<Rightarrow> string \<Rightarrow> unit sandboxed" where
  "clean_tree host m path =
     andThen (attempt (git host m path [''rebase'', ''--abort'']))
       (\<lambda>_. andThen (attempt (git host m path [''merge'', ''--abort'']))
       (\<lambda>_. andThen (git host m path [''reset'', ''--hard''])
       (\<lambda>_. andThen (git host m path [''clean'', ''-fdx'']) (\<lambda>_. ret ()))))"

definition has_checkout :: "host \<Rightarrow> string \<Rightarrow> SandboxSt \<Rightarrow> SandboxSt \<times> (string + bool)" where
  "has_checkout host path s =
     (case ask host (StatPath (path_Join [path, ''.git''])) s of (s', a) \<Rightarrow> (s', Inr (an_err a = None)))"

definition checkout ::
    "host \<Rightarrow> Manager \<Rightarrow> string \<Rightarrow> string \<Rightarrow> string \<Rightarrow> string \<Rightarrow> string \<Rightarrow> Workspace sandboxed" where
  "checkout host m repository cloneURL branch defaultBranch token =
     (case workspacePath m repository of Inl e \<Rightarrow> fail e
      | Inr path \<Rightarrow>
        andThen (has_checkout host path) (\<lambda>there.
        andThen (if there
                 then andThen (reset_config host repository path cloneURL) (\<lambda>_.
                      andThen (fetch host m path repository cloneURL token) (\<lambda>_. clean_tree host m path))
                 else clone host m path repository cloneURL defaultBranch token) (\<lambda>_.
        (let baseRef = ''refs/remotes/origin/'' @ defaultBranch;
             branchRef = ''refs/remotes/origin/'' @ branch
         in andThen (wrap (''default branch '' @ defaultBranch) (gitOut host m path [''rev-parse'', baseRef])) (\<lambda>baseOut.
            andThen (wrap (''default branch '' @ defaultBranch) (sha_of_out baseOut)) (\<lambda>base.
            andThen (attempt (gitOut host m path [''rev-parse'', ''--verify'', ''--quiet'', branchRef])) (\<lambda>branchOut.
            andThen (case branchOut of Inl _ \<Rightarrow> ret ''''
                     | Inr sha \<Rightarrow> wrap (''remote head for '' @ branch) (sha_of_out sha)) (\<lambda>remoteHead.
            (let start = (if remoteHead \<noteq> '''' then branchRef else baseRef) in
             andThen (git host m path [''checkout'', ''-q'', ''-B'', branch, start]) (\<lambda>_.
             andThen (if start \<noteq> baseRef
                      then andThen (attempt (git host m path [''rebase'', baseRef])) (\<lambda>r.
                        case r of Inr _ \<Rightarrow> ret ()
                        | Inl _ \<Rightarrow>
                            andThen (attempt (git host m path [''rebase'', ''--abort''])) (\<lambda>_.
                            andThen (attempt (git host m path [''merge'', ''--no-commit'', ''--no-ff'', baseRef]))
                              (\<lambda>_. ret ())))
                      else ret ()) (\<lambda>_.
             ret \<lparr>ws_Path = path, ws_Repository = repository, ws_CloneURL = cloneURL, ws_Branch = branch,
                  ws_DefaultBranch = defaultBranch, ws_BaseSha = base, ws_RemoteHead = remoteHead,
                  ws_lease = None\<rparr>)))))))))))"

definition checkoutHead ::
    "host \<Rightarrow> Manager \<Rightarrow> string \<Rightarrow> string \<Rightarrow> string \<Rightarrow> string \<Rightarrow> string \<Rightarrow> Workspace sandboxed" where
  "checkoutHead host m repository cloneURL branch headSha token =
     (case workspacePath m repository of Inl e \<Rightarrow> fail e
      | Inr path \<Rightarrow>
        andThen (has_checkout host path) (\<lambda>there.
        andThen (if there then reset_config host repository path cloneURL
                 else clone host m path repository cloneURL branch token) (\<lambda>_.
        andThen (fetch host m path repository cloneURL token) (\<lambda>_.
        andThen (clean_tree host m path) (\<lambda>_.
        andThen (wrap (''branch '' @ branch @ '' is not on the remote'')
          (gitOut host m path [''rev-parse'', ''--verify'', ''--quiet'', ''refs/remotes/origin/'' @ branch])) (\<lambda>remoteOut.
        andThen (wrap (''remote head for '' @ branch) (sha_of_out remoteOut)) (\<lambda>remoteHead.
        if remoteHead \<noteq> headSha
        then fail (''branch '' @ branch @ '' is at '' @ remoteHead @ '', not the requested head '' @ headSha)
        else andThen (git host m path [''checkout'', ''-q'', ''-B'', branch, headSha]) (\<lambda>_.
          ret \<lparr>ws_Path = path, ws_Repository = repository, ws_CloneURL = cloneURL, ws_Branch = branch,
               ws_DefaultBranch = '''', ws_BaseSha = headSha, ws_RemoteHead = headSha, ws_lease = None\<rparr>))))))))"

end
