(* ===== verification/SandboxOps.thy ===== *)
theory SandboxOps
  imports Sandbox
begin

section \<open>The phases of a workspace\<close>

text \<open>
  The operations of \<^verbatim>\<open>Manager\<close> the runners call: the workspace locks of \<^verbatim>\<open>sandbox.go\<close>, the
  containers of \<^verbatim>\<open>podman.go\<close>, \<^verbatim>\<open>Prepare\<close> and \<^verbatim>\<open>PrepareHead\<close>, and the host side of a finished
  attempt (\<^verbatim>\<open>CommitAndPush\<close>, \<^verbatim>\<open>ConflictMarkers\<close>).
\<close>

subsection \<open>Locks\<close>

text \<open>
  \<^verbatim>\<open>lock\<close> at the moment its \<^verbatim>\<open>select\<close> proceeds: with the channel free it acquires, or gives up
  when the context has ended as well and the \<^verbatim>\<open>select\<close> takes that case (\<open>gaveUp\<close>); with the
  channel full only giving up can proceed. A lease is a fresh allocation compared by pointer,
  here its serial.
\<close>

definition lock :: "bool \<Rightarrow> string \<Rightarrow> Lease sandboxed" where
  "lock gaveUp repository s =
     (if gaveUp \<or> repository \<in> sb_locks s then (s, Inl ''context canceled'')
      else let held = \<lparr>le_repository = repository, le_seq = Suc (sb_seq s)\<rparr> in
           (s\<lparr>sb_seq := Suc (sb_seq s), sb_locks := insert repository (sb_locks s),
              sb_holders := (sb_holders s)(repository \<mapsto> held)\<rparr>, Inr held))"

definition unlock :: "string \<Rightarrow> Lease option \<Rightarrow> SandboxSt \<Rightarrow> SandboxSt" where
  "unlock repository held s =
     (case held of None \<Rightarrow> s
      | Some l \<Rightarrow>
          if sb_holders s repository \<noteq> Some l then s
          else s\<lparr>sb_holders := (sb_holders s)(repository := None),
                 sb_locks := sb_locks s - {repository}\<rparr>)"

definition recordContainer :: "string \<Rightarrow> string \<Rightarrow> SandboxSt \<Rightarrow> SandboxSt" where
  "recordContainer wsPath name s = s\<lparr>sb_containers := (sb_containers s)(wsPath \<mapsto> name)\<rparr>"

definition forgetContainer :: "string \<Rightarrow> SandboxSt \<Rightarrow> SandboxSt \<times> string" where
  "forgetContainer wsPath s =
     (s\<lparr>sb_containers := (sb_containers s)(wsPath := None)\<rparr>,
      case sb_containers s wsPath of None \<Rightarrow> '''' | Some n \<Rightarrow> n)"

subsection \<open>Containers\<close>

definition podman :: "Manager \<Rightarrow> string" where
  "podman m = (if mg_Podman m = '''' then ''podman'' else mg_Podman m)"

definition volumeSlug :: "Manager \<Rightarrow> string \<Rightarrow> string" where
  "volumeSlug m repository = ReplaceAll repository ''/'' ''-'' @ ''-'' @ mg_sum8 m repository"

definition workspaceLabel :: "Manager \<Rightarrow> string \<Rightarrow> string" where
  "workspaceLabel m repository = ''autophage.workspace='' @ volumeSlug m repository"

definition cacheVolumes :: "Manager \<Rightarrow> string \<Rightarrow> string list" where
  "cacheVolumes m repository =
     (let slug = volumeSlug m repository in
      [''-v'', ''autophage-cache-go-'' @ slug @ '':/cache/go:z'',
       ''-v'', ''autophage-cache-npm-'' @ slug @ '':/cache/npm:z'',
       ''-v'', ''autophage-cache-uv-'' @ slug @ '':/cache/uv:z''])"

definition agentHomeMount :: string where
  "agentHomeMount = ''type=tmpfs,destination=/home/agent,tmpfs-mode=0700,U=true''"

definition userns :: string where
  "userns = ''--userns=keep-id:uid=1000,gid=1000''"

definition warm :: "host \<Rightarrow> Manager \<Rightarrow> Workspace \<Rightarrow> unit sandboxed" where
  "warm host m ws s =
     (let args = [''run'', ''--rm'', userns, ''--cap-drop=all'', ''--security-opt=no-new-privileges'',
            ''--label'', workspaceLabel m (ws_Repository ws),
            ''-e'', ''GOPROXY=https://proxy.golang.org'', ''-e'', ''GOFLAGS=-mod=readonly'',
            ''-e'', ''GOSUMDB=sum.golang.org''] @
            [''-v'', ws_Path ws @ '':/work:Z''] @ cacheVolumes m (ws_Repository ws) @
            [''-w'', ''/work'', mg_Image m, ''warm-deps'']
      in case run host '''' [] (podman m) args s of (s', _, err) \<Rightarrow>
           (s', case err of None \<Rightarrow> Inr () | Some e \<Rightarrow> Inl e))"

definition attempt_id_ok :: "string \<Rightarrow> bool" where
  "attempt_id_ok i = (1 \<le> length i \<and> length i \<le> 60 \<and>
     list_all (\<lambda>c. c \<in> set ''ABCDEFGHIJKLMNOPQRSTUVWXYZabcdefghijklmnopqrstuvwxyz0123456789_-'') i)"

definition Sandbox_Start :: "host \<Rightarrow> Manager \<Rightarrow> Workspace \<Rightarrow> string \<Rightarrow> Container sandboxed" where
  "Sandbox_Start host m ws attemptID s =
     (if \<not> attempt_id_ok attemptID
      then (s, Inl ''invalid attempt id: want 1 to 60 characters of [A-Za-z0-9_-]'')
      else let name = ''autophage-'' @ attemptID;
               args = [''run'', ''-d'', ''--replace'', ''--name'', name, ''--network=none'', userns,
                 ''--label'', workspaceLabel m (ws_Repository ws),
                 ''--cap-drop=all'', ''--security-opt=no-new-privileges'', ''--read-only'',
                 ''--tmpfs'', ''/tmp:rw'', ''--mount'', agentHomeMount,
                 ''-e'', ''GOPROXY=off'', ''-e'', ''GOFLAGS=-mod=mod'',
                 ''-v'', ws_Path ws @ '':/work:Z''] @ cacheVolumes m (ws_Repository ws) @
                 [''-w'', ''/work'', mg_Image m, ''sleep'', ''infinity'']
           in case run host '''' [] (podman m) args s of (s', _, err) \<Rightarrow>
             (case err of
                Some e \<Rightarrow> (unlock (ws_Repository ws) (ws_lease ws) s', Inl (''start container: '' @ e))
              | None \<Rightarrow> (recordContainer (ws_Path ws) name s',
                         Inr \<lparr>ct_Name = name, ct_Workspace = ws\<rparr>)))"

definition gone :: "string \<Rightarrow> bool" where
  "gone stdout = Contains stdout ''no such container''"

definition remove_container :: "host \<Rightarrow> Manager \<Rightarrow> string \<Rightarrow> unit sandboxed" where
  "remove_container host m name s =
     (case run host '''' [] (podman m) [''rm'', ''-f'', name] s of (s', stdout, err) \<Rightarrow>
        (s', case err of None \<Rightarrow> Inr () | Some e \<Rightarrow> if gone stdout then Inr () else Inl e))"

fun remove_containers :: "host \<Rightarrow> Manager \<Rightarrow> string \<Rightarrow> string list \<Rightarrow> unit sandboxed" where
  "remove_containers host m repository [] = ret ()"
| "remove_containers host m repository (i # is) =
     andThen (wrap (''remove container '' @ i @ '' holding '' @ repository) (remove_container host m i))
       (\<lambda>_. remove_containers host m repository is)"

definition sweepContainers :: "host \<Rightarrow> Manager \<Rightarrow> string \<Rightarrow> unit sandboxed" where
  "sweepContainers host m repository =
     andThen (wrap (''list containers holding '' @ repository)
        (out host '''' [] (podman m) [''ps'', ''-aq'', ''--filter'', ''label='' @ workspaceLabel m repository]))
       (\<lambda>stdout. remove_containers host m repository (Fields stdout))"

definition endAgentPhase :: "host \<Rightarrow> Manager \<Rightarrow> Workspace \<Rightarrow> unit sandboxed" where
  "endAgentPhase host m ws s =
     (case forgetContainer (ws_Path ws) s of (s1, name) \<Rightarrow>
        andThen (if name = '''' then ret ()
                 else wrap (''end agent phase: remove container '' @ name) (remove_container host m name))
          (\<lambda>_. wrap ''end agent phase'' (sweepContainers host m (ws_Repository ws))) s1)"

text \<open>The unlock is deferred, so it happens whatever the removal answered.\<close>

definition Teardown :: "host \<Rightarrow> Manager \<Rightarrow> Container \<Rightarrow> unit sandboxed" where
  "Teardown host m c s =
     (case forgetContainer (ws_Path (ct_Workspace c)) s of (s1, _) \<Rightarrow>
      (case remove_container host m (ct_Name c) s1 of (s2, r) \<Rightarrow>
         (unlock (ws_Repository (ct_Workspace c)) (ws_lease (ct_Workspace c)) s2, r)))"

subsection \<open>Prepare\<close>

text \<open>What \<^verbatim>\<open>Prepare\<close> and \<^verbatim>\<open>PrepareHead\<close> share: on a failure of their own they release the lock.\<close>

definition prepared ::
    "host \<Rightarrow> Manager \<Rightarrow> bool \<Rightarrow> string \<Rightarrow> Workspace sandboxed \<Rightarrow> Workspace sandboxed" where
  "prepared host m gaveUp repository checkout' s =
     (case lock gaveUp repository s of
        (s1, Inl e) \<Rightarrow> (s1, Inl (''acquire workspace lock for '' @ repository @ '': '' @ e))
      | (s1, Inr held) \<Rightarrow>
         (case andThen (sweepContainers host m repository) (\<lambda>_.
               andThen checkout' (\<lambda>ws.
               andThen (warm host m (ws\<lparr>ws_lease := Some held\<rparr>)) (\<lambda>_. ret (ws\<lparr>ws_lease := Some held\<rparr>)))) s1 of
            (s2, Inl e) \<Rightarrow> (unlock repository (Some held) s2, Inl e)
          | (s2, Inr ws) \<Rightarrow> (s2, Inr ws)))"

definition Prepare ::
    "host \<Rightarrow> Manager \<Rightarrow> bool \<Rightarrow> string \<Rightarrow> string \<Rightarrow> string \<Rightarrow> string \<Rightarrow> string \<Rightarrow> Workspace sandboxed" where
  "Prepare host m gaveUp repository cloneURL branch defaultBranch token =
     prepared host m gaveUp repository (checkout host m repository cloneURL branch defaultBranch token)"

definition PrepareHead ::
    "host \<Rightarrow> Manager \<Rightarrow> bool \<Rightarrow> string \<Rightarrow> string \<Rightarrow> string \<Rightarrow> string \<Rightarrow> string \<Rightarrow> Workspace sandboxed" where
  "PrepareHead host m gaveUp repository cloneURL branch headSha token =
     (case validateSha headSha of
        Inl e \<Rightarrow> fail (''head sha for '' @ repository @ '': '' @ e)
      | Inr _ \<Rightarrow> prepared host m gaveUp repository (checkoutHead host m repository cloneURL branch headSha token))"

subsection \<open>After the run\<close>

text \<open>
  \<^verbatim>\<open>CommitAndPush\<close> answers the head even when the push failed: the result is the head, whether
  it was pushed, and the error.
\<close>

definition push_args :: "Workspace \<Rightarrow> string list" where
  "push_args ws =
     [''push'', ''--force-with-lease=refs/heads/'' @ ws_Branch ws @ '':'' @ ws_RemoteHead ws, ws_CloneURL ws,
      ''HEAD:refs/heads/'' @ ws_Branch ws]"

definition commit_head :: "host \<Rightarrow> Manager \<Rightarrow> Workspace \<Rightarrow> string \<Rightarrow> string sandboxed" where
  "commit_head host m ws message =
     andThen (endAgentPhase host m ws) (\<lambda>_.
     andThen (reset_config host (ws_Repository ws) (ws_Path ws) (ws_CloneURL ws)) (\<lambda>_.
     andThen (git host m (ws_Path ws) [''add'', ''-A'']) (\<lambda>_.
     andThen (attempt (git host m (ws_Path ws) [''diff'', ''--cached'', ''--quiet''])) (\<lambda>clean.
     andThen (case clean of Inr _ \<Rightarrow> ret ''''
              | Inl _ \<Rightarrow> git host m (ws_Path ws) [''commit'', ''-q'', ''-m'', message]) (\<lambda>_.
     andThen (gitOut host m (ws_Path ws) [''rev-parse'', ''HEAD'']) sha_of_out)))))"

definition CommitAndPush ::
    "host \<Rightarrow> Manager \<Rightarrow> Workspace \<Rightarrow> string \<Rightarrow> string \<Rightarrow> SandboxSt \<Rightarrow> SandboxSt \<times> string \<times> bool \<times> string option" where
  "CommitAndPush host m ws token message s =
     (case commit_head host m ws message s of
        (s1, Inl e) \<Rightarrow> (s1, '''', False, Some e)
      | (s1, Inr head) \<Rightarrow>
         (case gitRemote host m (ws_Path ws) token (ws_CloneURL ws) (push_args ws) s1 of
            (s2, Inl e) \<Rightarrow> (s2, head, False, Some e)
          | (s2, Inr _) \<Rightarrow> (s2, head, True, None)))"

definition conflictMarkerPattern :: string where
  "conflictMarkerPattern = ''^(<{7} |>{7} )''"

definition ConflictMarkers :: "host \<Rightarrow> Manager \<Rightarrow> Workspace \<Rightarrow> bool sandboxed" where
  "ConflictMarkers host m ws =
     wrap (''conflict markers for '' @ ws_Repository ws)
       (andThen (sha_of_out (ws_BaseSha ws)) (\<lambda>base.
        andThen (gitOut host m (ws_Path ws)
          [''diff'', base @ ''..HEAD'', ''--diff-filter=AM'', ''--name-only'', ''-G'' @ conflictMarkerPattern])
          (\<lambda>files. ret (files \<noteq> ''''))))"

definition lastLine :: "string \<Rightarrow> string" where
  "lastLine s = last (Split (TrimSpace s) CHR 0x0A)"

definition DiffLines :: "host \<Rightarrow> Manager \<Rightarrow> Container \<Rightarrow> string \<Rightarrow> int sandboxed" where
  "DiffLines host m c baseSha s =
     (case validateSha baseSha of
        Inl e \<Rightarrow> (s, Inl (''diff lines: refusing base sha: '' @ e))
      | Inr base \<Rightarrow>
         (case run host '''' [] (podman m) [''exec'', ct_Name c, ''sh'', ''-c'',
                 ''cd /work && git add -N . && git diff --numstat '' @ base @
                 '' | awk '' @ [CHR 0x27] @ ''{a+=$1; d+=$2} END {print a+d}'' @ [CHR 0x27]] s of
            (s', stdout, Some e) \<Rightarrow> (s', Inl e)
          | (s', stdout, None) \<Rightarrow>
             (s', case Atoi (lastLine stdout) of None \<Rightarrow> Inl (''diff lines: '' @ stdout) | Some n \<Rightarrow> Inr n)))"

end
