(* ===== verification/Closing.thy ===== *)
theory Closing
  imports GoText
begin

section \<open>Closing keywords\<close>

text \<open>
  \<^verbatim>\<open>closingKeywords\<close> and \<^verbatim>\<open>stripClosingKeywords\<close> of \<^verbatim>\<open>internal/agent/runner.go\<close>. The pattern is
  matched as Go's \<^verbatim>\<open>regexp\<close> does: at the leftmost position, the byte before it deciding the word
  boundary; under \<^verbatim>\<open>(?i)\<close> a letter \<^verbatim>\<open>s\<close> also matches U+017F, and the word class also U+017F and
  U+212A. No part of the pattern can match in two ways at one position, so the first way found
  is the match.
\<close>

definition word_byte :: "char \<Rightarrow> bool" where
  "word_byte c = (c \<in> set ''ABCDEFGHIJKLMNOPQRSTUVWXYZabcdefghijklmnopqrstuvwxyz0123456789_'')"

definition boundary :: "char option \<Rightarrow> string \<Rightarrow> bool" where
  "boundary prev s =
     ((case prev of None \<Rightarrow> False | Some c \<Rightarrow> word_byte c) \<noteq> (case s of [] \<Rightarrow> False | c # _ \<Rightarrow> word_byte c))"

text \<open>A keyword at the head of a string: the byte it ends with and what follows.\<close>

fun match_word :: "string \<Rightarrow> char option \<Rightarrow> string \<Rightarrow> (char option \<times> string) option" where
  "match_word [] prev s = Some (prev, s)"
| "match_word (l # w) prev [] = None"
| "match_word (l # w) prev (c # s) =
     (if lower_byte c = l then match_word w (Some c) s
      else if l = CHR ''s'' \<and> c = CHR 0xC5 \<and> HasPrefix s [CHR 0xBF]
      then match_word w (Some CHR 0xBF) (tl s) else None)"

definition closing_words :: "string list" where
  "closing_words = [''closes'', ''closed'', ''close'', ''fixes'', ''fixed'', ''fix'',
     ''resolves'', ''resolved'', ''resolve'']"

text \<open>The length of a name character at the head, 0 for none.\<close>

definition name_char :: "string \<Rightarrow> nat" where
  "name_char s =
     (case s of [] \<Rightarrow> 0
      | c # t \<Rightarrow> if word_byte c \<or> c = CHR ''.'' \<or> c = CHR ''-'' then 1
                 else if HasPrefix s [CHR 0xC5, CHR 0xBF] then 2
                 else if HasPrefix s [CHR 0xE2, CHR 0x84, CHR 0xAA] then 3 else 0)"

lemma name_char_Nil [simp]: "name_char [] = 0"
  by (simp add: name_char_def)

function name_span :: "string \<Rightarrow> string \<times> string" where
  "name_span s =
     (if name_char s = 0 then ([], s)
      else (case name_span (drop (name_char s) s) of (a, b) \<Rightarrow> (take (name_char s) s @ a, b)))"
  by pat_completeness auto
termination
proof (relation "measure length")
  fix s :: string
  assume "name_char s \<noteq> 0"
  then show "(drop (name_char s) s, s) \<in> measure length" by (cases s) auto
qed simp

declare name_span.simps [simp del]

definition decimal_digit :: "char \<Rightarrow> bool" where
  "decimal_digit d = (d \<in> set ''0123456789'')"

definition issue_number :: "string \<Rightarrow> (string \<times> string) option" where
  "issue_number s =
     (case s of [] \<Rightarrow> None
      | c # t \<Rightarrow>
          let ds = takeWhile decimal_digit t in
          if c \<noteq> CHR ''#'' \<or> ds = [] then None else Some (c # ds, drop (length ds) t))"

definition issue_ref :: "string \<Rightarrow> (string \<times> string) option" where
  "issue_ref s =
     (case name_span s of (owner, s1) \<Rightarrow>
        if owner = [] then issue_number s
        else (case s1 of [] \<Rightarrow> None
              | c # s2 \<Rightarrow>
                  if c \<noteq> CHR ''/'' then None
                  else case name_span s2 of (name, s3) \<Rightarrow>
                    if name = [] then None
                    else map_option (\<lambda>(num, r). (owner @ ''/'' @ name @ num, r)) (issue_number s3)))"

definition after_keyword :: "string \<Rightarrow> (string \<times> string) option" where
  "after_keyword s =
     (let s1 = (case s of [] \<Rightarrow> [] | c # t \<Rightarrow> if c = CHR '':'' then t else s);
          s2 = dropWhile (\<lambda>c. c \<in> {CHR '' '', CHR 0x09}) s1
      in if s2 = s1 then None else issue_ref s2)"

fun first_match :: "string list \<Rightarrow> char option \<Rightarrow> string \<Rightarrow> (string \<times> string) option" where
  "first_match [] prev s = None"
| "first_match (w # ws) prev s =
     (case (case match_word w prev s of None \<Rightarrow> None
            | Some (prev', s') \<Rightarrow> if boundary prev' s' then after_keyword s' else None) of
        None \<Rightarrow> first_match ws prev s
      | Some r \<Rightarrow> Some r)"

definition closing_at :: "char option \<Rightarrow> string \<Rightarrow> (string \<times> string) option" where
  "closing_at prev s = (if boundary prev s then first_match closing_words prev s else None)"

lemma match_word_shorter: "match_word w prev s = Some (p, r) \<Longrightarrow> length r \<le> length s"
  by (induction w prev s rule: match_word.induct) (auto split: if_splits)

lemma name_span_append: "fst (name_span s) @ snd (name_span s) = s"
proof (induction s rule: name_span.induct)
  case (1 s)
  then show ?case by (subst (1 2) name_span.simps) (auto split: prod.splits)
qed

lemma issue_number_shorter: "issue_number s = Some (g, r) \<Longrightarrow> s = g @ r \<and> g \<noteq> []"
proof -
  assume a: "issue_number s = Some (g, r)"
  then obtain c t where s: "s = c # t" by (cases s) (auto simp: issue_number_def)
  let ?ds = "takeWhile decimal_digit t"
  have "take (length ?ds) t = ?ds" by (rule takeWhile_eq_take [symmetric])
  then have "t = ?ds @ drop (length ?ds) t" by (metis append_take_drop_id)
  with a show ?thesis unfolding issue_number_def s Let_def
    by (cases "c \<noteq> CHR ''#'' \<or> ?ds = []") auto
qed

lemma issue_ref_shorter: "issue_ref s = Some (g, r) \<Longrightarrow> s = g @ r \<and> g \<noteq> []"
proof -
  assume a: "issue_ref s = Some (g, r)"
  obtain ow s1 where o: "name_span s = (ow, s1)" by (cases "name_span s")
  have s: "s = ow @ s1" using name_span_append [of s] o by simp
  show ?thesis
  proof (cases "ow = []")
    case True
    then show ?thesis using a o issue_number_shorter by (simp add: issue_ref_def)
  next
    case False
    then obtain s2 where s2: "s1 = CHR ''/'' # s2"
      using a o by (auto simp: issue_ref_def split: list.splits if_splits)
    obtain nm s3 where n: "name_span s2 = (nm, s3)" by (cases "name_span s2")
    have "s2 = nm @ s3" using name_span_append [of s2] n by simp
    then show ?thesis using a o s False n issue_number_shorter [of s3]
      by (auto simp: issue_ref_def s2 split: if_splits)
  qed
qed

lemma after_keyword_shorter: "after_keyword s = Some (g, r) \<Longrightarrow> length r < length s \<and> g \<noteq> []"
proof -
  assume a: "after_keyword s = Some (g, r)"
  let ?s1 = "case s of [] \<Rightarrow> [] | c # t \<Rightarrow> if c = CHR '':'' then t else s"
  let ?s2 = "dropWhile (\<lambda>c. c \<in> {CHR '' '', CHR 0x09}) ?s1"
  have "?s2 = g @ r" "g \<noteq> []"
    using a issue_ref_shorter [of ?s2 g r] by (auto simp: after_keyword_def Let_def split: if_splits)
  moreover have "length ?s2 \<le> length ?s1" by (rule length_dropWhile_le)
  moreover have "length ?s1 \<le> length s" by (auto split: list.splits)
  ultimately have "length (g @ r) \<le> length s" "g \<noteq> []" by auto
  then show ?thesis by (cases g) auto
qed

lemma closing_at_shorter: "closing_at prev s = Some (g, r) \<Longrightarrow> length r < length s \<and> g \<noteq> []"
proof -
  have "first_match ws prev s = Some (g, r) \<Longrightarrow> length r < length s \<and> g \<noteq> []" for ws
    by (induction ws)
      (auto split: option.splits if_splits dest!: match_word_shorter after_keyword_shorter)
  then show "closing_at prev s = Some (g, r) \<Longrightarrow> length r < length s \<and> g \<noteq> []"
    by (auto simp: closing_at_def split: if_splits)
qed

function strip_from :: "char option \<Rightarrow> string \<Rightarrow> string" where
  "strip_from prev [] = []"
| "strip_from prev (c # s) =
     (case closing_at prev (c # s) of
        Some (g, r) \<Rightarrow> g @ strip_from (Some (last g)) r
      | None \<Rightarrow> c # strip_from (Some c) s)"
  by pat_completeness auto
termination
  by (relation "measure (\<lambda>(_, s). length s)") (auto dest!: closing_at_shorter)

definition stripClosingKeywords :: "string \<Rightarrow> string" where
  "stripClosingKeywords s = strip_from None s"

text \<open>Whether GitHub would find a closing reference somewhere in a text.\<close>

fun closes_from :: "char option \<Rightarrow> string \<Rightarrow> bool" where
  "closes_from prev [] = False"
| "closes_from prev (c # s) = (closing_at prev (c # s) \<noteq> None \<or> closes_from (Some c) s)"

lemma strip_unchanged: "\<not> closes_from prev s \<Longrightarrow> strip_from prev s = s"
  by (induction s arbitrary: prev) (auto split: option.splits)

subsection \<open>Properties\<close>

text \<open>Stripping removes the keyword and keeps the reference, wherever it stands and however it is
  spelled, and leaves a text without closing references as it is; but it makes one pass, so a
  keyword in front of a keyword is brought next to the reference and the text that comes out
  still closes the issue.\<close>
theorem closing_keyword_survives:
  "(\<forall>s. closes_from None s \<or> stripClosingKeywords s = s) \<and>
   stripClosingKeywords ''This fixes #12, and CLOSES: o/r#7.'' = ''This #12, and o/r#7.'' \<and>
   stripClosingKeywords ''fixes fixes #12'' = ''fixes #12'' \<and> closes_from None ''fixes #12''"
proof -
  have "stripClosingKeywords ''This fixes #12, and CLOSES: o/r#7.'' = ''This #12, and o/r#7.''"
    "stripClosingKeywords ''fixes fixes #12'' = ''fixes #12''" "closes_from None ''fixes #12''"
    by code_simp+
  then show ?thesis using strip_unchanged by (auto simp: stripClosingKeywords_def)
qed

end
