(* ===== verification/Runner.thy ===== *)
theory Runner
  imports Translator AgentRun SandboxOps Routing Closing
begin

section \<open>The attempt runner\<close>

text \<open>
  \<^verbatim>\<open>internal/agent/runner.go\<close>. The services a running attempt calls answer from outside: what
  each answers, whether the attempt's or the daemon's context has ended when a step asks, and
  the reason a stop has recorded by then are the record \<open>RunnerEnv\<close>, any value of it; the steps
  are named by the texts the code logs. The sandbox's answers are those of the interface; its
  implementation is \<^verbatim>\<open>SandboxOps\<close>. Every call the code makes to a service is an \<open>Effect\<close>, in
  order; the store is the model's. Logging, metrics and the test-only model override are left out.
\<close>

subsection \<open>Attempts in flight\<close>

text \<open>
  A slot is allocated per run and compared by pointer: here its number. \<open>rg_gauge\<close> is the
  running gauge the metrics keep.
\<close>

record Slot =
  sl_cancelled :: bool
  sl_reason :: AbortReason

record Registry =
  rg_running :: "string \<rightharpoonup> nat"
  rg_slots :: "Slot list"
  rg_gauge :: int

definition no_abort :: AbortReason where
  "no_abort = AbortReason_other ''''"

definition register :: "string \<Rightarrow> Registry \<Rightarrow> Registry \<times> nat" where
  "register attemptID g =
     (let slot = length (rg_slots g) in
      (g\<lparr>rg_running := (rg_running g)(attemptID \<mapsto> slot),
         rg_slots := rg_slots g @ [\<lparr>sl_cancelled = False, sl_reason = no_abort\<rparr>],
         rg_gauge := rg_gauge g + 1\<rparr>, slot))"

definition Runner_remove :: "string \<Rightarrow> nat \<Rightarrow> Registry \<Rightarrow> Registry \<times> bool" where
  "Runner_remove attemptID slot g =
     (if rg_running g attemptID \<noteq> Some slot then (g, False)
      else (g\<lparr>rg_running := (rg_running g)(attemptID := None)\<rparr>, True))"

definition unregister :: "string \<Rightarrow> nat \<Rightarrow> Registry \<Rightarrow> Registry" where
  "unregister attemptID slot g =
     (case Runner_remove attemptID slot g of (g', True) \<Rightarrow> g'\<lparr>rg_gauge := rg_gauge g' - 1\<rparr> | (g', False) \<Rightarrow> g')"

definition Cancel :: "string \<Rightarrow> AbortReason \<Rightarrow> Registry \<Rightarrow> Registry \<times> bool" where
  "Cancel attemptID reason g =
     (let reason' = (if reason = no_abort then AbortOperatorStop else reason) in
      case rg_running g attemptID of None \<Rightarrow> (g, False)
      | Some slot \<Rightarrow> (g\<lparr>rg_slots := (rg_slots g)[slot := \<lparr>sl_cancelled = True, sl_reason = reason'\<rparr>]\<rparr>, True))"

definition Runner_Stop :: "string \<Rightarrow> Registry \<Rightarrow> Registry \<times> bool" where
  "Runner_Stop attemptID g = Cancel attemptID AbortOperatorStop g"

definition slot_reason :: "AbortReason \<Rightarrow> AbortReason \<Rightarrow> AbortReason" where
  "slot_reason recorded fallback = (if recorded = no_abort then fallback else recorded)"

definition shuttingDown :: "bool \<Rightarrow> AbortReason \<Rightarrow> bool" where
  "shuttingDown callerDone recorded = (callerDone \<and> slot_reason recorded no_abort = no_abort)"

subsection \<open>The services\<close>

datatype Effect =
    MintToken Repository
  | DefaultBranchOf Repository
  | PrepareWorkspace string string string string string
  | PrepareHeadWorkspace string string string string string
  | StartContainer Workspace string
  | DialTools Container
  | RunAgent string Budget string string
  | RemintToken Repository
  | PushWork Workspace string string
  | CheckConflicts Workspace
  | ReadIssue string int
  | OpenPR string string string string string
  | FindPR string string
  | CloseTools
  | TeardownContainer Container

record RunnerEnv =
  en_ctxDone :: "string \<Rightarrow> bool"
  en_callerDone :: "string \<Rightarrow> bool"
  en_reason :: "string \<Rightarrow> AbortReason"
  en_repoText :: "serr \<Rightarrow> string"
  en_mint :: "string + string"
  en_defaultBranch :: "gherr + string"
  en_prepare :: "string + Workspace"
  en_start :: "string + Container"
  en_tools :: "string option"
  en_resolve :: "Tier \<Rightarrow> string \<Rightarrow> string"
  en_build :: "string \<Rightarrow> string option"
  en_run :: RunEnv
  en_remint :: "string + string"
  en_push :: "string \<times> bool \<times> string option"
  en_markers :: "string + bool"
  en_issue :: "gherr + IssueDetail"
  en_openPR :: "string + int"
  en_findPR :: "string + int \<times> bool"
  en_began :: Time
  en_now :: Time

record RunnerCfg =
  rc_AttemptModel :: string
  rc_ApprovedModel :: string
  rc_CloneURL :: "(string \<Rightarrow> string) option"

definition default_CloneURL :: "(string \<Rightarrow> string) option \<Rightarrow> string \<Rightarrow> string" where
  "default_CloneURL f repository =
     (case f of None \<Rightarrow> ''https://github.com/'' @ repository @ ''.git'' | Some g \<Rightarrow> g repository)"

subsection \<open>Outcomes\<close>

text \<open>
  \<^verbatim>\<open>settled\<close>: the value the domain refused becomes an infrastructure failure that says why. The
  last branch, an empty message, is not reached.
\<close>

definition settled :: "derr + Outcome \<Rightarrow> Usage \<Rightarrow> Time \<Rightarrow> Outcome" where
  "settled o' u now =
     (case o' of Inr ou \<Rightarrow> ou
      | Inl err \<Rightarrow>
          (case OutcomeFailed FailureInfra (''outcome refused: '' @ error_text err) u now of
             Inr f \<Rightarrow> f
           | Inl _ \<Rightarrow> zero_outcome (OutcomeKind_other '''') 0 zero_usage ''''))"

definition runner_failed :: "FailureClass \<Rightarrow> string \<Rightarrow> Usage \<Rightarrow> Time \<Rightarrow> Outcome" where
  "runner_failed cls message u now = settled (OutcomeFailed cls message u now) u now"

definition infra_message :: "string \<Rightarrow> string \<Rightarrow> string \<Rightarrow> string" where
  "infra_message step attemptID detail =
     ''infrastructure failure at '' @ step @ ''; see `autophage why '' @ attemptID @ ''` on the daemon host'' @
     (if detail \<noteq> '''' then NL @ NL @ detail else '''')"

definition runner_infra :: "string \<Rightarrow> string \<Rightarrow> string \<Rightarrow> Usage \<Rightarrow> Time \<Rightarrow> Outcome" where
  "runner_infra attemptID step detail u now =
     runner_failed FailureInfra (infra_message step attemptID detail) u now"

text \<open>
  A failure before the agent ran: \<open>None\<close> is \<^verbatim>\<open>errShutdown\<close>, the one end without an outcome.
\<close>

definition runner_setup :: "RunnerEnv \<Rightarrow> string \<Rightarrow> string \<Rightarrow> string \<Rightarrow> (Outcome \<times> Stop) option" where
  "runner_setup env attemptID step err =
     (let reason = slot_reason (en_reason env step) no_abort in
      if en_ctxDone env step \<and> reason \<noteq> no_abort
      then Some (settled (OutcomeAborted reason
             (''The attempt was stopped during '' @ step @ '', before the agent ran: '' @ err) zero_usage (en_now env))
             zero_usage (en_now env), StopNone)
      else if en_ctxDone env step \<and> en_callerDone env step then None
      else Some (runner_infra attemptID step '''' zero_usage (en_now env), StopNone))"

subsection \<open>Steps\<close>

definition refreshDefaultBranch :: "RunnerEnv \<Rightarrow> Repository \<Rightarrow> Store \<Rightarrow> Store \<times> Repository" where
  "refreshDefaultBranch env repo st =
     (case en_defaultBranch env of Inl _ \<Rightarrow> (st, repo)
      | Inr branch \<Rightarrow>
          if branch = '''' \<or> branch = rp_DefaultBranch repo then (st, repo)
          else let repo' = repo\<lparr>rp_DefaultBranch := branch\<rparr> in
               if \<not> Enrolled repo' then (st, repo') else (EnrollRepository repo' st, repo'))"

definition recordRun :: "string \<Rightarrow> int \<Rightarrow> string \<Rightarrow> Run \<Rightarrow> Store \<Rightarrow> Store" where
  "recordRun repository number attemptID r st =
     (case UpdateCase repository number (\<lambda>c. Case_RecordRun c attemptID r) (st_cases st) of
        Inl _ \<Rightarrow> st | Inr (db, _) \<Rightarrow> st\<lparr>st_cases := db\<rparr>)"

definition truncate :: "string \<Rightarrow> nat \<Rightarrow> string" where
  "truncate s n = (if length (runes s) \<le> n then s else first_runes n s @ ''...'')"

definition pr_title :: "RunnerEnv \<Rightarrow> Case \<Rightarrow> string" where
  "pr_title env c =
     (case en_issue env of Inl _ \<Rightarrow> ''autophage: issue #'' @ show_int (cs_number c)
      | Inr detail \<Rightarrow>
          let t = TrimSpace (is_Title detail) in
          if t \<noteq> '''' then ''autophage: '' @ truncate t 70 else ''autophage: issue #'' @ show_int (cs_number c))"

definition pr_body :: "Case \<Rightarrow> string \<Rightarrow> bool \<Rightarrow> string" where
  "pr_body c summary partial =
     (if partial then ''Budget exhausted; this pull request carries the partial work.'' @ NL @ NL else '''') @
     stripClosingKeywords summary @ NL @ NL @ ''Fixes #'' @ show_int (cs_number c)"

definition openPullRequest ::
    "RunnerEnv \<Rightarrow> Case \<Rightarrow> Repository \<Rightarrow> string \<Rightarrow> bool \<Rightarrow> Effect list \<times> (string + int)" where
  "openPullRequest env c repo summary partial =
     (let eff = [ReadIssue (cs_repository c) (cs_number c),
                 OpenPR (cs_repository c) (Case_Branch c) (rp_DefaultBranch repo) (pr_title env c)
                   (pr_body c summary partial)]
      in case en_openPR env of Inr pr \<Rightarrow> (eff, Inr pr)
         | Inl err \<Rightarrow>
             (eff @ [FindPR (cs_repository c) (Case_Branch c)],
              case en_findPR env of Inl _ \<Rightarrow> Inl err | Inr (pr, found) \<Rightarrow> if found then Inr pr else Inl err))"

subsection \<open>After the push\<close>

text \<open>The end of a run whose branch reached the remote at \<open>head\<close>.\<close>

definition partial_pull_request ::
    "RunnerEnv \<Rightarrow> Case \<Rightarrow> Repository \<Rightarrow> Workspace \<Rightarrow> string \<Rightarrow> string \<Rightarrow> Effect list \<times> int" where
  "partial_pull_request env c repo ws head summary =
     (if head = ws_BaseSha ws then ([], 0)
      else case en_markers env of Inl _ \<Rightarrow> ([CheckConflicts ws], 0)
        | Inr marked \<Rightarrow>
            if marked then ([CheckConflicts ws], 0)
            else (case openPullRequest env c repo summary True of
                    (eff, Inl _) \<Rightarrow> (CheckConflicts ws # eff, 0)
                  | (eff, Inr pr) \<Rightarrow> (CheckConflicts ws # eff, pr)))"

definition runner_pushed ::
    "RunnerEnv \<Rightarrow> Case \<Rightarrow> Attempt \<Rightarrow> Repository \<Rightarrow> Workspace \<Rightarrow> string \<Rightarrow> string \<Rightarrow> RunReport \<Rightarrow>
     Effect list \<times> Outcome" where
  "runner_pushed env c a repo ws head summary report =
     (let u = rr_Usage report; now = en_now env in
      case rr_Stop report of
        StopModelErr \<Rightarrow>
          ([], runner_failed FailureModel
            (''model failure; see `autophage why '' @ at_ID a @ ''` on the daemon host'' @
             (if summary \<noteq> '''' then NL @ NL @ summary else '''')) u now)
      | StopCancelled \<Rightarrow>
          ([], settled (OutcomeAborted (slot_reason (en_reason env ''outcome'') AbortOperatorStop) summary u now) u now)
      | StopNone \<Rightarrow>
          if head = ws_BaseSha ws then ([], runner_failed FailureAgent summary u now)
          else (case en_markers env of
              Inl _ \<Rightarrow> ([CheckConflicts ws], runner_infra (at_ID a) ''conflict check'' summary u now)
            | Inr marked \<Rightarrow>
                if marked
                then ([CheckConflicts ws], runner_failed FailureAgent
                       (''left unresolved conflict markers on the branch'' @ NL @ NL @ summary) u now)
                else (case openPullRequest env c repo summary False of
                    (eff, Inl _) \<Rightarrow>
                      (CheckConflicts ws # eff, runner_infra (at_ID a) ''open pull request'' summary u now)
                  | (eff, Inr pr) \<Rightarrow>
                      (CheckConflicts ws # eff, settled (OutcomePullRequest pr head summary u now) u now)))
      | stop \<Rightarrow>
          (case partial_pull_request env c repo ws head summary of (eff, prNumber) \<Rightarrow>
             (eff, settled (if prNumber \<noteq> 0
                then OutcomeExhaustedWithPullRequest (Limit_of (Stop_string stop)) prNumber head summary u now
                else OutcomeExhausted (Limit_of (Stop_string stop)) summary u now) u now)))"

subsection \<open>The pipeline\<close>

text \<open>
  The run, the push and what follows. \<open>OnRunBegan\<close> is called when the ledger shows the first
  run id. The run's stop is read with the caller's context again only when it was cut short.
\<close>

definition with_model ::
    "RunnerEnv \<Rightarrow> Case \<Rightarrow> Attempt \<Rightarrow> Repository \<Rightarrow> string \<Rightarrow> Workspace \<Rightarrow> string \<Rightarrow> Store \<Rightarrow>
     Store \<times> Effect list \<times> (Outcome \<times> Stop) option" where
  "with_model env c a repo token ws modelID st =
     (let report = fst (RunAttempt (at_Budget a) (en_run env));
          st1 = fold (\<lambda>runID. recordRun (cs_repository c) (cs_number c) (at_ID a)
                   \<lparr>rn_RunID = runID, rn_Model = modelID, rn_BaseSha = ws_BaseSha ws, rn_BeganAt = en_began env\<rparr>)
                 (cr_began (captured (en_run env))) st;
          callerDone = (en_callerDone env ''run'' \<or> (rr_Stop report = StopCancelled \<and> en_callerDone env ''ended''));
          summary = (if rr_Summary report = '''' then ''The agent produced no summary.'' else rr_Summary report);
          pushToken = (case en_remint env of Inl _ \<Rightarrow> token | Inr fresh \<Rightarrow> fresh);
          ran = [RunAgent modelID (at_Budget a) (at_Brief a)
                   (''autophage/'' @ cs_repository c @ ''#'' @ show_int (cs_number c) @ ''/'' @ show_nat (at_Ordinal a)),
                 RemintToken repo,
                 PushWork ws pushToken (''autophage: attempt '' @ show_nat (at_Ordinal a))]
      in case en_push env of (head, pushed, pushErr) \<Rightarrow>
         if shuttingDown callerDone (en_reason env ''pushed'') then (st1, ran, None)
         else if pushErr \<noteq> None \<or> \<not> pushed
         then (st1, ran, Some (runner_infra (at_ID a) ''push'' summary (rr_Usage report) (en_now env), rr_Stop report))
         else (case runner_pushed env c a repo ws head summary report of (eff, ou) \<Rightarrow>
                 (st1, ran @ eff, Some (ou, rr_Stop report))))"

definition attempt_model :: "RunnerCfg \<Rightarrow> RunnerEnv \<Rightarrow> Attempt \<Rightarrow> string" where
  "attempt_model cfg env a =
     (if at_Kind a = Approved \<and> rc_ApprovedModel cfg \<noteq> ''''
      then en_resolve env TierApproved (rc_ApprovedModel cfg)
      else en_resolve env TierAttempt (rc_AttemptModel cfg))"

definition with_container ::
    "RunnerCfg \<Rightarrow> RunnerEnv \<Rightarrow> Case \<Rightarrow> Attempt \<Rightarrow> Repository \<Rightarrow> string \<Rightarrow> Workspace \<Rightarrow> Container \<Rightarrow> Store \<Rightarrow>
     Store \<times> Effect list \<times> (Outcome \<times> Stop) option" where
  "with_container cfg env c a repo token ws ctr st =
     (case en_tools env of
        Some e \<Rightarrow> (st, [DialTools ctr], runner_setup env (at_ID a) ''dial toolbox'' e)
      | None \<Rightarrow>
          let modelID = attempt_model cfg env a in
          case Models_Tier (en_build env) modelID of
            Some e \<Rightarrow> (st, [DialTools ctr, CloseTools], runner_setup env (at_ID a) ''model'' e)
          | None \<Rightarrow> (case with_model env c a repo token ws modelID st of
              (st', eff, r) \<Rightarrow> (st', DialTools ctr # eff @ [CloseTools], r)))"

definition Runner_execute ::
    "RunnerCfg \<Rightarrow> RunnerEnv \<Rightarrow> Case \<Rightarrow> Attempt \<Rightarrow> Store \<Rightarrow>
     Store \<times> Effect list \<times> (Outcome \<times> Stop) option" where
  "Runner_execute cfg env c a st =
     (case GetRepository (cs_repository c) st of
        Inl e \<Rightarrow> (st, [], runner_setup env (at_ID a) ''repository'' (en_repoText env e))
      | Inr repo0 \<Rightarrow>
        (case en_mint env of
           Inl e \<Rightarrow> (st, [MintToken repo0], runner_setup env (at_ID a) ''mint token'' e)
         | Inr token \<Rightarrow>
           (case refreshDefaultBranch env repo0 st of (st1, repo) \<Rightarrow>
              let eff = [MintToken repo0, DefaultBranchOf repo0,
                    PrepareWorkspace (rp_FullName repo) (default_CloneURL (rc_CloneURL cfg) (rp_FullName repo))
                      (Case_Branch c) (rp_DefaultBranch repo) token]
              in (case en_prepare env of
                Inl e \<Rightarrow> (st1, eff, runner_setup env (at_ID a) ''prepare workspace'' e)
              | Inr ws \<Rightarrow>
                (case en_start env of
                   Inl e \<Rightarrow> (st1, eff @ [StartContainer ws (at_ID a)],
                             runner_setup env (at_ID a) ''start container'' e)
                 | Inr ctr \<Rightarrow>
                   (case with_container cfg env c a repo token ws ctr st1 of (st2, eff2, r) \<Rightarrow>
                      (st2, eff @ StartContainer ws (at_ID a) # eff2 @ [TeardownContainer ctr], r)))))))"

text \<open>
  \<^verbatim>\<open>Run\<close>: \<open>between\<close> is what everybody else does to the store between the end of the run and the
  write of the outcome (other goroutines go on), any function.
\<close>

definition Runner_Run ::
    "RunnerCfg \<Rightarrow> RunnerEnv \<Rightarrow> (Store \<Rightarrow> Store) \<Rightarrow> string \<Rightarrow> Store \<Rightarrow> Store \<times> Effect list" where
  "Runner_Run cfg env between attemptID st =
     (case GetCaseByAttempt attemptID (st_cases st) of Inl _ \<Rightarrow> (st, [])
      | Inr c \<Rightarrow>
        (case Case_OpenAttempt c of None \<Rightarrow> (st, [])
         | Some a \<Rightarrow>
           if at_ID a \<noteq> attemptID then (st, [])
           else (case Runner_execute cfg env c a st of
              (st1, eff, None) \<Rightarrow> (between st1, eff)
            | (st1, eff, Some (ou, _)) \<Rightarrow>
                let st2 = between st1 in
                (case UpdateCase (cs_repository c) (cs_number c) (\<lambda>c. Case_RecordOutcome c attemptID ou)
                        (st_cases st2) of
                   Inl _ \<Rightarrow> (st2, eff) | Inr (db, _) \<Rightarrow> (st2\<lparr>st_cases := db\<rparr>, eff)))))"

end
