(* ===== verification/Repairer.thy ===== *)
theory Repairer
  imports Runner
begin

section \<open>The repair runner\<close>

text \<open>
  \<^verbatim>\<open>internal/agent/repair.go\<close>. As for the attempt runner, what the services answer is a record,
  \<open>RepairEnv\<close>, and the calls made are \<open>Effect\<close>s; the run itself is the same \<open>RunAttempt\<close>. A round
  works the branch of somebody else's pull request: it prepares the judged head, opens no pull
  request, and its outcomes are the upkeep context's. Logging and metrics are left out, and with
  them every use of an error's text.
\<close>

subsection \<open>Rounds in flight\<close>

record RepairSlot =
  rl_cancelled :: bool
  rl_reason :: RepairAbortReason

record RepairRegistry =
  rx_running :: "string \<rightharpoonup> nat"
  rx_slots :: "RepairSlot list"

definition no_repair_abort :: RepairAbortReason where
  "no_repair_abort = RepairAbortReason_other ''''"

definition Repairer_register :: "string \<Rightarrow> RepairRegistry \<Rightarrow> RepairRegistry \<times> nat" where
  "Repairer_register repairID g =
     (let slot = length (rx_slots g) in
      (g\<lparr>rx_running := (rx_running g)(repairID \<mapsto> slot),
         rx_slots := rx_slots g @ [\<lparr>rl_cancelled = False, rl_reason = no_repair_abort\<rparr>]\<rparr>, slot))"

definition Repairer_unregister :: "string \<Rightarrow> nat \<Rightarrow> RepairRegistry \<Rightarrow> RepairRegistry" where
  "Repairer_unregister repairID slot g =
     (if rx_running g repairID = Some slot then g\<lparr>rx_running := (rx_running g)(repairID := None)\<rparr> else g)"

definition cancelWith :: "string \<Rightarrow> RepairAbortReason \<Rightarrow> RepairRegistry \<Rightarrow> RepairRegistry \<times> bool" where
  "cancelWith repairID reason g =
     (case rx_running g repairID of None \<Rightarrow> (g, False)
      | Some slot \<Rightarrow> (g\<lparr>rx_slots := (rx_slots g)[slot := \<lparr>rl_cancelled = True, rl_reason = reason\<rparr>]\<rparr>, True))"

definition Repairer_Stop :: "string \<Rightarrow> RepairRegistry \<Rightarrow> RepairRegistry \<times> bool" where
  "Repairer_Stop repairID g = cancelWith repairID RepairAbortOperatorStop g"

definition Repairer_Cancel :: "string \<Rightarrow> RepairAbortReason \<Rightarrow> RepairRegistry \<Rightarrow> RepairRegistry \<times> bool" where
  "Repairer_Cancel repairID reason g = cancelWith repairID reason g"

definition repair_reason :: "RepairAbortReason \<Rightarrow> RepairAbortReason \<Rightarrow> RepairAbortReason" where
  "repair_reason recorded fallback = (if recorded \<noteq> no_repair_abort then recorded else fallback)"

definition repair_shuttingDown :: "bool \<Rightarrow> RepairAbortReason \<Rightarrow> bool" where
  "repair_shuttingDown callerDone recorded = (callerDone \<and> repair_reason recorded no_repair_abort = no_repair_abort)"

subsection \<open>The services and the outcomes\<close>

record RepairEnv =
  pe_ctxDone :: "string \<Rightarrow> bool"
  pe_callerDone :: "string \<Rightarrow> bool"
  pe_reason :: "string \<Rightarrow> RepairAbortReason"
  pe_repoText :: "serr \<Rightarrow> string"
  pe_mint :: "string + string"
  pe_prepareHead :: "string + Workspace"
  pe_start :: "string + Container"
  pe_tools :: "string option"
  pe_resolve :: "Tier \<Rightarrow> string \<Rightarrow> string"
  pe_build :: "string \<Rightarrow> string option"
  pe_run :: RunEnv
  pe_remint :: "string + string"
  pe_push :: "string \<times> bool \<times> string option"
  pe_markers :: "string + bool"
  pe_began :: Time
  pe_now :: Time

record RepairCfg =
  pc_Model :: string
  pc_RoundCap :: int
  pc_CloneURL :: "(string \<Rightarrow> string) option"

text \<open>A struct literal of the code leaves the fields it does not name at their zero values.\<close>

definition round_outcome :: "RepairOutcomeKind \<Rightarrow> string \<Rightarrow> Usage \<Rightarrow> Time \<Rightarrow> RepairOutcome" where
  "round_outcome kind summary u now =
     \<lparr>ro_Kind = kind, ro_EndedAt = now, ro_Usage = u, ro_Summary = summary, ro_HeadSha = '''',
      ro_Limit = Limit_other '''', ro_Class = FailureClass_other '''', ro_Message = '''',
      ro_Reason = no_repair_abort\<rparr>"

definition repair_failed :: "FailureClass \<Rightarrow> string \<Rightarrow> Usage \<Rightarrow> Time \<Rightarrow> RepairOutcome" where
  "repair_failed cls message u now =
     (round_outcome RepairFailed message u now)\<lparr>ro_Class := cls, ro_Message := message\<rparr>"

definition repair_infra :: "string \<Rightarrow> string \<Rightarrow> string \<Rightarrow> Usage \<Rightarrow> Time \<Rightarrow> RepairOutcome" where
  "repair_infra repairID step detail u now =
     repair_failed FailureInfra (infra_message step repairID detail) u now"

definition repair_aborted :: "RepairAbortReason \<Rightarrow> string \<Rightarrow> Usage \<Rightarrow> Time \<Rightarrow> RepairOutcome" where
  "repair_aborted reason summary u now = (round_outcome RepairAborted summary u now)\<lparr>ro_Reason := reason\<rparr>"

text \<open>A failure before the agent ran; \<open>None\<close> is \<^verbatim>\<open>errShutdown\<close>. The error is only logged.\<close>

definition repair_setup :: "RepairEnv \<Rightarrow> string \<Rightarrow> string \<Rightarrow> string \<Rightarrow> RepairOutcome option" where
  "repair_setup env repairID step err =
     (let reason = repair_reason (pe_reason env step) no_repair_abort in
      if pe_ctxDone env step \<and> reason \<noteq> no_repair_abort
      then Some (repair_aborted reason
             (''The round was stopped during '' @ step @ '', before the agent ran.'') zero_usage (pe_now env))
      else if pe_ctxDone env step \<and> pe_callerDone env step then None
      else Some (repair_infra repairID step '''' zero_usage (pe_now env)))"

subsection \<open>The pipeline\<close>

definition recordRepairRun :: "string \<Rightarrow> Run \<Rightarrow> Store \<Rightarrow> Store" where
  "recordRepairRun repairID r st =
     (case UpdateBumpByRepair repairID (\<lambda>b. Bump_RecordRun b repairID r) (st_bumps st) of
        Inl _ \<Rightarrow> st | Inr (db, _) \<Rightarrow> st\<lparr>st_bumps := db\<rparr>)"

text \<open>The end of a run whose branch reached the remote at \<open>head\<close>.\<close>

definition repair_pushed ::
    "RepairEnv \<Rightarrow> RepairAttempt \<Rightarrow> Workspace \<Rightarrow> string \<Rightarrow> string \<Rightarrow> RunReport \<Rightarrow> Effect list \<times> RepairOutcome" where
  "repair_pushed env a ws head summary report =
     (let u = rr_Usage report; now = pe_now env in
      case rr_Stop report of
        StopModelErr \<Rightarrow>
          ([], repair_failed FailureModel
            (''model failure; see `autophage why '' @ ra_ID a @ ''` on the daemon host'' @ NL @ NL @ summary) u now)
      | StopCancelled \<Rightarrow>
          ([], repair_aborted (repair_reason (pe_reason env ''outcome'') RepairAbortOperatorStop) summary u now)
      | StopNone \<Rightarrow>
          if head = ws_BaseSha ws then ([], round_outcome NoChange summary u now)
          else (case pe_markers env of
              Inl _ \<Rightarrow> ([CheckConflicts ws], repair_infra (ra_ID a) ''conflict check'' summary u now)
            | Inr marked \<Rightarrow>
                ([CheckConflicts ws],
                 if marked
                 then repair_failed FailureAgent
                        (''left unresolved conflict markers on the branch'' @ NL @ NL @ summary) u now
                 else (round_outcome Pushed summary u now)\<lparr>ro_HeadSha := head\<rparr>))
      | stop \<Rightarrow>
          ([], (round_outcome RepairBudgetExhausted summary u now)\<lparr>ro_Limit := Limit_of (Stop_string stop)\<rparr>))"

definition repair_model ::
    "RepairEnv \<Rightarrow> Bump \<Rightarrow> RepairAttempt \<Rightarrow> Repository \<Rightarrow> string \<Rightarrow> Workspace \<Rightarrow> string \<Rightarrow> Store \<Rightarrow>
     Store \<times> Effect list \<times> RepairOutcome option" where
  "repair_model env b a repo token ws modelID st =
     (let report = fst (RunAttempt (ra_Budget a) (pe_run env));
          st1 = fold (\<lambda>runID. recordRepairRun (ra_ID a)
                   \<lparr>rn_RunID = runID, rn_Model = modelID, rn_BaseSha = ws_BaseSha ws, rn_BeganAt = pe_began env\<rparr>)
                 (cr_began (captured (pe_run env))) st;
          callerDone = (pe_callerDone env ''run'' \<or> (rr_Stop report = StopCancelled \<and> pe_callerDone env ''ended''));
          summary = (if rr_Summary report = '''' then ''The agent produced no summary.'' else rr_Summary report);
          pushToken = (case pe_remint env of Inl _ \<Rightarrow> token | Inr fresh \<Rightarrow> fresh);
          ran = [RunAgent modelID (ra_Budget a) (ra_Brief a)
                   (''autophage/'' @ bp_repository b @ ''#'' @ show_int (bp_number b) @ ''/repair/'' @ show_nat (ra_Round a)),
                 RemintToken repo,
                 PushWork ws pushToken (''autophage: repair round '' @ show_nat (ra_Round a))]
      in case pe_push env of (head, pushed, pushErr) \<Rightarrow>
         if repair_shuttingDown callerDone (pe_reason env ''pushed'') then (st1, ran, None)
         else if pushErr \<noteq> None \<or> \<not> pushed
         then (st1, ran, Some (repair_infra (ra_ID a) ''push'' summary (rr_Usage report) (pe_now env)))
         else (case repair_pushed env a ws head summary report of (eff, ou) \<Rightarrow> (st1, ran @ eff, Some ou)))"

definition repair_container ::
    "RepairCfg \<Rightarrow> RepairEnv \<Rightarrow> Bump \<Rightarrow> RepairAttempt \<Rightarrow> Repository \<Rightarrow> string \<Rightarrow> Workspace \<Rightarrow> Container \<Rightarrow>
     Store \<Rightarrow> Store \<times> Effect list \<times> RepairOutcome option" where
  "repair_container cfg env b a repo token ws ctr st =
     (case pe_tools env of
        Some e \<Rightarrow> (st, [DialTools ctr], repair_setup env (ra_ID a) ''dial toolbox'' e)
      | None \<Rightarrow>
          let modelID = pe_resolve env TierRepair (pc_Model cfg) in
          case Models_Tier (pe_build env) modelID of
            Some e \<Rightarrow> (st, [DialTools ctr, CloseTools], repair_setup env (ra_ID a) ''model'' e)
          | None \<Rightarrow> (case repair_model env b a repo token ws modelID st of
              (st', eff, r) \<Rightarrow> (st', DialTools ctr # eff @ [CloseTools], r)))"

definition Repairer_execute ::
    "RepairCfg \<Rightarrow> RepairEnv \<Rightarrow> Bump \<Rightarrow> RepairAttempt \<Rightarrow> Store \<Rightarrow>
     Store \<times> Effect list \<times> RepairOutcome option" where
  "Repairer_execute cfg env b a st =
     (case GetRepository (bp_repository b) st of
        Inl e \<Rightarrow> (st, [], repair_setup env (ra_ID a) ''repository'' (pe_repoText env e))
      | Inr repo \<Rightarrow>
        (case pe_mint env of
           Inl e \<Rightarrow> (st, [MintToken repo], repair_setup env (ra_ID a) ''mint token'' e)
         | Inr token \<Rightarrow>
            let eff = [MintToken repo,
                  PrepareHeadWorkspace (rp_FullName repo) (default_CloneURL (pc_CloneURL cfg) (rp_FullName repo))
                    (bp_branch b) (ra_BaseSha a) token]
            in (case pe_prepareHead env of
              Inl e \<Rightarrow> (st, eff, repair_setup env (ra_ID a) ''prepare workspace'' e)
            | Inr ws \<Rightarrow>
              (case pe_start env of
                 Inl e \<Rightarrow> (st, eff @ [StartContainer ws (ra_ID a)],
                           repair_setup env (ra_ID a) ''start container'' e)
               | Inr ctr \<Rightarrow>
                 (case repair_container cfg env b a repo token ws ctr st of (st2, eff2, r) \<Rightarrow>
                    (st2, eff @ StartContainer ws (ra_ID a) # eff2 @ [TeardownContainer ctr], r))))))"

text \<open>\<^verbatim>\<open>Run\<close>; \<open>between\<close> as in the attempt runner.\<close>

definition Repairer_Run ::
    "RepairCfg \<Rightarrow> RepairEnv \<Rightarrow> (Store \<Rightarrow> Store) \<Rightarrow> string \<Rightarrow> Store \<Rightarrow> Store \<times> Effect list" where
  "Repairer_Run cfg env between repairID st =
     (case GetBumpByRepair repairID (st_bumps st) of Inl _ \<Rightarrow> (st, [])
      | Inr b \<Rightarrow>
        (case Bump_OpenRepair b of None \<Rightarrow> (st, [])
         | Some a \<Rightarrow>
           if ra_ID a \<noteq> repairID then (st, [])
           else (case Repairer_execute cfg env b a st of
              (st1, eff, None) \<Rightarrow> (between st1, eff)
            | (st1, eff, Some ou) \<Rightarrow>
                let st2 = between st1 in
                (case UpdateBumpByRepair repairID (\<lambda>b. Bump_RecordOutcome b repairID ou (pc_RoundCap cfg))
                        (st_bumps st2) of
                   Inl _ \<Rightarrow> (st2, eff) | Inr (db, _) \<Rightarrow> (st2\<lparr>st_bumps := db\<rparr>, eff)))))"

end
