(* ===== verification/AgentRunInv.thy ===== *)
theory AgentRunInv
  imports AgentRun
begin

section \<open>What a budgeted run promises\<close>

text \<open>
  The loop's invariant (at most one abort, at most one steer of each kind, the stop flag set
  exactly when the diff limit was reached), the turn warning, the stop a report carries and
  the bound on its summary. The runners rest on \<open>report_summary\<close> and \<open>report_stop\<close>.
\<close>

subsection \<open>The loop\<close>

definition crossed :: "Budget \<Rightarrow> LoopStep \<Rightarrow> bool" where
  "crossed b s = (\<exists>n. s = ToolCall False (Inr n) \<and> bg_maxDiffLines b \<le> n)"

definition loop_inv :: "AgentSt \<Rightarrow> bool" where
  "loop_inv st \<longleftrightarrow>
     set (ag_told st) \<subseteq> {Steer wrapUp, Abort} \<and>
     count_list (ag_told st) (Steer wrapUp) = of_bool (ag_turnSteered st) + of_bool (\<not> ag_wallTimer st) \<and>
     count_list (ag_told st) Abort = of_bool (sf_stop (ag_flag st) = StopDiffLines) \<and>
     sf_stop (ag_flag st) \<in> {StopNone, StopDiffLines}"

lemma loop_inv_step: "loop_inv st \<Longrightarrow> loop_inv (loop_step b s st)"
  by (cases s)
    (auto simp: loop_inv_def budgetTool_Execute_def onMessage_def wallTimer_fires_def tell_def
      stopFlag_set_def stopFlag_diff_def Let_def split: sum.splits)

lemma loop_inv_run: "loop_inv st \<Longrightarrow> loop_inv (fold (loop_step b) ss st)"
  by (induction ss arbitrary: st) (auto simp: loop_inv_step)

lemma loop_inv_start: "loop_inv (initial_agent b)"
  by (simp add: loop_inv_def initial_agent_def)

lemma flag_step:
  "sf_stop (ag_flag st) \<in> {StopNone, StopDiffLines} \<Longrightarrow>
   sf_stop (ag_flag (loop_step b s st)) = (if crossed b s then StopDiffLines else sf_stop (ag_flag st))"
  by (cases s)
    (auto simp: crossed_def budgetTool_Execute_def onMessage_def wallTimer_fires_def tell_def
      stopFlag_set_def stopFlag_diff_def Let_def split: sum.splits)

lemma flag_run:
  "loop_inv st \<Longrightarrow> sf_stop (ag_flag (fold (loop_step b) ss st)) =
     (if \<exists>s \<in> set ss. crossed b s then StopDiffLines else sf_stop (ag_flag st))"
proof (induction ss arbitrary: st)
  case (Cons s ss)
  moreover have "loop_inv (loop_step b s st)" using Cons.prems by (rule loop_inv_step)
  moreover have "sf_stop (ag_flag st) \<in> {StopNone, StopDiffLines}" using Cons.prems by (simp add: loop_inv_def)
  ultimately show ?case by (simp add: flag_step)
qed simp

lemma main_run_flag:
  "sf_stop (ag_flag (main_run b env)) =
     (if \<exists>s \<in> set (rv_steps env). crossed b s then StopDiffLines else StopNone)"
  using flag_run [OF loop_inv_start, of b "rv_steps env" b] by (simp add: main_run_def initial_agent_def)

text \<open>After the main run only the diff limit can still say anything.\<close>

definition ended :: "AgentSt \<Rightarrow> bool" where
  "ended st = (ag_mainRunEnded st \<and> \<not> ag_wallTimer st \<and> sf_stop (ag_flag st) \<in> {StopNone, StopDiffLines})"

lemma ended_step:
  assumes "ended st"
  shows "\<exists>more. ag_told (loop_step b s st) = ag_told st @ more \<and> set more \<subseteq> {Abort} \<and>
    count_list more Abort + of_bool (sf_stop (ag_flag st) = StopDiffLines) =
      (of_bool (sf_stop (ag_flag (loop_step b s st)) = StopDiffLines) :: nat) \<and> ended (loop_step b s st)"
  using assms
  by (cases s)
    (auto simp: ended_def budgetTool_Execute_def onMessage_def wallTimer_fires_def tell_def
      stopFlag_set_def stopFlag_diff_def Let_def split: sum.splits)

lemma ended_run:
  assumes "ended st"
  shows "\<exists>more. ag_told (fold (loop_step b) ss st) = ag_told st @ more \<and> set more \<subseteq> {Abort} \<and>
    count_list more Abort + of_bool (sf_stop (ag_flag st) = StopDiffLines) \<le> (1 :: nat)"
  using assms
proof (induction ss arbitrary: st)
  case (Cons s ss)
  obtain m1 where m1: "ag_told (loop_step b s st) = ag_told st @ m1" "set m1 \<subseteq> {Abort}"
    "count_list m1 Abort + of_bool (sf_stop (ag_flag st) = StopDiffLines) =
      (of_bool (sf_stop (ag_flag (loop_step b s st)) = StopDiffLines) :: nat)" "ended (loop_step b s st)"
    using ended_step [OF Cons.prems, of b s] by blast
  obtain m2 where m2: "ag_told (fold (loop_step b) ss (loop_step b s st)) = ag_told (loop_step b s st) @ m2"
    "set m2 \<subseteq> {Abort}"
    "count_list m2 Abort + of_bool (sf_stop (ag_flag (loop_step b s st)) = StopDiffLines) \<le> (1 :: nat)"
    using Cons.IH [OF m1(4)] by blast
  from m1 m2 show ?case by (intro exI [of _ "m1 @ m2"]) (simp add: add.assoc)
qed simp

lemma main_run_ended: "ended (main_run b env)"
  using main_run_flag [of b env] by (simp add: ended_def main_run_def)

subsection \<open>The turn warning\<close>

lemma onMessage_main:
  "\<not> ag_mainRunEnded st \<Longrightarrow> \<not> ag_mainRunEnded (onMessage w a st) \<and>
     ag_turnsSeen (onMessage w a st) = (if a then ag_turnsSeen st + 1 else ag_turnsSeen st) \<and>
     ag_turnSteered (onMessage w a st) = (ag_turnSteered st \<or> (a \<and> w \<le> sint (ag_turnsSeen st + 1)))"
  by (simp add: onMessage_def tell_def Let_def) blast

lemma other_steps_main:
  "ag_mainRunEnded (fst (budgetTool_Execute l ro x d st)) = ag_mainRunEnded st \<and>
   ag_turnsSeen (fst (budgetTool_Execute l ro x d st)) = ag_turnsSeen st \<and>
   ag_turnSteered (fst (budgetTool_Execute l ro x d st)) = ag_turnSteered st"
  "ag_mainRunEnded (wallTimer_fires st) = ag_mainRunEnded st \<and>
   ag_turnsSeen (wallTimer_fires st) = ag_turnsSeen st \<and>
   ag_turnSteered (wallTimer_fires st) = ag_turnSteered st"
  by (simp_all add: budgetTool_Execute_def wallTimer_fires_def tell_def Let_def split: sum.splits prod.splits bool.splits)

lemma turn_count_step:
  "\<not> ag_mainRunEnded st \<Longrightarrow> \<not> ag_mainRunEnded (loop_step b s st) \<and>
     ag_turnsSeen (loop_step b s st) =
       (if s = CommitMessage True then ag_turnsSeen st + 1 else ag_turnsSeen st) \<and>
     (ag_turnSteered (loop_step b s st) \<longleftrightarrow> ag_turnSteered st \<or>
        (s = CommitMessage True \<and> fst (WarnAt b) \<le> sint (ag_turnsSeen st + 1)))"
  by (cases s) (simp_all add: onMessage_main other_steps_main)

lemma sint_small:
  assumes "n < 2 ^ 31"
  shows "sint (of_nat n :: 32 word) = int n"
proof -
  have "(of_nat n :: 32 word) = word_of_int (int n)" by simp
  moreover have "int n < 2 ^ 31" using assms by simp
  ultimately show ?thesis using int_word_sint [of "int n", where ?'a = 32] by (simp del: of_int_of_nat_eq)
qed

lemma turn_count_run:
  assumes "length ss < 2 ^ 31"
  shows "let st = fold (loop_step b) ss (initial_agent b); n = count_list ss (CommitMessage True) in
    \<not> ag_mainRunEnded st \<and> ag_turnsSeen st = of_nat n \<and>
    (ag_turnSteered st \<longleftrightarrow> 0 < n \<and> fst (WarnAt b) \<le> int n)"
  using assms
proof (induction ss rule: rev_induct)
  case Nil
  then show ?case by (simp add: initial_agent_def Let_def)
next
  case (snoc s ss)
  let ?st = "fold (loop_step b) ss (initial_agent b)"
  let ?n = "count_list ss (CommitMessage True)"
  have ih: "\<not> ag_mainRunEnded ?st" "ag_turnsSeen ?st = of_nat ?n"
    "ag_turnSteered ?st \<longleftrightarrow> 0 < ?n \<and> fst (WarnAt b) \<le> int ?n"
    using snoc by (simp_all add: Let_def)
  have "?n \<le> length ss" by (rule count_le_length)
  then have "sint (of_nat (Suc ?n) :: 32 word) = int (Suc ?n)" using snoc.prems by (intro sint_small) simp
  then have "sint (ag_turnsSeen ?st + 1) = int ?n + 1" by (simp add: ih(2) add.commute)
  then show ?case using turn_count_step [OF ih(1), of b s] ih by (auto simp: Let_def)
qed

subsection \<open>The report\<close>

lemma RunAttempt_stop:
  "rr_Stop (fst (RunAttempt b env)) =
     run_stop (sf_stop (ag_flag (main_run b env))) (rv_sum env) (rv_deadline env) (rv_ctxDone env)"
  by (simp add: RunAttempt_def Let_def split: prod.splits)

lemma RunAttempt_err:
  "\<exists>e. rr_Err (fst (RunAttempt b env)) = run_err (rr_Stop (fst (RunAttempt b env))) e"
  by (auto simp: RunAttempt_def Let_def split: prod.splits)

lemma RunAttempt_summary:
  "\<exists>s. rr_Summary (fst (RunAttempt b env)) = truncateSummary (shaped_summary s)"
  by (auto simp: RunAttempt_def Let_def split: prod.splits)

lemma truncate_bound: "length (runes (truncateSummary s)) \<le> 20021"
proof (cases "length (runes s) \<le> 20000")
  case False
  have "length (runes (NL @ NL @ ''[summary truncated]'')) = 21" by code_simp
  with False runes_first [of 20000 s "NL @ NL @ ''[summary truncated]''"] show ?thesis
    by (simp add: truncateSummary_def)
qed (simp add: truncateSummary_def)

lemma no_shape_empty: "\<not> hasSummaryShape ''''"
  by code_simp

lemma truncate_nonempty: "s \<noteq> '''' \<Longrightarrow> truncateSummary s \<noteq> ''''"
  by (simp add: truncateSummary_def)

lemma report_summary:
  "rr_Summary (fst (RunAttempt b env)) \<noteq> ''''" "length (runes (rr_Summary (fst (RunAttempt b env)))) \<le> 20021"
proof -
  obtain s where s: "rr_Summary (fst (RunAttempt b env)) = truncateSummary (shaped_summary s)"
    using RunAttempt_summary by blast
  have "shaped_summary s \<noteq> ''''" using no_shape_empty by (auto simp: shaped_summary_def)
  then show "rr_Summary (fst (RunAttempt b env)) \<noteq> ''''" by (simp add: s truncate_nonempty)
  show "length (runes (rr_Summary (fst (RunAttempt b env)))) \<le> 20021" by (simp only: s truncate_bound)
qed

subsection \<open>Properties\<close>

lemma wall_step: "s \<noteq> WallWarning \<Longrightarrow> ag_wallTimer (loop_step b s st) = ag_wallTimer st"
  by (cases s)
    (auto simp: budgetTool_Execute_def onMessage_def tell_def Let_def split: sum.splits prod.splits bool.splits)

lemma wall_run: "WallWarning \<notin> set ss \<Longrightarrow> ag_wallTimer (fold (loop_step b) ss st) = ag_wallTimer st"
proof (induction ss arbitrary: st)
  case (Cons s ss)
  then have "s \<noteq> WallWarning" "WallWarning \<notin> set ss" by auto
  then show ?case using Cons.IH [of "loop_step b s st"] wall_step [of s b st] by (simp del: loop_step.simps)
qed simp

text \<open>The turn warning comes on time and once: as long as the wall-clock timer has not fired, the
  agent has been told to wrap up after a stretch of the main run exactly when as many assistant
  messages were committed as the budget's warning point asks for (and at least one), however
  tool calls and other messages are interleaved, and it has been told once.\<close>
theorem turn_warning_on_time:
  assumes "length ss < 2 ^ 31" "WallWarning \<notin> set ss"
  shows "count_list (ag_told (fold (loop_step b) ss (initial_agent b))) (Steer wrapUp) =
    (if 0 < count_list ss (CommitMessage True) \<and> fst (WarnAt b) \<le> int (count_list ss (CommitMessage True))
     then 1 else 0)"
proof -
  let ?st = "fold (loop_step b) ss (initial_agent b)"
  have "loop_inv ?st" using loop_inv_start by (rule loop_inv_run)
  moreover have "ag_wallTimer ?st" using wall_run [OF assms(2)] by (simp add: initial_agent_def)
  ultimately have "count_list (ag_told ?st) (Steer wrapUp) = of_bool (ag_turnSteered ?st)"
    by (simp add: loop_inv_def)
  with turn_count_run [OF assms(1), of b] show ?thesis by (simp add: Let_def)
qed

definition run_budget :: Budget where
  "run_budget = \<lparr>bg_maxTurns = 3, bg_maxWallClock = 3600000000000, bg_maxDiffLines = 400\<rparr>"

theorem turn_warning_on_time_witness:
  "count_list (ag_told (fold (loop_step run_budget)
     [CommitMessage True, ToolCall False (Inr 7), CommitMessage True, CommitMessage True]
     (initial_agent run_budget))) (Steer wrapUp) = 1"
proof -
  have "fst (WarnAt run_budget) = 2" by code_simp
  then show ?thesis
    using turn_warning_on_time [of "[CommitMessage True, ToolCall False (Inr 7), CommitMessage True, CommitMessage True]"
        run_budget] by simp
qed

text \<open>What the agent is told during a whole run, whatever it does: wrap-up steers, at most two, and
  at most one abort; after the main run no steer any more; and the forced summary turn, when
  there is one, begins by taking the tools away and clearing the queues, and never follows a
  model failure.\<close>
theorem agent_is_told_little:
  "\<exists>ms rest. ag_told (snd (RunAttempt b env)) = ms @ rest \<and> set ms \<subseteq> {Steer wrapUp, Abort} \<and>
    count_list ms (Steer wrapUp) \<le> 2 \<and> count_list (ms @ rest) Abort \<le> 1 \<and>
    (rest = [] \<or> rr_Stop (fst (RunAttempt b env)) \<noteq> StopModelErr \<and>
       (\<exists>more. rest = [SetTools, ClearAllQueues, Stream summaryPrompt] @ more \<and> set more \<subseteq> {Abort}))"
proof -
  let ?st = "main_run b env"
  let ?loop = "fold (loop_step b) (rv_steps env) (initial_agent b)"
  have inv: "loop_inv ?loop" using loop_inv_start by (rule loop_inv_run)
  have told: "ag_told ?st = ag_told ?loop" "ag_flag ?st = ag_flag ?loop" by (simp_all add: main_run_def)
  have ms: "set (ag_told ?st) \<subseteq> {Steer wrapUp, Abort}" "count_list (ag_told ?st) (Steer wrapUp) \<le> 2"
    "count_list (ag_told ?st) Abort = of_bool (sf_stop (ag_flag ?st) = StopDiffLines)"
    using inv by (auto simp: loop_inv_def told)
  obtain turns l e where ev: "fold run_event (rv_events env) (0, '''', None) = (turns, l, e)"
    using prod_cases3 by blast
  show ?thesis
  proof (cases "hasSummaryShape l \<or> rr_Stop (fst (RunAttempt b env)) = StopModelErr \<or>
      (rr_Stop (fst (RunAttempt b env)) = StopCancelled \<and> rv_ctxDoneLater env)")
    case True
    then have "ag_told (snd (RunAttempt b env)) = ag_told ?st"
      using RunAttempt_stop [of b env] by (auto simp: RunAttempt_def Let_def ev split: prod.splits)
    with ms show ?thesis by (intro exI [of _ "ag_told ?st"] exI [of _ "[]"]) simp
  next
    case False
    let ?st1 = "tell (Stream summaryPrompt) (tell ClearAllQueues (tell SetTools ?st))"
    have "ended ?st1" using main_run_ended [of b env] by (simp add: ended_def tell_def)
    then obtain more where more: "ag_told (fold (loop_step b) (rv_sumSteps env) ?st1) = ag_told ?st1 @ more"
      "set more \<subseteq> {Abort}" "count_list more Abort + of_bool (sf_stop (ag_flag ?st1) = StopDiffLines) \<le> (1 :: nat)"
      using ended_run by blast
    have "ag_told (snd (RunAttempt b env)) = ag_told (fold (loop_step b) (rv_sumSteps env) ?st1)"
      using False RunAttempt_stop [of b env]
      by (auto simp: RunAttempt_def Let_def ev summary_turn_def split: prod.splits)
    with more ms False show ?thesis
      by (intro exI [of _ "ag_told ?st"] exI [of _ "[SetTools, ClearAllQueues, Stream summaryPrompt] @ more"])
        (simp add: tell_def)
  qed
qed

text \<open>A stop is earned and none is lost: the report carries an error exactly with a model failure;
  it says the diff limit only after a tool call that may write found it reached, and always
  says so then when the run closed by itself without a model error; it says the turn limit
  only when the loop ran out of turns, and the wall clock only when the run's own deadline
  passed.\<close>
theorem report_stop_is_earned:
  "(rr_Err (fst (RunAttempt b env)) \<noteq> None \<longleftrightarrow> rr_Stop (fst (RunAttempt b env)) = StopModelErr) \<and>
   (rr_Stop (fst (RunAttempt b env)) = StopDiffLines \<longrightarrow> (\<exists>s \<in> set (rv_steps env). crossed b s)) \<and>
   ((\<exists>s \<in> set (rv_steps env). crossed b s) \<and> rv_sum env = Some rs \<and> su_EndReason rs \<noteq> EndReasonError \<longrightarrow>
      rr_Stop (fst (RunAttempt b env)) = StopDiffLines) \<and>
   (rr_Stop (fst (RunAttempt b env)) = StopTurns \<longrightarrow>
      (\<exists>rs. rv_sum env = Some rs \<and> su_EndReason rs = EndReasonMaxTurns)) \<and>
   (rr_Stop (fst (RunAttempt b env)) = StopWallClock \<longrightarrow> rv_deadline env)"
proof -
  obtain e where e: "rr_Err (fst (RunAttempt b env)) = run_err (rr_Stop (fst (RunAttempt b env))) e"
    using RunAttempt_err by blast
  have "rr_Err (fst (RunAttempt b env)) \<noteq> None \<longleftrightarrow> rr_Stop (fst (RunAttempt b env)) = StopModelErr"
    unfolding e by (simp add: run_err_def)
  moreover have "rr_Stop (fst (RunAttempt b env)) =
      run_stop (if \<exists>s \<in> set (rv_steps env). crossed b s then StopDiffLines else StopNone)
        (rv_sum env) (rv_deadline env) (rv_ctxDone env)"
    by (simp only: RunAttempt_stop main_run_flag)
  ultimately show ?thesis
    by (auto simp: run_stop_def split: option.splits EndReason.splits if_splits)
qed

definition demo_run :: RunEnv where
  "demo_run = \<lparr>rv_steps = [CommitMessage True, ToolCall False (Inr 400)], rv_ledger = ['''', ''run-1'', ''run-1''],
     rv_events = [EventTurnEnd, EventMessageEnd (Some \<lparr>ms_Assistant = True, ms_Aborted = False, ms_Text = ''done''\<rparr>)],
     rv_sum = Some \<lparr>su_EndReason = EndReasonAborted, su_TurnCount = 1\<rparr>, rv_deadline = False,
     rv_ctxDone = False, rv_ctxDoneLater = False, rv_sumSteps = [], rv_sumEvents = [], rv_sumTurns = Some 1,
     rv_Input = 10, rv_CacheRead = 5, rv_Output = 7, rv_diff = Inr 400, rv_started = 0, rv_ended = 60000000000\<rparr>"

lemma demo_run_crossed: "\<exists>s \<in> set (rv_steps demo_run). crossed run_budget s"
  by (simp add: demo_run_def run_budget_def crossed_def)

theorem report_stop_is_earned_witness:
  "rr_Stop (fst (RunAttempt run_budget demo_run)) = StopDiffLines"
proof -
  have "rv_sum demo_run = Some \<lparr>su_EndReason = EndReasonAborted, su_TurnCount = 1\<rparr>" by (simp add: demo_run_def)
  with demo_run_crossed report_stop_is_earned [where env = demo_run and b = run_budget
      and rs = "\<lparr>su_EndReason = EndReasonAborted, su_TurnCount = 1\<rparr>"]
  show ?thesis by simp
qed

text \<open>The summary of a run is never empty and never longer than 20021 characters, and its last text
  comes through unchanged when it has the required shape and at most 20000 of them.\<close>
theorem report_summary_bounded:
  "rr_Summary (fst (RunAttempt b env)) \<noteq> '''' \<and> length (runes (rr_Summary (fst (RunAttempt b env)))) \<le> 20021 \<and>
   (hasSummaryShape (fst (snd (fold run_event (rv_events env) (0, '''', None)))) \<and>
    length (runes (fst (snd (fold run_event (rv_events env) (0, '''', None))))) \<le> 20000 \<longrightarrow>
      rr_Summary (fst (RunAttempt b env)) = fst (snd (fold run_event (rv_events env) (0, '''', None))))"
proof -
  obtain turns l e where ev: "fold run_event (rv_events env) (0, '''', None) = (turns, l, e)"
    using prod_cases3 by blast
  have "rr_Summary (fst (RunAttempt b env)) = l" if "hasSummaryShape l" "length (runes l) \<le> 20000"
    using that by (simp add: RunAttempt_def Let_def ev shaped_summary_def truncateSummary_def)
  then show ?thesis using report_summary by (simp add: ev)
qed

definition shaped_run :: RunEnv where
  "shaped_run = demo_run\<lparr>rv_events := [EventMessageEnd (Some \<lparr>ms_Assistant = True, ms_Aborted = False,
     ms_Text = ''## What I found: nothing''\<rparr>)]\<rparr>"

theorem report_summary_bounded_witness:
  "rr_Summary (fst (RunAttempt run_budget shaped_run)) = ''## What I found: nothing''"
proof -
  have "fold run_event (rv_events shaped_run) (0, '''', None) = (0, ''## What I found: nothing'', None)"
    by (simp add: shaped_run_def Let_def)
  moreover have "hasSummaryShape ''## What I found: nothing''" by code_simp
  moreover have "length (runes ''## What I found: nothing'') \<le> 20000" by code_simp
  ultimately show ?thesis using report_summary_bounded [of run_budget shaped_run] by simp
qed

text \<open>A repair round is asked for one summary and judged by another: its brief prescribes the shape of
  the Upkeep context, whose heading the check never accepts, so an agent that answers exactly as
  briefed is sent a further turn and asked for the other shape; and if it repeats itself, the
  report says it produced no summary in the required shape.\<close>
theorem repair_summary_is_misjudged:
  assumes "fold run_event (rv_events env) (0, '''', None) = (turns, Upkeep_SummaryShape, err)"
    and "rr_Stop (fst (RunAttempt b env)) \<notin> {StopModelErr, StopCancelled}"
  shows "Stream summaryPrompt \<in> set (ag_told (snd (RunAttempt b env))) \<and>
    (rv_sumEvents env = [EventMessageEnd (Some \<lparr>ms_Assistant = True, ms_Aborted = False, ms_Text = Upkeep_SummaryShape\<rparr>)] \<longrightarrow>
       rr_Summary (fst (RunAttempt b env)) =
         ''The agent produced no summary in the required shape. Its last message:'' @ NL @ NL @ Upkeep_SummaryShape)"
proof -
  have shape: "\<not> hasSummaryShape Upkeep_SummaryShape" by code_simp
  let ?st1 = "tell (Stream summaryPrompt) (tell ClearAllQueues (tell SetTools (main_run b env)))"
  have "ended ?st1" using main_run_ended [of b env] by (simp add: ended_def tell_def)
  then obtain more where more: "ag_told (fold (loop_step b) (rv_sumSteps env) ?st1) = ag_told ?st1 @ more"
    using ended_run by blast
  have stop: "run_stop (sf_stop (ag_flag (main_run b env))) (rv_sum env) (rv_deadline env) (rv_ctxDone env)
      \<notin> {StopModelErr, StopCancelled}" using assms(2) unfolding RunAttempt_stop .
  have "ag_told (snd (RunAttempt b env)) = ag_told (fold (loop_step b) (rv_sumSteps env) ?st1)"
    using stop by (simp add: RunAttempt_def Let_def assms(1) shape summary_turn_def)
  then have "Stream summaryPrompt \<in> set (ag_told (snd (RunAttempt b env)))" by (simp add: more) (simp add: tell_def)
  moreover have "rr_Summary (fst (RunAttempt b env)) =
      truncateSummary (shaped_summary (fold summary_event (rv_sumEvents env) Upkeep_SummaryShape))"
    using stop by (simp add: RunAttempt_def Let_def assms(1) shape summary_turn_def)
  moreover have "truncateSummary (shaped_summary Upkeep_SummaryShape) =
      ''The agent produced no summary in the required shape. Its last message:'' @ NL @ NL @ Upkeep_SummaryShape"
    by code_simp
  moreover have "Upkeep_SummaryShape \<noteq> ''''" by code_simp
  ultimately show ?thesis by (simp add: summary_event_def)
qed

definition repair_run :: RunEnv where
  "repair_run = demo_run\<lparr>rv_events := [EventMessageEnd (Some \<lparr>ms_Assistant = True, ms_Aborted = False,
     ms_Text = Upkeep_SummaryShape\<rparr>)], rv_steps := [], rv_sum := Some \<lparr>su_EndReason = EndReason_other, su_TurnCount = 1\<rparr>\<rparr>"

theorem repair_summary_is_misjudged_witness:
  "Stream summaryPrompt \<in> set (ag_told (snd (RunAttempt run_budget repair_run)))"
proof -
  have ev: "fold run_event (rv_events repair_run) (0, '''', None) = (0, Upkeep_SummaryShape, None)"
    by (simp add: repair_run_def Let_def Upkeep_SummaryShape_def)
  have "main_run run_budget repair_run = (initial_agent run_budget)\<lparr>ag_mainRunEnded := True, ag_wallTimer := False\<rparr>"
    by (simp add: main_run_def repair_run_def)
  then have "rr_Stop (fst (RunAttempt run_budget repair_run)) = StopNone"
    by (simp only: RunAttempt_stop) (simp add: initial_agent_def repair_run_def run_stop_def)
  then show ?thesis using repair_summary_is_misjudged [OF ev, of run_budget] by simp
qed

end
