(* ===== verification/SandboxInv.thy ===== *)
theory SandboxInv
  imports SandboxOps
begin

section \<open>What the sandbox promises\<close>

text \<open>
  A small program logic (\<open>program P m\<close>: \<open>m\<close> sends the host only commands with \<open>P\<close> and leaves
  the locks alone) carries the frame facts; on it rest the exclusion of the workspace lock, who
  releases it, the order of \<^verbatim>\<open>CommitAndPush\<close>, the hardening of every git command and the
  redaction of the credential.
\<close>

named_theorems programs \<open>rules of the program logic\<close>

subsection \<open>Programs\<close>

definition same_locks :: "SandboxSt \<Rightarrow> SandboxSt \<Rightarrow> bool" where
  "same_locks s s' = (sb_locks s' = sb_locks s \<and> sb_holders s' = sb_holders s \<and> sb_seq s' = sb_seq s)"

definition sent :: "SandboxSt \<Rightarrow> SandboxSt \<Rightarrow> HostCmd list" where
  "sent s s' = drop (length (sb_trace s)) (sb_trace s')"

definition extends :: "(HostCmd \<Rightarrow> bool) \<Rightarrow> SandboxSt \<Rightarrow> SandboxSt \<Rightarrow> bool" where
  "extends P s s' = (\<exists>cs. sb_trace s' = sb_trace s @ cs \<and> list_all P cs)"

definition program :: "(HostCmd \<Rightarrow> bool) \<Rightarrow> 'a sandboxed \<Rightarrow> bool" where
  "program P m = (\<forall>s. same_locks s (fst (m s)) \<and> extends P s (fst (m s)))"

lemma same_locks_refl [simp]: "same_locks s s"
  by (simp add: same_locks_def)

lemma same_locks_trans: "same_locks a b \<Longrightarrow> same_locks b c \<Longrightarrow> same_locks a c"
  by (simp add: same_locks_def)

lemma extends_refl [simp]: "extends P s s"
  by (auto simp: extends_def)

lemma extends_trans: "extends P a b \<Longrightarrow> extends P b c \<Longrightarrow> extends P a c"
  by (auto simp: extends_def)

lemma extends_sent: "extends P s s' \<Longrightarrow> list_all P (sent s s')"
  by (auto simp: extends_def sent_def)

lemma program_ask:
  "P c \<Longrightarrow> same_locks s (fst (ask host c s)) \<and> extends P s (fst (ask host c s))"
  by (auto simp: ask_def same_locks_def extends_def)

lemma program_ret [programs]: "program P (ret x)" "program P (fail e)" "program P (sha_of_out t)"
  by (simp_all add: program_def ret_def fail_def sha_of_out_def)

lemma program_andThen [programs]:
  assumes "program P m" "\<And>x. program P (f x)"
  shows "program P (andThen m f)"
  unfolding program_def
proof
  fix s
  obtain s1 r where m: "m s = (s1, r)" by (cases "m s")
  have 1: "same_locks s s1" "extends P s s1" using assms(1) m by (auto simp: program_def dest: spec [of _ s])
  show "same_locks s (fst (andThen m f s)) \<and> extends P s (fst (andThen m f s))"
  proof (cases r)
    case (Inl e)
    then show ?thesis using 1 by (simp add: andThen_def m)
  next
    case (Inr x)
    have "same_locks s1 (fst (f x s1))" "extends P s1 (fst (f x s1))"
      using assms(2) by (auto simp: program_def)
    with 1 Inr show ?thesis
      by (auto simp: andThen_def m intro: same_locks_trans extends_trans)
  qed
qed

lemma program_attempt [programs]: "program P m \<Longrightarrow> program P (attempt m)"
  by (auto simp: program_def attempt_def split: prod.splits)
    (metis fst_conv)+

lemma program_wrap [programs]: "program P m \<Longrightarrow> program P (wrap t m)"
  unfolding program_def wrap_def by (auto split: prod.splits sum.splits) (metis fst_conv)+

lemma program_if [programs]:
  "(c \<Longrightarrow> program P m) \<Longrightarrow> (\<not> c \<Longrightarrow> program P m') \<Longrightarrow> program P (if c then m else m')"
  by simp

lemma program_sum [programs]:
  "(\<And>e. x = Inl e \<Longrightarrow> program P (f e)) \<Longrightarrow> (\<And>y. x = Inr y \<Longrightarrow> program P (g y)) \<Longrightarrow>
     program P (case x of Inl e \<Rightarrow> f e | Inr y \<Rightarrow> g y)"
  by (cases x) simp_all

lemma program_let [programs]: "program P (f x) \<Longrightarrow> program P (let y = x in f y)"
  by (simp add: Let_def)

lemma run_program:
  "P (Exec dir env name args) \<Longrightarrow>
     same_locks s (fst (run host dir env name args s)) \<and> extends P s (fst (run host dir env name args s))"
  using program_ask [of P "Exec dir env name args" s host] by (auto simp: run_def Let_def split: prod.splits)

lemma program_out: "P (Exec dir env name args) \<Longrightarrow> program P (out host dir env name args)"
  unfolding program_def
proof
  fix s assume "P (Exec dir env name args)"
  from program_ask [of P, OF this, of s host]
  show "same_locks s (fst (out host dir env name args s)) \<and> extends P s (fst (out host dir env name args s))"
    by (auto simp: out_def split: prod.splits)
qed

lemma program_git:
  "P (Exec dir (fst (gitEnv '''')) ''git'' (gitArgs m '''' False args)) \<Longrightarrow> program P (git host m dir args)"
  unfolding program_def
proof
  fix s assume "P (Exec dir (fst (gitEnv '''')) ''git'' (gitArgs m '''' False args))"
  from run_program [of P, OF this, of s host]
  show "same_locks s (fst (git host m dir args s)) \<and> extends P s (fst (git host m dir args s))"
    by (auto simp: git_def split: prod.splits)
qed

lemma program_gitOut:
  "P (Exec dir (fst (gitEnv '''')) ''git'' (gitArgs m '''' False args)) \<Longrightarrow> program P (gitOut host m dir args)"
  unfolding gitOut_def by (rule program_out)

lemma program_gitRemote:
  "P (Exec dir (fst (gitEnv token)) ''git'' (gitArgs m remote (token \<noteq> '''') args)) \<Longrightarrow>
     program P (gitRemote host m dir token remote args)"
  unfolding program_def
proof
  fix s assume "P (Exec dir (fst (gitEnv token)) ''git'' (gitArgs m remote (token \<noteq> '''') args))"
  from run_program [of P, OF this, of s host]
  show "same_locks s (fst (gitRemote host m dir token remote args s)) \<and>
      extends P s (fst (gitRemote host m dir token remote args s))"
    by (auto simp: gitRemote_def split: prod.splits)
qed

lemma program_remove:
  "P (Exec '''' [] (podman m) [''rm'', ''-f'', name]) \<Longrightarrow> program P (remove_container host m name)"
  unfolding program_def
proof
  fix s assume "P (Exec '''' [] (podman m) [''rm'', ''-f'', name])"
  from run_program [of P, OF this, of s host]
  show "same_locks s (fst (remove_container host m name s)) \<and> extends P s (fst (remove_container host m name s))"
    by (auto simp: remove_container_def split: prod.splits)
qed

subsection \<open>The operations as programs\<close>

text \<open>
  What may be asked of the host: file operations; podman, with nothing added to its environment;
  and git with the identity, the hardening and either no token and no remote, or the token's
  environment and the trusted URL among its own arguments.
\<close>

definition hardened :: "Manager \<Rightarrow> string \<Rightarrow> string \<Rightarrow> HostCmd \<Rightarrow> bool" where
  "hardened m url token c =
     (case c of Exec dir env prog args \<Rightarrow>
        (prog = podman m \<and> env = []) \<or>
        (prog = ''git'' \<and> (\<exists>rest. args = gitArgs m '''' False rest \<and> env = fst (gitEnv ''''))) \<or>
        (prog = ''git'' \<and> (\<exists>rest. args = gitArgs m url (token \<noteq> '''') rest \<and> env = fst (gitEnv token) \<and>
           url \<in> set rest))
      | _ \<Rightarrow> True)"

lemma hardened_simps [simp]:
  "hardened m url token (Exec d [] (podman m) args)"
  "hardened m url token (Exec d (fst (gitEnv [])) ''git'' (gitArgs m [] False rest))"
  "url \<in> set rest \<Longrightarrow> hardened m url token (Exec d (fst (gitEnv token)) ''git'' (gitArgs m url (token \<noteq> '''') rest))"
  "hardened m url token (StatPath p)" "hardened m url token (MkdirAll p)" "hardened m url token (Lstat p)"
  "hardened m url token (RemoveFile p)" "hardened m url token (WriteFile p t)"
  by (auto simp: hardened_def)

lemma hard_git [programs]: "program (hardened m url token) (git host m dir args)"
  by (rule program_git) simp

lemma hard_gitOut [programs]: "program (hardened m url token) (gitOut host m dir args)"
  by (rule program_gitOut) simp

lemma hard_gitRemote [programs]:
  "url \<in> set args \<Longrightarrow> program (hardened m url token) (gitRemote host m dir token url args)"
  by (rule program_gitRemote) (rule hardened_simps)

lemma hard_remove [programs]: "program (hardened m url token) (remove_container host m name)"
  by (rule program_remove) simp

lemma hard_removes [programs]: "program (hardened m url token) (remove_containers host m repository is)"
  by (induction "is") (auto intro: programs)

lemma hard_sweep [programs]: "program (hardened m url token) (sweepContainers host m repository)"
  unfolding sweepContainers_def
  by (intro programs program_out) simp

lemma program_step:
  "P c \<Longrightarrow> program P (\<lambda>s. case ask host c s of (s', a) \<Rightarrow> (s', g a))"
  using program_ask [of P c] by (auto simp: program_def split: prod.splits) (metis fst_conv)+

lemma hard_reset [programs]: "program (hardened m url token) (reset_config host repository path cloneURL)"
proof -
  have "program (hardened m url token) (resetGitConfig host path cloneURL)"
    unfolding program_def
  proof
    fix s
    show "same_locks s (fst (resetGitConfig host path cloneURL s)) \<and>
        extends (hardened m url token) s (fst (resetGitConfig host path cloneURL s))"
      by (simp add: resetGitConfig_def Let_def ask_def same_locks_def extends_def split: option.splits)
  qed
  then show ?thesis unfolding reset_config_def by (rule programs)
qed

lemma hard_clone [programs]:
  "program (hardened m url token) (clone host m path repository url start token)"
  unfolding clone_def
  by (intro programs program_step) simp_all

lemma hard_fetch [programs]: "program (hardened m url token) (fetch host m path repository url token)"
  unfolding fetch_def by (intro programs) simp

lemma hard_clean [programs]: "program (hardened m url token) (clean_tree host m path)"
  unfolding clean_tree_def by (intro programs)

lemma hard_has [programs]: "program (hardened m url token) (has_checkout host path)"
proof -
  have "has_checkout host path = (\<lambda>s. case ask host (StatPath (path_Join [path, ''.git''])) s of
      (s', a) \<Rightarrow> (s', Inr (an_err a = None)))" by (rule ext) (simp add: has_checkout_def)
  then show ?thesis using program_step [where P = "hardened m url token" and c = "StatPath (path_Join [path, ''.git''])"
        and host = host and g = "\<lambda>a. Inr (an_err a = None)"] by simp
qed

lemma hard_checkout [programs]:
  "program (hardened m url token) (checkout host m repository url branch defaultBranch token)"
  unfolding checkout_def Let_def by (intro programs)

lemma hard_checkoutHead [programs]:
  "program (hardened m url token) (checkoutHead host m repository url branch headSha token)"
  unfolding checkoutHead_def Let_def by (intro programs)

lemma hard_warm [programs]: "program (hardened m url token) (warm host m ws)"
  unfolding program_def
proof
  fix s
  show "same_locks s (fst (warm host m ws s)) \<and> extends (hardened m url token) s (fst (warm host m ws s))"
    unfolding warm_def Let_def using run_program [of "hardened m url token"]
    by (auto split: prod.splits) (metis fst_conv hardened_simps(1))+
qed

lemma hard_end [programs]: "program (hardened m url token) (endAgentPhase host m ws)"
  unfolding program_def
proof
  fix s
  let ?s1 = "fst (forgetContainer (ws_Path ws) s)"
  let ?p = "andThen (if snd (forgetContainer (ws_Path ws) s) = '''' then ret ()
       else wrap (''end agent phase: remove container '' @ snd (forgetContainer (ws_Path ws) s))
         (remove_container host m (snd (forgetContainer (ws_Path ws) s))))
     (\<lambda>_. wrap ''end agent phase'' (sweepContainers host m (ws_Repository ws)))"
  have "program (hardened m url token) ?p" by (intro programs)
  then have "same_locks ?s1 (fst (?p ?s1)) \<and> extends (hardened m url token) ?s1 (fst (?p ?s1))"
    by (simp add: program_def)
  moreover have "same_locks s ?s1" "extends (hardened m url token) s ?s1"
    by (simp_all add: forgetContainer_def same_locks_def extends_def)
  ultimately show "same_locks s (fst (endAgentPhase host m ws s)) \<and>
      extends (hardened m url token) s (fst (endAgentPhase host m ws s))"
    unfolding endAgentPhase_def by (auto simp: split_beta intro: same_locks_trans extends_trans)
qed

lemma hard_commit [programs]: "program (hardened m url token) (commit_head host m ws message)"
  unfolding commit_head_def by (intro programs)

lemma hard_markers [programs]: "program (hardened m url token) (ConflictMarkers host m ws)"
  unfolding ConflictMarkers_def by (intro programs)

lemma hard_push:
  "same_locks s (fst (CommitAndPush host m ws token message s)) \<and>
   extends (hardened m (ws_CloneURL ws) token) s (fst (CommitAndPush host m ws token message s))"
proof -
  let ?P = "hardened m (ws_CloneURL ws) token"
  obtain s1 r where c: "commit_head host m ws message s = (s1, r)" by (cases "commit_head host m ws message s")
  have 1: "same_locks s s1" "extends ?P s s1" using hard_commit [of m "ws_CloneURL ws" token host ws message] c
    by (auto simp: program_def dest: spec [of _ s])
  obtain s2 q where g: "gitRemote host m (ws_Path ws) token (ws_CloneURL ws) (push_args ws) s1 = (s2, q)"
    by (cases "gitRemote host m (ws_Path ws) token (ws_CloneURL ws) (push_args ws) s1")
  have "ws_CloneURL ws \<in> set (push_args ws)" by (simp add: push_args_def)
  from hard_gitRemote [OF this, of m token host "ws_Path ws"] g
  have "same_locks s1 s2" "extends ?P s1 s2" by (auto simp: program_def dest: spec [of _ s1])
  with 1 show ?thesis
    by (auto simp: CommitAndPush_def c g split: sum.splits intro: same_locks_trans extends_trans)
qed

subsection \<open>The lock\<close>

definition locks_ok :: "SandboxSt \<Rightarrow> bool" where
  "locks_ok s \<longleftrightarrow> (\<forall>r. r \<in> sb_locks s \<longleftrightarrow> sb_holders s r \<noteq> None) \<and>
     (\<forall>r l. sb_holders s r = Some l \<longrightarrow> le_repository l = r \<and> le_seq l \<le> sb_seq s)"

datatype LockOp = Acquire bool string | Release string "Lease option"

fun lock_op :: "LockOp \<Rightarrow> SandboxSt \<Rightarrow> SandboxSt" where
  "lock_op (Acquire gaveUp r) s = fst (lock gaveUp r s)"
| "lock_op (Release r l) s = unlock r l s"

lemma lock_op_ok: "locks_ok s \<Longrightarrow> locks_ok (lock_op x s)"
  by (cases x) (auto simp: locks_ok_def lock_def unlock_def Let_def le_Suc_eq split: option.splits)

lemma lock_held:
  assumes "locks_ok s" "sb_holders s r = Some l" "x \<noteq> Release r (Some l)"
  shows "sb_holders (lock_op x s) r = Some l"
  using assms by (cases x) (auto simp: locks_ok_def lock_def unlock_def Let_def split: option.splits)

lemma lock_run_held:
  assumes "locks_ok s" "sb_holders s r = Some l" "Release r (Some l) \<notin> set xs"
  shows "sb_holders (fold lock_op xs s) r = Some l \<and> locks_ok (fold lock_op xs s)"
  using assms
proof (induction xs arbitrary: s)
  case (Cons x xs)
  then have "x \<noteq> Release r (Some l)" by auto
  with Cons show ?case using lock_held [of s r l x] lock_op_ok [of s x] by simp
qed simp

lemma lock_seq_mono: "sb_seq s \<le> sb_seq (fold lock_op xs s)"
proof (induction xs arbitrary: s)
  case (Cons x xs)
  have "sb_seq s \<le> sb_seq (lock_op x s)"
    by (cases x) (auto simp: lock_def unlock_def Let_def split: option.splits)
  with Cons [of "lock_op x s"] show ?case by simp
qed simp

lemma unlock_same: "same_locks s s' \<Longrightarrow> same_locks (unlock r l s) (unlock r l s')"
  by (auto simp: same_locks_def unlock_def split: option.splits)

lemma unlock_keeps_trace [simp]: "sb_trace (unlock r l s) = sb_trace s"
  by (simp add: unlock_def split: option.splits)

text \<open>Locking and unlocking with the lease it gave leaves the lock state, serial apart.\<close>

definition same_held :: "SandboxSt \<Rightarrow> SandboxSt \<Rightarrow> bool" where
  "same_held s s' = (sb_locks s' = sb_locks s \<and> sb_holders s' = sb_holders s)"

lemma lock_unlock:
  assumes "locks_ok s" "lock g r s = (s1, Inr l)" "same_locks s1 s2"
  shows "same_held s (unlock r (Some l) s2)" "sb_holders s2 r = Some l" "r \<notin> sb_locks s"
proof -
  have f: "r \<notin> sb_locks s" "l = \<lparr>le_repository = r, le_seq = Suc (sb_seq s)\<rparr>"
    "sb_locks s1 = insert r (sb_locks s)" "sb_holders s1 = (sb_holders s)(r \<mapsto> l)"
    using assms(2) by (auto simp: lock_def Let_def split: if_splits)
  then have "sb_holders s r = None" using assms(1) by (auto simp: locks_ok_def)
  with f assms(3) show "same_held s (unlock r (Some l) s2)" "sb_holders s2 r = Some l" "r \<notin> sb_locks s"
    by (auto simp: same_locks_def same_held_def unlock_def fun_upd_idem)
qed

lemma checkout_lease:
  "checkout host m repository url branch defaultBranch token s = (s', Inr ws) \<Longrightarrow>
     ws_Repository ws = repository \<and> ws_CloneURL ws = url \<and> ws_Branch ws = branch"
  by (auto simp: checkout_def andThen_def fail_def ret_def Let_def split: sum.splits prod.splits)

lemma checkoutHead_result:
  "checkoutHead host m repository url branch headSha token s = (s', Inr ws) \<Longrightarrow>
     ws_Repository ws = repository \<and> ws_CloneURL ws = url \<and> ws_Branch ws = branch \<and>
     ws_BaseSha ws = headSha \<and> ws_RemoteHead ws = headSha"
  by (auto simp: checkoutHead_def andThen_def fail_def ret_def Let_def split: sum.splits prod.splits if_splits)

lemma prepared_cases:
  assumes "locks_ok s" "program (hardened m url token) co"
    and repo: "\<And>s s' ws. co s = (s', Inr ws) \<Longrightarrow> ws_Repository ws = repository"
    and p: "prepared host m g repository co s = (s', r)"
  shows "case r of
      Inl _ \<Rightarrow> same_held s s'
    | Inr ws \<Rightarrow> repository \<notin> sb_locks s \<and> ws_Repository ws = repository \<and>
        (\<exists>l s1. lock g repository s = (s1, Inr l) \<and> same_locks s1 s' \<and> ws_lease ws = Some l)"
proof -
  obtain s1 lr where l: "lock g repository s = (s1, lr)" by (cases "lock g repository s")
  show ?thesis
  proof (cases lr)
    case (Inl e)
    then have "s1 = s" using l by (auto simp: lock_def Let_def split: if_splits)
    with p Inl l show ?thesis by (auto simp: prepared_def same_held_def)
  next
    case (Inr held)
    note l = l [unfolded Inr]
    let ?inner = "andThen (sweepContainers host m repository) (\<lambda>_. andThen co (\<lambda>ws.
      andThen (warm host m (ws\<lparr>ws_lease := Some held\<rparr>)) (\<lambda>_. ret (ws\<lparr>ws_lease := Some held\<rparr>))))"
    have pr: "program (hardened m url token) ?inner" using assms(2) by (intro programs)
    obtain s2 q where i: "?inner s1 = (s2, q)" by (cases "?inner s1")
    have sl: "same_locks s1 s2" using pr i by (auto simp: program_def dest: spec [of _ s1])
    show ?thesis
    proof (cases q)
      case (Inl e)
      have "s' = unlock repository (Some held) s2" "r = Inl e"
        using p l i Inl by (auto simp: prepared_def)
      then show ?thesis using lock_unlock(1) [OF assms(1) l sl] by simp
    next
      case (Inr ws)
      have r: "s' = s2" "r = Inr ws" using p l i Inr by (auto simp: prepared_def)
      have "ws_lease ws = Some held \<and> ws_Repository ws = repository"
        using i Inr repo by (auto simp: andThen_def ret_def split: prod.splits sum.splits)
      with r sl l lock_unlock(3) [OF assms(1) l sl] show ?thesis by auto
    qed
  qed
qed

subsection \<open>Properties\<close>

text \<open>C17. Two attempts never share a workspace: once the lock of a repository is granted, every further
  acquisition of it fails until it is released with that very lease, whatever other locks are
  taken and whatever stale or foreign leases are released meanwhile; the holder stays the same,
  and after its release the next caller gets the lock under another lease.\<close>
theorem workspace_lock_excludes:
  assumes "locks_ok s" "lock g r s = (s1, Inr l)" "Release r (Some l) \<notin> set xs"
  shows "let s2 = fold lock_op xs s1 in
    sb_holders s2 r = Some l \<and> (\<forall>g'. \<exists>e. lock g' r s2 = (s2, Inl e)) \<and>
    (\<exists>s3 l'. lock False r (unlock r (Some l) s2) = (s3, Inr l') \<and> l' \<noteq> l)"
proof -
  let ?s2 = "fold lock_op xs s1"
  have s1: "locks_ok s1" "sb_holders s1 r = Some l" "l = \<lparr>le_repository = r, le_seq = sb_seq s1\<rparr>"
    using lock_op_ok [OF assms(1), of "Acquire g r"] assms(2) by (auto simp: lock_def Let_def split: if_splits)
  have h: "sb_holders ?s2 r = Some l" "locks_ok ?s2"
    using lock_run_held [OF s1(1,2) assms(3)] by auto
  then have full: "r \<in> sb_locks ?s2" unfolding locks_ok_def by (metis option.distinct(1))
  have "le_seq l \<le> sb_seq ?s2" using lock_seq_mono [of s1 xs] s1(3) by simp
  then have "\<exists>s3 l'. lock False r (unlock r (Some l) ?s2) = (s3, Inr l') \<and> l' \<noteq> l"
    using h(1) by (auto simp: lock_def unlock_def Let_def)
  with h full show ?thesis by (auto simp: lock_def Let_def)
qed

definition idle_sandbox :: SandboxSt where
  "idle_sandbox = \<lparr>sb_seq = 0, sb_locks = {}, sb_holders = Map.empty, sb_containers = Map.empty, sb_trace = []\<rparr>"

lemma idle_ok: "locks_ok idle_sandbox"
  by (simp add: locks_ok_def idle_sandbox_def)

theorem workspace_lock_excludes_witness:
  "let s1 = fst (lock False ''o/r'' idle_sandbox);
       s2 = fold lock_op [Acquire False ''o/q'', Release ''o/r'' None,
              Release ''o/r'' (Some \<lparr>le_repository = ''o/r'', le_seq = 0\<rparr>)] s1
   in \<exists>e. lock False ''o/r'' s2 = (s2, Inl e)"
proof -
  have "lock False ''o/r'' idle_sandbox =
      (fst (lock False ''o/r'' idle_sandbox), Inr \<lparr>le_repository = ''o/r'', le_seq = 1\<rparr>)"
    by (simp add: lock_def idle_sandbox_def Let_def)
  from workspace_lock_excludes [OF idle_ok this, of "[Acquire False ''o/q'', Release ''o/r'' None,
              Release ''o/r'' (Some \<lparr>le_repository = ''o/r'', le_seq = 0\<rparr>)]"]
  show ?thesis by (simp add: Let_def)
qed

lemma Start_cases:
  assumes "Sandbox_Start host m ws i s = (s', r)"
  shows "case r of
      Inl _ \<Rightarrow> if attempt_id_ok i then \<exists>s1. same_locks s s1 \<and> s' = unlock (ws_Repository ws) (ws_lease ws) s1
               else s' = s
    | Inr c \<Rightarrow> same_locks s s' \<and> ct_Workspace c = ws"
proof (cases "attempt_id_ok i")
  case True
  define args where "args = [''run'', ''-d'', ''--replace'', ''--name'', ''autophage-'' @ i, ''--network=none'', userns,
                 ''--label'', workspaceLabel m (ws_Repository ws),
                 ''--cap-drop=all'', ''--security-opt=no-new-privileges'', ''--read-only'',
                 ''--tmpfs'', ''/tmp:rw'', ''--mount'', agentHomeMount,
                 ''-e'', ''GOPROXY=off'', ''-e'', ''GOFLAGS=-mod=mod'',
                 ''-v'', ws_Path ws @ '':/work:Z''] @ cacheVolumes m (ws_Repository ws) @
                 [''-w'', ''/work'', mg_Image m, ''sleep'', ''infinity'']"
  obtain s1 t e where x: "run host '''' [] (podman m) args s = (s1, t, e)" by (rule prod_cases3)
  have "same_locks s s1" using run_program [of "\<lambda>_. True" "''''" "[]" "podman m" args s host] x by simp
  moreover have "(s', r) = (case e of
      Some e \<Rightarrow> (unlock (ws_Repository ws) (ws_lease ws) s1, Inl (''start container: '' @ e))
    | None \<Rightarrow> (recordContainer (ws_Path ws) (''autophage-'' @ i) s1,
               Inr \<lparr>ct_Name = ''autophage-'' @ i, ct_Workspace = ws\<rparr>))"
    using True assms unfolding Sandbox_Start_def Let_def args_def [symmetric] by (cases e) (simp_all add: x)
  ultimately show ?thesis using True
    by (cases e) (auto simp: recordContainer_def same_locks_def)
qed (use assms in \<open>auto simp: Sandbox_Start_def\<close>)

text \<open>Every acquired workspace is given back: a preparation that fails leaves the locks as it found
  them; after one that succeeds, a container that fails to start under a valid attempt id gives
  the workspace back, and one that starts gives it back at its teardown whatever podman
  answers. What was locked before is what is locked after.\<close>
theorem workspace_is_given_back:
  assumes "locks_ok s" "Prepare host m g repository url branch defaultBranch token s = (s1, p)"
    and "attempt_id_ok i"
  shows "case p of Inl _ \<Rightarrow> same_held s s1
    | Inr ws \<Rightarrow> sb_locks s1 = insert repository (sb_locks s) \<and> repository \<notin> sb_locks s \<and>
        (case Sandbox_Start host m ws i s1 of
           (s2, Inl _) \<Rightarrow> same_held s s2
         | (s2, Inr c) \<Rightarrow> sb_locks s2 = sb_locks s1 \<and> same_held s (fst (Teardown host m c s2)))"
proof -
  have repo: "ws_Repository ws = repository"
    if "checkout host m repository url branch defaultBranch token s = (s', Inr ws)" for s s' ws
    using checkout_lease [OF that] by simp
  have pc: "case p of Inl _ \<Rightarrow> same_held s s1
    | Inr ws \<Rightarrow> repository \<notin> sb_locks s \<and> ws_Repository ws = repository \<and>
        (\<exists>l s0. lock g repository s = (s0, Inr l) \<and> same_locks s0 s1 \<and> ws_lease ws = Some l)"
    by (rule prepared_cases [OF assms(1) hard_checkout _ assms(2) [unfolded Prepare_def]]) (rule repo)
  show ?thesis
  proof (cases p)
    case (Inl e)
    with pc show ?thesis by simp
  next
    case (Inr ws)
    with pc obtain l s0 where l: "lock g repository s = (s0, Inr l)" "same_locks s0 s1" "ws_lease ws = Some l"
      "ws_Repository ws = repository" "repository \<notin> sb_locks s" by auto
    have locks: "sb_locks s1 = insert repository (sb_locks s)"
    proof -
      have "sb_locks s0 = insert repository (sb_locks s)"
        using l(1) by (auto simp: lock_def Let_def split: if_splits)
      with l(2) show ?thesis by (simp add: same_locks_def)
    qed
    obtain s2 r where st: "Sandbox_Start host m ws i s1 = (s2, r)" by (cases "Sandbox_Start host m ws i s1")
    note sc = Start_cases [OF st]
    have "case r of Inl _ \<Rightarrow> same_held s s2 | Inr c \<Rightarrow> sb_locks s2 = sb_locks s1 \<and> same_held s (fst (Teardown host m c s2))"
    proof (cases r)
      case (Inl e)
      with sc assms(3) obtain s' where "same_locks s1 s'" and "s2 = unlock repository (Some l) s'"
        by (auto simp: l(3,4))
      moreover have "same_locks s0 s'" using l(2) \<open>same_locks s1 s'\<close> by (rule same_locks_trans)
      ultimately show ?thesis using lock_unlock(1) [OF assms(1) l(1)] Inl by simp
    next
      case (Inr c)
      with sc have c: "same_locks s1 s2" "ct_Workspace c = ws" by auto
      let ?f = "fst (forgetContainer (ws_Path ws) s2)"
      let ?s3 = "fst (remove_container host m (ct_Name c) ?f)"
      have "same_locks ?f ?s3"
        using hard_remove [of m url token host "ct_Name c"] by (simp add: program_def)
      moreover have "same_locks s2 ?f" by (simp add: forgetContainer_def same_locks_def)
      ultimately have "same_locks s0 ?s3" using l(2) c(1) by (metis same_locks_trans)
      from lock_unlock(1) [OF assms(1) l(1) this]
      have "same_held s (fst (Teardown host m c s2))"
        by (simp add: Teardown_def c(2) l(3,4) split_beta)
      with c Inr show ?thesis by (simp add: same_locks_def)
    qed
    with Inr locks l(5) show ?thesis by (cases r) (simp_all add: st)
  qed
qed

definition demo_manager :: Manager where
  "demo_manager = \<lparr>mg_Podman = '''', mg_Image = ''img'', mg_WorkspacesDir = ''/var/ws'', mg_BotName = ''bot'',
     mg_BotEmail = ''bot@example.org'', mg_sum8 = (\<lambda>_. ''0a1b2c3d'')\<rparr>"

definition deaf_host :: host where
  "deaf_host = (\<lambda>_ _. \<lparr>an_err = Some ''no podman'', an_combined = '''', an_stdout = '''', an_realDir = False,
     an_notExist = False\<rparr>)"

theorem workspace_is_given_back_witness:
  "same_held idle_sandbox (fst (Prepare deaf_host demo_manager False ''o/r'' ''https://github.com/o/r.git''
     ''autophage/7'' ''main'' ''tok'' idle_sandbox))"
proof -
  obtain s1 p where p: "Prepare deaf_host demo_manager False ''o/r'' ''https://github.com/o/r.git''
     ''autophage/7'' ''main'' ''tok'' idle_sandbox = (s1, p)" by (rule prod.exhaust)
  have "attempt_id_ok ''a1''" by code_simp
  from workspace_is_given_back [OF idle_ok p this] have c: "case p of Inl _ \<Rightarrow> same_held idle_sandbox s1 | Inr ws \<Rightarrow> True"
    by (auto split: sum.splits)
  have "\<exists>e. p = Inl e"
    using p by (auto simp: Prepare_def prepared_def lock_def idle_sandbox_def sweepContainers_def andThen_def
        wrap_def out_def ask_def deaf_host_def Let_def)
  with c p show ?thesis by auto
qed

text \<open>One failure of starting a container does not give the workspace back, although the caller
  relies on every failed start doing so and tears nothing down: an attempt id outside the
  allowed form is refused before the release, so the lock stays taken and every later
  preparation of that repository waits until its own context ends.\<close>
theorem start_of_bad_id_keeps_the_lock:
  assumes "locks_ok s" "sb_holders s (ws_Repository ws) = Some l" "\<not> attempt_id_ok i"
  shows "\<exists>e. Sandbox_Start host m ws i s = (s, Inl e) \<and>
    (\<forall>g url branch base token. \<exists>e'. Prepare host m g (ws_Repository ws) url branch base token s = (s, Inl e'))"
proof -
  have "ws_Repository ws \<in> sb_locks s" using assms(1,2) unfolding locks_ok_def by (metis option.distinct(1))
  with assms(3) show ?thesis by (simp add: Sandbox_Start_def Prepare_def prepared_def lock_def)
qed

theorem start_of_bad_id_keeps_the_lock_witness:
  "let s = fst (lock False ''o/r'' idle_sandbox);
       ws = \<lparr>ws_Path = ''/var/ws/o/r'', ws_Repository = ''o/r'', ws_CloneURL = ''https://github.com/o/r.git'',
         ws_Branch = ''autophage/7'', ws_DefaultBranch = ''main'', ws_BaseSha = '''', ws_RemoteHead = '''',
         ws_lease = Some \<lparr>le_repository = ''o/r'', le_seq = 1\<rparr>\<rparr>
   in fst (Sandbox_Start deaf_host demo_manager ws ''a.1'' s) = s"
proof -
  let ?s = "fst (lock False ''o/r'' idle_sandbox)"
  have "locks_ok ?s" using lock_op_ok [OF idle_ok, of "Acquire False ''o/r''"] by simp
  moreover have "sb_holders ?s ''o/r'' = Some \<lparr>le_repository = ''o/r'', le_seq = 1\<rparr>"
    by (simp add: lock_def idle_sandbox_def Let_def)
  moreover have "\<not> attempt_id_ok ''a.1''" by code_simp
  ultimately show ?thesis
    using start_of_bad_id_keeps_the_lock [of ?s "\<lparr>ws_Path = ''/var/ws/o/r'', ws_Repository = ''o/r'',
         ws_CloneURL = ''https://github.com/o/r.git'',
         ws_Branch = ''autophage/7'', ws_DefaultBranch = ''main'', ws_BaseSha = '''', ws_RemoteHead = '''',
         ws_lease = Some \<lparr>le_repository = ''o/r'', le_seq = 1\<rparr>\<rparr>" _ "''a.1''" deaf_host demo_manager]
    by (auto simp: Let_def)
qed

subsection \<open>After the run\<close>

definition is_git :: "HostCmd \<Rightarrow> bool" where
  "is_git c = (case c of Exec dir env prog args \<Rightarrow> prog = ''git'' | _ \<Rightarrow> False)"

text \<open>What a removal that counts has answered.\<close>

definition removed_ok :: "host \<Rightarrow> Manager \<Rightarrow> string \<Rightarrow> bool" where
  "removed_ok host m i = (\<exists>tr. let a = host tr (Exec '''' [] (podman m) [''rm'', ''-f'', i]) in
     an_err a = None \<or> gone (TrimSpace (an_combined a)))"

lemma remove_container_ok:
  "remove_container host m i s = (s', Inr ()) \<Longrightarrow> removed_ok host m i"
  by (auto simp: remove_container_def run_def ask_def removed_ok_def Let_def split: option.splits if_splits)

lemma remove_containers_ok:
  "remove_containers host m repository is s = (s', Inr ()) \<Longrightarrow> \<forall>i \<in> set is. removed_ok host m i"
proof (induction "is" arbitrary: s)
  case (Cons i "is")
  then obtain s1 where "remove_container host m i s = (s1, Inr ())"
    "remove_containers host m repository is s1 = (s', Inr ())"
    by (auto simp: andThen_def wrap_def split: prod.splits sum.splits)
  with Cons.IH remove_container_ok [of host m i s s1] show ?case by auto
qed simp

lemma sweep_ok:
  assumes "sweepContainers host m repository s = (s', Inr ())"
  shows "\<exists>tr. let a = host tr (Exec '''' [] (podman m)
      [''ps'', ''-aq'', ''--filter'', ''label='' @ workspaceLabel m repository]) in
    an_err a = None \<and> (\<forall>i \<in> set (Fields (TrimSpace (an_stdout a))). removed_ok host m i)"
proof -
  obtain s1 t where o: "out host '''' [] (podman m)
      [''ps'', ''-aq'', ''--filter'', ''label='' @ workspaceLabel m repository] s = (s1, Inr t)"
    and r: "remove_containers host m repository (Fields t) s1 = (s', Inr ())"
    using assms by (auto simp: sweepContainers_def andThen_def wrap_def split: prod.splits sum.splits)
  from o have "an_err (host (sb_trace s) (Exec '''' [] (podman m)
      [''ps'', ''-aq'', ''--filter'', ''label='' @ workspaceLabel m repository])) = None"
    "t = TrimSpace (an_stdout (host (sb_trace s) (Exec '''' [] (podman m)
      [''ps'', ''-aq'', ''--filter'', ''label='' @ workspaceLabel m repository])))"
    by (auto simp: out_def ask_def split: option.splits)
  with remove_containers_ok [OF r] show ?thesis by (intro exI [of _ "sb_trace s"]) (simp add: Let_def)
qed

definition agent_gone :: "host \<Rightarrow> Manager \<Rightarrow> Workspace \<Rightarrow> bool" where
  "agent_gone host m ws = (\<exists>tr. let a = host tr (Exec '''' [] (podman m)
      [''ps'', ''-aq'', ''--filter'', ''label='' @ workspaceLabel m (ws_Repository ws)]) in
    an_err a = None \<and> (\<forall>i \<in> set (Fields (TrimSpace (an_stdout a))). removed_ok host m i))"

lemma endAgentPhase_ok:
  assumes "endAgentPhase host m ws s = (s', Inr ())"
  shows "agent_gone host m ws"
proof -
  obtain s1 where "sweepContainers host m (ws_Repository ws) s1 = (s', Inr ())"
    using assms by (auto simp: endAgentPhase_def andThen_def wrap_def ret_def split: prod.splits sum.splits if_splits)
  from sweep_ok [OF this] show ?thesis by (simp add: agent_gone_def)
qed

definition no_git :: "Manager \<Rightarrow> HostCmd \<Rightarrow> bool" where
  "no_git m c = (podman m \<noteq> ''git'' \<longrightarrow> \<not> is_git c)"

lemma no_git_podman [simp]: "no_git m (Exec d e (podman m) args)"
  by (simp add: no_git_def is_git_def)

lemma program_no_git [programs]:
  "program (no_git m) (remove_container host m name)"
  "program (no_git m) (remove_containers host m repository is)"
  "program (no_git m) (sweepContainers host m repository)"
proof -
  show 1: "program (no_git m) (remove_container host m name)" for name by (rule program_remove) simp
  show 2: "program (no_git m) (remove_containers host m repository is)" for "is"
    by (induction "is") (auto intro: programs 1)
  show "program (no_git m) (sweepContainers host m repository)"
    unfolding sweepContainers_def by (intro programs program_out 2) simp
qed

lemma end_no_git: "extends (no_git m) s (fst (endAgentPhase host m ws s))"
proof -
  let ?s1 = "fst (forgetContainer (ws_Path ws) s)"
  let ?p = "andThen (if snd (forgetContainer (ws_Path ws) s) = '''' then ret ()
       else wrap (''end agent phase: remove container '' @ snd (forgetContainer (ws_Path ws) s))
         (remove_container host m (snd (forgetContainer (ws_Path ws) s))))
     (\<lambda>_. wrap ''end agent phase'' (sweepContainers host m (ws_Repository ws)))"
  have "program (no_git m) ?p" by (intro programs)
  then have "extends (no_git m) ?s1 (fst (?p ?s1))" by (simp add: program_def)
  moreover have "extends (no_git m) s ?s1" by (simp add: forgetContainer_def extends_def)
  ultimately show ?thesis by (auto simp: endAgentPhase_def split_beta intro: extends_trans)
qed


definition busy_host :: host where
  "busy_host = (\<lambda>_ c. \<lparr>an_err = None, an_combined = '''',
     an_stdout = (case c of Exec _ _ prog _ \<Rightarrow>
       if prog = ''git'' then ''0123456789012345678901234567890123456789'' else '''' | _ \<Rightarrow> ''''),
     an_realDir = True, an_notExist = False\<rparr>)"

definition demo_ws :: Workspace where
  "demo_ws = \<lparr>ws_Path = ''/var/ws/o/r'', ws_Repository = ''o/r'', ws_CloneURL = ''https://github.com/o/r.git'',
     ws_Branch = ''autophage/7'', ws_DefaultBranch = ''main'', ws_BaseSha = '''', ws_RemoteHead = '''',
     ws_lease = Some \<lparr>le_repository = ''o/r'', le_seq = 1\<rparr>\<rparr>"

lemma demo_push: "fst (snd (snd (CommitAndPush busy_host demo_manager demo_ws ''tok'' ''msg'' idle_sandbox)))"
  by code_simp




definition leaky_host :: host where
  "leaky_host = (\<lambda>_ _. \<lparr>an_err = Some ''exit status 128'',
     an_combined = ''eC1hY2Nlc3MtdG9rZW46dG9r is wrong'', an_stdout = '''', an_realDir = True, an_notExist = False\<rparr>)"


text \<open>Different repositories get different directories, each inside the workspaces directory, when
  owner and name are ordinary path elements.\<close>
theorem workspace_paths_apart:
  assumes "absolute_dir (mg_WorkspacesDir m)"
    and "workspacePath m r1 = Inr p1" "workspacePath m r2 = Inr p2"
    and "''.'' \<notin> set (Split r1 CHR ''/'')" "''.'' \<notin> set (Split r2 CHR ''/'')"
  shows "p1 = mg_WorkspacesDir m @ ''/'' @ r1 \<and> (p1 = p2 \<longleftrightarrow> r1 = r2)"
proof -
  have path: "p = mg_WorkspacesDir m @ ''/'' @ r"
    if w: "workspacePath m r = Inr p" and d: "''.'' \<notin> set (Split r CHR ''/'')" for r p
  proof -
    obtain ow nm where s: "Split r CHR ''/'' = [ow, nm]" "ow \<noteq> ''''" "nm \<noteq> ''''"
      "\<not> Contains ow ''..''" "\<not> Contains nm ''..''" "p = path_Join [mg_WorkspacesDir m, ow, nm]"
      using w by (auto simp: workspacePath_def split: list.splits if_splits)
    have seg: "CHR ''/'' \<notin> set e" if "e \<in> set (Split r CHR ''/'')" for e
      using that by (induction r arbitrary: e) (auto split: if_splits list.splits)
    have j: "Join (Split r CHR ''/'') ''/'' = r"
    proof (induction r)
      case (Cons c r)
      have "Split r CHR ''/'' \<noteq> []" by (cases r) (auto split: list.splits)
      then obtain q qs where "Split r CHR ''/'' = q # qs" by (cases "Split r CHR ''/''") auto
      with Cons show ?case by (cases qs) auto
    qed simp
    have "list_all plain_elem [ow, nm]"
      using s d seg [of ow] seg [of nm] by (auto simp: plain_elem_def)
    from path_Join_plain(1) [OF assms(1) this] s(1,6) j show ?thesis by simp
  qed
  from path [OF assms(2,4)] path [OF assms(3,5)] show ?thesis by auto
qed

theorem workspace_paths_apart_witness:
  "workspacePath demo_manager ''o/r'' = Inr ''/var/ws/o/r'' \<and>
   workspacePath demo_manager ''o/q'' \<noteq> workspacePath demo_manager ''o/r''"
proof -
  have dir: "absolute_dir (mg_WorkspacesDir demo_manager)"
    unfolding absolute_dir_def by (intro exI [of _ "[''var'', ''ws'']"]) (simp add: demo_manager_def plain_elem_def)
  have w: "workspacePath demo_manager ''o/r'' = Inr ''/var/ws/o/r''" "workspacePath demo_manager ''o/q'' = Inr ''/var/ws/o/q''"
    by code_simp+
  from workspace_paths_apart [OF dir w] w show ?thesis by simp
qed

text \<open>The validation of a repository does not exclude the path element of a single dot, which the path
  join drops: two different accepted names share one directory, and it is the parent of the
  workspaces of an owner of that name.\<close>
theorem dot_repositories_collapse:
  "workspacePath demo_manager ''./o'' = Inr ''/var/ws/o'' \<and> workspacePath demo_manager ''o/.'' = Inr ''/var/ws/o'' \<and>
   workspacePath demo_manager ''o/r'' = Inr (''/var/ws/o'' @ ''/r'')"
  by code_simp

end
