(* ===== verification/RunnerInv.thy ===== *)
theory RunnerInv
  imports Runner SchedulingInv Outbox AgentRunInv SandboxInv
begin

section \<open>What the attempt runner promises\<close>

text \<open>
  Whatever the services answer: the outcome is one the store accepts, so the attempt ends; a
  container that started is torn down, last; the work of every run is pushed before anything is
  decided about it; a pull request is opened for finished, clean work only; and a recorded stop
  is never taken for a shutdown.
\<close>

subsection \<open>Outcomes the store accepts\<close>

lemma NL_nonempty [simp]: "Briefs.NL \<noteq> []" "Outbox.NL \<noteq> []"
  by (simp_all add: Outbox.NL_def)

lemma OutcomeFailed_Inr:
  assumes "cls \<in> set AllFailureClasses" "message \<noteq> ''''"
  shows "OutcomeFailed cls message u at =
    Inr ((zero_outcome FailedOutcome at u message)\<lparr>oc_Class := cls, oc_Message := message\<rparr>)"
proof -
  have "ParseFailureClass cls = Inr cls" using assms(1) by (simp add: ParseFailureClass_Inr)
  with assms(2) show ?thesis by (simp add: OutcomeFailed_def)
qed

text \<open>\<open>fits\<close>: what PostgreSQL's integer columns hold of a value the domain accepted.\<close>

definition fits :: "Outcome \<Rightarrow> bool" where
  "fits ou = (usage_row_ok (oc_Usage ou) \<and> oc_PRNumber ou < 2 ^ 31)"

lemma outcome_rows:
  "OutcomePullRequest pr head summary u at = Inr ou \<Longrightarrow> usage_row_ok u \<Longrightarrow> pr < 2 ^ 31 \<Longrightarrow> outcome_row_ok ou"
  "OutcomeExhausted limit summary u at = Inr ou \<Longrightarrow> usage_row_ok u \<Longrightarrow> outcome_row_ok ou"
  "OutcomeExhaustedWithPullRequest limit pr head summary u at = Inr ou \<Longrightarrow> usage_row_ok u \<Longrightarrow> pr < 2 ^ 31 \<Longrightarrow>
     outcome_row_ok ou"
  "OutcomeFailed cls message u at = Inr ou \<Longrightarrow> usage_row_ok u \<Longrightarrow> outcome_row_ok ou"
  "OutcomeAborted reason summary u at = Inr ou \<Longrightarrow> usage_row_ok u \<Longrightarrow> outcome_row_ok ou"
  by (auto simp: OutcomePullRequest_def OutcomeExhausted_def OutcomeExhaustedWithPullRequest_def OutcomeFailed_def
      OutcomeAborted_def outcome_row_ok_def zero_outcome_def int4_def ParseLimit_Inr ParseFailureClass_Inr
      ParseAbortReason_Inr split: sum.splits if_splits)

text \<open>
  What an end of the pipeline may be: a row the store accepts, of a kind the aggregate knows,
  aborted only with a reason somebody recorded or as an operator stop.
\<close>

definition recordable :: "RunnerEnv \<Rightarrow> Outcome \<Rightarrow> bool" where
  "recordable env ou \<longleftrightarrow> outcome_row_ok ou \<and> oc_Summary ou \<noteq> '''' \<and>
     (oc_Kind ou = Aborted \<longrightarrow> oc_Reason ou \<in> set AllAbortReasons \<and>
        (oc_Reason ou = AbortOperatorStop \<or> oc_Reason ou \<in> range (en_reason env)))"

lemma row_summary: "outcome_row_ok ou \<Longrightarrow> oc_Summary ou \<noteq> ''''"
  by (simp add: outcome_row_ok_def)

lemma failed_recordable:
  "cls \<in> set AllFailureClasses \<Longrightarrow> message \<noteq> '''' \<Longrightarrow> usage_row_ok u \<Longrightarrow>
     recordable env (runner_failed cls message u now)"
  using outcome_rows(4) [OF OutcomeFailed_Inr, of cls message u now]
  by (simp add: runner_failed_def settled_def OutcomeFailed_Inr recordable_def row_summary) (simp add: zero_outcome_def)

lemma infra_recordable: "usage_row_ok u \<Longrightarrow> recordable env (runner_infra i step detail u now)"
  unfolding runner_infra_def
  by (rule failed_recordable) (simp_all add: AllFailureClasses_def infra_message_def)

lemma settled_recordable:
  assumes "usage_row_ok u" "\<And>ou. o' = Inr ou \<Longrightarrow> recordable env ou"
  shows "recordable env (settled o' u now)"
proof (cases o')
  case (Inl e)
  have "recordable env (runner_failed FailureInfra (''outcome refused: '' @ error_text e) u now)"
    by (rule failed_recordable) (simp_all add: AllFailureClasses_def assms(1))
  moreover have "FailureInfra \<in> set AllFailureClasses" by (simp add: AllFailureClasses_def)
  ultimately show ?thesis
    by (simp add: Inl settled_def runner_failed_def OutcomeFailed_Inr)
qed (simp add: settled_def assms)

lemma kinds:
  "OutcomePullRequest pr head summary u at = Inr ou \<Longrightarrow> oc_Kind ou = PullRequestOpened"
  "OutcomeExhausted limit summary u at = Inr ou \<Longrightarrow> oc_Kind ou = BudgetExhausted"
  "OutcomeExhaustedWithPullRequest limit pr head summary u at = Inr ou \<Longrightarrow> oc_Kind ou = BudgetExhausted"
  "OutcomeAborted reason summary u at = Inr ou \<Longrightarrow> oc_Kind ou = Aborted \<and> oc_Reason ou = reason \<and>
     reason \<in> set AllAbortReasons"
  by (auto simp: OutcomePullRequest_def OutcomeExhausted_def OutcomeExhaustedWithPullRequest_def
      OutcomeAborted_def zero_outcome_def ParseAbortReason_Inr split: sum.splits if_splits)

lemma aborted_recordable:
  assumes "usage_row_ok u" "reason = AbortOperatorStop \<or> reason \<in> range (en_reason env)"
  shows "recordable env (settled (OutcomeAborted reason summary u now) u now)"
proof (rule settled_recordable [OF assms(1)])
  fix ou assume o: "OutcomeAborted reason summary u now = Inr ou"
  with outcome_rows(5) [OF o assms(1)] kinds(4) [OF o] assms(2) show "recordable env ou"
    by (auto simp: recordable_def row_summary)
qed

lemma setup_recordable:
  "runner_setup env i step err = Some (ou, stop) \<Longrightarrow> recordable env ou \<and> stop = StopNone"
  by (auto simp: runner_setup_def slot_reason_def Let_def infra_recordable aborted_recordable split: if_splits)

definition prs_fit :: "RunnerEnv \<Rightarrow> bool" where
  "prs_fit env = ((\<forall>pr. en_openPR env = Inr pr \<longrightarrow> pr < 2 ^ 31) \<and>
     (\<forall>pr b. en_findPR env = Inr (pr, b) \<longrightarrow> pr < 2 ^ 31))"

lemma openPR_fits:
  "prs_fit env \<Longrightarrow> openPullRequest env c repo summary partial = (eff, Inr pr) \<Longrightarrow> pr < 2 ^ 31"
  by (auto simp: openPullRequest_def prs_fit_def Let_def split: sum.splits prod.splits if_splits)

lemma partial_fits: "prs_fit env \<Longrightarrow> partial_pull_request env c repo ws head summary = (eff, pr) \<Longrightarrow> pr < 2 ^ 31"
  by (auto simp: partial_pull_request_def split: if_splits sum.splits prod.splits dest: openPR_fits)

lemma pushed_recordable:
  assumes "prs_fit env" "usage_row_ok (rr_Usage report)" "summary \<noteq> ''''"
    and "runner_pushed env c a repo ws head summary report = (eff, ou)"
  shows "recordable env ou"
proof -
  let ?u = "rr_Usage report" and ?n = "en_now env"
  have plain: "recordable env (settled o' ?u ?n)"
    if "\<And>ou. o' = Inr ou \<Longrightarrow> outcome_row_ok ou \<and> oc_Kind ou \<noteq> Aborted" for o'
    using that by (intro settled_recordable assms(2)) (auto simp: recordable_def row_summary)
  have pr: "recordable env (settled (OutcomePullRequest pr head summary ?u ?n) ?u ?n)" if "pr < 2 ^ 31" for pr
    using outcome_rows(1) kinds(1) assms(2) that by (intro plain) fastforce
  have ex: "recordable env (settled (if pr \<noteq> 0 then OutcomeExhaustedWithPullRequest l pr head summary ?u ?n
       else OutcomeExhausted l summary ?u ?n) ?u ?n)" if "pr < 2 ^ 31" for pr l
    using outcome_rows(2,3) kinds(2,3) assms(2) that by (intro plain) (fastforce split: if_splits)
  have ab: "recordable env (settled (OutcomeAborted (slot_reason (en_reason env ''outcome'') AbortOperatorStop)
      summary ?u ?n) ?u ?n)"
    by (rule aborted_recordable [OF assms(2)]) (auto simp: slot_reason_def)
  note fr = failed_recordable [OF _ _ assms(2)] and ir = infra_recordable [OF assms(2)]
  have exhausted: "recordable env ou"
    if "(case partial_pull_request env c repo ws head summary of (eff, prNumber) \<Rightarrow>
         (eff, settled (if prNumber \<noteq> 0
            then OutcomeExhaustedWithPullRequest (Limit_of (Stop_string stop)) prNumber head summary ?u ?n
            else OutcomeExhausted (Limit_of (Stop_string stop)) summary ?u ?n) ?u ?n)) = (eff, ou)" for stop
    using that partial_fits [OF assms(1)] ex by (auto split: prod.splits)
  show ?thesis
  proof (cases "rr_Stop report")
    case StopNone
    with assms(4) show ?thesis
      by (auto simp: runner_pushed_def Let_def AllFailureClasses_def assms(3) intro: fr ir pr
          split: if_splits sum.splits prod.splits dest: openPR_fits [OF assms(1)])
  next
    case StopModelErr
    with assms(4) show ?thesis
      by (auto simp: runner_pushed_def Let_def AllFailureClasses_def intro!: fr)
  next
    case StopCancelled
    with assms(4) ab show ?thesis by (auto simp: runner_pushed_def Let_def)
  next
    case StopTurns
    with assms(4) exhausted [of StopTurns] show ?thesis by (simp add: runner_pushed_def Let_def)
  next
    case StopWallClock
    with assms(4) exhausted [of StopWallClock] show ?thesis by (simp add: runner_pushed_def Let_def)
  next
    case StopDiffLines
    with assms(4) exhausted [of StopDiffLines] show ?thesis by (simp add: runner_pushed_def Let_def)
  qed
qed

text \<open>The usage a run of this attempt reports fits the store's columns.\<close>

definition usage_fits :: "RunnerEnv \<Rightarrow> Attempt \<Rightarrow> bool" where
  "usage_fits env a = usage_row_ok (rr_Usage (fst (RunAttempt (at_Budget a) (en_run env))))"

lemma model_recordable:
  assumes "prs_fit env" "usage_fits env a"
    and "with_model env c a repo token ws modelID st = (st', eff, Some (ou, stop))"
  shows "recordable env ou"
proof -
  have s: "rr_Summary (fst (RunAttempt (at_Budget a) (en_run env))) \<noteq> ''''" by (rule report_summary)
  have u: "usage_row_ok (rr_Usage (fst (RunAttempt (at_Budget a) (en_run env))))"
    using assms(2) by (simp add: usage_fits_def)
  show ?thesis
    using assms(3) s pushed_recordable [OF assms(1) u s] infra_recordable [OF u]
    by (auto simp: with_model_def Let_def split: prod.splits if_splits)
qed

lemma execute_recordable:
  assumes "prs_fit env" "usage_fits env a" "Runner_execute cfg env c a st = (st', eff, Some (ou, stop))"
  shows "recordable env ou"
proof -
  have "recordable env ou" if "with_container cfg env c a repo token ws ctr st1 = (st2, eff2, Some (ou, stop))"
    for repo token ws ctr st1 st2 eff2
    using that model_recordable [OF assms(1,2)] setup_recordable
    by (auto simp: with_container_def Let_def split: option.splits prod.splits)
  with assms(3) show ?thesis
    by (auto simp: Runner_execute_def Let_def split: sum.splits prod.splits dest!: setup_recordable)
qed

subsection \<open>The calls a run makes\<close>

text \<open>How often each service is called, and in what order the calls after a start stand.\<close>

definition is_run :: "Effect \<Rightarrow> bool" where
  "is_run e = (case e of RunAgent _ _ _ _ \<Rightarrow> True | _ \<Rightarrow> False)"

definition is_push :: "Effect \<Rightarrow> bool" where
  "is_push e = (case e of PushWork _ _ _ \<Rightarrow> True | _ \<Rightarrow> False)"

definition is_pr :: "Effect \<Rightarrow> bool" where
  "is_pr e = (case e of OpenPR _ _ _ _ _ \<Rightarrow> True | _ \<Rightarrow> False)"

definition is_host :: "Effect \<Rightarrow> bool" where
  "is_host e = (case e of StartContainer _ _ \<Rightarrow> True | TeardownContainer _ \<Rightarrow> True | CloseTools \<Rightarrow> True
     | DialTools _ \<Rightarrow> True | RunAgent _ _ _ _ \<Rightarrow> True | PushWork _ _ _ \<Rightarrow> True | _ \<Rightarrow> False)"

lemmas effect_kinds = is_run_def is_push_def is_pr_def is_host_def

lemma openPR_effects:
  "openPullRequest env c repo summary partial = (eff, r) \<Longrightarrow>
     filter is_host eff = [] \<and> filter is_pr eff = [OpenPR (cs_repository c) (Case_Branch c) (rp_DefaultBranch repo)
       (pr_title env c) (pr_body c summary partial)]"
  by (auto simp: openPullRequest_def Let_def effect_kinds split: sum.splits prod.splits)

lemma pushed_effects:
  assumes "runner_pushed env c a repo ws head summary report = (eff, ou)"
  shows "filter is_host eff = [] \<and> (filter is_pr eff = [] \<or>
    (head \<noteq> ws_BaseSha ws \<and> en_markers env = Inr False \<and> rr_Stop report \<notin> {StopModelErr, StopCancelled} \<and>
     filter is_pr eff = [OpenPR (cs_repository c) (Case_Branch c) (rp_DefaultBranch repo) (pr_title env c)
       (pr_body c summary (rr_Stop report \<noteq> StopNone))]))"
proof -
  have part: "filter is_host eff' = [] \<and> (filter is_pr eff' = [] \<or>
     (head \<noteq> ws_BaseSha ws \<and> en_markers env = Inr False \<and>
      filter is_pr eff' = [OpenPR (cs_repository c) (Case_Branch c) (rp_DefaultBranch repo) (pr_title env c)
        (pr_body c summary True)]))"
    if "partial_pull_request env c repo ws head summary = (eff', pr)" for eff' pr
    using that openPR_effects [of env c repo summary True]
    by (auto simp: partial_pull_request_def effect_kinds split: if_splits sum.splits prod.splits)
  show ?thesis
  proof (cases "rr_Stop report")
    case StopNone
    with assms show ?thesis using openPR_effects [of env c repo summary False]
      by (auto simp: runner_pushed_def Let_def effect_kinds split: if_splits sum.splits prod.splits)
  qed (use assms part in \<open>auto simp: runner_pushed_def Let_def effect_kinds split: prod.splits\<close>)
qed

definition agent_ran :: "RunnerEnv \<Rightarrow> Case \<Rightarrow> Attempt \<Rightarrow> Workspace \<Rightarrow> string \<Rightarrow> Effect list \<Rightarrow> bool" where
  "agent_ran env c a ws token eff = (\<exists>modelID agentID. eff = [RunAgent modelID (at_Budget a) (at_Brief a) agentID,
     PushWork ws (case en_remint env of Inl _ \<Rightarrow> token | Inr fresh \<Rightarrow> fresh)
       (''autophage: attempt '' @ show_nat (at_Ordinal a))])"

lemma model_cases:
  assumes "with_model env c a repo token ws modelID st = (st', eff, r)"
  obtains ran rest where "eff = ran @ rest" "agent_ran env c a ws token (filter is_host ran)" "filter is_pr ran = []"
    "rest = [] \<or> (\<exists>head summary ou. en_push env = (head, True, None) \<and>
       r = Some (ou, rr_Stop (fst (RunAttempt (at_Budget a) (en_run env)))) \<and>
       runner_pushed env c a repo ws head summary (fst (RunAttempt (at_Budget a) (en_run env))) = (rest, ou))"
proof -
  let ?report = "fst (RunAttempt (at_Budget a) (en_run env))"
  let ?summary = "if rr_Summary ?report = '''' then ''The agent produced no summary.'' else rr_Summary ?report"
  let ?ran = "[RunAgent modelID (at_Budget a) (at_Brief a)
       (''autophage/'' @ cs_repository c @ ''#'' @ show_int (cs_number c) @ ''/'' @ show_nat (at_Ordinal a)),
     RemintToken repo,
     PushWork ws (case en_remint env of Inl _ \<Rightarrow> token | Inr fresh \<Rightarrow> fresh)
       (''autophage: attempt '' @ show_nat (at_Ordinal a))]"
  obtain head pushed err where p: "en_push env = (head, pushed, err)" by (rule prod_cases3)
  obtain rest ou where rp: "runner_pushed env c a repo ws head ?summary ?report = (rest, ou)" by (rule prod.exhaust)
  have ran: "agent_ran env c a ws token (filter is_host ?ran)" "filter is_pr ?ran = []"
    by (simp_all add: agent_ran_def effect_kinds)
  consider "eff = ?ran" | "eff = ?ran @ rest" "err = None" "pushed" "r = Some (ou, rr_Stop ?report)"
    using assms by (simp only: with_model_def Let_def p rp prod.case split: if_splits) auto
  then show thesis
  proof cases
    case 1
    then show thesis by (intro that [of ?ran "[]"] ran) simp_all
  next
    case 2
    with p rp show thesis by (intro that [of ?ran rest] ran) auto
  qed
qed

lemma model_effects:
  assumes "with_model env c a repo token ws modelID st = (st', eff, r)"
  shows "agent_ran env c a ws token (filter is_host eff) \<and>
    (filter is_pr eff = [] \<or> (\<exists>head summary partial. en_push env = (head, True, None) \<and> head \<noteq> ws_BaseSha ws \<and>
       en_markers env = Inr False \<and> r \<noteq> None \<and>
       rr_Stop (fst (RunAttempt (at_Budget a) (en_run env))) \<notin> {StopModelErr, StopCancelled} \<and>
       filter is_pr eff = [OpenPR (cs_repository c) (Case_Branch c) (rp_DefaultBranch repo) (pr_title env c)
         (pr_body c summary partial)]))"
  using assms
proof (cases rule: model_cases)
  case (1 ran rest)
  from 1(4) show ?thesis
  proof
    assume "rest = []"
    with 1 show ?thesis by simp
  next
    assume "\<exists>head summary ou. en_push env = (head, True, None) \<and>
       r = Some (ou, rr_Stop (fst (RunAttempt (at_Budget a) (en_run env)))) \<and>
       runner_pushed env c a repo ws head summary (fst (RunAttempt (at_Budget a) (en_run env))) = (rest, ou)"
    then obtain head summary ou where h: "en_push env = (head, True, None)" "r \<noteq> None"
      "runner_pushed env c a repo ws head summary (fst (RunAttempt (at_Budget a) (en_run env))) = (rest, ou)"
      by blast
    from pushed_effects [OF h(3)] h(1,2) 1(1,2,3) show ?thesis by auto
  qed
qed

text \<open>The calls on the container, for an environment whose preparation answered.\<close>

lemma execute_effects:
  assumes "Runner_execute cfg env c a st = (st', eff, r)"
  shows "filter is_host eff = [] \<or> (\<exists>ws. filter is_host eff = [StartContainer ws (at_ID a)] \<and> isl (en_start env)) \<or>
    (\<exists>ws ctr. en_start env = Inr ctr \<and> (filter is_host eff = [StartContainer ws (at_ID a), DialTools ctr, TeardownContainer ctr] \<or>
       filter is_host eff = [StartContainer ws (at_ID a), DialTools ctr, CloseTools, TeardownContainer ctr] \<or>
       (\<exists>token ran. agent_ran env c a ws token ran \<and>
          filter is_host eff = [StartContainer ws (at_ID a), DialTools ctr] @ ran @ [CloseTools, TeardownContainer ctr])) \<and>
       last eff = TeardownContainer ctr)"
proof -
  have wc: "(filter is_host eff2 = [DialTools ctr] \<or> filter is_host eff2 = [DialTools ctr, CloseTools] \<or>
     (\<exists>ran. agent_ran env c a ws token ran \<and> filter is_host eff2 = DialTools ctr # ran @ [CloseTools]))"
    if "with_container cfg env c a repo token ws ctr st1 = (st2, eff2, r)" for repo token ws ctr st1 st2 eff2
  proof (cases "en_tools env")
    case None
    show ?thesis
    proof (cases "Models_Tier (en_build env) (attempt_model cfg env a)")
      case None
      obtain st3 eff3 r3 where m: "with_model env c a repo token ws (attempt_model cfg env a) st1 = (st3, eff3, r3)"
        by (rule prod_cases3)
      with that None \<open>en_tools env = None\<close> have "eff2 = DialTools ctr # eff3 @ [CloseTools]"
        by (simp add: with_container_def Let_def)
      with model_effects [OF m] show ?thesis by (auto simp: is_host_def)
    qed (use that \<open>en_tools env = None\<close> in \<open>auto simp: with_container_def Let_def is_host_def\<close>)
  qed (use that in \<open>auto simp: with_container_def is_host_def\<close>)
  show ?thesis
  proof (cases "GetRepository (cs_repository c) st")
    case (Inr repo0)
    show ?thesis
    proof (cases "en_mint env")
      case (Inr token)
      obtain st1 repo where rf: "refreshDefaultBranch env repo0 st = (st1, repo)" by (rule prod.exhaust)
      show ?thesis
      proof (cases "en_prepare env")
        case (Inr ws)
        show ?thesis
        proof (cases "en_start env")
          case (Inr ctr)
          obtain st2 eff2 r2 where w: "with_container cfg env c a repo token ws ctr st1 = (st2, eff2, r2)"
            by (rule prod_cases3)
          have eff: "r2 = r" "filter is_host eff = StartContainer ws (at_ID a) # filter is_host eff2 @ [TeardownContainer ctr]"
            "last eff = TeardownContainer ctr"
            using assms \<open>GetRepository (cs_repository c) st = Inr repo0\<close> \<open>en_mint env = Inr token\<close> rf
              \<open>en_prepare env = Inr ws\<close> Inr w
            by (auto simp: Runner_execute_def Let_def is_host_def)
          from wc [OF w [unfolded eff(1)]] eff(2,3) Inr show ?thesis
            by (intro disjI2 exI [of _ ws] exI [of _ ctr]) (auto intro!: exI [of _ token])
        qed (use assms \<open>GetRepository (cs_repository c) st = Inr repo0\<close> \<open>en_mint env = Inr token\<close> rf
            \<open>en_prepare env = Inr ws\<close> in \<open>auto simp: Runner_execute_def Let_def is_host_def\<close>)
      qed (use assms \<open>GetRepository (cs_repository c) st = Inr repo0\<close> \<open>en_mint env = Inr token\<close> rf
          in \<open>auto simp: Runner_execute_def Let_def is_host_def\<close>)
    qed (use assms \<open>GetRepository (cs_repository c) st = Inr repo0\<close> in \<open>auto simp: Runner_execute_def is_host_def\<close>)
  qed (use assms in \<open>auto simp: Runner_execute_def\<close>)
qed

lemma execute_model:
  assumes "Runner_execute cfg env c a st = (st', eff, r)"
  shows "filter is_pr eff = [] \<or> (\<exists>repo token ws modelID st1 effm. en_prepare env = Inr ws \<and>
    with_model env c a repo token ws modelID st1 = (st', effm, r) \<and> filter is_pr eff = filter is_pr effm)"
proof -
  have "filter is_pr eff2 = [] \<or> (\<exists>effm. with_model env c a repo token ws (attempt_model cfg env a) st1 =
      (st2, effm, r) \<and> filter is_pr eff2 = filter is_pr effm)"
    if "with_container cfg env c a repo token ws ctr st1 = (st2, eff2, r)" for repo token ws ctr st1 st2 eff2
    using that by (auto simp: with_container_def Let_def is_pr_def split: option.splits prod.splits)
  with assms show ?thesis
    by (fastforce simp: Runner_execute_def Let_def is_pr_def split: sum.splits prod.splits)
qed

lemma outcome_ends:
  assumes "Runner_execute cfg env c a st = (st1, eff, Some (ou, stop))" "prs_fit env" "usage_fits env a"
    and "store_ok (st_cases st2)" "x \<in> set (OpenAttempts st2)"
    and closed: "\<And>s c0. s \<in> set (db_cases (st_cases st2)) \<Longrightarrow> x \<in> set (open_attempts s) \<Longrightarrow> loadCase s = Inr c0 \<Longrightarrow>
      AbortIssueClosed \<in> range (en_reason env) \<Longrightarrow> cs_state c0 = Closed"
  shows "\<exists>db out. UpdateCase (oa_Repository x) (oa_Number x) (\<lambda>c. Case_RecordOutcome c (oa_AttemptID x) ou)
      (st_cases st2) = Inr (db, out) \<and> store_ok db \<and> all_open db = set (OpenAttempts st2) - {x}"
proof -
  have rec: "recordable env ou" using assms(2,3,1) by (rule execute_recordable)
  have x: "x \<in> all_open (st_cases st2)" using assms(5) by (simp add: set_OpenAttempts)
  obtain s where s: "find (is_key (oa_Repository x) (oa_Number x)) (db_cases (st_cases st2)) = Some s"
    "s \<in> set (db_cases (st_cases st2))" "x \<in> set (open_attempts s)" "case_row_ok s"
    using x assms(4) by (rule row_of_open)
  have "\<exists>ou'. Case_RecordOutcome c' (oa_AttemptID x) ou = Case_RecordOutcome c' (oa_AttemptID x) ou' \<and>
      outcome_row_ok ou' \<and> snd (Case_RecordOutcome c' (oa_AttemptID x) ou) = None" if l: "loadCase s = Inr c'" for c'
  proof -
    obtain as b where b: "case_inv c'" "cs_attempts c' = as @ [b]" "at_Outcome b = None" "oa_AttemptID x = at_ID b"
      using s(4,3) l by (rule loaded_open)
    have "oc_Kind ou \<in> set AllOutcomeKinds"
      using rec by (auto simp: recordable_def outcome_row_ok_def AllOutcomeKinds_def split: OutcomeKind.splits)
    moreover have "cs_state c' = Closed \<or> oc_Reason ou \<in> {AbortOperatorStop, AbortDaemonRestart}"
      if "oc_Kind ou = Aborted"
    proof (cases "oc_Reason ou = AbortOperatorStop")
      case False
      with that rec have "oc_Reason ou \<in> range (en_reason env)" "oc_Reason ou \<in> set AllAbortReasons"
        by (auto simp: recordable_def)
      with closed [OF s(2,3) l] show ?thesis by (cases "oc_Reason ou") (auto simp: AllAbortReasons_def)
    qed simp
    ultimately have "snd (Case_RecordOutcome c' (oa_AttemptID x) ou) = None"
      using rec by (intro record_open [OF b]) (auto simp: recordable_def)
    with rec show ?thesis by (auto simp: recordable_def)
  qed
  from end_attempt [OF assms(4) x this s(1)] show ?thesis by (simp add: set_OpenAttempts)
qed

subsection \<open>Properties\<close>


definition attempt_env :: RunnerEnv where
  "attempt_env = \<lparr>en_ctxDone = (\<lambda>_. False), en_callerDone = (\<lambda>_. False), en_reason = (\<lambda>_. no_abort),
     en_repoText = (\<lambda>_. ''not found''), en_mint = Inr ''tok'', en_defaultBranch = Inr ''main'',
     en_prepare = Inr \<lparr>ws_Path = ''/w'', ws_Repository = ''o/r'', ws_CloneURL = ''u'', ws_Branch = ''autophage/7'',
       ws_DefaultBranch = ''main'', ws_BaseSha = ''0000000000000000000000000000000000000000'', ws_RemoteHead = '''',
       ws_lease = None\<rparr>,
     en_start = Inl ''no podman'', en_tools = None, en_resolve = (\<lambda>_ s. s), en_build = (\<lambda>_. None),
     en_run = demo_run, en_remint = Inr ''tok2'',
     en_push = (''0123456789012345678901234567890123456789'', True, None), en_markers = Inr False,
     en_issue = Inr \<lparr>is_Title = ''Crash'', is_Body = '''', is_Open = True\<rparr>, en_openPR = Inr 12,
     en_findPR = Inl ''none'', en_began = 3, en_now = 9\<rparr>"

definition demo_rcfg :: RunnerCfg where
  "demo_rcfg = \<lparr>rc_AttemptModel = ''m'', rc_ApprovedModel = '''', rc_CloneURL = None\<rparr>"


text \<open>C7. A pull request is opened, at most one, only for work that is finished and clean: its branch was
  pushed without error in this run and differs from its base, the pushed tree was checked and
  carries no conflict markers, and the run ended by itself or on a budget, never on a model
  failure or a stop. It goes from the case's branch to the repository's default branch, and the
  last thing its body says is that it fixes this issue.\<close>
theorem pull_requests_carry_finished_work:
  assumes "Runner_execute cfg env c a st = (st', eff, r)"
  shows "length (filter is_pr eff) \<le> 1 \<and>
    (\<forall>repository branch base title body. OpenPR repository branch base title body \<in> set eff \<longrightarrow>
       repository = cs_repository c \<and> branch = Case_Branch c \<and>
       HasSuffix body (''Fixes #'' @ show_int (cs_number c)) \<and>
       (\<exists>ws head. en_prepare env = Inr ws \<and> en_push env = (head, True, None) \<and> head \<noteq> ws_BaseSha ws) \<and>
       en_markers env = Inr False \<and>
       rr_Stop (fst (RunAttempt (at_Budget a) (en_run env))) \<notin> {StopModelErr, StopCancelled})"
  using execute_model [OF assms]
proof
  assume none: "filter is_pr eff = []"
  then have "\<forall>e \<in> set eff. \<not> is_pr e" by (simp add: filter_empty_conv)
  with none show ?thesis by (auto simp: is_pr_def)
next
  assume "\<exists>repo token ws modelID st1 effm. en_prepare env = Inr ws \<and>
    with_model env c a repo token ws modelID st1 = (st', effm, r) \<and> filter is_pr eff = filter is_pr effm"
  then obtain repo token ws modelID st1 effm where m: "en_prepare env = Inr ws"
    "with_model env c a repo token ws modelID st1 = (st', effm, r)" "filter is_pr eff = filter is_pr effm" by blast
  have suffix: "HasSuffix (pr_body c summary partial) (''Fixes #'' @ show_int (cs_number c))" for summary partial
    by (simp add: HasSuffix_def pr_body_def HasPrefix_iff)
  have in_pr: "OpenPR repository branch base title body \<in> set (filter is_pr eff)"
    if "OpenPR repository branch base title body \<in> set eff" for repository branch base title body
    using that by (simp add: is_pr_def)
  from model_effects [OF m(2)] m(1,3) suffix show ?thesis
    by (auto dest!: in_pr)
qed

definition done_env :: RunnerEnv where
  "done_env = attempt_env\<lparr>en_start := Inr \<lparr>ct_Name = ''autophage-a1'', ct_Workspace = demo_ws\<rparr>,
     en_run := shaped_run\<lparr>rv_steps := [], rv_sum := Some \<lparr>su_EndReason = EndReason_other, su_TurnCount = 1\<rparr>\<rparr>\<rparr>"

definition repo_store :: Store where
  "repo_store = (dm_store (demo_daemon [demo_open_row]))\<lparr>st_repos := [\<lparr>rp_FullName = ''o/r'', rp_InstallationID = 1,
     rp_DefaultBranch = ''main'', rp_EnrolledAt = 0, rp_Removed = None\<rparr>]\<rparr>"

definition attempt_case :: Case where
  "attempt_case = \<lparr>cs_id = ''0'', cs_repository = ''o/r'', cs_number = 7,
      cs_requester = demo_rq Trusted, cs_state = Attempting, cs_receivedAt = 0,
      cs_triage = None,
      cs_approvals = [], cs_attempts = sn_Attempts demo_open_row, cs_transitions = [], cs_closure = None,
      cs_changes = no_changes Attempting\<rparr>"

lemma demo_finds_pr: "filter is_pr (fst (snd (Runner_execute demo_rcfg done_env attempt_case (hd (sn_Attempts demo_open_row)) repo_store))) =
   [OpenPR ''o/r'' ''autophage/7'' ''main'' ''autophage: Crash'' (''## What I found: nothing'' @ Briefs.NL @ Briefs.NL @ ''Fixes #7'')]"
  by code_simp

theorem pull_requests_carry_finished_work_witness:
  "en_markers done_env = Inr False \<and>
   HasSuffix (''## What I found: nothing'' @ Briefs.NL @ Briefs.NL @ ''Fixes #7'') (''Fixes #'' @ show_int 7)"
proof -
  obtain st' eff r where e: "Runner_execute demo_rcfg done_env attempt_case (hd (sn_Attempts demo_open_row)) repo_store = (st', eff, r)"
    by (rule prod_cases3)
  with demo_finds_pr have "filter is_pr eff = [OpenPR ''o/r'' ''autophage/7'' ''main'' ''autophage: Crash''
     (''## What I found: nothing'' @ Briefs.NL @ Briefs.NL @ ''Fixes #7'')]" by simp
  then have "OpenPR ''o/r'' ''autophage/7'' ''main'' ''autophage: Crash''
     (''## What I found: nothing'' @ Briefs.NL @ Briefs.NL @ ''Fixes #7'') \<in> set (filter is_pr eff)"
    by (metis list.set_intros(1))
  then have i: "OpenPR ''o/r'' ''autophage/7'' ''main'' ''autophage: Crash''
     (''## What I found: nothing'' @ Briefs.NL @ Briefs.NL @ ''Fixes #7'') \<in> set eff"
    by (simp only: set_filter mem_Collect_eq)
  have "cs_number attempt_case = 7" by (simp add: attempt_case_def)
  with pull_requests_carry_finished_work [OF e] i show ?thesis by metis
qed

lemma host_count:
  "is_host e \<Longrightarrow> count_list eff e = count_list (filter is_host eff) e"
  by (induction eff) auto

text \<open>C20. Every container that starts is torn down, exactly once and as the very last call, and none
  otherwise; the toolbox is closed before it. The agent runs at most once, and the work of every
  run is pushed, once, after the run and before the toolbox closes, with a fresh token when one
  could be minted.\<close>
theorem containers_are_torn_down:
  assumes "Runner_execute cfg env c a st = (st', eff, r)"
  shows "(\<forall>ctr. TeardownContainer ctr \<in> set eff \<longleftrightarrow>
      (\<exists>ws. StartContainer ws (at_ID a) \<in> set eff) \<and> en_start env = Inr ctr) \<and>
    (\<forall>ctr. TeardownContainer ctr \<in> set eff \<longrightarrow> last eff = TeardownContainer ctr \<and> count_list eff (TeardownContainer ctr) = 1) \<and>
    length (filter is_run eff) \<le> 1 \<and> length (filter is_push eff) = length (filter is_run eff) \<and>
    (filter is_run eff \<noteq> [] \<longrightarrow> (\<exists>ws ctr token ran. agent_ran env c a ws token ran \<and>
       filter is_host eff = [StartContainer ws (at_ID a), DialTools ctr] @ ran @ [CloseTools, TeardownContainer ctr]))"
proof -
  let ?h = "filter is_host eff"
  have mem: "e \<in> set eff \<longleftrightarrow> e \<in> set ?h" if "is_host e" for e using that by simp
  have runs: "filter is_run eff = filter is_run ?h" "filter is_push eff = filter is_push ?h"
    by (auto simp: filter_filter effect_kinds intro!: filter_cong split: Effect.splits)
  have td: "count_list eff (TeardownContainer ctr) = count_list ?h (TeardownContainer ctr)" for ctr
    by (rule host_count) (simp add: is_host_def)
  have mt: "TeardownContainer ctr \<in> set eff \<longleftrightarrow> TeardownContainer ctr \<in> set ?h"
    "StartContainer ws i \<in> set eff \<longleftrightarrow> StartContainer ws i \<in> set ?h" for ctr ws i
    by (rule mem, simp add: is_host_def)+
  note execute_effects [OF assms]
  then consider "?h = []" | ws where "?h = [StartContainer ws (at_ID a)]" "isl (en_start env)"
    | ws ctr where "en_start env = Inr ctr" "last eff = TeardownContainer ctr"
        "?h = [StartContainer ws (at_ID a), DialTools ctr, TeardownContainer ctr] \<or>
         ?h = [StartContainer ws (at_ID a), DialTools ctr, CloseTools, TeardownContainer ctr]"
    | ws ctr token ran where "en_start env = Inr ctr" "last eff = TeardownContainer ctr"
        "agent_ran env c a ws token ran"
        "?h = [StartContainer ws (at_ID a), DialTools ctr] @ ran @ [CloseTools, TeardownContainer ctr]"
    by blast
  then show ?thesis
  proof cases
    case 1
    then show ?thesis by (simp add: mt runs)
  next
    case 2
    then have "\<And>ctr. en_start env \<noteq> Inr ctr" by auto
    with 2 show ?thesis by (simp add: mt runs effect_kinds)
  next
    case 3
    then show ?thesis unfolding mt runs td by (elim disjE) (auto simp: effect_kinds)
  next
    case 4
    from 4(3) obtain m g t where ran: "ran = [RunAgent m (at_Budget a) (at_Brief a) g, PushWork ws t
        (''autophage: attempt '' @ show_nat (at_Ordinal a))]" by (auto simp: agent_ran_def)
    have "\<exists>ws' ctr' token' ran'. agent_ran env c a ws' token' ran' \<and>
       ?h = [StartContainer ws' (at_ID a), DialTools ctr'] @ ran' @ [CloseTools, TeardownContainer ctr']"
      using 4(3,4) by blast
    moreover have "?h = [StartContainer ws (at_ID a), DialTools ctr, RunAgent m (at_Budget a) (at_Brief a) g, PushWork ws t
        (''autophage: attempt '' @ show_nat (at_Ordinal a)), CloseTools, TeardownContainer ctr]"
      using 4(4) ran by simp
    ultimately show ?thesis unfolding mt runs td using 4(1,2) by (auto simp: effect_kinds)
  qed
qed

theorem containers_are_torn_down_witness:
  "let eff = fst (snd (Runner_execute demo_rcfg done_env attempt_case (hd (sn_Attempts demo_open_row)) repo_store)) in
   length (filter is_push eff) = length (filter is_run eff)"
proof -
  obtain st' eff r where e: "Runner_execute demo_rcfg done_env attempt_case (hd (sn_Attempts demo_open_row)) repo_store = (st', eff, r)"
    by (rule prod_cases3)
  from containers_are_torn_down [OF e] show ?thesis by (simp add: e)
qed

lemma setup_result:
  "(runner_setup env i step err = None \<longrightarrow> en_callerDone env step \<and> en_reason env step = no_abort) \<and>
   (en_reason env step = reason \<and> reason \<in> set AllAbortReasons \<longrightarrow>
      (\<exists>ou. runner_setup env i step err = Some (ou, StopNone) \<and>
        (en_ctxDone env step \<longrightarrow> oc_Kind ou = Aborted \<and> oc_Reason ou = reason)))"
proof -
  have "no_abort \<notin> set AllAbortReasons" by (simp add: no_abort_def AllAbortReasons_def)
  moreover have "\<exists>ou. OutcomeAborted reason (t @ u) zero_usage now = Inr ou \<and> oc_Kind ou = Aborted \<and> oc_Reason ou = reason"
    if "reason \<in> set AllAbortReasons" "t \<noteq> ''''" for t u now
  proof -
    have "ParseAbortReason reason = Inr reason" using that(1) by (simp add: ParseAbortReason_Inr)
    with that(2) show ?thesis by (simp add: OutcomeAborted_def zero_outcome_def)
  qed
  from this [of "''The attempt was stopped during ''" "step @ '', before the agent ran: '' @ err" "en_now env"]
  have "reason \<in> set AllAbortReasons \<Longrightarrow> \<exists>ou. OutcomeAborted reason (''The attempt was stopped during '' @ step @
      '', before the agent ran: '' @ err) zero_usage (en_now env) = Inr ou \<and> oc_Kind ou = Aborted \<and> oc_Reason ou = reason"
    by blast
  ultimately show ?thesis
    by (auto simp: runner_setup_def slot_reason_def Let_def settled_def simp del: append.simps)
qed

lemma model_result:
  assumes "with_model env c a repo token ws modelID st = (st', eff, r)"
  shows "(r = None \<longrightarrow> (\<exists>step. en_callerDone env step) \<and> en_reason env ''pushed'' = no_abort) \<and>
    ((\<forall>step. en_reason env step = reason) \<and> reason \<in> set AllAbortReasons \<longrightarrow>
      (\<exists>ou stop. r = Some (ou, stop) \<and> (stop = StopCancelled \<and> (\<exists>head. en_push env = (head, True, None)) \<longrightarrow>
         oc_Kind ou = Aborted \<and> oc_Reason ou = reason)))"
proof -
  let ?report = "fst (RunAttempt (at_Budget a) (en_run env))"
  have s: "rr_Summary ?report \<noteq> ''''" by (rule report_summary)
  obtain head pushed err where p: "en_push env = (head, pushed, err)" by (rule prod_cases3)
  obtain rest ou where rp: "runner_pushed env c a repo ws head (rr_Summary ?report) ?report = (rest, ou)" by (rule prod.exhaust)
  have e: "snd (snd (with_model env c a repo token ws modelID st)) = (if shuttingDown (en_callerDone env ''run'' \<or> (rr_Stop ?report = StopCancelled \<and> en_callerDone env ''ended''))
        (en_reason env ''pushed'') then None
      else if err \<noteq> None \<or> \<not> pushed then Some (runner_infra (at_ID a) ''push'' (rr_Summary ?report) (rr_Usage ?report)
        (en_now env), rr_Stop ?report)
      else Some (ou, rr_Stop ?report))"
    using s by (cases "err = None"; cases pushed) (simp_all add: with_model_def Let_def p rp)
  have "no_abort \<notin> set AllAbortReasons" by (simp add: no_abort_def AllAbortReasons_def)
  moreover have "oc_Kind ou = Aborted \<and> oc_Reason ou = reason"
    if "rr_Stop ?report = StopCancelled" "en_reason env ''outcome'' = reason" "reason \<in> set AllAbortReasons"
  proof -
    have "ParseAbortReason reason = Inr reason" "reason \<noteq> no_abort"
      using that(3) by (auto simp: ParseAbortReason_Inr AllAbortReasons_def no_abort_def)
    with that rp s show ?thesis
      by (auto simp: runner_pushed_def Let_def slot_reason_def OutcomeAborted_def settled_def zero_outcome_def)
  qed
  moreover have "r = (if shuttingDown (en_callerDone env ''run'' \<or> (rr_Stop ?report = StopCancelled \<and> en_callerDone env ''ended''))
        (en_reason env ''pushed'') then None
      else if err \<noteq> None \<or> \<not> pushed then Some (runner_infra (at_ID a) ''push'' (rr_Summary ?report) (rr_Usage ?report)
        (en_now env), rr_Stop ?report)
      else Some (ou, rr_Stop ?report))"
    using e assms by simp
  ultimately show ?thesis
    by (auto simp: shuttingDown_def slot_reason_def p)
qed

lemma execute_result:
  assumes "Runner_execute cfg env c a st = (st', eff, r)"
  shows "(\<exists>step err. r = runner_setup env (at_ID a) step err \<and> filter is_run eff = []) \<or>
    (\<exists>repo token ws modelID st1 effm. with_model env c a repo token ws modelID st1 = (st', effm, r) \<and> filter is_run eff \<noteq> [])"
proof -
  have "(\<exists>step err. r = runner_setup env (at_ID a) step err \<and> filter is_run eff2 = []) \<or>
      (\<exists>effm. with_model env c a repo token ws (attempt_model cfg env a) st1 = (st2, effm, r) \<and> filter is_run eff2 \<noteq> [])"
    if w: "with_container cfg env c a repo token ws ctr st1 = (st2, eff2, r)" for repo token ws ctr st1 st2 eff2
  proof (cases "en_tools env = None \<and> Models_Tier (en_build env) (attempt_model cfg env a) = None")
    case True
    obtain st3 eff3 r3 where m: "with_model env c a repo token ws (attempt_model cfg env a) st1 = (st3, eff3, r3)"
      by (rule prod_cases3)
    have e: "eff2 = DialTools ctr # eff3 @ [CloseTools]" "st3 = st2" "r3 = r"
      using w m True by (simp_all add: with_container_def Let_def)
    from model_effects [OF m] have "filter is_host eff3 \<noteq> [] \<and> is_run (hd (filter is_host eff3))"
      by (auto simp: agent_ran_def is_run_def)
    then have "hd (filter is_host eff3) \<in> set eff3" by (metis hd_in_set filter_is_subset subsetD)
    with \<open>filter is_host eff3 \<noteq> [] \<and> is_run (hd (filter is_host eff3))\<close> have "\<exists>x \<in> set eff3. is_run x" by blast
    with e m show ?thesis by (auto simp: filter_empty_conv)
  qed (use w in \<open>auto simp: with_container_def Let_def is_run_def split: option.splits\<close>)
  with assms show ?thesis
    by (fastforce simp: Runner_execute_def Let_def is_run_def split: sum.splits prod.splits)
qed

text \<open>C19. Only a shutdown ends a run without an outcome: it takes the daemon's context ended and no stop
  recorded, so an attempt somebody stopped always gets an outcome; a stop recorded when a
  preparation step fails is the reason of the aborted outcome, and a cancelled run whose work
  was pushed is aborted with the recorded reason, or as an operator stop, and keeps its summary.\<close>
theorem stops_are_never_lost:
  assumes "Runner_execute cfg env c a st = (st', eff, r)"
  shows "(r = None \<longrightarrow> (\<exists>step. en_callerDone env step) \<and> no_abort \<in> range (en_reason env)) \<and>
    (reason \<in> set AllAbortReasons \<and> (\<forall>step. en_reason env step = reason) \<longrightarrow>
       (\<exists>ou stop. r = Some (ou, stop) \<and>
         ((\<forall>step. en_ctxDone env step) \<and> filter is_run eff = [] \<longrightarrow> oc_Kind ou = Aborted \<and> oc_Reason ou = reason) \<and>
         (stop = StopCancelled \<and> (\<exists>head. en_push env = (head, True, None)) \<longrightarrow>
            oc_Kind ou = Aborted \<and> oc_Reason ou = reason)))"
  using execute_result [OF assms]
proof
  assume "\<exists>step err. r = runner_setup env (at_ID a) step err \<and> filter is_run eff = []"
  then obtain step err where "r = runner_setup env (at_ID a) step err" by blast
  then show ?thesis using setup_result [of env "at_ID a" step err reason] by (auto simp: image_iff) metis+
next
  assume "\<exists>repo token ws modelID st1 effm. with_model env c a repo token ws modelID st1 = (st', effm, r) \<and> filter is_run eff \<noteq> []"
  then obtain repo token ws modelID st1 effm where m: "with_model env c a repo token ws modelID st1 = (st', effm, r)"
    "filter is_run eff \<noteq> []" by blast
  from model_result [OF m(1), of reason] m(2) show ?thesis by (auto simp: image_iff) metis+
qed

theorem stops_are_never_lost_witness:
  "\<exists>ou stop. snd (snd (Runner_execute demo_rcfg (attempt_env\<lparr>en_ctxDone := \<lambda>_. True, en_reason := \<lambda>_. AbortIssueClosed\<rparr>)
     attempt_case (hd (sn_Attempts demo_open_row)) repo_store)) = Some (ou, stop) \<and> oc_Reason ou = AbortIssueClosed"
proof -
  let ?env = "attempt_env\<lparr>en_ctxDone := \<lambda>_. True, en_reason := \<lambda>_. AbortIssueClosed\<rparr>"
  obtain st' eff r where e: "Runner_execute demo_rcfg ?env attempt_case (hd (sn_Attempts demo_open_row)) repo_store = (st', eff, r)"
    by (rule prod_cases3)
  then have "filter is_run eff = []"
    by (auto simp: Runner_execute_def is_run_def attempt_env_def Let_def split: sum.splits prod.splits)
  with stops_are_never_lost [OF e, of AbortIssueClosed] e show ?thesis
    by (auto simp: AllAbortReasons_def)
qed


end
