(* ===== verification/RunnerStops.thy ===== *)
theory RunnerStops
  imports RunnerInv
begin

section \<open>Stopping a running attempt\<close>

text \<open>
  The registry of running attempts behind the operator's stop, and what a stop during the first
  steps of an attempt leaves for people to read.
\<close>

subsection \<open>The registry\<close>

text \<open>What registering, unregistering and stopping make of an empty registry, in any order.\<close>

inductive registry_reached :: "Registry \<Rightarrow> bool" where
  reached_empty: "registry_reached \<lparr>rg_running = Map.empty, rg_slots = [], rg_gauge = 0\<rparr>"
| reached_register: "registry_reached g \<Longrightarrow> rg_running g i = None \<Longrightarrow> registry_reached (fst (register i g))"
| reached_unregister: "registry_reached g \<Longrightarrow> registry_reached (unregister i slot g)"
| reached_cancel: "registry_reached g \<Longrightarrow> registry_reached (fst (Cancel i reason g))"

definition registry_ok :: "Registry \<Rightarrow> bool" where
  "registry_ok g \<longleftrightarrow> finite (dom (rg_running g)) \<and> rg_gauge g = int (card (dom (rg_running g))) \<and>
     (\<forall>i slot. rg_running g i = Some slot \<longrightarrow> slot < length (rg_slots g)) \<and>
     (\<forall>i j slot. rg_running g i = Some slot \<longrightarrow> rg_running g j = Some slot \<longrightarrow> i = j) \<and>
     (\<forall>s \<in> set (rg_slots g). sl_cancelled s \<longleftrightarrow> sl_reason s \<noteq> no_abort)"

lemma register_ok: "registry_ok g \<Longrightarrow> rg_running g i = None \<Longrightarrow> registry_ok (fst (register i g))"
  by (auto simp: registry_ok_def register_def Let_def domIff less_SucI split: if_splits)

lemma unregister_ok:
  assumes ok: "registry_ok g"
  shows "registry_ok (unregister i slot g)"
proof (cases "rg_running g i = Some slot")
  case True
  then have "0 < card (dom (rg_running g))" using ok by (auto simp: registry_ok_def card_gt_0_iff)
  with True ok show ?thesis
    by (auto simp: registry_ok_def unregister_def Runner_remove_def card_Diff_singleton_if)
qed (use ok in \<open>simp add: unregister_def Runner_remove_def\<close>)

lemma cancel_reason: "(if reason = no_abort then AbortOperatorStop else reason) \<noteq> no_abort"
  by (simp add: no_abort_def)

lemma cancel_ok: "registry_ok g \<Longrightarrow> registry_ok (fst (Cancel i reason g))"
  using cancel_reason [of reason]
  by (auto simp: registry_ok_def Cancel_def Let_def split: option.splits dest!: set_update_subset_insert [THEN subsetD])

lemma registry_reached_ok: "registry_reached g \<Longrightarrow> registry_ok g"
proof (induction rule: registry_reached.induct)
  case reached_empty
  show ?case by (simp add: registry_ok_def)
qed (simp_all add: register_ok unregister_ok cancel_ok)

text \<open>Whatever is registered, unregistered (stale calls included) and stopped, in any order, the
  running gauge is the number of runs in flight and no two of them share a slot; a stop reaches
  an attempt exactly when it is in flight, leaves every other run's slot as it was, and records
  a reason whatever reason it was given, so that it is never taken for a shutdown.\<close>
theorem registry_stops_the_run_it_names:
  assumes "registry_reached g"
  shows "rg_gauge g = int (card (dom (rg_running g))) \<and> inj_on (rg_running g) (dom (rg_running g)) \<and>
    (\<forall>i reason g' found. Cancel i reason g = (g', found) \<longrightarrow>
       found = (i \<in> dom (rg_running g)) \<and> rg_running g' = rg_running g \<and>
       (\<forall>slot. rg_running g i = Some slot \<longrightarrow> sl_cancelled (rg_slots g' ! slot) \<and>
          \<not> shuttingDown callerDone (sl_reason (rg_slots g' ! slot))) \<and>
       (\<forall>other slot. other \<noteq> i \<and> rg_running g other = Some slot \<longrightarrow> rg_slots g' ! slot = rg_slots g ! slot))"
proof -
  from registry_reached_ok [OF assms] have ok: "registry_ok g" .
  then have "inj_on (rg_running g) (dom (rg_running g))"
    by (auto simp: registry_ok_def inj_on_def dom_def)
  moreover have "found = (i \<in> dom (rg_running g)) \<and> rg_running g' = rg_running g \<and>
       (\<forall>slot. rg_running g i = Some slot \<longrightarrow> sl_cancelled (rg_slots g' ! slot) \<and>
          \<not> shuttingDown callerDone (sl_reason (rg_slots g' ! slot))) \<and>
       (\<forall>other slot. other \<noteq> i \<and> rg_running g other = Some slot \<longrightarrow> rg_slots g' ! slot = rg_slots g ! slot)"
    if c: "Cancel i reason g = (g', found)" for i reason g' found
  proof (cases "rg_running g i")
    case None
    with c show ?thesis by (auto simp: Cancel_def)
  next
    case (Some k)
    then have k: "k < length (rg_slots g)" and one: "\<And>j. rg_running g j = Some k \<Longrightarrow> j = i"
      using ok by (auto simp: registry_ok_def)
    define why where "why = (if reason = no_abort then AbortOperatorStop else reason)"
    then have why: "why \<noteq> no_abort" using cancel_reason [of reason] by simp
    from c Some have g': "g' = g\<lparr>rg_slots := (rg_slots g)[k := \<lparr>sl_cancelled = True, sl_reason = why\<rparr>]\<rparr>" "found"
      by (simp_all add: Cancel_def why_def)
    have "rg_slots g' ! slot = rg_slots g ! slot" if "other \<noteq> i" "rg_running g other = Some slot" for other slot
    proof -
      from that one have "slot \<noteq> k" by blast
      then show ?thesis by (simp add: g')
    qed
    then have "\<forall>other slot. other \<noteq> i \<and> rg_running g other = Some slot \<longrightarrow> rg_slots g' ! slot = rg_slots g ! slot"
      by blast
    moreover have "rg_running g' = rg_running g" by (simp add: g')
    moreover have "sl_cancelled (rg_slots g' ! k)" "\<not> shuttingDown callerDone (sl_reason (rg_slots g' ! k))"
      using k why by (simp_all add: g' shuttingDown_def slot_reason_def)
    ultimately show ?thesis using Some g'(2) by (simp add: domI)
  qed
  ultimately show ?thesis using ok by (simp add: registry_ok_def)
qed

theorem registry_stops_the_run_it_names_witness:
  "\<exists>g. rg_gauge g = 2 \<and> rg_gauge g = int (card (dom (rg_running g))) \<and> snd (Cancel ''b'' no_abort g)"
proof -
  let ?g = "fst (register ''b'' (fst (register ''a'' \<lparr>rg_running = Map.empty, rg_slots = [], rg_gauge = 0\<rparr>)))"
  have r: "registry_reached ?g"
    by (rule reached_register, rule reached_register, rule reached_empty) (simp_all add: register_def)
  have "rg_gauge ?g = 2" "''b'' \<in> dom (rg_running ?g)" by (simp_all add: register_def)
  moreover obtain g' found where c: "Cancel ''b'' no_abort ?g = (g', found)" by (rule prod.exhaust)
  moreover from registry_stops_the_run_it_names [OF r] c
  have "rg_gauge ?g = int (card (dom (rg_running ?g))) \<and> found = (''b'' \<in> dom (rg_running ?g))" by blast
  ultimately show ?thesis by (intro exI [of _ ?g]) simp
qed

subsection \<open>What a stop shows of an error\<close>

text \<open>A step that fails because the attempt was stopped puts the step's raw error into the outcome's
  summary, and the comment posted on the issue for an operator's stop carries it whole, while
  the outcome of the same step with no stop does not depend on the error at all, as the
  runner's own comment wants of every error.\<close>
theorem stopped_setup_posts_the_error:
  "(en_ctxDone env step \<and> en_reason env step = AbortOperatorStop \<longrightarrow>
     (\<exists>ou pre post. runner_setup env i step err = Some (ou, StopNone) \<and> reported ou \<and>
        OutcomeBody c (a\<lparr>at_Outcome := Some ou\<rparr>) label = pre @ err @ post)) \<and>
   (\<not> en_ctxDone env step \<longrightarrow> runner_setup env i step err = runner_setup env i step err')"
proof -
  have p: "ParseAbortReason AbortOperatorStop = Inr AbortOperatorStop" by (simp add: ParseAbortReason_Inr AllAbortReasons_def)
  define t where "t = ''The attempt was stopped during ''"
  define u where "u = '', before the agent ran: ''"
  have t: "t \<noteq> []" by (simp add: t_def)
  have "\<exists>ou pre post. runner_setup env i step err = Some (ou, StopNone) \<and> reported ou \<and>
        OutcomeBody c (a\<lparr>at_Outcome := Some ou\<rparr>) label = pre @ err @ post"
    if "en_ctxDone env step" "en_reason env step = AbortOperatorStop"
  proof -
    obtain ou where ou: "OutcomeAborted AbortOperatorStop (t @ step @ u @ err) zero_usage (en_now env) = Inr ou"
      "oc_Kind ou = Aborted" "oc_Reason ou = AbortOperatorStop" "oc_Summary ou = t @ step @ u @ err"
      using p t by (simp add: OutcomeAborted_def zero_outcome_def)
    then have "runner_setup env i step err = Some (ou, StopNone)"
      using that by (simp add: runner_setup_def slot_reason_def no_abort_def Let_def settled_def flip: t_def u_def)
    moreover have "reported ou" using ou by (simp add: reported_def)
    moreover have "\<exists>pre post. OutcomeBody c (a\<lparr>at_Outcome := Some ou\<rparr>) label = pre @ err @ post"
      using ou(4) unfolding OutcomeBody_def Let_def by simp (metis append.assoc)
    ultimately show ?thesis by blast
  qed
  then show ?thesis by (auto simp: runner_setup_def)
qed

theorem stopped_setup_posts_the_error_witness:
  "\<exists>pre post ou. OutcomeBody attempt_case ((hd (sn_Attempts demo_open_row))\<lparr>at_Outcome := Some ou\<rparr>) ''autophage'' = pre @ ''exit status 128'' @ post"
  using stopped_setup_posts_the_error [of "attempt_env\<lparr>en_ctxDone := \<lambda>_. True, en_reason := \<lambda>_. AbortOperatorStop\<rparr>" "''start container''" "''a1''"
      "''exit status 128''" attempt_case "hd (sn_Attempts demo_open_row)" "''autophage''" "[]"]
  by auto

end
