(* ===== verification/RepairerInv.thy ===== *)
theory RepairerInv
  imports Repairer RunnerStops
begin

section \<open>What the repair runner promises\<close>

text \<open>
  An outcome the aggregate accepts on every path; a push is reported only for work that is
  finished, clean and new; nothing an outcome says comes from an error's text; and a recorded
  stop is never taken for a shutdown.
\<close>

subsection \<open>Every end of the pipeline\<close>

lemma repair_setup_cases:
  "repair_setup env i step err = r \<Longrightarrow>
     (r = None \<and> pe_callerDone env step \<and> pe_reason env step = no_repair_abort) \<or>
     r = Some (repair_infra i step '''' zero_usage (pe_now env)) \<or>
     (pe_ctxDone env step \<and> pe_reason env step \<noteq> no_repair_abort \<and> (\<exists>summary. summary \<noteq> '''' \<and>
        r = Some (repair_aborted (pe_reason env step) summary zero_usage (pe_now env))))"
  by (auto simp: repair_setup_def repair_reason_def Let_def split: if_splits)

lemma repair_setup_text: "repair_setup env i step err = repair_setup env i step err'"
  by (simp add: repair_setup_def)

lemma repair_model_runs:
  "repair_model env b a repo token ws modelID st = (st', eff, r) \<Longrightarrow> filter is_run eff \<noteq> []"
  by (auto simp: repair_model_def Let_def is_run_def split: prod.splits if_splits)

lemma repair_execute_cases:
  assumes "Repairer_execute cfg env b a st = (st', eff, r)"
  shows "(\<exists>step err. r = repair_setup env (ra_ID a) step err \<and> filter is_run eff = []) \<or>
    (\<exists>repo token ws modelID effm. pe_prepareHead env = Inr ws \<and> filter is_run eff \<noteq> [] \<and>
       repair_model env b a repo token ws modelID st = (st', effm, r))"
proof -
  have "(\<exists>step err. r = repair_setup env (ra_ID a) step err \<and> filter is_run eff2 = []) \<or>
      (\<exists>effm modelID. filter is_run eff2 \<noteq> [] \<and> repair_model env b a repo token ws modelID st = (st2, effm, r))"
    if "repair_container cfg env b a repo token ws ctr st = (st2, eff2, r)" for repo token ws ctr st2 eff2
    using that
    by (fastforce simp: repair_container_def Let_def is_run_def split: prod.splits option.splits dest: repair_model_runs)
  with assms show ?thesis
    by (fastforce simp: Repairer_execute_def Let_def is_run_def split: sum.splits prod.splits)
qed

definition round_report :: "RepairEnv \<Rightarrow> RepairAttempt \<Rightarrow> RunReport" where
  "round_report env a = fst (RunAttempt (ra_Budget a) (pe_run env))"

lemma repair_model_cases:
  assumes "repair_model env b a repo token ws modelID st = (st', eff, r)"
  shows "(r = None \<and> (pe_callerDone env ''run'' \<or> pe_callerDone env ''ended'') \<and> pe_reason env ''pushed'' = no_repair_abort) \<or>
    (\<exists>summary. summary \<noteq> '''' \<and>
       r = Some (repair_infra (ra_ID a) ''push'' summary (rr_Usage (round_report env a)) (pe_now env)) \<and>
       (\<nexists>head. pe_push env = (head, True, None))) \<or>
    (\<exists>head summary eff' ou. summary \<noteq> '''' \<and> pe_push env = (head, True, None) \<and> r = Some ou \<and>
       repair_pushed env a ws head summary (round_report env a) = (eff', ou))"
proof -
  let ?report = "fst (RunAttempt (ra_Budget a) (pe_run env))"
  define summary where "summary = (if rr_Summary ?report = '''' then ''The agent produced no summary.'' else rr_Summary ?report)"
  have s: "summary \<noteq> ''''" by (simp add: summary_def)
  obtain head pushed err where p: "pe_push env = (head, pushed, err)" by (rule prod_cases3)
  obtain rest ou where rp: "repair_pushed env a ws head summary ?report = (rest, ou)" by (rule prod.exhaust)
  have "snd (snd (repair_model env b a repo token ws modelID st)) = (if repair_shuttingDown (pe_callerDone env ''run'' \<or> (rr_Stop ?report = StopCancelled \<and> pe_callerDone env ''ended''))
        (pe_reason env ''pushed'') then None
      else if err \<noteq> None \<or> \<not> pushed then Some (repair_infra (ra_ID a) ''push'' summary (rr_Usage ?report) (pe_now env))
      else Some ou)"
    using rp by (cases "err = None"; cases pushed) (simp_all add: repair_model_def Let_def p summary_def)
  with assms show ?thesis using s rp p
    by (auto simp: repair_shuttingDown_def repair_reason_def round_report_def split: if_splits)
qed

subsection \<open>Accepted outcomes\<close>

text \<open>
  What an end of the pipeline may be: a row the store accepts, which the aggregate validates, and
  aborted only with a reason somebody recorded or as an operator stop.
\<close>

definition round_recordable :: "RepairEnv \<Rightarrow> RepairOutcome \<Rightarrow> bool" where
  "round_recordable env ou \<longleftrightarrow> repair_outcome_row_ok ou \<and> validateOutcome ou = None \<and>
     (ro_Kind ou = RepairAborted \<longrightarrow> ro_Reason ou = RepairAbortOperatorStop \<or> ro_Reason ou \<in> range (pe_reason env))"

lemmas round_outcomes = repair_infra_def repair_failed_def repair_aborted_def round_outcome_def

lemmas round_checks = round_recordable_def repair_outcome_row_ok_def validateOutcome_def AllRepairOutcomeKinds_def
  AllFailureClasses_def

lemma infra_message_nonempty: "infra_message step i detail \<noteq> ''''"
  by (simp add: infra_message_def)

lemma repair_infra_recordable: "usage_row_ok u \<Longrightarrow> round_recordable env (repair_infra i step detail u now)"
  using infra_message_nonempty by (simp add: round_outcomes round_checks)

lemma repair_failed_recordable:
  "cls \<in> set AllFailureClasses \<Longrightarrow> message \<noteq> '''' \<Longrightarrow> usage_row_ok u \<Longrightarrow>
     round_recordable env (repair_failed cls message u now)"
  by (auto simp: round_outcomes round_checks)

lemma repair_aborted_recordable:
  "reason \<in> set AllRepairAbortReasons \<Longrightarrow> reason = RepairAbortOperatorStop \<or> reason \<in> range (pe_reason env) \<Longrightarrow>
     summary \<noteq> '''' \<Longrightarrow> usage_row_ok u \<Longrightarrow> round_recordable env (repair_aborted reason summary u now)"
  by (auto simp: round_outcomes round_checks AllRepairAbortReasons_def)

lemma Limit_of_stop:
  "Limit_of (Stop_string StopTurns) = LimitTurns" "Limit_of (Stop_string StopWallClock) = LimitWallClock"
  "Limit_of (Stop_string StopDiffLines) = LimitDiffLines"
  by code_simp+

lemma AllLimits_set: "set AllLimits = {LimitTurns, LimitWallClock, LimitDiffLines}"
  by (simp add: AllLimits_def)

text \<open>A repair's stops are those of the vocabulary, and what the sandbox pushes has a commit id.\<close>

definition round_fits :: "RepairEnv \<Rightarrow> RepairAttempt \<Rightarrow> bool" where
  "round_fits env a \<longleftrightarrow> usage_row_ok (rr_Usage (round_report env a)) \<and>
     (\<forall>head. pe_push env = (head, True, None) \<longrightarrow> shaRe head) \<and>
     (\<forall>step. pe_reason env step = no_repair_abort \<or> pe_reason env step \<in> set AllRepairAbortReasons)"

lemma repair_pushed_recordable:
  assumes "round_fits env a" "summary \<noteq> ''''" "pe_push env = (head, True, None)"
    and "repair_pushed env a ws head summary (round_report env a) = (eff, ou)"
  shows "round_recordable env ou"
proof -
  let ?u = "rr_Usage (round_report env a)"
  have u: "usage_row_ok ?u" and h: "shaRe head" using assms(1,3) by (auto simp: round_fits_def)
  have r: "repair_reason (pe_reason env ''outcome'') RepairAbortOperatorStop \<in> set AllRepairAbortReasons"
    using assms(1) by (auto simp: round_fits_def repair_reason_def AllRepairAbortReasons_def)
  have push: "round_recordable env ((round_outcome Pushed summary ?u now)\<lparr>ro_HeadSha := head\<rparr>)" for now
    using u h assms(2) by (simp add: round_outcomes round_checks)
  have none: "round_recordable env (round_outcome NoChange summary ?u now)" for now
    using u assms(2) by (simp add: round_outcomes round_checks)
  have limit: "round_recordable env ((round_outcome RepairBudgetExhausted summary ?u now)\<lparr>ro_Limit := l\<rparr>)"
    if "l \<in> set AllLimits" for l now
    using u assms(2) that by (auto simp: round_outcomes round_checks AllLimits_def)
  have abort: "round_recordable env (repair_aborted (repair_reason (pe_reason env ''outcome'') RepairAbortOperatorStop)
      summary ?u now)" for now
    using u assms(2) r by (intro repair_aborted_recordable) (auto simp: repair_reason_def)
  note f = repair_failed_recordable [OF _ _ u] and i = repair_infra_recordable [OF u]
  show ?thesis
    using assms(4) push none limit abort f i
    by (cases "rr_Stop (round_report env a)")
      (auto simp: repair_pushed_def Let_def Limit_of_stop AllLimits_set AllFailureClasses_def simp del: Stop_string.simps
        split: if_splits sum.splits)
qed

lemma repair_recordable:
  assumes "Repairer_execute cfg env b a st = (st', eff, Some ou)" "round_fits env a"
  shows "round_recordable env ou"
  using repair_execute_cases [OF assms(1)]
proof
  note z = zero_usage_row
  assume "\<exists>step err. Some ou = repair_setup env (ra_ID a) step err \<and> filter is_run eff = []"
  then obtain step err where "repair_setup env (ra_ID a) step err = Some ou" by metis
  from repair_setup_cases [OF this] show ?thesis
    using repair_infra_recordable [OF z] repair_aborted_recordable [OF _ _ _ z] assms(2)
    by (auto simp: round_fits_def)
next
  have u: "usage_row_ok (rr_Usage (round_report env a))" using assms(2) by (simp add: round_fits_def)
  assume "\<exists>repo token ws modelID effm. pe_prepareHead env = Inr ws \<and> filter is_run eff \<noteq> [] \<and>
       repair_model env b a repo token ws modelID st = (st', effm, Some ou)"
  then obtain repo token ws modelID effm where "repair_model env b a repo token ws modelID st = (st', effm, Some ou)" by blast
  from repair_model_cases [OF this] show ?thesis
    using repair_infra_recordable [OF u] repair_pushed_recordable [OF assms(2)] by auto
qed

text \<open>The decisions of a round with every error's text blanked.\<close>

definition blank :: "string + 'a \<Rightarrow> string + 'a" where
  "blank = map_sum (\<lambda>_. '''') id"

definition without_errors :: "RepairEnv \<Rightarrow> RepairEnv" where
  "without_errors env = env\<lparr>pe_repoText := \<lambda>_. '''', pe_mint := blank (pe_mint env),
     pe_prepareHead := blank (pe_prepareHead env), pe_start := blank (pe_start env),
     pe_tools := map_option (\<lambda>_. '''') (pe_tools env), pe_build := map_option (\<lambda>_. '''') \<circ> pe_build env,
     pe_remint := blank (pe_remint env), pe_push := apsnd (apsnd (map_option (\<lambda>_. ''''))) (pe_push env),
     pe_markers := blank (pe_markers env)\<rparr>"

lemma without_errors_fields [simp]:
  "pe_ctxDone (without_errors env) = pe_ctxDone env" "pe_callerDone (without_errors env) = pe_callerDone env"
  "pe_reason (without_errors env) = pe_reason env" "pe_now (without_errors env) = pe_now env"
  "pe_began (without_errors env) = pe_began env" "pe_resolve (without_errors env) = pe_resolve env"
  "pe_run (without_errors env) = pe_run env"
  by (simp_all add: without_errors_def)

lemma without_errors_setup:
  "\<exists>k. \<forall>i step err. repair_setup env i step err = k i step \<and> repair_setup (without_errors env) i step err = k i step"
proof (intro exI [of _ "\<lambda>i step. repair_setup env i step ''''"] allI conjI)
  fix i step err
  show "repair_setup (without_errors env) i step err = repair_setup env i step ''''"
    unfolding repair_setup_def without_errors_fields by (rule refl)
qed (rule repair_setup_text)

lemma without_errors_pushed:
  "repair_pushed (without_errors env) a ws head summary report = repair_pushed env a ws head summary report"
proof -
  have "pe_markers (without_errors env) = blank (pe_markers env)" by (simp add: without_errors_def)
  then show ?thesis
    by (cases "pe_markers env"; cases "rr_Stop report") (simp_all add: repair_pushed_def Let_def blank_def)
qed

lemma without_errors_model:
  "repair_model (without_errors env) b a repo token ws modelID st = repair_model env b a repo token ws modelID st"
proof -
  have "pe_push (without_errors env) = apsnd (apsnd (map_option (\<lambda>_. ''''))) (pe_push env)"
    "pe_remint (without_errors env) = blank (pe_remint env)"
    by (simp_all add: without_errors_def)
  then show ?thesis
    by (cases "pe_push env"; cases "pe_remint env")
      (simp_all add: repair_model_def Let_def without_errors_pushed blank_def split: prod.splits)
qed

lemma without_errors_container:
  "repair_container cfg (without_errors env) b a repo token ws ctr st = repair_container cfg env b a repo token ws ctr st"
proof -
  obtain k where k: "\<And>i step err. repair_setup env i step err = k i step"
    "\<And>i step err. repair_setup (without_errors env) i step err = k i step" using without_errors_setup by blast
  have t: "pe_tools (without_errors env) = map_option (\<lambda>_. '''') (pe_tools env)" by (simp add: without_errors_def)
  have b: "(Models_Tier (pe_build (without_errors env)) m = None) = (Models_Tier (pe_build env) m = None)" for m
    by (simp add: Models_Tier_def without_errors_def)
  show ?thesis
    by (cases "pe_tools env"; cases "Models_Tier (pe_build env) (pe_resolve env TierRepair (pc_Model cfg))";
        cases "Models_Tier (pe_build (without_errors env)) (pe_resolve env TierRepair (pc_Model cfg))")
      (use b [of "pe_resolve env TierRepair (pc_Model cfg)"] in \<open>simp_all add: repair_container_def Let_def t k without_errors_model\<close>)
qed


subsection \<open>Outcomes and stops\<close>

lemma repair_ran:
  assumes "Repairer_execute cfg env b a st = (st', eff, Some ou)"
    and "ro_Kind ou \<in> {Pushed, NoChange, RepairBudgetExhausted}"
  obtains ws head summary eff' where "pe_prepareHead env = Inr ws" "pe_push env = (head, True, None)" "summary \<noteq> ''''"
    "repair_pushed env a ws head summary (round_report env a) = (eff', ou)"
  using repair_execute_cases [OF assms(1)]
proof
  assume "\<exists>step err. Some ou = repair_setup env (ra_ID a) step err \<and> filter is_run eff = []"
  then obtain step err where "repair_setup env (ra_ID a) step err = Some ou" by metis
  from repair_setup_cases [OF this] assms(2) show thesis by (auto simp: round_outcomes)
next
  assume "\<exists>repo token ws modelID effm. pe_prepareHead env = Inr ws \<and> filter is_run eff \<noteq> [] \<and>
       repair_model env b a repo token ws modelID st = (st', effm, Some ou)"
  then obtain repo token ws modelID effm where w: "pe_prepareHead env = Inr ws"
    "repair_model env b a repo token ws modelID st = (st', effm, Some ou)" by blast
  have "ro_Kind ou \<noteq> RepairFailed" using assms(2) by auto
  with repair_model_cases [OF w(2)] w(1) that show thesis by (fastforce simp: round_outcomes)
qed

lemma pushed_kinds:
  "repair_pushed env a ws head summary report = (eff', ou) \<Longrightarrow>
     (ro_Kind ou = Pushed \<longrightarrow> rr_Stop report = StopNone \<and> head \<noteq> ws_BaseSha ws \<and> pe_markers env = Inr False \<and> ro_HeadSha ou = head) \<and>
     (ro_Kind ou = NoChange \<longrightarrow> rr_Stop report = StopNone \<and> head = ws_BaseSha ws) \<and>
     (ro_Kind ou = RepairBudgetExhausted \<longrightarrow> rr_Stop report \<in> {StopTurns, StopWallClock, StopDiffLines} \<and>
        Limit_string (ro_Limit ou) = Stop_string (rr_Stop report))"
  by (cases "rr_Stop report")
    (auto simp: repair_pushed_def Let_def round_outcomes Limit_of_stop simp del: Stop_string.simps split: if_splits sum.splits,
      simp_all)

text \<open>C12. A round is reported as pushed only when the run ended by itself, its branch reached the remote
  without error at a head other than the judged one, and the pushed tree was checked and carries
  no conflict markers; the outcome names exactly that head. It is reported as changing nothing
  only when the head that reached the remote is the judged one, and as out of budget only under
  the limit that stopped the run.\<close>
theorem pushed_rounds_are_clean:
  assumes "Repairer_execute cfg env b a st = (st', eff, Some ou)"
  shows "(ro_Kind ou = Pushed \<longrightarrow> rr_Stop (round_report env a) = StopNone \<and> pe_push env = (ro_HeadSha ou, True, None) \<and>
        (\<exists>ws. pe_prepareHead env = Inr ws \<and> ro_HeadSha ou \<noteq> ws_BaseSha ws) \<and> pe_markers env = Inr False) \<and>
    (ro_Kind ou = NoChange \<longrightarrow> rr_Stop (round_report env a) = StopNone \<and>
        (\<exists>ws. pe_prepareHead env = Inr ws \<and> pe_push env = (ws_BaseSha ws, True, None))) \<and>
    (ro_Kind ou = RepairBudgetExhausted \<longrightarrow> fst (snd (pe_push env)) \<and>
        rr_Stop (round_report env a) \<in> {StopTurns, StopWallClock, StopDiffLines} \<and>
        Limit_string (ro_Limit ou) = Stop_string (rr_Stop (round_report env a)))"
proof (cases "ro_Kind ou \<in> {Pushed, NoChange, RepairBudgetExhausted}")
  case True
  obtain ws head summary eff' where w: "pe_prepareHead env = Inr ws" "pe_push env = (head, True, None)"
    "repair_pushed env a ws head summary (round_report env a) = (eff', ou)"
    using assms True by (rule repair_ran)
  from pushed_kinds [OF w(3)] w(1,2) show ?thesis by auto
qed auto


text \<open>A round ends without an outcome only for a shutdown: the daemon's context ended and no stop was
  recorded. A recorded stop that ends a round before its agent ran is the reason of the aborted
  outcome, whichever step it interrupted, and a round is never aborted but for a recorded reason
  or as an operator stop.\<close>
theorem repair_stops_are_never_lost:
  assumes "Repairer_execute cfg env b a st = (st', eff, r)"
  shows "(r = None \<longrightarrow> (\<exists>step. pe_callerDone env step) \<and> no_repair_abort \<in> range (pe_reason env)) \<and>
    ((\<forall>step. pe_ctxDone env step \<and> pe_reason env step = reason) \<and> reason \<noteq> no_repair_abort \<and>
       filter is_run eff = [] \<longrightarrow> (\<exists>ou. r = Some ou \<and> ro_Kind ou = RepairAborted \<and> ro_Reason ou = reason)) \<and>
    (\<forall>ou. r = Some ou \<and> ro_Kind ou = RepairAborted \<longrightarrow>
       ro_Reason ou = RepairAbortOperatorStop \<or> ro_Reason ou \<in> range (pe_reason env))"
  using repair_execute_cases [OF assms]
proof
  assume "\<exists>step err. r = repair_setup env (ra_ID a) step err \<and> filter is_run eff = []"
  then obtain step err where r: "repair_setup env (ra_ID a) step err = r" by metis
  from repair_setup_cases [OF this] show ?thesis
  proof (elim disjE exE conjE)
    assume "r = Some (repair_infra (ra_ID a) step '''' zero_usage (pe_now env))"
    moreover have "\<not> (pe_ctxDone env step \<and> pe_reason env step \<noteq> no_repair_abort)"
    proof
      assume "pe_ctxDone env step \<and> pe_reason env step \<noteq> no_repair_abort"
      then have "ro_Kind (the r) = RepairAborted"
        using r by (auto simp: repair_setup_def Let_def repair_reason_def repair_aborted_def round_outcome_def)
      with calculation show False by (simp add: round_outcomes)
    qed
    ultimately show ?thesis by (auto simp: round_outcomes)
  qed (auto simp: round_outcomes image_iff intro: sym)
next
  assume "\<exists>repo token ws modelID effm. pe_prepareHead env = Inr ws \<and> filter is_run eff \<noteq> [] \<and>
       repair_model env b a repo token ws modelID st = (st', effm, r)"
  then obtain repo token ws modelID effm where w: "pe_prepareHead env = Inr ws"
    "repair_model env b a repo token ws modelID st = (st', effm, r)" "filter is_run eff \<noteq> []" by blast
  have ab: "ro_Reason ou = RepairAbortOperatorStop \<or> ro_Reason ou \<in> range (pe_reason env)"
    if "repair_pushed env a ws head summary (round_report env a) = (eff', ou)" "ro_Kind ou = RepairAborted" for head summary eff' ou
    using that by (cases "rr_Stop (round_report env a)")
      (auto simp: repair_pushed_def Let_def round_outcomes repair_reason_def split: if_splits sum.splits)
  from repair_model_cases [OF w(2)] w(1,3) show ?thesis
    by (elim disjE exE conjE) (auto simp: round_outcomes image_iff dest: ab intro: sym)
qed

subsection \<open>A round on a small bump\<close>

definition demo_ws_at :: "char \<Rightarrow> Workspace" where
  "demo_ws_at c = \<lparr>ws_Path = ''/w'', ws_Repository = ''o/r'', ws_CloneURL = ''u'', ws_Branch = ''dep'',
     ws_DefaultBranch = '''', ws_BaseSha = sha_of c, ws_RemoteHead = sha_of c, ws_lease = None\<rparr>"

definition round_env :: RepairEnv where
  "round_env = \<lparr>pe_ctxDone = (\<lambda>_. False), pe_callerDone = (\<lambda>_. False), pe_reason = (\<lambda>_. no_repair_abort),
     pe_repoText = (\<lambda>_. ''not found''), pe_mint = Inr ''tok'', pe_prepareHead = Inr (demo_ws_at CHR ''a''),
     pe_start = Inr \<lparr>ct_Name = ''autophage-r1'', ct_Workspace = demo_ws_at CHR ''a''\<rparr>, pe_tools = None,
     pe_resolve = (\<lambda>_ s. s), pe_build = (\<lambda>_. None), pe_run = en_run done_env, pe_remint = Inl ''401'',
     pe_push = (sha_of CHR ''b'', True, None), pe_markers = Inr False, pe_began = 3, pe_now = 9\<rparr>"

definition demo_round :: RepairAttempt where
  "demo_round = \<lparr>ra_ID = ''r1'', ra_Round = 1, ra_BaseSha = sha_of CHR ''a'', ra_Budget = b_budget, ra_Brief = ''brief'',
     ra_StartedAt = 2, ra_Run = None, ra_Outcome = None\<rparr>"

definition round_bump :: Bump where
  "round_bump = demo_bump\<lparr>bp_state := Repairing, bp_attempts := [demo_round]\<rparr>"

definition demo_pcfg :: RepairCfg where
  "demo_pcfg = \<lparr>pc_Model = ''m'', pc_RoundCap = 3, pc_CloneURL = None\<rparr>"

definition clean_report :: "RunReport \<Rightarrow> bool" where
  "clean_report report \<longleftrightarrow> rr_Stop report = StopNone \<and> usage_row_ok (rr_Usage report)"

lemma demo_report: "clean_report (round_report round_env demo_round)"
  by code_simp

lemma demo_round_pushed:
  obtains st' eff ou where "Repairer_execute demo_pcfg round_env round_bump demo_round repo_store = (st', eff, Some ou)"
    "ro_Kind ou = Pushed"
proof -
  let ?ws = "demo_ws_at CHR ''a''"
  obtain repo where repo: "GetRepository (bp_repository round_bump) repo_store = Inr repo"
    by (simp add: GetRepository_def repo_store_def round_bump_def demo_bump_def)
  have env: "pe_mint round_env = Inr ''tok''" "pe_prepareHead round_env = Inr ?ws" "pe_tools round_env = None"
    "pe_start round_env = Inr \<lparr>ct_Name = ''autophage-r1'', ct_Workspace = ?ws\<rparr>"
    "\<And>m. pe_build round_env m = None" "\<And>s. pe_callerDone round_env s = False"
    "pe_push round_env = (sha_of CHR ''b'', True, None)" "pe_markers round_env = Inr False"
    "\<And>t s. pe_resolve round_env t s = s" "pc_Model demo_pcfg = ''m''"
    by (simp_all add: round_env_def demo_pcfg_def)
  have stop: "rr_Stop (fst (RunAttempt (ra_Budget demo_round) (pe_run round_env))) = StopNone"
    using demo_report by (simp add: clean_report_def round_report_def)
  have m: "\<exists>st' eff ou. repair_model round_env round_bump demo_round repo ''tok'' ?ws ''m'' repo_store = (st', eff, Some ou) \<and>
      ro_Kind ou = Pushed"
    using stop by (simp add: repair_model_def Let_def env repair_shuttingDown_def repair_pushed_def round_outcomes demo_ws_at_def)
  then obtain st' eff ou where
    m: "repair_model round_env round_bump demo_round repo ''tok'' ?ws ''m'' repo_store = (st', eff, Some ou)" "ro_Kind ou = Pushed"
    by blast
  show thesis
    by (rule that [OF _ m(2)]) (simp add: Repairer_execute_def Let_def repo env repair_container_def Models_Tier_def m(1))
qed

theorem pushed_rounds_are_clean_witness:
  "\<exists>ou :: RepairOutcome. ro_Kind ou = Pushed \<and> pe_push round_env = (ro_HeadSha ou, True, None)"
proof -
  obtain st' eff ou where "Repairer_execute demo_pcfg round_env round_bump demo_round repo_store = (st', eff, Some ou)"
    "ro_Kind ou = Pushed" by (rule demo_round_pushed)
  with pushed_rounds_are_clean [OF this(1)] show ?thesis by blast
qed

lemma round_env_fits: "round_fits round_env demo_round"
proof -
  have "usage_row_ok (rr_Usage (round_report round_env demo_round))" using demo_report by (simp add: clean_report_def)
  moreover have "shaRe (sha_of CHR ''b'')" by simp
  ultimately show ?thesis unfolding round_fits_def by (simp add: round_env_def)
qed


theorem repair_stops_are_never_lost_witness:
  "\<exists>ou. snd (snd (Repairer_execute demo_pcfg (round_env\<lparr>pe_ctxDone := \<lambda>_. True, pe_reason := \<lambda>_. AbortPullRequestClosed,
     pe_prepareHead := Inl ''killed''\<rparr>) round_bump demo_round repo_store)) = Some ou \<and> ro_Reason ou = AbortPullRequestClosed"
proof -
  let ?env = "round_env\<lparr>pe_ctxDone := \<lambda>_. True, pe_reason := \<lambda>_. AbortPullRequestClosed, pe_prepareHead := Inl ''killed''\<rparr>"
  obtain st' eff r where e: "Repairer_execute demo_pcfg ?env round_bump demo_round repo_store = (st', eff, r)"
    by (rule prod_cases3)
  have "no_repair_abort \<notin> range (pe_reason ?env)" "AbortPullRequestClosed \<noteq> no_repair_abort"
    by (auto simp: no_repair_abort_def)
  moreover have "filter is_run eff = []"
    using e by (auto simp: Repairer_execute_def is_run_def Let_def split: sum.splits)
  ultimately show ?thesis using repair_stops_are_never_lost [OF e, of AbortPullRequestClosed] e by auto
qed

end
