(* ===== verification/GitHubClient.thy ===== *)
theory GitHubClient
  imports Outbox GoPath AgentRun
begin

section \<open>The GitHub client\<close>

text \<open>
  \<^verbatim>\<open>internal/github/client.go\<close>: the retry transport, the cache of installation transports, and
  what each call sends and makes of the answer. The network, the clock and the client library
  (its requests, its decoding of an answer and its errors, of which the code reads the status)
  are parameters; metrics are left out. \<^verbatim>\<open>http.ParseTime\<close> is the parameter \<open>parseTime\<close>.
\<close>

subsection \<open>Waiting\<close>

text \<open>The headers the transport reads; a missing one is the empty string.\<close>

record Response =
  hr_Status :: int
  hr_RetryAfter :: string
  hr_Remaining :: string
  hr_Reset :: string

definition second :: Duration where
  "second = 1000000000"

definition minute :: Duration where
  "minute = 60000000000"

definition retryAfter :: "(string \<Rightarrow> Time option) \<Rightarrow> Time \<Rightarrow> string \<Rightarrow> Duration" where
  "retryAfter parseTime now v =
     (if v = '''' then 0
      else case Atoi v of Some secs \<Rightarrow> min (i64 (secs * second)) minute
      | None \<Rightarrow>
          (case parseTime v of Some at \<Rightarrow> min (max (Time_Sub at now) 0) minute
           | None \<Rightarrow> 0))"

text \<open>\<^verbatim>\<open>time.Unix\<close>: the seconds since year 1 are kept in 64 bits.\<close>

definition Unix :: "int \<Rightarrow> Time" where
  "Unix epoch = (i64 (epoch + 62135596800) - 62135596800) * second"

definition rateLimitReset :: "string \<Rightarrow> Time \<Rightarrow> Duration" where
  "rateLimitReset v now =
     (if v = '''' then 0
      else case Atoi v of None \<Rightarrow> 0
      | Some epoch \<Rightarrow> min (max (Time_Sub (Unix epoch) now) 0) minute)"

datatype RetryReason = reasonRetryAfter | reasonRateLimit | reasonBackoff

definition retryWait :: "(string \<Rightarrow> Time option) \<Rightarrow> Response \<Rightarrow> Time \<Rightarrow> nat \<Rightarrow> Duration \<times> RetryReason" where
  "retryWait parseTime resp now attempt =
     (let wait = retryAfter parseTime now (hr_RetryAfter resp) in
      if wait > 0 then (wait, reasonRetryAfter)
      else let wait = rateLimitReset (hr_Reset resp) now in
           if wait > 0 then (wait, reasonRateLimit)
           else (i64 (push_bit attempt second), reasonBackoff))"

definition throttled :: "Response \<Rightarrow> bool" where
  "throttled resp = (hr_RetryAfter resp \<noteq> '''' \<or> hr_Remaining resp = ''0'')"

subsection \<open>The retry transport\<close>

text \<open>
  \<open>hq_Body\<close> is what the request's body still has to give; a send drains it. \<open>hq_GetBody\<close> is
  what \<^verbatim>\<open>GetBody\<close> answers each time, or \<open>None\<close> where the request has none. The network answers
  each attempt with an error or a response; \<open>nt_cancelled\<close> is the context's error when it ends
  during the wait after an attempt.
\<close>

record Request =
  hq_UserAgent :: string
  hq_Body :: string
  hq_GetBody :: "(string + string) option"

record Network =
  nt_answer :: "nat \<Rightarrow> string + Response"
  nt_now :: "nat \<Rightarrow> Time"
  nt_cancelled :: "nat \<Rightarrow> string option"
  nt_parseTime :: "string \<Rightarrow> Time option"

definition rewind :: "nat \<Rightarrow> Request \<Rightarrow> string + Request" where
  "rewind attempt req =
     (case hq_GetBody req of
        Some body \<Rightarrow>
          if attempt > 0 then (case body of Inl e \<Rightarrow> Inl e | Inr b \<Rightarrow> Inr (req\<lparr>hq_Body := b\<rparr>)) else Inr req
      | None \<Rightarrow> Inr req)"

definition retries :: "nat \<Rightarrow> Response \<Rightarrow> bool" where
  "retries attempt resp =
     (\<not> ((hr_Status resp \<noteq> 403 \<and> hr_Status resp \<noteq> 429) \<or> attempt = 2) \<and>
      \<not> (hr_Status resp = 403 \<and> \<not> throttled resp))"

text \<open>The requests as they go over the wire, the waits between them, and what the caller gets.\<close>

fun send_attempts ::
    "Network \<Rightarrow> Request \<Rightarrow> nat list \<Rightarrow> Request list \<times> Duration list \<times> (string + Response)" where
  "send_attempts net req [] = ([], [], Inl ''unreachable'')"
| "send_attempts net req (attempt # rest) =
     (case rewind attempt req of Inl e \<Rightarrow> ([], [], Inl e)
      | Inr req1 \<Rightarrow>
        (case nt_answer net attempt of Inl e \<Rightarrow> ([req1], [], Inl e)
         | Inr resp \<Rightarrow>
           if \<not> retries attempt resp then ([req1], [], Inr resp)
           else let wait = fst (retryWait (nt_parseTime net) resp (nt_now net attempt) attempt) in
             (case nt_cancelled net attempt of
                Some e \<Rightarrow> ([req1], [wait], Inl e)
              | None \<Rightarrow>
                 (case send_attempts net (req1\<lparr>hq_Body := ''''\<rparr>) rest of
                    (sent, waits, r) \<Rightarrow> (req1 # sent, wait # waits, r)))))"

definition RoundTrip :: "Network \<Rightarrow> string \<Rightarrow> Request \<Rightarrow> Request list \<times> Duration list \<times> (string + Response)" where
  "RoundTrip net userAgent req =
     send_attempts net (if userAgent \<noteq> '''' \<and> hq_UserAgent req = '''' then req\<lparr>hq_UserAgent := userAgent\<rparr> else req)
       [0, 1, 2]"

subsection \<open>Installation transports\<close>

record Transport =
  tn_Installation :: int
  tn_Repositories :: "string list"

definition transport_key :: "int \<Rightarrow> string \<Rightarrow> string" where
  "transport_key i repoName = show_int i @ ''/'' @ repoName"

definition transport ::
    "int \<Rightarrow> string \<Rightarrow> (string \<rightharpoonup> Transport) \<Rightarrow> (string \<rightharpoonup> Transport) \<times> Transport" where
  "transport i repoName inst =
     (case inst (transport_key i repoName) of Some tr \<Rightarrow> (inst, tr)
      | None \<Rightarrow> let tr = \<lparr>tn_Installation = i, tn_Repositories = [repoName]\<rparr>
                in (inst(transport_key i repoName \<mapsto> tr), tr))"

definition splitRepo :: "string \<Rightarrow> string \<times> string" where
  "splitRepo full = (case Cut full CHR ''/'' of (owner, name, _) \<Rightarrow> (owner, name))"

text \<open>\<^verbatim>\<open>api\<close>: the installation is looked up by the repository's full name.\<close>

definition api ::
    "(string \<Rightarrow> string + int) \<Rightarrow> string \<Rightarrow> (string \<rightharpoonup> Transport) \<Rightarrow>
     (string \<rightharpoonup> Transport) \<times> (string + Transport)" where
  "api installations repository inst =
     (case installations repository of Inl e \<Rightarrow> (inst, Inl e)
      | Inr i \<Rightarrow> (case transport i (snd (splitRepo repository)) inst of (inst', tr) \<Rightarrow> (inst', Inr tr)))"

record ClientConfig =
  cc_AppID :: int
  cc_PrivateKeyPEM :: string
  cc_UserAgent :: string
  cc_hasInstallations :: bool

text \<open>\<open>appTransport\<close> is the library's reading of the key: an error's text, or none.\<close>

definition NewClient ::
    "(int \<Rightarrow> string \<Rightarrow> string option) \<Rightarrow> ClientConfig \<Rightarrow> string + ClientConfig \<times> (string \<rightharpoonup> Transport)" where
  "NewClient appTransport cfg =
     (if cc_AppID cfg \<le> 0 \<or> cc_PrivateKeyPEM cfg = '''' \<or> \<not> cc_hasInstallations cfg
      then Inl ''github: app id, private key and installation resolver are required''
      else let cfg1 = (if cc_UserAgent cfg = '''' then cfg\<lparr>cc_UserAgent := ''autophage''\<rparr> else cfg) in
           case appTransport (cc_AppID cfg1) (cc_PrivateKeyPEM cfg1) of
             Some e \<Rightarrow> Inl (''github: app transport: '' @ e)
           | None \<Rightarrow> Inr (cfg1, Map.empty))"

record Token =
  tk_Value :: string
  tk_ExpiresAt :: Time

definition mint_transport ::
    "Repository \<Rightarrow> (string \<rightharpoonup> Transport) \<Rightarrow> (string \<rightharpoonup> Transport) \<times> Transport" where
  "mint_transport repo inst = transport (rp_InstallationID repo) (snd (OwnerName repo)) inst"

text \<open>\<open>token\<close> and \<open>expiry\<close> are the library's answers for a transport.\<close>

definition MintToken ::
    "(Transport \<Rightarrow> string + string) \<Rightarrow> (Transport \<Rightarrow> Time option) \<Rightarrow> Time \<Rightarrow> Repository \<Rightarrow>
     (string \<rightharpoonup> Transport) \<Rightarrow> (string \<rightharpoonup> Transport) \<times> (string + Token)" where
  "MintToken token expiry now repo inst =
     (case mint_transport repo inst of (inst', tr) \<Rightarrow>
        (inst', case token tr of Inl e \<Rightarrow> Inl (''github: mint token for '' @ rp_FullName repo @ '': '' @ e)
         | Inr v \<Rightarrow> Inr \<lparr>tk_Value = v, tk_ExpiresAt =
             (case expiry tr of Some at \<Rightarrow> at | None \<Rightarrow> now + 55 * minute)\<rparr>))"

subsection \<open>Calls\<close>

text \<open>The zero-width space, in UTF-8.\<close>

definition zwsp :: string where
  "zwsp = [CHR 0xE2, CHR 0x80, CHR 0x8B]"

definition neutraliseMentions :: "string \<Rightarrow> string" where
  "neutraliseMentions s = ReplaceAll s ''@'' (''@'' @ zwsp)"

text \<open>What is sent to change something: the owner, the repository's name, and the texts.\<close>

datatype Sent =
    CreateComment string string int string
  | CreatePull string string string string string string
  | CreateLabel string string string

text \<open>An issue as the library decodes it.\<close>

record Issue =
  ss_Title :: string
  ss_Body :: string
  ss_Login :: string
  ss_Association :: Association
  ss_State :: string

datatype issue_err = IssueNotFound | IssueError | IssueInvalid derr

text \<open>
  The library's calls over a transport. A creation answers the new id or number, an error with
  its text and the status of its response, if it had one. A label is found, or its lookup fails.
  The listed pull requests are those GitHub answers for a head: number and the branch of its head.
\<close>

record GhApi =
  ga_installations :: "string \<Rightarrow> string + int"
  ga_create :: "Transport \<Rightarrow> Sent \<Rightarrow> (int option \<times> string) + int"
  ga_getLabel :: "Transport \<Rightarrow> string \<Rightarrow> string \<Rightarrow> string \<Rightarrow> (int option \<times> string) option"
  ga_getIssue :: "Transport \<Rightarrow> string \<Rightarrow> string \<Rightarrow> int \<Rightarrow> int option + Issue"
  ga_listPulls :: "Transport \<Rightarrow> string \<Rightarrow> string \<Rightarrow> string \<Rightarrow> string + (int \<times> string) list"
  ga_getRepo :: "Transport \<Rightarrow> string \<Rightarrow> string \<Rightarrow> string + string"

text \<open>
  A call answers the grown cache, what it sent and over which transport, and its result; one
  whose repository has no installation sends nothing.
\<close>

type_synonym cache = "string \<rightharpoonup> Transport"

definition on_repo ::
    "GhApi \<Rightarrow> string \<Rightarrow> (string \<Rightarrow> 'e) \<Rightarrow> (Transport \<Rightarrow> string \<Rightarrow> string \<Rightarrow> Sent list \<times> ('e + 'a)) \<Rightarrow>
     cache \<Rightarrow> cache \<times> (Transport \<times> Sent) list \<times> ('e + 'a)" where
  "on_repo g repository failed call inst =
     (case api (ga_installations g) repository inst of
        (inst', Inl e) \<Rightarrow> (inst', [], Inl (failed e))
      | (inst', Inr tr) \<Rightarrow>
          (case splitRepo repository of (owner, name) \<Rightarrow>
           (case call tr owner name of (sent, r) \<Rightarrow> (inst', map (Pair tr) sent, r))))"

definition PostComment ::
    "GhApi \<Rightarrow> string \<Rightarrow> int \<Rightarrow> string \<Rightarrow> cache \<Rightarrow> cache \<times> (Transport \<times> Sent) list \<times> (string + int)" where
  "PostComment g repository number body =
     on_repo g repository id (\<lambda>tr owner name.
       let s = CreateComment owner name number (neutraliseMentions body)
       in ([s], case ga_create g tr s of
            Inl (_, err) \<Rightarrow> Inl (''github: comment on '' @ repository @ ''#'' @ show_int number @ '': '' @ err)
          | Inr i \<Rightarrow> Inr i))"

definition OpenPullRequest ::
    "GhApi \<Rightarrow> string \<Rightarrow> string \<Rightarrow> string \<Rightarrow> string \<Rightarrow> string \<Rightarrow> cache \<Rightarrow>
     cache \<times> (Transport \<times> Sent) list \<times> (string + int)" where
  "OpenPullRequest g repository head base title body =
     on_repo g repository id (\<lambda>tr owner name.
       let s = CreatePull owner name (neutraliseMentions title) head base (neutraliseMentions body)
       in ([s], case ga_create g tr s of
            Inl (_, err) \<Rightarrow> Inl (''github: open pull request on '' @ repository @ '': '' @ err)
          | Inr n \<Rightarrow> Inr n))"

definition PullRequestForBranch ::
    "GhApi \<Rightarrow> string \<Rightarrow> string \<Rightarrow> cache \<Rightarrow> cache \<times> (Transport \<times> Sent) list \<times> (string + int \<times> bool)" where
  "PullRequestForBranch g repository branch =
     on_repo g repository id (\<lambda>tr owner name.
       ([], case ga_listPulls g tr owner name (owner @ '':'' @ branch) of
          Inl err \<Rightarrow> Inl (''github: list pull requests on '' @ repository @ '': '' @ err)
        | Inr prs \<Rightarrow> Inr (case find (\<lambda>p. snd p = branch) prs of Some p \<Rightarrow> (fst p, True) | None \<Rightarrow> (0, False))))"

definition DefaultBranch ::
    "GhApi \<Rightarrow> Repository \<Rightarrow> cache \<Rightarrow> cache \<times> (Transport \<times> Sent) list \<times> (string + string)" where
  "DefaultBranch g repo =
     on_repo g (rp_FullName repo) id (\<lambda>tr _ _.
       ([], case ga_getRepo g tr (fst (OwnerName repo)) (snd (OwnerName repo)) of
          Inl err \<Rightarrow> Inl (''github: get '' @ rp_FullName repo @ '': '' @ err)
        | Inr b \<Rightarrow> Inr b))"

text \<open>An issue that GitHub does not know is told apart from every other failure.\<close>

definition GetIssue ::
    "GhApi \<Rightarrow> string \<Rightarrow> int \<Rightarrow> cache \<Rightarrow> cache \<times> (Transport \<times> Sent) list \<times> (issue_err + IssueDetail \<times> Requester)" where
  "GetIssue g repository number =
     on_repo g repository (\<lambda>_. IssueError) (\<lambda>tr owner name.
       ([], case ga_getIssue g tr owner name number of
          Inl status \<Rightarrow> Inl (if status = Some 404 then IssueNotFound else IssueError)
        | Inr is \<Rightarrow>
           (case ParseAssociation (ss_Association is) of Inl e \<Rightarrow> Inl (IssueInvalid e)
            | Inr assoc \<Rightarrow>
              (case NewRequester (ss_Login is) assoc of Inl e \<Rightarrow> Inl (IssueInvalid e)
               | Inr req \<Rightarrow> Inr (\<lparr>is_Title = ss_Title is, is_Body = ss_Body is, is_Open = (ss_State is = ''open'')\<rparr>, req)))))"

definition EnsureLabel ::
    "GhApi \<Rightarrow> string \<Rightarrow> string \<Rightarrow> cache \<Rightarrow> cache \<times> (Transport \<times> Sent) list \<times> (label_error + unit)" where
  "EnsureLabel g repository label =
     on_repo g repository LabelFailed (\<lambda>tr owner name.
       let failed = (\<lambda>verb err. LabelFailed (''github: '' @ verb @ '' label '' @ label @ '' on '' @ repository @ '': '' @ err))
       in case ga_getLabel g tr owner name label of
            None \<Rightarrow> ([], Inr ())
          | Some (status, err) \<Rightarrow>
              if status \<noteq> Some 404 then ([], Inl (failed ''get'' err))
              else ([CreateLabel owner name label],
                    case ga_create g tr (CreateLabel owner name label) of
                      Inl (status', err') \<Rightarrow> Inl (if status' = Some 403 then ErrRepositoryReadOnly else failed ''create'' err')
                    | Inr _ \<Rightarrow> Inr ()))"

subsection \<open>Lemmas\<close>

lemma i64_small: "0 \<le> x \<Longrightarrow> x < 2 ^ 63 \<Longrightarrow> i64 x = x"
  by (rule i64_id) simp_all

lemma waits_capped:
  "retryAfter parseTime now v \<le> minute" "rateLimitReset v now \<le> minute"
  by (simp_all add: retryAfter_def rateLimitReset_def minute_def split: option.splits)

lemma retry_wait_bounds:
  assumes "attempt \<le> 1"
  shows "0 < fst (retryWait parseTime resp now attempt) \<and> fst (retryWait parseTime resp now attempt) \<le> minute"
proof -
  have "attempt = 0 \<or> attempt = 1" using assms by auto
  then have "i64 (push_bit attempt second) = second \<or> i64 (push_bit attempt second) = 2 * second"
    by (auto simp: push_bit_eq_mult second_def i64_small)
  then show ?thesis using waits_capped by (auto simp: retryWait_def Let_def second_def minute_def)
qed

lemma retries_when:
  "retries attempt resp \<Longrightarrow> attempt \<noteq> 2 \<and> (hr_Status resp = 429 \<or> (hr_Status resp = 403 \<and> throttled resp))"
  by (auto simp: retries_def)

lemma attempts_sent:
  assumes "send_attempts net req ns = (sent, waits, r)"
  shows "length sent \<le> length ns \<and> length waits \<le> length (filter (\<lambda>i. i \<noteq> 2) ns) \<and>
    ((\<forall>i \<in> set ns. i \<le> 2) \<longrightarrow> (\<forall>w \<in> set waits. 0 < w \<and> w \<le> minute)) \<and>
    (\<forall>q \<in> set sent. hq_UserAgent q = hq_UserAgent req) \<and>
    (\<forall>j. Suc j < length sent \<longrightarrow> (\<exists>resp. nt_answer net (ns ! j) = Inr resp \<and> retries (ns ! j) resp)) \<and>
    (\<forall>resp. r = Inr resp \<longrightarrow> sent \<noteq> [] \<and> nt_answer net (ns ! (length sent - 1)) = Inr resp)"
  using assms
proof (induction ns arbitrary: req sent waits r)
  case (Cons i ns)
  show ?case
  proof (cases "rewind i req")
    case (Inr req1)
    then have ua: "hq_UserAgent req1 = hq_UserAgent req"
      by (auto simp: rewind_def split: option.splits sum.splits if_splits)
    show ?thesis
    proof (cases "\<exists>resp. nt_answer net i = Inr resp \<and> retries i resp \<and> nt_cancelled net i = None")
      case True
      then obtain resp where a: "nt_answer net i = Inr resp" "retries i resp" "nt_cancelled net i = None" by blast
      obtain sent' waits' where rec: "send_attempts net (req1\<lparr>hq_Body := ''''\<rparr>) ns = (sent', waits', r)"
        "sent = req1 # sent'" "waits = fst (retryWait (nt_parseTime net) resp (nt_now net i) i) # waits'"
        using Cons.prems Inr a by (auto simp: Let_def split: prod.splits)
      have "i \<le> 2 \<longrightarrow> i \<le> 1" using retries_when [OF a(2)] by auto
      moreover have "\<exists>resp. nt_answer net ((i # ns) ! j) = Inr resp \<and> retries ((i # ns) ! j) resp" if "Suc j < length sent" for j
        using that Cons.IH [OF rec(1)] a rec(2) by (cases j) auto
      moreover have "nt_answer net ((i # ns) ! (length sent - 1)) = Inr resp" if "r = Inr resp" for resp
        using that Cons.IH [OF rec(1)] rec(2) by (cases sent') auto
      ultimately show ?thesis
        using Cons.IH [OF rec(1)] rec ua retries_when [OF a(2)] retry_wait_bounds [of i] by auto
    next
      case False
      with Cons.prems Inr ua show ?thesis
        using retry_wait_bounds [of i "nt_parseTime net" _ "nt_now net i"]
        by (auto simp: Let_def split: sum.splits if_splits option.splits dest!: retries_when)
    qed
  qed (use Cons.prems in auto)
qed simp

lemma attempts_body:
  assumes "send_attempts net req ns = (sent, waits, r)" "hq_GetBody req = Some (Inr body)"
    and "0 \<notin> set (tl ns)" "0 \<notin> set ns \<or> hq_Body req = body"
  shows "\<forall>q \<in> set sent. hq_Body q = body"
  using assms
proof (induction ns arbitrary: req sent waits r)
  case (Cons i ns)
  define req1 where "req1 = (if i > 0 then req\<lparr>hq_Body := body\<rparr> else req)"
  have w: "rewind i req = Inr req1" and b: "hq_Body req1 = body" "hq_GetBody (req1\<lparr>hq_Body := ''''\<rparr>) = Some (Inr body)"
    using Cons.prems by (auto simp: rewind_def req1_def)
  obtain sent' waits' r' where rec: "send_attempts net (req1\<lparr>hq_Body := ''''\<rparr>) ns = (sent', waits', r')" by (rule prod_cases3)
  have "sent = [req1] \<or> sent = req1 # sent'"
    using Cons.prems(1) w rec by (auto simp: Let_def split: sum.splits if_splits option.splits)
  moreover have "0 \<notin> set ns" "0 \<notin> set (tl ns)" using Cons.prems(3) by (cases ns; simp)+
  ultimately show ?case using Cons.IH [OF rec b(2)] b(1) by auto
qed simp

text \<open>C34. A call to GitHub is sent at most three times, always as the same agent and with its whole body,
  and waits at most twice, each time more than nothing and at most a minute, whatever the
  headers of the answers say; it is sent again only after a 429 or a 403 that GitHub calls a
  rate limit, and what the caller gets is the answer to the last request sent.\<close>
theorem retries_are_bounded:
  assumes "RoundTrip net userAgent req = (sent, waits, r)"
  shows "length sent \<le> 3 \<and> length waits \<le> 2 \<and> (\<forall>w \<in> set waits. 0 < w \<and> w \<le> minute) \<and>
    (\<forall>q \<in> set sent. hq_UserAgent q = (if hq_UserAgent req = '''' then userAgent else hq_UserAgent req)) \<and>
    (hq_GetBody req = Some (Inr (hq_Body req)) \<longrightarrow> (\<forall>q \<in> set sent. hq_Body q = hq_Body req)) \<and>
    (\<forall>j. Suc j < length sent \<longrightarrow> (\<exists>resp. nt_answer net j = Inr resp \<and>
       (hr_Status resp = 429 \<or> (hr_Status resp = 403 \<and> throttled resp)))) \<and>
    (\<forall>resp. r = Inr resp \<longrightarrow> sent \<noteq> [] \<and> nt_answer net (length sent - 1) = Inr resp)"
proof -
  define req0 where "req0 = (if userAgent \<noteq> '''' \<and> hq_UserAgent req = '''' then req\<lparr>hq_UserAgent := userAgent\<rparr> else req)"
  have s: "send_attempts net req0 [0, 1, 2] = (sent, waits, r)" using assms by (simp add: RoundTrip_def req0_def)
  have ua: "hq_UserAgent req0 = (if hq_UserAgent req = '''' then userAgent else hq_UserAgent req)"
    "hq_GetBody req0 = hq_GetBody req" "hq_Body req0 = hq_Body req" by (auto simp: req0_def)
  have idx: "[0, 1, 2] ! j = j" if "j < 3" for j :: nat
    using that by (auto simp: less_Suc_eq numeral_3_eq_3 nth_Cons')
  note sent = attempts_sent [OF s]
  have "\<forall>j. Suc j < length sent \<longrightarrow> (\<exists>resp. nt_answer net j = Inr resp \<and>
       (hr_Status resp = 429 \<or> (hr_Status resp = 403 \<and> throttled resp)))"
  proof (intro allI impI)
    fix j assume j: "Suc j < length sent"
    with sent have "j < 3" by auto
    with sent j idx obtain resp where "nt_answer net j = Inr resp" "retries j resp" by metis
    with retries_when show "\<exists>resp. nt_answer net j = Inr resp \<and>
       (hr_Status resp = 429 \<or> (hr_Status resp = 403 \<and> throttled resp))" by blast
  qed
  moreover have "\<forall>resp. r = Inr resp \<longrightarrow> sent \<noteq> [] \<and> nt_answer net (length sent - 1) = Inr resp"
    using sent idx [of "length sent - 1"] by auto
  moreover have "\<forall>q \<in> set sent. hq_Body q = hq_Body req" if "hq_GetBody req = Some (Inr (hq_Body req))"
    using attempts_body [OF s] ua that by auto
  moreover have "length sent \<le> 3" "length waits \<le> 2" "\<forall>w \<in> set waits. 0 < w \<and> w \<le> minute"
    "\<forall>q \<in> set sent. hq_UserAgent q = (if hq_UserAgent req = '''' then userAgent else hq_UserAgent req)"
    using sent ua(1) by simp_all
  ultimately show ?thesis by blast
qed

theorem retries_are_bounded_witness:
  "let r = RoundTrip \<lparr>nt_answer = (\<lambda>_. Inr \<lparr>hr_Status = 429, hr_RetryAfter = ''-7'', hr_Remaining = '''', hr_Reset = ''9999''\<rparr>),
        nt_now = (\<lambda>_. 0), nt_cancelled = (\<lambda>_. None), nt_parseTime = (\<lambda>_. None)\<rparr> ''autophage''
        \<lparr>hq_UserAgent = '''', hq_Body = ''{}'', hq_GetBody = Some (Inr ''{}'')\<rparr>
   in length (fst r) = 3 \<and> fst (snd r) = [minute, minute] \<and> map hq_Body (fst r) = [''{}'', ''{}'', ''{}'']"
proof -
  let ?net = "\<lparr>nt_answer = (\<lambda>_. Inr \<lparr>hr_Status = 429, hr_RetryAfter = ''-7'', hr_Remaining = '''', hr_Reset = ''9999''\<rparr>),
        nt_now = (\<lambda>_. 0), nt_cancelled = (\<lambda>_. None), nt_parseTime = (\<lambda>_. None)\<rparr>"
  let ?req = "\<lparr>hq_UserAgent = '''', hq_Body = ''{}'', hq_GetBody = Some (Inr ''{}'')\<rparr>"
  obtain sent waits r where e: "RoundTrip ?net ''autophage'' ?req = (sent, waits, r)" by (rule prod_cases3)
  have "length (fst (RoundTrip ?net ''autophage'' ?req)) = 3 \<and> fst (snd (RoundTrip ?net ''autophage'' ?req)) = [minute, minute]"
    by code_simp
  with retries_are_bounded [OF e] e show ?thesis
    by (auto simp: length_Suc_conv numeral_3_eq_3)
qed

subsection \<open>Tokens\<close>

lemma show_nat_digit: "c \<in> set (show_nat n) \<Longrightarrow> 48 \<le> (of_char c :: nat)"
proof (induction n rule: show_nat.induct)
  case (1 n)
  have d: "48 \<le> (of_char (digit_char m) :: nat)" if "m < 10" for m :: nat
    using that by (simp add: digit_char_def)
  show ?case
  proof (cases "n < 10")
    case True
    with 1 d [of n] show ?thesis by (simp add: show_nat.simps [of n])
  next
    case False
    with 1 d [of "n mod 10"] show ?thesis by (auto simp: show_nat.simps [of n])
  qed
qed

lemma show_nat_plain: "CHR ''-'' \<notin> set (show_nat n)" "CHR ''/'' \<notin> set (show_nat n)"
  using show_nat_digit [of "CHR ''-''" n] show_nat_digit [of "CHR ''/''" n] by auto

lemma show_nat_inj: "show_nat m = show_nat n \<Longrightarrow> m = n"
  by (metis show_nat_value)

lemma show_int_inj: "show_int i = show_int j \<Longrightarrow> i = j"
proof -
  assume e: "show_int i = show_int j"
  have m: "CHR ''-'' \<in> set (show_int k) \<longleftrightarrow> k < 0" for k
    by (simp add: show_int_def show_nat_plain)
  with e have "i < 0 \<longleftrightarrow> j < 0" by metis
  with e have "nat \<bar>i\<bar> = nat \<bar>j\<bar>" by (auto simp: show_int_def split: if_splits dest!: show_nat_inj)
  with \<open>i < 0 \<longleftrightarrow> j < 0\<close> show "i = j" by auto
qed

lemma show_int_no_slash: "CHR ''/'' \<notin> set (show_int i)"
  by (simp add: show_int_def show_nat_plain)

lemma transport_key_inj: "transport_key i m = transport_key j n \<longleftrightarrow> i = j \<and> m = n"
proof
  assume k: "transport_key i m = transport_key j n"
  have "takeWhile (\<lambda>c. c \<noteq> CHR ''/'') (transport_key i m) = show_int i" for i m
    using show_int_no_slash [of i] by (auto simp: transport_key_def takeWhile_append2 intro!: takeWhile_append2 [THEN trans])
  with k have "show_int i = show_int j" by metis
  with k show "i = j \<and> m = n" by (auto simp: transport_key_def dest: show_int_inj)
qed simp

definition cached_ok :: "(string \<rightharpoonup> Transport) \<Rightarrow> bool" where
  "cached_ok inst = (\<forall>k tr. inst k = Some tr \<longrightarrow>
     (\<exists>i n. k = transport_key i n \<and> tr = \<lparr>tn_Installation = i, tn_Repositories = [n]\<rparr>))"

lemma transport_scoped:
  assumes "cached_ok inst"
  shows "snd (transport i n inst) = \<lparr>tn_Installation = i, tn_Repositories = [n]\<rparr>" "cached_ok (fst (transport i n inst))"
proof -
  show "snd (transport i n inst) = \<lparr>tn_Installation = i, tn_Repositories = [n]\<rparr>"
  proof (cases "inst (transport_key i n)")
    case (Some tr)
    with assms obtain j m where "transport_key i n = transport_key j m" "tr = \<lparr>tn_Installation = j, tn_Repositories = [m]\<rparr>"
      unfolding cached_ok_def by blast
    with Some show ?thesis by (simp add: transport_def transport_key_inj)
  qed (simp add: transport_def Let_def)
  show "cached_ok (fst (transport i n inst))"
    using assms by (auto simp: transport_def cached_ok_def Let_def split: option.splits)
qed

lemma cache_grown: "cached_ok inst \<Longrightarrow> cached_ok (fold (\<lambda>(i, n) c. fst (transport i n c)) asked inst)"
  by (induction asked arbitrary: inst) (auto intro: transport_scoped(2))

lemma api_scoped:
  assumes "cached_ok inst" "api installations repository inst = (inst', r)"
  shows "cached_ok inst'" "\<And>tr. r = Inr tr \<Longrightarrow> installations repository = Inr (tn_Installation tr) \<and>
    tn_Repositories tr = [snd (splitRepo repository)]"
  using assms transport_scoped [OF assms(1)]
  by (auto simp: api_def split: sum.splits prod.splits) (metis fst_conv snd_conv Transport.select_convs)+

text \<open>What a call sends goes over the transport of its own repository.\<close>

lemma on_repo_scoped:
  assumes "cached_ok inst" "on_repo g repository failed call inst = (inst', sent, r)"
  shows "cached_ok inst' \<and> (\<forall>(tr, s) \<in> set sent. ga_installations g repository = Inr (tn_Installation tr) \<and>
      tn_Repositories tr = [snd (splitRepo repository)] \<and>
      s \<in> set (fst (call tr (fst (splitRepo repository)) (snd (splitRepo repository)))))"
  using assms(2) api_scoped [OF assms(1)]
  by (auto simp: on_repo_def split: sum.splits prod.splits)

definition sent_repository :: "Sent \<Rightarrow> string \<times> string" where
  "sent_repository s =
     (case s of CreateComment owner name _ _ \<Rightarrow> (owner, name) | CreatePull owner name _ _ _ _ \<Rightarrow> (owner, name)
      | CreateLabel owner name _ \<Rightarrow> (owner, name))"

datatype Call =
    CallComment string int string
  | CallPull string string string string string
  | CallLabel string string
  | CallMint Repository

text \<open>The calls that change something or hand out a token, one after the other.\<close>

definition called :: "GhApi \<Rightarrow> Call \<Rightarrow> cache \<Rightarrow> cache \<times> (Transport \<times> Sent) list" where
  "called g c inst =
     (case c of
        CallComment repository number body \<Rightarrow> (let (i, s, _) = PostComment g repository number body inst in (i, s))
      | CallPull repository head base title body \<Rightarrow>
          (let (i, s, _) = OpenPullRequest g repository head base title body inst in (i, s))
      | CallLabel repository label \<Rightarrow> (let (i, s, _) = EnsureLabel g repository label inst in (i, s))
      | CallMint repo \<Rightarrow> (fst (mint_transport repo inst), []))"

definition scoped :: "GhApi \<Rightarrow> Transport \<times> Sent \<Rightarrow> bool" where
  "scoped g p = (\<exists>repository. sent_repository (snd p) = splitRepo repository \<and>
     ga_installations g repository = Inr (tn_Installation (fst p)) \<and>
     tn_Repositories (fst p) = [snd (sent_repository (snd p))])"

lemma on_repo_all_scoped:
  assumes "cached_ok inst" "on_repo g repository failed call inst = (inst', sent, r)"
    "\<And>tr owner name. \<forall>s \<in> set (fst (call tr owner name)). sent_repository s = (owner, name)"
  shows "cached_ok inst' \<and> (\<forall>p \<in> set sent. scoped g p)"
  using on_repo_scoped [OF assms(1,2)] assms(3) by (fastforce simp: scoped_def)

lemma called_scoped:
  assumes "cached_ok inst" "called g c inst = (inst', sent)"
  shows "cached_ok inst' \<and> (\<forall>p \<in> set sent. scoped g p)"
proof (cases c)
  case (CallMint repo)
  with assms transport_scoped(2) [OF assms(1)] show ?thesis by (auto simp: called_def mint_transport_def)
next
  case (CallComment repository number body)
  then obtain r where "PostComment g repository number body inst = (inst', sent, r)"
    using assms(2) by (auto simp: called_def split: prod.splits)
  from on_repo_all_scoped [OF assms(1) this [unfolded PostComment_def]] show ?thesis
    by (simp add: sent_repository_def Let_def)
next
  case (CallPull repository head base title body)
  then obtain r where "OpenPullRequest g repository head base title body inst = (inst', sent, r)"
    using assms(2) by (auto simp: called_def split: prod.splits)
  from on_repo_all_scoped [OF assms(1) this [unfolded OpenPullRequest_def]] show ?thesis
    by (simp add: sent_repository_def Let_def)
next
  case (CallLabel repository label)
  then obtain r where "EnsureLabel g repository label inst = (inst', sent, r)"
    using assms(2) by (auto simp: called_def split: prod.splits)
  from on_repo_all_scoped [OF assms(1) this [unfolded EnsureLabel_def]] show ?thesis
    by (simp add: sent_repository_def Let_def split: option.splits)
qed

fun calls :: "GhApi \<Rightarrow> Call list \<Rightarrow> cache \<Rightarrow> cache \<times> (Transport \<times> Sent) list" where
  "calls g [] inst = (inst, [])"
| "calls g (c # cs) inst =
     (let (inst1, sent) = called g c inst; (inst2, sent') = calls g cs inst1 in (inst2, sent @ sent'))"

lemma calls_scoped:
  "cached_ok inst \<Longrightarrow> calls g cs inst = (inst', sent) \<Longrightarrow> cached_ok inst' \<and> (\<forall>p \<in> set sent. scoped g p)"
proof (induction cs arbitrary: inst sent)
  case (Cons c cs)
  obtain inst1 sent1 where c: "called g c inst = (inst1, sent1)" by (rule prod.exhaust)
  obtain sent2 where r: "calls g cs inst1 = (inst', sent2)" "sent = sent1 @ sent2"
    using Cons.prems(2) c by (auto simp: Let_def split: prod.splits)
  from called_scoped [OF Cons.prems(1) c] Cons.IH [OF _ r(1)] r(2) show ?case by auto
qed simp

text \<open>C40. Whatever was asked of the client before, nothing is sent to a repository but over a transport
  of that repository's own installation whose token is scoped to that one repository's name;
  and the token handed out for a repository is one of the installation it is enrolled under,
  scoped to it alone, and lasts until the time the library names, or 55 minutes. Two
  repositories, or one repository under two installations, never share a cached token.\<close>
theorem tokens_are_scoped:
  assumes "calls g cs Map.empty = (inst, sent)"
  shows "(\<forall>(tr, s) \<in> set sent. \<exists>repository. sent_repository s = splitRepo repository \<and>
      ga_installations g repository = Inr (tn_Installation tr) \<and> tn_Repositories tr = [snd (splitRepo repository)]) \<and>
    (let tr = \<lparr>tn_Installation = rp_InstallationID repo, tn_Repositories = [snd (OwnerName repo)]\<rparr> in
     snd (MintToken token expiry now repo inst) =
       (case token tr of Inl e \<Rightarrow> Inl (''github: mint token for '' @ rp_FullName repo @ '': '' @ e)
        | Inr v \<Rightarrow> Inr \<lparr>tk_Value = v, tk_ExpiresAt = (case expiry tr of Some at \<Rightarrow> at | None \<Rightarrow> now + 55 * minute)\<rparr>))"
proof -
  have "cached_ok inst \<and> (\<forall>p \<in> set sent. scoped g p)"
    by (rule calls_scoped [OF _ assms]) (simp add: cached_ok_def)
  then have sent: "cached_ok inst" "\<forall>p \<in> set sent. scoped g p" by simp_all
  have "snd (mint_transport repo inst) = \<lparr>tn_Installation = rp_InstallationID repo, tn_Repositories = [snd (OwnerName repo)]\<rparr>"
    using transport_scoped(1) [OF sent(1)] by (simp add: mint_transport_def)
  moreover have "\<forall>(tr, s) \<in> set sent. \<exists>repository. sent_repository s = splitRepo repository \<and>
      ga_installations g repository = Inr (tn_Installation tr) \<and> tn_Repositories tr = [snd (splitRepo repository)]"
    using sent(2) by (fastforce simp: scoped_def)
  ultimately show ?thesis by (simp add: MintToken_def Let_def split_beta)
qed

definition demo_api :: GhApi where
  "demo_api = \<lparr>ga_installations = (\<lambda>r. if r = ''o/r'' then Inr 1 else Inl ''not enrolled''), ga_create = (\<lambda>_ _. Inr 5),
     ga_getLabel = (\<lambda>_ _ _ _. Some (Some 404, ''not found'')), ga_getIssue = (\<lambda>_ _ _ _. Inl (Some 404)),
     ga_listPulls = (\<lambda>_ _ _ _. Inr []), ga_getRepo = (\<lambda>_ _ _. Inr ''main'')\<rparr>"

theorem tokens_are_scoped_witness:
  "\<exists>inst tr. calls demo_api [CallLabel ''o/r'' ''approved'', CallComment ''p/r'' 3 ''hello''] Map.empty =
     (inst, [(tr, CreateLabel ''o'' ''r'' ''approved'')]) \<and> tn_Installation tr = 1 \<and> tn_Repositories tr = [''r'']"
proof -
  have c: "snd (calls demo_api [CallLabel ''o/r'' ''approved'', CallComment ''p/r'' 3 ''hello''] Map.empty) =
    [(\<lparr>tn_Installation = 1, tn_Repositories = [''r'']\<rparr>, CreateLabel ''o'' ''r'' ''approved'')]" by code_simp
  obtain inst sent where e: "calls demo_api [CallLabel ''o/r'' ''approved'', CallComment ''p/r'' 3 ''hello''] Map.empty = (inst, sent)"
    by (rule prod.exhaust)
  from tokens_are_scoped [OF e] c e show ?thesis by auto
qed

subsection \<open>Mentions\<close>

lemma neutralise_map: "neutraliseMentions s = concat (map (\<lambda>c. if c = CHR ''@'' then CHR ''@'' # zwsp else [c]) s)"
  by (induction s) (auto simp: neutraliseMentions_def ReplaceAll.simps(2) HasPrefix_iff)

lemma at_after: "CHR ''@'' \<notin> set z \<Longrightarrow> z @ x = p @ CHR ''@'' # t \<Longrightarrow> \<exists>q. x = q @ CHR ''@'' # t"
proof (induction z arbitrary: p)
  case (Cons c z)
  then show ?case by (cases p) auto
qed auto

lemma neutralised_at: "neutraliseMentions s = p @ CHR ''@'' # t \<Longrightarrow> \<exists>u. t = zwsp @ u"
proof (induction s arbitrary: p)
  case (Cons c s)
  define x where "x = neutraliseMentions s"
  have x: "neutraliseMentions (c # s) = (if c = CHR ''@'' then CHR ''@'' # zwsp else [c]) @ x"
    by (simp add: neutralise_map x_def)
  have "p = [] \<and> c = CHR ''@'' \<and> t = zwsp @ x \<or> (\<exists>q. x = q @ CHR ''@'' # t)"
  proof (cases p)
    case Nil
    with Cons.prems x show ?thesis by (auto split: if_splits)
  next
    case (Cons d p')
    have "CHR ''@'' \<notin> set (if c = CHR ''@'' then zwsp else [])" by (simp add: zwsp_def)
    moreover have "(if c = CHR ''@'' then zwsp else []) @ x = p' @ CHR ''@'' # t"
      using Cons.prems x Cons by (auto split: if_splits)
    ultimately show ?thesis using at_after by blast
  qed
  then show ?case using Cons.IH by (auto simp: x_def)
qed (simp add: neutralise_map)

lemma neutralised_back: "ReplaceAll (neutraliseMentions s) (''@'' @ zwsp) ''@'' = s"
proof (induction s)
  case (Cons c s)
  have "neutraliseMentions (c # s) = (if c = CHR ''@'' then CHR ''@'' # zwsp else [c]) @ neutraliseMentions s"
    by (simp add: neutralise_map)
  with Cons show ?case
    by (auto simp: ReplaceAll.simps(2) HasPrefix_iff zwsp_def)
qed (simp add: neutralise_map)

definition texts :: "Sent \<Rightarrow> string list" where
  "texts s = (case s of CreateComment _ _ _ body \<Rightarrow> [body] | CreatePull _ _ title _ _ body \<Rightarrow> [title, body] | CreateLabel _ _ _ \<Rightarrow> [])"

definition given_texts :: "Call \<Rightarrow> string list" where
  "given_texts c = (case c of CallComment _ _ body \<Rightarrow> [body] | CallPull _ _ _ title body \<Rightarrow> [title, body] | _ \<Rightarrow> [])"

lemma called_texts:
  "\<forall>(tr, s) \<in> set (snd (called g c inst)). texts s = map neutraliseMentions (given_texts c)"
  by (cases c)
    (auto simp: called_def texts_def given_texts_def on_repo_def PostComment_def OpenPullRequest_def EnsureLabel_def Let_def
      split: prod.splits sum.splits option.splits if_splits)

lemma calls_texts:
  "calls g cs inst = (inst', sent) \<Longrightarrow> (tr, s) \<in> set sent \<Longrightarrow> \<exists>c \<in> set cs. texts s = map neutraliseMentions (given_texts c)"
proof (induction cs arbitrary: inst sent)
  case (Cons c cs)
  obtain inst1 sent1 where c: "called g c inst = (inst1, sent1)" by (rule prod.exhaust)
  obtain sent2 where r: "calls g cs inst1 = (inst', sent2)" "sent = sent1 @ sent2"
    using Cons.prems(1) c by (auto simp: Let_def split: prod.splits)
  with Cons.IH [OF r(1)] Cons.prems(2) called_texts [of g c inst] c show ?case by auto
qed simp

text \<open>Nothing the client posts mentions anybody: in every text it sends - the bodies of comments, the
  titles and the bodies of pull requests - each at sign is followed by a zero-width space, and
  taking these out again gives the text of one of the calls back, so nothing else is changed.\<close>
theorem posted_texts_mention_nobody:
  assumes "calls g cs inst = (inst', sent)"
  shows "\<forall>(tr, s) \<in> set sent. (\<forall>x \<in> set (texts s). \<forall>p t. p @ CHR ''@'' # t = x \<longrightarrow> HasPrefix t zwsp) \<and>
    (\<exists>c \<in> set cs. map (\<lambda>x. ReplaceAll x (''@'' @ zwsp) ''@'') (texts s) = given_texts c)"
proof (clarify, intro conjI)
  fix tr s assume "(tr, s) \<in> set sent"
  from calls_texts [OF assms this] obtain c where c: "c \<in> set cs" "texts s = map neutraliseMentions (given_texts c)" by blast
  show "\<forall>x \<in> set (texts s). \<forall>p t. p @ CHR ''@'' # t = x \<longrightarrow> HasPrefix t zwsp"
    using neutralised_at [OF sym] by (fastforce simp: c(2) HasPrefix_iff)
  have "map (\<lambda>x. ReplaceAll x (''@'' @ zwsp) ''@'') (texts s) = given_texts c"
    by (simp add: c(2) comp_def neutralised_back del: ReplaceAll.simps append.simps)
  with c(1) show "\<exists>c \<in> set cs. map (\<lambda>x. ReplaceAll x (''@'' @ zwsp) ''@'') (texts s) = given_texts c" by blast
qed

theorem posted_texts_mention_nobody_witness:
  "\<exists>inst tr cbody. calls demo_api [CallComment ''o/r'' 7 ''ping @bob''] Map.empty =
     (inst, [(tr, CreateComment ''o'' ''r'' 7 cbody)]) \<and> HasPrefix (drop 6 cbody) zwsp"
proof -
  obtain inst sent where e: "calls demo_api [CallComment ''o/r'' 7 ''ping @bob''] Map.empty = (inst, sent)" by (rule prod.exhaust)
  have "snd (calls demo_api [CallComment ''o/r'' 7 ''ping @bob''] Map.empty) =
      [(\<lparr>tn_Installation = 1, tn_Repositories = [''r'']\<rparr>, CreateComment ''o'' ''r'' 7 (''ping '' @ CHR ''@'' # zwsp @ ''bob''))]"
    by code_simp
  with e have s: "sent = [(\<lparr>tn_Installation = 1, tn_Repositories = [''r'']\<rparr>,
      CreateComment ''o'' ''r'' 7 (''ping '' @ CHR ''@'' # zwsp @ ''bob''))]" by simp
  with posted_texts_mention_nobody [OF e] have "HasPrefix (zwsp @ ''bob'') zwsp" by (auto simp: texts_def)
  with e s show ?thesis by (auto simp: zwsp_def)
qed

end
