(* ===== verification/Autophaged.thy ===== *)
theory Autophaged
  imports SweepInv Configuration Routing Listings RepairerInv GitHubClient
begin

section \<open>The daemon, put together\<close>

text \<open>
  \<^verbatim>\<open>cmd/autophaged\<close>: what \<^verbatim>\<open>main\<close> makes of the configuration file and the environment, and the
  router of \<^verbatim>\<open>routing.go\<close>. A fatal error is \<open>Inl\<close>. The model gateway's registry, the ranker, the
  numbers' parser and the home directory are parameters; opening the database and the ledger,
  the HTTP server and its timeouts, and the wait at the end are left out.
\<close>

subsection \<open>Routing\<close>

definition tier_config :: "ModelConfig \<Rightarrow> Tier \<Rightarrow> ModelTier option" where
  "tier_config m t =
     (case t of TierTriage \<Rightarrow> Some (mc_Triage m) | TierAttempt \<Rightarrow> Some (mc_Auto m)
      | TierApproved \<Rightarrow> Some (mc_Approved m) | TierRepair \<Rightarrow> Some (mc_Repair m) | Tier_other _ \<Rightarrow> None)"

type_synonym scores = "(string \<times> (string \<times> rat) list) list"

text \<open>What is outside the daemon: the registry's answer, whether the store answers, prices, ranking.\<close>

record 'f Gateway =
  gw_registry :: "string + ModelInfo list"
  gw_storeErr :: "string option"
  gw_price :: "string \<Rightarrow> 'f option"
  gw_rank :: "'f Candidate list \<Rightarrow> Task \<Rightarrow> scores Scorer option \<Rightarrow> Ranked option"

definition tallies :: "Store \<Rightarrow> Tally list" where
  "tallies st = map (\<lambda>v. \<lparr>ty_Tier = TierRepair, ty_Model = mv_Model v, ty_Passes = int (mv_Passes v),
     ty_Fails = int (mv_Fails v)\<rparr>) (RepairVerdictsByModel st)"

definition newRouter :: "'f Gateway \<Rightarrow> Config \<Rightarrow> Store \<Rightarrow> ('f, scores) Router option" where
  "newRouter gw c st =
     (let mode = (\<lambda>t. case tier_config (cf_Model c) t of None \<Rightarrow> '''' | Some mt \<Rightarrow> mt_Route mt);
          r = cf_Routing c
      in if list_all (\<lambda>t. mode t = '''') [TierTriage, TierAttempt, TierApproved, TierRepair] then None
         else Some \<lparr>rr_registry = gw_registry gw, rr_modes = mode,
           rr_localOnly = (\<lambda>t. case tier_config (cf_Model c) t of None \<Rightarrow> False
              | Some mt \<Rightarrow> mt_Route mt \<noteq> '''' \<and> mt_LocalOnly mt),
           rr_local = rg_LocalProviders r,
           rr_localContext = (\<lambda>i. case map_of (rg_LocalContextTokens r) i of None \<Rightarrow> 0 | Some n \<Rightarrow> n),
           rr_scorer = Some (Declared (rg_Scores r)),
           rr_outcomes = Some (case gw_storeErr gw of Some e \<Rightarrow> Inl e | None \<Rightarrow> Inr (tallies st)),
           rr_minRuns = rg_HistoryMinRuns r, rr_price = gw_price gw, rr_rank = gw_rank gw\<rparr>)"

subsection \<open>Wiring\<close>

definition expandHome :: "string \<Rightarrow> string \<Rightarrow> string" where
  "expandHome home p = (if HasPrefix p ''~/'' then home @ drop 1 p else p)"

text \<open>The services' configurations; \<open>wd_Repair\<close> and \<open>wd_DeployDir\<close> are \<open>None\<close> where nothing is wired.\<close>

record Wired =
  wd_Budgets :: Budgets
  wd_Image :: string
  wd_WorkspacesDir :: string
  wd_BotName :: string
  wd_Dispatch :: DispatchConfig
  wd_Runner :: RunnerCfg
  wd_Repair :: "RepairCfg option"
  wd_DeployDir :: "string option"
  wd_OperatorLogin :: string
  wd_WebhookSecret :: string

definition dispatch_config :: "Config \<Rightarrow> Budgets \<Rightarrow> DispatchConfig" where
  "dispatch_config c b =
     \<lparr>dc_Sched = \<lparr>sc_Concurrency = sx_Concurrency (cf_Sandbox c),
        sc_Budgets = \<lparr>pol_Auto = bs_Auto b, pol_Approved = bs_Approved b, pol_Repair = bs_Repair b\<rparr>,
        sc_RoundCap = bs_RoundCap b,
        sc_DependabotLogin = (if bs_UpkeepEnabled b then uc_DependabotLogin (cf_Upkeep c) else ''''),
        sc_Window = bs_CheckWindow b\<rparr>,
      dc_Label = lc_Approved (cf_Label c), dc_BotLogin = gc_BotLogin (cf_GitHub c),
      dc_Model = mt_Model (mc_Triage (cf_Model c)), dc_Upkeep = bs_UpkeepEnabled b, dc_Cancel = True\<rparr>"

text \<open>The start of \<^verbatim>\<open>main\<close>: the budgets of a valid configuration and the secrets of the environment.\<close>

definition read_config :: "(string \<Rightarrow> string + Duration) \<Rightarrow> (string \<Rightarrow> string) \<Rightarrow> Config \<Rightarrow> string + Budgets \<times> Secrets" where
  "read_config parse getenv c =
     (case Validate parse c of (b, errs) \<Rightarrow>
       if errs \<noteq> [] then Inl ''config''
       else (case LoadSecrets getenv of Inl e \<Rightarrow> Inl e | Inr secrets \<Rightarrow> Inr (b, secrets)))"

definition wire :: "(string \<Rightarrow> string + Duration) \<Rightarrow> (string \<Rightarrow> string) \<Rightarrow> string \<Rightarrow> Config \<Rightarrow> string + Wired" where
  "wire parse getenv home c =
     (case read_config parse getenv c of Inl e \<Rightarrow> Inl e
      | Inr (b, secrets) \<Rightarrow>
          if ds_Repo (cf_Deploy c) \<noteq> '''' \<and> sc_DeployWebhookSecret secrets = ''''
          then Inl ''deploy.repo is set but AUTOPHAGE_DEPLOY_WEBHOOK_SECRET is not set''
          else Inr \<lparr>wd_Budgets = b, wd_Image = sx_Image (cf_Sandbox c),
            wd_WorkspacesDir = expandHome home (sx_WorkspacesDir (cf_Sandbox c)),
            wd_BotName = gc_BotLogin (cf_GitHub c), wd_Dispatch = dispatch_config c b,
            wd_Runner = \<lparr>rc_AttemptModel = mt_Model (mc_Auto (cf_Model c)),
              rc_ApprovedModel = mt_Model (mc_Approved (cf_Model c)), rc_CloneURL = None\<rparr>,
            wd_Repair = (if bs_UpkeepEnabled b then Some \<lparr>pc_Model = mt_Model (mc_Repair (cf_Model c)),
              pc_RoundCap = bs_RoundCap b, pc_CloneURL = None\<rparr> else None),
            wd_DeployDir = (if ds_Repo (cf_Deploy c) = '''' then None
              else Some (if ds_InstallDir (cf_Deploy c) = '''' then home @ ''/.local/bin'' else ds_InstallDir (cf_Deploy c))),
            wd_OperatorLogin = gc_OperatorLogin (cf_GitHub c), wd_WebhookSecret = sc_WebhookSecret secrets\<rparr>)"

subsection \<open>Local tiers\<close>

lemma Choose_local:
  assumes "\<And>cands task scorer best. rr_rank r cands task scorer = Some best \<Longrightarrow> rk_ID best \<in> cd_ID ` set cands"
    and "Choose r t = Inr ch"
  shows "\<exists>infos m. rr_registry r = Inr infos \<and> m \<in> set infos \<and> ch_ModelID ch = mi_ID m \<and> servable r (rr_localOnly r t) m"
proof -
  obtain infos task scorer best where i: "rr_registry r = Inr infos"
    "rr_rank r (toCandidates r (rr_localOnly r t) infos) task scorer = Some best" "ch_ModelID ch = rk_ID best"
    using assms(2) by (auto simp: Choose_def Let_def split: option.splits if_splits sum.splits prod.splits)
  from assms(1) [OF i(2)] obtain d where d: "d \<in> set (toCandidates r (rr_localOnly r t) infos)" "cd_ID d = rk_ID best" by auto
  with candidates_from_spec [of r "rr_localOnly r t" "[]" infos] obtain m where
    "m \<in> set infos" "d = candidate r m" "servable r (rr_localOnly r t) m" by (auto simp: toCandidates_def)
  with d i show ?thesis by (auto simp: candidate_def Let_def)
qed

text \<open>C37. Work of a tier that is to stay on the operator's own machines stays there: in a configuration
  the daemon starts with, the model such a tier resolves to is one of the local models the
  configuration lists, or an entry of the gateway's registry that one of the local providers
  serves - whatever the gateway answers, and if it does not. Asked of the ranker: it picks among
  its candidates.\<close>
theorem local_tiers_stay_local:
  assumes "wire parse getenv home c = Inr w" "tier_config (cf_Model c) t = Some mt" "mt_LocalOnly mt"
    and "\<And>cands task scorer best. gw_rank gw cands task scorer = Some best \<Longrightarrow> rk_ID best \<in> cd_ID ` set cands"
  shows "(let model = Models_Resolve (newRouter gw c st) t (mt_Model mt) in
     model \<in> fst ` set (rg_LocalContextTokens (cf_Routing c)) \<or>
     (\<exists>infos m. gw_registry gw = Inr infos \<and> m \<in> set infos \<and> mi_ID m = model \<and>
        mi_Provider m \<in> set (rg_LocalProviders (cf_Routing c)) \<and> \<not> mi_RequiresClientAuth m))"
proof -
  from assms(1) have v: "snd (Validate parse c) = []" by (auto simp: wire_def read_config_def split: prod.splits if_splits sum.splits)
  then have "concat (map tier_errs (tiers (cf_Model c))) = [] \<and> concat (map (local_errs (cf_Routing c)) (tiers (cf_Model c))) = []"
    by (auto simp: Validate_def Let_def split: prod.splits if_splits)
  moreover have "mt \<in> snd ` set (tiers (cf_Model c))"
    using assms(2) by (auto simp: tier_config_def tiers_def split: Tier.splits)
  ultimately obtain n where "tier_errs (n, mt) = []" "local_errs (cf_Routing c) (n, mt) = []" by force
  from tier_errs_ok [OF this] assms(3) have ok: "mt_Route mt \<noteq> ''''" "mt_Model mt \<in> fst ` set (rg_LocalContextTokens (cf_Routing c))"
    by (simp_all add: tier_ok_def)
  show ?thesis
  proof (cases "newRouter gw c st")
    case None
    with ok show ?thesis by (simp add: Models_Resolve_def)
  next
    case (Some r)
    then have r: "rr_localOnly r t" "rr_local r = rg_LocalProviders (cf_Routing c)" "rr_registry r = gw_registry gw" "rr_rank r = gw_rank gw"
      using assms(2,3) ok(1) by (auto simp: newRouter_def Let_def split: if_splits)
    show ?thesis
    proof (cases "Choose r t")
      case (Inl e)
      with Some ok show ?thesis by (simp add: Models_Resolve_def)
    next
      case (Inr ch)
      from Choose_local [OF _ this] assms(4) r(4) obtain infos m where
        "rr_registry r = Inr infos" "m \<in> set infos" "ch_ModelID ch = mi_ID m" "servable r True m" using r(1) by metis
      then have "gw_registry gw = Inr infos \<and> m \<in> set infos \<and> mi_ID m = ch_ModelID ch \<and>
          mi_Provider m \<in> set (rg_LocalProviders (cf_Routing c)) \<and> \<not> mi_RequiresClientAuth m"
        using r by (simp add: servable_def)
      moreover have "Models_Resolve (newRouter gw c st) t (mt_Model mt) = ch_ModelID ch"
        using Some Inr by (simp add: Models_Resolve_def)
      ultimately show ?thesis unfolding Let_def by metis
    qed
  qed
qed

definition local_file :: Config where
  "local_file = demo_file\<lparr>cf_Model := (cf_Model Default)\<lparr>mc_Repair :=
     \<lparr>mt_Model = ''qwen'', mt_Route = ''cost'', mt_LocalOnly = True\<rparr>\<rparr>\<rparr>"

definition silent_gateway :: "string Gateway" where
  "silent_gateway = \<lparr>gw_registry = Inl ''no route to host'', gw_storeErr = None, gw_price = Some,
     gw_rank = (\<lambda>cs _ _. case cs of [] \<Rightarrow> None | c # _ \<Rightarrow> Some \<lparr>rk_ID = cd_ID c, rk_Warnings = [], rk_Basis = None\<rparr>)\<rparr>"

theorem local_tiers_stay_local_witness:
  "\<exists>w. wire sample_parse (\<lambda>_. ''s'') ''/h'' local_file = Inr w \<and>
     Models_Resolve (newRouter silent_gateway local_file (dm_store (demo_daemon []))) TierRepair ''qwen'' \<in> {''qwen-35b-a3b'', ''qwen''}"
proof -
  define rep where "rep = \<lparr>mt_Model = ''qwen'', mt_Route = ''cost'', mt_LocalOnly = True\<rparr>"
  have "\<not> isl (wire sample_parse (\<lambda>_. ''s'') ''/h'' local_file)" by code_simp
  then obtain w where w: "wire sample_parse (\<lambda>_. ''s'') ''/h'' local_file = Inr w"
    by (cases "wire sample_parse (\<lambda>_. ''s'') ''/h'' local_file") auto
  have t: "tier_config (cf_Model local_file) TierRepair = Some rep" "mt_LocalOnly rep" "mt_Model rep = ''qwen''"
    by (simp_all add: tier_config_def local_file_def rep_def)
  have k: "rk_ID best \<in> cd_ID ` set cands" if "gw_rank silent_gateway cands task scorer = Some best" for cands task scorer best
    using that by (auto simp: silent_gateway_def split: list.splits)
  have "set (rg_LocalContextTokens (cf_Routing local_file)) = {(''qwen-35b-a3b'', 131072), (''qwen'', 32768)}"
    by (simp add: local_file_def demo_file_def Default_def)
  moreover have "gw_registry silent_gateway \<noteq> Inr infos" for infos by (simp add: silent_gateway_def)
  ultimately have "Models_Resolve (newRouter silent_gateway local_file (dm_store (demo_daemon []))) TierRepair ''qwen'' \<in> {''qwen-35b-a3b'', ''qwen''}"
    using local_tiers_stay_local [where gw = silent_gateway and st = "dm_store (demo_daemon [])", OF w t(1,2) k] unfolding t(3) Let_def by auto
  with w show ?thesis by blast
qed

subsection \<open>Switching upkeep off\<close>

text \<open>With the Upkeep half not wired, no step of the dispatcher touches the table of bumps.\<close>

definition rounds_table :: "Store \<Rightarrow> BumpSnapshot list" where
  "rounds_table st = bd_bumps (st_bumps st)"

lemma Validate_upkeep: "Validate parse c = (b, errs) \<Longrightarrow> bs_UpkeepEnabled b = uc_Enabled (cf_Upkeep c)"
proof -
  obtain auto e1 where a: "tier_budget parse ''auto'' (bc_Auto (cf_Budget c)) = (auto, e1)" by (rule prod.exhaust)
  obtain approved e2 where p: "tier_budget parse ''approved'' (bc_Approved (cf_Budget c)) = (approved, e2)" by (rule prod.exhaust)
  obtain window e3 where w: "parseDuration parse ''upkeep.check_window'' (uc_CheckWindow (cf_Upkeep c)) = (window, e3)" by (rule prod.exhaust)
  obtain repair e4 where r: "tier_budget parse ''upkeep.budget'' (uc_Budget (cf_Upkeep c)) = (repair, e4)" by (rule prod.exhaust)
  assume v: "Validate parse c = (b, errs)"
  show ?thesis
  proof (cases "uc_Enabled (cf_Upkeep c)")
    case True
    have "bs_UpkeepEnabled (fst (Validate parse c))" unfolding Validate_def Let_def a p w r prod.case using True by simp
    with v True show ?thesis by simp
  next
    case False
    have "\<not> bs_UpkeepEnabled (fst (Validate parse c))" unfolding Validate_def Let_def a p prod.case using False by simp
    with v False show ?thesis by simp
  qed
qed

lemma fold_table:
  "(\<And>x st. rounds_table (f x st) = rounds_table st) \<Longrightarrow> rounds_table (fold f xs st) = rounds_table st"
  by (induction xs arbitrary: st) auto

lemma enroll_table: "rounds_table (fst (enroll i now rs n st)) = rounds_table st"
  by (induction i now rs n st rule: enroll.induct)
    (auto simp: EnrollRepository_def rounds_table_def split: sum.splits)

lemma remove_table: "rounds_table (fst (remove now rs n st)) = rounds_table st"
  by (induction now rs n st rule: remove.induct) (auto simp: RemoveRepository_def rounds_table_def)

lemma open_case_table: "rounds_table (fst (open_case now e st)) = rounds_table st"
  by (auto simp: open_case_def rounds_table_def split: sum.splits serr.splits)

lemma issue_labeled_table: "rounds_table (fst (issue_labeled t now d e st)) = rounds_table st"
  using open_case_table [of now e st]
  by (auto simp: issue_labeled_def rounds_table_def Let_def split: sum.splits prod.splits)

lemma issue_closed_table: "rounds_table (fst (issue_closed now d e st)) = rounds_table st"
  by (auto simp: issue_closed_def rounds_table_def Let_def split: sum.splits serr.splits)

lemma issue_table: "rounds_table (fst (issue t now d e st)) = rounds_table st"
  by (simp add: issue_def open_case_table issue_labeled_table issue_closed_table)

lemma installationRepositories_table: "rounds_table (fst (installationRepositories now e st)) = rounds_table st"
  using enroll_table [of "ir_ID e" now "ir_Added e" 0 st] remove_table [of now "ir_Removed e" 0]
  by (auto simp: installationRepositories_def split: prod.splits option.splits) (metis fst_conv)+

lemma translate_event_table:
  assumes "tl_Rollup t = None"
  shows "rounds_table (fst (translate_event t now d ev st)) = rounds_table st"
  using assms
  by (cases ev) (simp_all add: translate_event_def issue_table translate_checks_def installation_def enroll_table remove_table
      installationRepositories_table)

lemma Process_table:
  assumes "tl_Rollup t = None"
  shows "rounds_table (fst (Process parse t now d st)) = rounds_table st"
proof -
  have "rounds_table (fst (translate parse t now d st)) = rounds_table st"
    using translate_event_table [OF assms, of now d] by (simp add: translate_def split_beta split: sum.splits)
  then show ?thesis
    by (auto simp: Process_def RecordProcessing_def rounds_table_def split: prod.splits sum.splits if_splits)
qed

lemma enroll_one_table: "rounds_table (enroll_one label db el now r st) = rounds_table st"
  by (auto simp: enroll_one_def refreshBranch_def RecordLabelSetup_def rounds_table_def EnrollRepository_def RemoveRepository_def
      split: option.splits sum.splits if_splits label_error.splits)

lemma triage_table:
  "rounds_table (sz_store (Triage_Run model getIssue classify now z)) = rounds_table (sz_store z)"
proof -
  have one: "rounds_table (sz_store (fst (triage_one model getIssue classify now k z))) = rounds_table (sz_store z)" for k z
    by (auto simp: triage_one_def triage_fail_def triage_clear_def rounds_table_def Let_def split: sum.splits prod.splits)
  have "rounds_table (sz_store (fold (\<lambda>k z. if triage_eligible now k z then fst (triage_one model getIssue classify now k z) else z) ks z)) =
      rounds_table (sz_store z)" for ks
    by (induction ks arbitrary: z) (simp_all add: one)
  then show ?thesis by (simp add: Triage_Run_def)
qed

lemma commenter_table: "rounds_table (ob_store (Commenter_Run label post written ob)) = rounds_table (ob_store ob)"
proof -
  have tr: "rounds_table (enqueueTriage label x st) = rounds_table st" and ou: "rounds_table (enqueueOutcome label y st) = rounds_table st" for x y st
    by (auto simp: enqueueTriage_def enqueueOutcome_def EnqueueTriageComment_def EnqueueOutcomeComment_def rounds_table_def
        split: sum.splits option.splits)
  have "rounds_table (enqueue label st) = rounds_table st" for st
    using fold_table [of "enqueueTriage label", OF tr] fold_table [of "enqueueOutcome label", OF ou] by (simp add: enqueue_def Let_def)
  moreover have "rounds_table (ob_store (fold (post_one post written) cs o')) = rounds_table (ob_store o')" for cs o'
    by (induction cs arbitrary: o') (simp_all add: post_one_def RecordCommentPost_def rounds_table_def Let_def split: sum.splits)
  ultimately show ?thesis by (simp add: Commenter_Run_def Let_def)
qed

lemma open_rounds_table: "rounds_table st = rounds_table st' \<Longrightarrow> OpenRepairs (st_bumps st) = OpenRepairs (st_bumps st')"
  by (simp add: OpenRepairs_def rounds_table_def)

definition held :: "Dispatcher \<Rightarrow> Dispatcher \<Rightarrow> bool" where
  "held p p' = (rounds_table (dp_store p') = rounds_table (dp_store p) \<and> dm_running (dp_daemon p') = dm_running (dp_daemon p))"

lemma held_store: "rounds_table st = rounds_table (dp_store p) \<Longrightarrow> held p (with_store st p)"
  by (simp add: held_def with_store_def dp_store_def)

lemma held_trans: "held p q \<Longrightarrow> held q r \<Longrightarrow> held p r"
  by (simp add: held_def)

lemma held_open: "held p q \<Longrightarrow> OpenRepairs (st_bumps (dp_store q)) = OpenRepairs (st_bumps (dp_store p))"
  by (rule open_rounds_table) (simp add: held_def)

lemma sweep_held:
  assumes "\<not> dc_Upkeep cfg" "sc_Concurrency (dc_Sched cfg) \<le> int (length (OpenRepairs (st_bumps (dp_store p))))"
  shows "held p (Dispatcher_Sweep cfg w now p)"
proof -
  have t: "held q (translate_step cfg w now q)" for q
    unfolding translate_step_def ProcessPending_def
    by (rule held_store, rule fold_table, rule Process_table) (simp add: translator_of_def assms(1))
  have c: "held q (cancelClosed cfg q)" for q by (simp add: held_def cancelClosed_def dp_store_def)
  have e: "held q (enroll_step cfg w now q)" for q
    unfolding enroll_step_def Enrollment_Run_def by (rule held_store, rule fold_table, rule enroll_one_table)
  have g: "held q (triage_pass cfg w now q)" for q
    using triage_table [of "dc_Model cfg" "w_getIssue w" "w_classify w" now "\<lparr>sz_store = dp_store q, sz_failures = dp_failures q\<rparr>"]
    by (simp add: triage_pass_def held_def with_store_def dp_store_def Let_def)
  have m: "held q (comment_step cfg w q)" for q
    using commenter_table [of "dc_Label cfg" "w_post w" "w_written w" "\<lparr>ob_store = dp_store q, ob_github = dp_github q\<rparr>"]
    by (simp add: comment_step_def held_def with_store_def dp_store_def Let_def)
  define p5 where "p5 = comment_step cfg w (triage_pass cfg w now (enroll_step cfg w now (cancelClosed cfg (translate_step cfg w now p))))"
  have h: "held p p5" unfolding p5_def
    by (rule held_trans [OF held_trans [OF held_trans [OF held_trans [OF t c] e] g] m])
  then have "OpenRepairs (st_bumps (dm_store (dp_daemon p5))) = OpenRepairs (st_bumps (dp_store p))"
    by (simp add: held_open flip: dp_store_def)
  then have "Scheduler_Run (dc_Sched cfg) (w_getIssue w) now (dp_daemon p5) = dp_daemon p5"
    using assms(2) by (simp add: Scheduler_Run_def freeSlots_def)
  then have "Dispatcher_Sweep cfg w now p = p5\<lparr>dp_daemon := dp_daemon p5\<rparr>"
    using assms(1) by (simp add: Dispatcher_Sweep_def Let_def on_daemon_def p5_def)
  with h show ?thesis by (simp add: held_def dp_store_def)
qed

lemma recovery_held: "held p (on_daemon (Recovery_Run now) p)"
proof -
  have "rounds_table (dm_store (fold (Recovery_one now) as d)) = rounds_table (dm_store d) \<and>
      dm_running (fold (Recovery_one now) as d) = dm_running d" for as d
    by (induction as arbitrary: d) (auto simp: Recovery_one_def with_cases_def rounds_table_def split: sum.splits)
  then show ?thesis by (simp add: held_def on_daemon_def dp_store_def Recovery_Run_def)
qed


text \<open>A daemon that went down during its only repair round, started again with upkeep off.\<close>

definition issues_only :: Config where
  "issues_only = demo_file\<lparr>cf_Upkeep := (cf_Upkeep Default)\<lparr>uc_Enabled := False\<rparr>,
     cf_Sandbox := (cf_Sandbox Default)\<lparr>sx_Concurrency := 1\<rparr>\<rparr>"

definition left_round :: Dispatcher where
  "left_round = with_store ((dp_store demo_dispatcher)\<lparr>st_bumps := (st_bumps (dp_store demo_dispatcher))\<lparr>bd_bumps :=
     [\<lparr>bs_ID = ''b1'', bs_Repository = ''o/r'', bs_Number = 7, bs_Branch = ''dependabot/x'', bs_BaseBranch = ''main'',
       bs_HeadSha = demo_sha, bs_State = Repairing, bs_OpenedAt = 0, bs_Verdicts = [], bs_Attempts = [demo_round],
       bs_Transitions = [], bs_Abandonment = None, bs_Closure = None\<rparr>]\<rparr>\<rparr>) demo_dispatcher"


end
