(* ===== verification/OperatorApi.thy ===== *)
theory OperatorApi
  imports Repairer GitHubClient
begin

section \<open>The operator's API and the webhook\<close>

text \<open>
  \<^verbatim>\<open>internal/api\<close> (the handlers that change something, and the guard of the token mint) and
  \<^verbatim>\<open>internal/github/webhook.go\<close>. A handler takes the path's values and answers a status and, where
  it succeeds, the state it reports; the bodies are in \<^verbatim>\<open>ApiBodies\<close> and
  the routing table in \<^verbatim>\<open>ApiRoutes\<close>. Logging is left out. What GitHub answers for an issue
  and what the client library makes of a signed payload are parameters.
\<close>

subsection \<open>Errors\<close>

datatype apierr =
    ApiStore serr
  | ApiDomain derr
  | ApiIssueNotFound
  | errInvalidRequest
  | errForbidden
  | errUpstream
  | ApiOther

definition writeErr :: "apierr \<Rightarrow> int" where
  "writeErr err =
     (if err \<in> {ApiStore ErrNotFound, ApiIssueNotFound} then 404
      else if err = ApiStore ErrConflict then 409
      else (case err of
          ApiStore (Domain e) \<Rightarrow> if is_refused e then 409 else 400
        | ApiDomain e \<Rightarrow> if is_refused e then 409 else 400
        | errForbidden \<Rightarrow> 403
        | errInvalidRequest \<Rightarrow> 400
        | errUpstream \<Rightarrow> 502
        | _ \<Rightarrow> 500))"

subsection \<open>The state behind the handlers\<close>

record Api =
  pi_store :: Store
  pi_running :: Registry
  pi_rounds :: "RepairRegistry option"
  pi_sweeps :: nat

record ApiEnv =
  ae_getIssue :: "string \<Rightarrow> int \<Rightarrow> issue_err + IssueDetail \<times> Requester"
  ae_OperatorLogin :: string
  ae_now :: Time

definition api_with_store :: "Store \<Rightarrow> Api \<Rightarrow> Api" where
  "api_with_store st p = p\<lparr>pi_store := st\<rparr>"

definition caseKey :: "string \<Rightarrow> string \<Rightarrow> string \<Rightarrow> apierr + string \<times> int" where
  "caseKey owner repo number =
     (case Atoi number of None \<Rightarrow> Inl errInvalidRequest
      | Some n \<Rightarrow> if n < 1 then Inl errInvalidRequest else Inr (owner @ ''/'' @ repo, n))"

subsection \<open>Cases\<close>

text \<open>The case is created from GitHub when it does not exist yet; a lost race to create it is no error.\<close>

definition run_create :: "ApiEnv \<Rightarrow> string \<Rightarrow> int \<Rightarrow> Store \<Rightarrow> apierr + Store" where
  "run_create env repo n st =
     (case GetCase repo n (st_cases st) of
        Inr _ \<Rightarrow> Inr st
      | Inl err \<Rightarrow>
          if err \<noteq> ErrNotFound then Inl (ApiStore err)
          else (case ae_getIssue env repo n of
              Inl IssueNotFound \<Rightarrow> Inl ApiIssueNotFound
            | Inl _ \<Rightarrow> Inl errUpstream
            | Inr (detail, requester) \<Rightarrow>
                if \<not> is_Open detail then Inl (ApiDomain (Refused ''issue is closed on GitHub''))
                else (case NewCase repo n requester (ae_now env) of Inl e \<Rightarrow> Inl (ApiDomain e)
                  | Inr c \<Rightarrow>
                      (case CreateCase c (st_cases st) of
                         Inr (db, _) \<Rightarrow> Inr (st\<lparr>st_cases := db\<rparr>)
                       | Inl err \<Rightarrow> if err = ErrConflict then Inr st else Inl (ApiStore err)))))"

definition run_approval :: "Requester \<Rightarrow> Time \<Rightarrow> Approval" where
  "run_approval approver now = \<lparr>ap_ID = '''', ap_Approver = approver, ap_Source = SourceOperator,
     ap_ApprovedAt = now, ap_DeliveryID = ''''\<rparr>"

definition run_approve :: "Requester \<Rightarrow> Time \<Rightarrow> Case \<Rightarrow> Case \<times> derr option" where
  "run_approve approver now c =
     (if cs_state c \<in> {Queued, Attempting, Done, Closed} then (c, Some (Refused ''run in state %s''))
      else Case_RecordApproval c (run_approval approver now))"

definition api_run :: "ApiEnv \<Rightarrow> string \<Rightarrow> string \<Rightarrow> string \<Rightarrow> Api \<Rightarrow> Api \<times> (apierr + CaseState)" where
  "api_run env owner name number p =
     (case caseKey owner name number of Inl e \<Rightarrow> (p, Inl e)
      | Inr (repo, n) \<Rightarrow>
        (case GetRepository repo (pi_store p) of Inl e \<Rightarrow> (p, Inl (ApiStore e))
         | Inr repository \<Rightarrow>
           if \<not> Enrolled repository
           then (p, Inl (ApiDomain (Refused ''repository removed from the installation'')))
           else (case run_create env repo n (pi_store p) of Inl e \<Rightarrow> (p, Inl e)
             | Inr st \<Rightarrow>
               (case NewRequester (ae_OperatorLogin env) AssociationOwner of
                  Inl e \<Rightarrow> (api_with_store st p, Inl (ApiDomain e))
                | Inr approver \<Rightarrow>
                  (case UpdateCase repo n (run_approve approver (ae_now env)) (st_cases st) of
                     Inl e \<Rightarrow> (api_with_store st p, Inl (ApiStore e))
                   | Inr (db, c) \<Rightarrow>
                       ((api_with_store (st\<lparr>st_cases := db\<rparr>) p)\<lparr>pi_sweeps := Suc (pi_sweeps p)\<rparr>, Inr (cs_state c)))))))"

definition api_stop :: "string \<Rightarrow> Api \<Rightarrow> Api \<times> (apierr + Case)" where
  "api_stop i p =
     (case GetCaseByAttempt i (st_cases (pi_store p)) of Inl e \<Rightarrow> (p, Inl (ApiStore e))
      | Inr c \<Rightarrow>
        (case Case_OpenAttempt c of None \<Rightarrow> (p, Inl (ApiDomain (Refused ''attempt %s is not open'')))
         | Some a \<Rightarrow>
           if at_ID a \<noteq> i then (p, Inl (ApiDomain (Refused ''attempt %s is not open'')))
           else (case Runner_Stop i (pi_running p) of
               (g, True) \<Rightarrow> (p\<lparr>pi_running := g\<rparr>, Inr c)
             | (_, False) \<Rightarrow> (p, Inl (ApiDomain (Refused ''attempt %s is not running in this daemon''))))))"

subsection \<open>Bumps\<close>

definition api_retryBump :: "ApiEnv \<Rightarrow> string \<Rightarrow> string \<Rightarrow> string \<Rightarrow> Api \<Rightarrow> Api \<times> (apierr + BumpState)" where
  "api_retryBump env owner name number p =
     (case caseKey owner name number of Inl e \<Rightarrow> (p, Inl e)
      | Inr (repo, n) \<Rightarrow>
        (case UpdateBump repo n (\<lambda>b. Bump_Retry b (ae_now env)) (st_bumps (pi_store p)) of
           Inl e \<Rightarrow> (p, Inl (ApiStore e))
         | Inr (db, b) \<Rightarrow>
             ((api_with_store ((pi_store p)\<lparr>st_bumps := db\<rparr>) p)\<lparr>pi_sweeps := Suc (pi_sweeps p)\<rparr>, Inr (bp_state b))))"

definition api_stopRepair :: "string \<Rightarrow> Api \<Rightarrow> Api \<times> (apierr + Bump)" where
  "api_stopRepair i p =
     (case GetBumpByRepair i (st_bumps (pi_store p)) of Inl e \<Rightarrow> (p, Inl (ApiStore e))
      | Inr b \<Rightarrow>
        (case Bump_OpenRepair b of None \<Rightarrow> (p, Inl (ApiDomain (Refused ''repair round %s is not open'')))
         | Some a \<Rightarrow>
           if ra_ID a \<noteq> i then (p, Inl (ApiDomain (Refused ''repair round %s is not open'')))
           else (case map_option (Repairer_Stop i) (pi_rounds p) of
               Some (g, True) \<Rightarrow> (p\<lparr>pi_rounds := Some g\<rparr>, Inr b)
             | _ \<Rightarrow> (p, Inl (ApiDomain (Refused ''repair round %s is not running in this daemon''))))))"

subsection \<open>Watches\<close>

definition put_watch :: "string \<Rightarrow> Time \<Rightarrow> Store \<Rightarrow> apierr + Store" where
  "put_watch repo now st =
     (case NewWatch repo now of Inl e \<Rightarrow> Inl (ApiDomain e)
      | Inr w \<Rightarrow>
        (case WatchRepository (map rp_FullName (st_repos st)) w (st_bumps st) of Inl e \<Rightarrow> Inl (ApiStore e)
         | Inr db \<Rightarrow> Inr (st\<lparr>st_bumps := db\<rparr>)))"

definition api_watch :: "ApiEnv \<Rightarrow> string \<Rightarrow> string \<Rightarrow> Api \<Rightarrow> Api \<times> (apierr + unit)" where
  "api_watch env owner name p =
     (let repo = owner @ ''/'' @ name in
      case GetRepository repo (pi_store p) of Inl e \<Rightarrow> (p, Inl (ApiStore e))
      | Inr repository \<Rightarrow>
        if \<not> Enrolled repository then (p, Inl (ApiStore ErrNotFound))
        else (case put_watch repo (ae_now env) (pi_store p) of Inl e \<Rightarrow> (p, Inl e)
          | Inr st \<Rightarrow> (api_with_store st p, Inr ())))"

text \<open>A failure leaves the watches that were written before it.\<close>

fun watch_each :: "Time \<Rightarrow> string list \<Rightarrow> Store \<Rightarrow> Store \<times> (apierr + unit)" where
  "watch_each now [] st = (st, Inr ())"
| "watch_each now (repo # repos) st =
     (case put_watch repo now st of Inl e \<Rightarrow> (st, Inl e) | Inr st' \<Rightarrow> watch_each now repos st')"

definition api_watchAll :: "ApiEnv \<Rightarrow> Api \<Rightarrow> Api \<times> (apierr + unit)" where
  "api_watchAll env p =
     (case watch_each (ae_now env) (EnrolledRepositories (pi_store p)) (pi_store p) of
        (st, r) \<Rightarrow> (api_with_store st p, r))"

definition api_unwatch :: "string \<Rightarrow> string \<Rightarrow> Api \<Rightarrow> Api \<times> (apierr + unit)" where
  "api_unwatch owner name p =
     (api_with_store ((pi_store p)\<lparr>st_bumps := UnwatchRepository (owner @ ''/'' @ name) (st_bumps (pi_store p))\<rparr>) p, Inr ())"

subsection \<open>Authentication\<close>

text \<open>
  \<^verbatim>\<open>auth.go\<close>: the file holds the hash of the one token; reading it fails, or finds no file
  (\<open>Inr None\<close>). \<open>hash\<close> is the encoded SHA-256. The mint's guard takes whether the caller's
  address is a loopback one and the request's headers.
\<close>

definition Auth_Validate :: "(string \<Rightarrow> string) \<Rightarrow> string + string option \<Rightarrow> string \<Rightarrow> string + bool" where
  "Auth_Validate hash stored token =
     (case stored of Inl e \<Rightarrow> Inl e | Inr None \<Rightarrow> Inr False | Inr (Some h) \<Rightarrow> Inr (h = hash token))"

definition Auth_Middleware :: "(string \<Rightarrow> string) \<Rightarrow> string + string option \<Rightarrow> string \<Rightarrow> 'a \<Rightarrow> int + 'a" where
  "Auth_Middleware hash stored authorization next' =
     (case Auth_Validate hash stored (TrimPrefix authorization ''Bearer '') of
        Inl _ \<Rightarrow> Inl 500 | Inr ok \<Rightarrow> if ok then Inr next' else Inl 401)"

text \<open>
  Minting: the random token, or its error; the error of making the directory; and what writing
  the file leaves in it when it fails, with the error.
\<close>

record MintEnv =
  me_token :: "string + string"
  me_mkdir :: "string option"
  me_write :: "((string + string option) \<times> string) option"

definition Auth_Mint ::
    "(string \<Rightarrow> string) \<Rightarrow> MintEnv \<Rightarrow> string + string option \<Rightarrow> (string + string option) \<times> (string + string)" where
  "Auth_Mint hash env stored =
     (case me_token env of Inl e \<Rightarrow> (stored, Inl e)
      | Inr token \<Rightarrow>
        (case me_mkdir env of Some e \<Rightarrow> (stored, Inl e)
         | None \<Rightarrow>
           (case me_write env of Some (left, e) \<Rightarrow> (left, Inl e)
            | None \<Rightarrow> (Inr (Some (hash token)), Inr token))))"

definition proxyHeaders :: "string list" where
  "proxyHeaders = [''Tailscale-Funnel-Request'', ''Tailscale-User-Login'', ''X-Forwarded-For'']"

definition api_mint ::
    "(string \<Rightarrow> string) \<Rightarrow> bool \<Rightarrow> (string \<Rightarrow> string) \<Rightarrow> MintEnv \<Rightarrow> string + string option \<Rightarrow>
     (string + string option) \<times> (apierr + string)" where
  "api_mint hash loopback header env stored =
     (if \<not> loopback then (stored, Inl errForbidden)
      else if list_ex (\<lambda>h. header h \<noteq> '''') proxyHeaders then (stored, Inl errForbidden)
      else case Auth_Mint hash env stored of
             (stored', Inl _) \<Rightarrow> (stored', Inl ApiOther)
           | (stored', Inr token) \<Rightarrow> (stored', Inr token))"

subsection \<open>The webhook\<close>

text \<open>
  \<open>wr_payload\<close> is what the library's validation of body and signature answers: the payload, or
  whether the body was too big. The action and the sender are read from it by the JSON library.
\<close>

record WebhookRequest =
  wr_MediaType :: "string option"
  wr_Signature256 :: string
  wr_payload :: "bool + string"
  wr_Event :: string
  wr_DeliveryID :: string
  wr_Action :: string
  wr_Sender :: string

definition WebhookHandler :: "Time \<Rightarrow> WebhookRequest \<Rightarrow> Store \<Rightarrow> Store \<times> int \<times> bool" where
  "WebhookHandler now r st =
     (if wr_MediaType r \<noteq> Some ''application/json'' then (st, 400, False)
      else if wr_Signature256 r = '''' then (st, 401, False)
      else (case wr_payload r of
          Inl tooBig \<Rightarrow> (st, if tooBig then 400 else 401, False)
        | Inr payload \<Rightarrow>
            if wr_Event r = '''' \<or> wr_DeliveryID r = '''' then (st, 400, False)
            else (case StoreDelivery \<lparr>dl_ID = wr_DeliveryID r, dl_Event = wr_Event r, dl_Action = wr_Action r,
                    dl_SenderLogin = wr_Sender r, dl_Payload = payload, dl_ReceivedAt = now\<rparr> st of
                Inl _ \<Rightarrow> (st, 500, False)
              | Inr (st', dup) \<Rightarrow> (st', 202, dup))))"

end
