(* ===== verification/ApiBodies.thy ===== *)
theory ApiBodies
  imports Listings AgentRun
begin

section \<open>What the API shows\<close>

text \<open>
  The JSON of \<^verbatim>\<open>internal/api/cases.go\<close> and \<^verbatim>\<open>bumps.go\<close>. A \<^verbatim>\<open>map[string]any\<close> is the list of its
  entries, a later write appended. How a duration is printed and the whole seconds its
  \<^verbatim>\<open>Seconds()\<close> gives (a float, cut) are the arguments \<open>dur\<close> and \<open>secs\<close>.
\<close>

datatype json =
    JStr string
  | JInt int
  | JTime Time
  | JNull
  | JBool bool
  | JList "json list"
  | JObj "(string \<times> json) list"

definition field :: "string \<Rightarrow> json \<Rightarrow> json option" where
  "field k j = (case j of JObj es \<Rightarrow> map_of (rev es) k | _ \<Rightarrow> None)"

definition put_field :: "string \<Rightarrow> json \<Rightarrow> json \<Rightarrow> json" where
  "put_field k v j = (case j of JObj es \<Rightarrow> JObj (es @ [(k, v)]) | _ \<Rightarrow> j)"

definition run_json :: "Run \<Rightarrow> json" where
  "run_json r = JObj [(''run_id'', JStr (rn_RunID r)), (''model'', JStr (rn_Model r)),
     (''base_sha'', JStr (rn_BaseSha r)), (''began_at'', JTime (rn_BeganAt r))]"

subsection \<open>Cases\<close>

definition outcomeJSON :: "(Duration \<Rightarrow> string) \<Rightarrow> Outcome \<Rightarrow> json" where
  "outcomeJSON dur ou =
     JObj ([(''kind'', JStr (OutcomeKind_string (oc_Kind ou))), (''ended_at'', JTime (oc_EndedAt ou)),
        (''summary'', JStr (oc_Summary ou)),
        (''usage'', JObj [(''turns'', JInt (us_Turns (oc_Usage ou))), (''input_tokens'', JInt (us_InputTokens (oc_Usage ou))),
           (''output_tokens'', JInt (us_OutputTokens (oc_Usage ou))), (''wall_clock'', JStr (dur (us_WallClock (oc_Usage ou)))),
           (''diff_lines'', JInt (us_DiffLines (oc_Usage ou)))])] @
       (if oc_Kind ou = PullRequestOpened then [(''pr_number'', JInt (oc_PRNumber ou)), (''head_sha'', JStr (oc_HeadSha ou))]
        else if oc_Kind ou = BudgetExhausted then [(''limit'', JStr (Limit_string (oc_Limit ou)))]
        else if oc_Kind ou = FailedOutcome
          then [(''class'', JStr (FailureClass_string (oc_Class ou))), (''message'', JStr (oc_Message ou))]
        else if oc_Kind ou = Aborted then [(''reason'', JStr (AbortReason_string (oc_Reason ou)))]
        else []))"

definition attemptJSON :: "(Duration \<Rightarrow> string) \<Rightarrow> Attempt \<Rightarrow> json" where
  "attemptJSON dur a =
     JObj ([(''id'', JStr (at_ID a)), (''ordinal'', JInt (int (at_Ordinal a))), (''kind'', JStr (AttemptKind_string (at_Kind a))),
        (''started_at'', JTime (at_StartedAt a)), (''brief'', JStr (at_Brief a)),
        (''budget'', JObj [(''turns'', JInt (bg_maxTurns (at_Budget a))),
           (''wall_clock'', JStr (dur (bg_maxWallClock (at_Budget a)))), (''diff_lines'', JInt (bg_maxDiffLines (at_Budget a)))])] @
       (case at_Run a of None \<Rightarrow> [] | Some r \<Rightarrow> [(''run'', run_json r)]) @
       (case at_Outcome a of None \<Rightarrow> [] | Some ou \<Rightarrow> [(''outcome'', outcomeJSON dur ou)]))"

definition caseJSON :: "(Duration \<Rightarrow> string) \<Rightarrow> Case \<Rightarrow> json" where
  "caseJSON dur c =
     JObj ([(''id'', JStr (cs_id c)), (''repository'', JStr (cs_repository c)), (''number'', JInt (cs_number c)),
        (''state'', JStr (CaseState_string (cs_state c))), (''branch'', JStr (Case_Branch c)),
        (''requester'', JObj [(''login'', JStr (rq_Login (cs_requester c))),
           (''association'', JStr (Association_string (rq_Association (cs_requester c)))),
           (''trust'', JStr (Trust_string (rq_Trust (cs_requester c))))]),
        (''received_at'', JTime (cs_receivedAt c)),
        (''approvals'', JList (map (\<lambda>a. JObj [(''approver'', JStr (rq_Login (ap_Approver a))),
           (''association'', JStr (Association_string (rq_Association (ap_Approver a)))),
           (''source'', JStr (ApprovalSource_string (ap_Source a))), (''approved_at'', JTime (ap_ApprovedAt a)),
           (''delivery_id'', JStr (ap_DeliveryID a))]) (cs_approvals c))),
        (''attempts'', JList (map (attemptJSON dur) (cs_attempts c))),
        (''transitions'', JList (map (\<lambda>t. JObj [(''from'', JStr (CaseState_string (tr_From t))),
           (''to'', JStr (CaseState_string (tr_To t))), (''cause'', JStr (TransitionCause_string (tr_Cause t))),
           (''occurred_at'', JTime (tr_OccurredAt t))]) (cs_transitions c)))] @
       (case cs_triage c of None \<Rightarrow> []
        | Some t \<Rightarrow> [(''triage'', JObj [(''size'', JStr (Size_string (tg_Size t))), (''rationale'', JStr (tg_Rationale t)),
            (''model'', JStr (tg_Model t)), (''triaged_at'', JTime (tg_TriagedAt t))])]) @
       (case cs_closure c of None \<Rightarrow> []
        | Some cl \<Rightarrow> [(''closure'', JObj [(''closed_at'', JTime (cl_ClosedAt cl)), (''delivery_id'', JStr (cl_DeliveryID cl))])]))"

subsection \<open>Bumps\<close>

definition repair_outcomeJSON :: "(Duration \<Rightarrow> int) \<Rightarrow> RepairOutcome \<Rightarrow> json" where
  "repair_outcomeJSON secs ou =
     JObj ([(''kind'', JStr (RepairOutcomeKind_string (ro_Kind ou))), (''summary'', JStr (ro_Summary ou)),
        (''ended_at'', JTime (ro_EndedAt ou)),
        (''usage'', JObj [(''turns'', JInt (us_Turns (ro_Usage ou))), (''input_tokens'', JInt (us_InputTokens (ro_Usage ou))),
           (''output_tokens'', JInt (us_OutputTokens (ro_Usage ou))), (''wall_clock_s'', JInt (secs (us_WallClock (ro_Usage ou)))),
           (''diff_lines'', JInt (us_DiffLines (ro_Usage ou)))])] @
       (if ro_Kind ou = Pushed then [(''head_sha'', JStr (ro_HeadSha ou))]
        else if ro_Kind ou = RepairBudgetExhausted then [(''limit'', JStr (Limit_string (ro_Limit ou)))]
        else if ro_Kind ou = RepairFailed
          then [(''class'', JStr (FailureClass_string (ro_Class ou))), (''message'', JStr (ro_Message ou))]
        else if ro_Kind ou = RepairAborted then [(''reason'', JStr (RepairAbortReason_string (ro_Reason ou)))]
        else []))"

definition roundJSON :: "(Duration \<Rightarrow> int) \<Rightarrow> RepairAttempt \<Rightarrow> json" where
  "roundJSON secs a =
     JObj ([(''repair_id'', JStr (ra_ID a)), (''round'', JInt (int (ra_Round a))), (''base_sha'', JStr (ra_BaseSha a)),
        (''brief'', JStr (ra_Brief a)), (''started_at'', JTime (ra_StartedAt a)),
        (''budget'', JObj [(''max_turns'', JInt (bg_maxTurns (ra_Budget a))),
           (''max_wall_clock_s'', JInt (secs (bg_maxWallClock (ra_Budget a)))),
           (''max_diff_lines'', JInt (bg_maxDiffLines (ra_Budget a)))])] @
       (case ra_Run a of None \<Rightarrow> [] | Some r \<Rightarrow> [(''run'', run_json r)]) @
       (case ra_Outcome a of None \<Rightarrow> [] | Some ou \<Rightarrow> [(''outcome'', repair_outcomeJSON secs ou)]))"

definition bumpJSON :: "(Duration \<Rightarrow> int) \<Rightarrow> Bump \<Rightarrow> json" where
  "bumpJSON secs b =
     JObj ([(''repository'', JStr (bp_repository b)), (''number'', JInt (bp_number b)), (''branch'', JStr (bp_branch b)),
        (''base_branch'', JStr (bp_baseBranch b)), (''head_sha'', JStr (bp_headSha b)),
        (''state'', JStr (BumpState_string (bp_state b))), (''opened_at'', JTime (bp_openedAt b)),
        (''verdicts'', JList (map (\<lambda>v. JObj [(''head_sha'', JStr (cv_HeadSha v)),
           (''conclusion'', JStr (CheckConclusion_string (cv_Conclusion v))), (''failing_contexts'', JStr (cv_FailingContexts v)),
           (''details_url'', JStr (cv_DetailsURL v)), (''concluded_at'', JTime (cv_ConcludedAt v))]) (bp_verdicts b))),
        (''rounds'', JList (map (roundJSON secs) (bp_attempts b))),
        (''transitions'', JList (map (\<lambda>t. JObj [(''from'', JStr (BumpState_string (bt_From t))),
           (''to'', JStr (BumpState_string (bt_To t))), (''cause'', JStr (BumpTransitionCause_string (bt_Cause t))),
           (''occurred_at'', JTime (bt_OccurredAt t))]) (bp_transitions b)))] @
       (case bp_abandonment b of None \<Rightarrow> []
        | Some a \<Rightarrow> [(''abandonment'', JObj [(''reason'', JStr (AbandonReason_string (ab_Reason a))),
            (''detail'', JStr (ab_Detail a)), (''abandoned_at'', JTime (ab_AbandonedAt a))])]) @
       (case bp_closure b of None \<Rightarrow> []
        | Some c \<Rightarrow> [(''closure'', JObj [(''kind'', JStr (ClosureKind_string (bc_Kind c))),
            (''delivery_id'', JStr (bc_DeliveryID c)), (''closed_at'', JTime (bc_ClosedAt c))])]))"

definition repairJSON :: "(Duration \<Rightarrow> int) \<Rightarrow> Bump \<Rightarrow> RepairAttempt \<Rightarrow> json" where
  "repairJSON secs b a =
     put_field ''bump'' (JObj [(''repository'', JStr (bp_repository b)), (''number'', JInt (bp_number b)),
       (''state'', JStr (BumpState_string (bp_state b)))]) (roundJSON secs a)"

subsection \<open>Status\<close>

text \<open>Counts are shown for the labels of the vocabulary, the only ones the tables hold; \<open>now\<close> is read once.\<close>

definition counts_json :: "string list \<Rightarrow> (string \<rightharpoonup> nat) \<Rightarrow> json" where
  "counts_json labels m = JObj (concat (map (\<lambda>l. case m l of None \<Rightarrow> [] | Some n \<Rightarrow> [(l, JInt (int n))]) labels))"

definition upkeepStatus :: "Store \<Rightarrow> (string \<times> json) list" where
  "upkeepStatus st =
     [(''bumps_by_state'', counts_json (map BumpState_string AllBumpStates) (CountBumpsByState st)),
      (''repairing'', JList (map (\<lambda>r. JObj [(''repair_id'', JStr (or_ID r)), (''repository'', JStr (or_Repository r)),
         (''number'', JInt (or_Number r)), (''round'', JInt (int (or_Round r)))]) (OpenRepairs (st_bumps st)))),
      (''repair_queue_depth'', JInt (int (length (QueuedBumps (st_bumps st))))),
      (''watched_repositories'', JInt (int (length (WatchedRepositories (st_bumps st)))))]"

definition api_status :: "(Duration \<Rightarrow> int) \<Rightarrow> string \<Rightarrow> Time \<Rightarrow> int \<Rightarrow> Time \<Rightarrow> Store \<Rightarrow> json" where
  "api_status secs version startedAt concurrency now st =
     JObj ([(''version'', JStr version), (''uptime_s'', JInt (secs (Time_Sub now startedAt))),
        (''cases_by_state'', counts_json (map CaseState_string AllCaseStates) (CountByState st)),
        (''attempting'', JList (map (\<lambda>a. JObj [(''attempt_id'', JStr (oa_AttemptID a)), (''repository'', JStr (oa_Repository a)),
           (''number'', JInt (oa_Number a)), (''ordinal'', JInt (int (oa_Ordinal a))),
           (''elapsed_s'', JInt (secs (Time_Sub now (oa_StartedAt a))))]) (OpenAttempts st))),
        (''queue_depth'', JInt (int (length (QueuedCases st)))), (''concurrency'', JInt concurrency),
        (''pending_deliveries'', JInt (int (length (UnprocessedDeliveries st)))),
        (''last_delivery_at'', (case LastDeliveryAt st of None \<Rightarrow> JNull | Some t \<Rightarrow> JTime t))] @
       upkeepStatus st)"

subsection \<open>What an outcome shows\<close>

definition displays :: "string \<Rightarrow> json \<Rightarrow> bool" where
  "displays k j = (field k j \<noteq> None)"

text \<open>An attempt that ran out of budget may have opened a pull request; the API does not show it.\<close>

lemma exhausted_pull_request_is_hidden:
  assumes "oc_Kind ou = BudgetExhausted"
  shows "\<not> displays ''pr_number'' (outcomeJSON dur ou) \<and> \<not> displays ''head_sha'' (outcomeJSON dur ou)"
  using assms by (simp add: displays_def field_def outcomeJSON_def)

text \<open>The variant's fields of a repair's outcome are shown exactly for their kind.\<close>

lemma repair_outcome_shows_its_kind:
  "displays ''head_sha'' (repair_outcomeJSON secs ou) \<longleftrightarrow> ro_Kind ou = Pushed"
  "displays ''limit'' (repair_outcomeJSON secs ou) \<longleftrightarrow> ro_Kind ou = RepairBudgetExhausted"
  "displays ''message'' (repair_outcomeJSON secs ou) \<longleftrightarrow> ro_Kind ou = RepairFailed"
  "displays ''reason'' (repair_outcomeJSON secs ou) \<longleftrightarrow> ro_Kind ou = RepairAborted"
  by (cases "ro_Kind ou"; simp add: displays_def field_def repair_outcomeJSON_def)+

end
