(* ===== verification/ListingsInv.thy ===== *)
theory ListingsInv
  imports Listings "HOL-Library.Multiset"
begin

section \<open>What the listings show\<close>

text \<open>
  A page is a segment of the wanted rows in the listing's order, and the cursor it ends with names
  where the next begins; so following the cursors visits every row once.
\<close>

subsection \<open>Following the cursors\<close>

text \<open>A caller who asks again with the cursor of the page before, until none is given.\<close>

fun follow :: "nat \<Rightarrow> (string \<Rightarrow> lerr + 'r list \<times> string) \<Rightarrow> string \<Rightarrow> 'r list option" where
  "follow 0 ask after = None"
| "follow (Suc k) ask after =
     (case ask after of Inl _ \<Rightarrow> None
      | Inr (page, next) \<Rightarrow>
          if next = '''' then Some page
          else map_option (\<lambda>rest. page @ rest) (follow k ask next))"

definition cursor_lib_ok :: "CursorLib \<Rightarrow> bool" where
  "cursor_lib_ok lib = (\<forall>t. cl_parse lib (cl_format lib t) = Some t \<and> CHR ''|'' \<notin> set (cl_format lib t))"

lemma Cut_first: "c \<notin> set a \<Longrightarrow> Cut (a @ c # b) c = (a, b, True)"
  by (induction a) auto

lemma next_cursor_parses:
  "cursor_lib_ok lib \<Longrightarrow> cl_uuid lib (snd k) \<Longrightarrow> parse_after lib (next_cursor lib k) = Inr (Some k)"
  by (simp add: parse_after_def next_cursor_def cursor_lib_ok_def Cut_first)

lemma next_cursor_more: "next_cursor lib k \<noteq> ''''"
  by (simp add: next_cursor_def)

lemma page_limit_bounds: "0 < page_limit n \<and> page_limit n \<le> 500"
  by (auto simp: page_limit_def Let_def nat_le_iff)

lemma newest_first_filter: "newest_first key (filter P rows) = filter P (newest_first key rows)"
  by (simp add: newest_first_def filter_sort rev_filter [symmetric])

lemma mset_newest_first: "mset (newest_first key rows) = mset rows"
  by (simp add: newest_first_def)

lemma key_less_trans: "key_less a b \<Longrightarrow> key_less b c \<Longrightarrow> key_less a c"
  by (auto simp: key_less_def)

lemma key_less_irrefl: "\<not> key_less a a"
  by (simp add: key_less_def)

text \<open>A stable sort by the time of rows sorted by their distinct ids is sorted by both.\<close>

lemma insort_both:
  assumes "sorted_wrt (\<lambda>a b. g a < g b \<or> (g a = g b \<and> f a < f b)) ys" "\<forall>y \<in> set ys. f x < f y"
  shows "sorted_wrt (\<lambda>a b. g a < g b \<or> (g a = g b \<and> f a < f b)) (insort_key g x ys)"
  using assms
proof (induction ys)
  case (Cons y ys)
  show ?case
  proof (cases "g x \<le> g y")
    case True
    with Cons.prems show ?thesis by auto
  next
    case False
    with Cons show ?thesis by (auto simp: set_insort_key)
  qed
qed simp

lemma stable_second:
  fixes f :: "'r \<Rightarrow> string" and g :: "'r \<Rightarrow> Time"
  assumes "sorted (map f xs)" "distinct (map f xs)"
  shows "sorted_wrt (\<lambda>a b. g a < g b \<or> (g a = g b \<and> f a < f b)) (sort_key g xs)"
  using assms
proof (induction xs)
  case (Cons x xs)
  have "\<forall>y \<in> set (sort_key g xs). f x < f y" using Cons.prems by (force simp: order_less_le)
  with Cons show ?case by (auto intro: insort_both)
qed simp

lemma newest_first_sorted:
  assumes "distinct (map (\<lambda>r. snd (key r)) rows)"
  shows "sorted_wrt (\<lambda>a b. key_less (key b) (key a)) (newest_first key rows)"
proof -
  have "mset (sort_key (\<lambda>r. snd (key r)) rows) = mset rows" by simp
  then have "distinct (map (\<lambda>r. snd (key r)) (sort_key (\<lambda>r. snd (key r)) rows))"
    using assms by (metis mset_map mset_eq_imp_distinct_iff)
  from stable_second [OF _ this] show ?thesis
    unfolding newest_first_def sorted_wrt_rev by (simp add: key_less_def)
qed

text \<open>Below the key of a row of the sorted listing are exactly the rows after it.\<close>

lemma after_last:
  assumes "sorted_wrt (\<lambda>a b. key_less (key b) (key a)) (xs @ ys)" "xs \<noteq> []"
  shows "filter (\<lambda>r. key_less (key r) (key (last xs))) (xs @ ys) = ys"
proof -
  obtain zs x where x: "xs = zs @ [x]" using assms(2) by (cases xs rule: rev_cases) auto
  have "filter (\<lambda>r. key_less (key r) (key x)) zs = []"
    using assms(1) x by (auto simp: sorted_wrt_append filter_empty_conv dest: key_less_trans simp: key_less_irrefl)
  moreover have "filter (\<lambda>r. key_less (key r) (key x)) ys = ys"
    using assms(1) x by (auto simp: sorted_wrt_append filter_id_conv)
  ultimately show ?thesis by (simp add: x key_less_irrefl)
qed

text \<open>The listing is \<open>seen @ rest\<close>; the caller holds the cursor of the last row seen.\<close>

lemma page_of_rest:
  assumes "cursor_lib_ok lib" "distinct (map (\<lambda>r. snd (key r)) rows)" "\<forall>r \<in> set rows. cl_uuid lib (snd (key r))"
    "newest_first key (filter wanted rows) = seen @ rest"
    "after = (if seen = [] then '''' else next_cursor lib (key (last seen)))"
  shows "list_page lib key wanted limit after rows =
    (let n = page_limit limit in
     if n < length rest then Inr (take n rest, next_cursor lib (key (last (take n rest)))) else Inr (rest, ''''))"
proof -
  let ?all = "newest_first key (filter wanted rows)"
  have sorted: "sorted_wrt (\<lambda>a b. key_less (key b) (key a)) ?all"
    by (rule newest_first_sorted) (use assms(2) in \<open>simp add: distinct_map_filter\<close>)
  obtain cursor where c: "parse_after lib after = Inr cursor"
    "newest_first key (filter (\<lambda>r. wanted r \<and> (case cursor of None \<Rightarrow> True | Some c \<Rightarrow> key_less (key r) c)) rows) = rest"
  proof (cases "seen = []")
    case True
    with assms(4,5) have "parse_after lib after = Inr None" "?all = rest" by (simp_all add: parse_after_def)
    then show ?thesis by (intro that [of None]) simp_all
  next
    case False
    have "set seen \<subseteq> set rows" using assms(4) mset_newest_first [of key "filter wanted rows"]
      by (metis filter_is_subset le_sup_iff set_append set_mset_mset)
    with False assms(3) have "cl_uuid lib (snd (key (last seen)))" by (meson last_in_set subsetD)
    with False assms(1,5) have "parse_after lib after = Inr (Some (key (last seen)))" by (simp add: next_cursor_parses)
    moreover have "newest_first key (filter (\<lambda>r. wanted r \<and> key_less (key r) (key (last seen))) rows) =
        filter (\<lambda>r. key_less (key r) (key (last seen))) ?all"
      by (simp add: newest_first_filter conj_commute)
    ultimately show ?thesis using after_last [of key seen rest] sorted False assms(4)
      by (intro that [of "Some (key (last seen))"]) simp_all
  qed
  show ?thesis unfolding list_page_def c(1) sum.case c(2) by (auto simp: Let_def min_def)
qed

lemma follow_rest:
  assumes "cursor_lib_ok lib" "distinct (map (\<lambda>r. snd (key r)) rows)" "\<forall>r \<in> set rows. cl_uuid lib (snd (key r))"
    "newest_first key (filter wanted rows) = seen @ rest"
    "after = (if seen = [] then '''' else next_cursor lib (key (last seen)))" "length rest < k"
  shows "follow k (\<lambda>after. list_page lib key wanted limit after rows) after = Some rest"
  using assms(4-)
proof (induction k arbitrary: seen rest after)
  case (Suc k)
  let ?n = "page_limit limit"
  note page = page_of_rest [OF assms(1-3) Suc.prems(1,2), of limit]
  show ?case
  proof (cases "?n < length rest")
    case True
    have ne: "take ?n rest \<noteq> []" using page_limit_bounds [of limit] True by auto
    have "follow k (\<lambda>after. list_page lib key wanted limit after rows) (next_cursor lib (key (last (take ?n rest)))) =
        Some (drop ?n rest)"
      using Suc.prems(1,3) True ne page_limit_bounds [of limit]
      by (intro Suc.IH [of "seen @ take ?n rest"]) auto
    with True page next_cursor_more [of lib] show ?thesis by (simp add: Let_def)
  next
    case False
    with page show ?thesis by (simp add: Let_def)
  qed
qed simp

lemma follow_map:
  "follow k (\<lambda>after. map_sum id (map_prod (map f) id) (ask after)) after = map_option (map f) (follow k ask after)"
proof (induction k arbitrary: after)
  case (Suc k)
  then show ?case
    by (auto simp: Suc split: sum.splits prod.splits) (auto simp: option.map_comp comp_def)
qed simp

lemma page_size: "list_page lib key wanted limit after rows = Inr (page, next) \<Longrightarrow> length page \<le> page_limit limit"
  by (auto simp: list_page_def Let_def split: sum.splits if_splits)

lemma ListCases_page:
  "(\<lambda>after. ListCases lib (f\<lparr>lf_After := after\<rparr>) st) = (\<lambda>after. map_sum id (map_prod (map case_row) id)
     (list_page lib case_key (case_wanted f) (lf_Limit f) after (db_cases (st_cases st))))"
  by (simp add: ListCases_def case_wanted_def [abs_def])

lemma ListBumps_page:
  "(\<lambda>after. ListBumps lib (f\<lparr>lf_After := after\<rparr>) st) = (\<lambda>after. map_sum id (map_prod (map bump_row) id)
     (list_page lib bump_key (bump_wanted f) (lf_Limit f) after (bd_bumps (st_bumps st))))"
  by (simp add: ListBumps_def bump_wanted_def [abs_def])

text \<open>C32. An operator who follows the cursors of the listing of cases, or of bumps, with whatever filter
  and page size, sees every row the filter wants exactly once, newest first, rows of one instant
  in the order of their ids, and the walk ends; a page holds at most 500 rows. Asked of
  package \<^verbatim>\<open>time\<close>: a formatted time parses back and holds no bar.\<close>
theorem listings_show_every_row_once:
  assumes "cursor_lib_ok lib"
    and "distinct (map sn_ID (db_cases (st_cases st)))" "\<forall>s \<in> set (db_cases (st_cases st)). cl_uuid lib (sn_ID s)"
    and "distinct (map bs_ID (bd_bumps (st_bumps st)))" "\<forall>b \<in> set (bd_bumps (st_bumps st)). cl_uuid lib (bs_ID b)"
  shows "(\<exists>ss. follow (Suc (length (db_cases (st_cases st)))) (\<lambda>after. ListCases lib (f\<lparr>lf_After := after\<rparr>) st) '''' =
      Some (map case_row ss) \<and> mset ss = mset (filter (case_wanted f) (db_cases (st_cases st))) \<and>
      sorted_wrt (\<lambda>a b. key_less (case_key b) (case_key a)) ss) \<and>
    (\<exists>bs. follow (Suc (length (bd_bumps (st_bumps st)))) (\<lambda>after. ListBumps lib (f\<lparr>lf_After := after\<rparr>) st) '''' =
      Some (map bump_row bs) \<and> mset bs = mset (filter (bump_wanted f) (bd_bumps (st_bumps st))) \<and>
      sorted_wrt (\<lambda>a b. key_less (bump_key b) (bump_key a)) bs) \<and>
    (\<forall>rows next. ListCases lib f st = Inr (rows, next) \<longrightarrow> length rows \<le> 500) \<and>
    (\<forall>rows next. ListBumps lib f st = Inr (rows, next) \<longrightarrow> length rows \<le> 500)"
proof (intro conjI allI impI)
  let ?cs = "db_cases (st_cases st)" and ?bs = "bd_bumps (st_bumps st)"
  have lt: "length (newest_first key (filter P rows)) < Suc (length rows)" for key :: "'r \<Rightarrow> Time \<times> string" and P rows
    using mset_newest_first [of key "filter P rows"] by (metis length_filter_le less_Suc_eq_le size_mset)
  have "follow (Suc (length ?cs)) (\<lambda>after. list_page lib case_key (case_wanted f) (lf_Limit f) after ?cs) '''' =
      Some (newest_first case_key (filter (case_wanted f) ?cs))"
    by (rule follow_rest [OF assms(1), of _ _ _ "[]"]) (use assms(2,3) lt in \<open>simp_all add: case_key_def\<close>)
  moreover have "distinct (map (\<lambda>r. snd (case_key r)) (filter (case_wanted f) ?cs))"
    using assms(2) by (simp add: case_key_def distinct_map_filter)
  ultimately show "\<exists>ss. follow (Suc (length ?cs)) (\<lambda>after. ListCases lib (f\<lparr>lf_After := after\<rparr>) st) '''' =
      Some (map case_row ss) \<and> mset ss = mset (filter (case_wanted f) ?cs) \<and>
      sorted_wrt (\<lambda>a b. key_less (case_key b) (case_key a)) ss"
    unfolding ListCases_page follow_map
    by (intro exI [of _ "newest_first case_key (filter (case_wanted f) ?cs)"] conjI mset_newest_first newest_first_sorted) simp_all
  have "follow (Suc (length ?bs)) (\<lambda>after. list_page lib bump_key (bump_wanted f) (lf_Limit f) after ?bs) '''' =
      Some (newest_first bump_key (filter (bump_wanted f) ?bs))"
    by (rule follow_rest [OF assms(1), of _ _ _ "[]"]) (use assms(4,5) lt in \<open>simp_all add: bump_key_def\<close>)
  moreover have "distinct (map (\<lambda>r. snd (bump_key r)) (filter (bump_wanted f) ?bs))"
    using assms(4) by (simp add: bump_key_def distinct_map_filter)
  ultimately show "\<exists>bs. follow (Suc (length ?bs)) (\<lambda>after. ListBumps lib (f\<lparr>lf_After := after\<rparr>) st) '''' =
      Some (map bump_row bs) \<and> mset bs = mset (filter (bump_wanted f) ?bs) \<and>
      sorted_wrt (\<lambda>a b. key_less (bump_key b) (bump_key a)) bs"
    unfolding ListBumps_page follow_map
    by (intro exI [of _ "newest_first bump_key (filter (bump_wanted f) ?bs)"] conjI mset_newest_first newest_first_sorted) simp_all
next
  fix rows next' assume "ListCases lib f st = Inr (rows, next')"
  then obtain page where "list_page lib case_key (case_wanted f) (lf_Limit f) (lf_After f) (db_cases (st_cases st)) = Inr (page, next')"
    "rows = map case_row page" by (auto simp: ListCases_def map_sum_def split: sum.splits)
  with page_size page_limit_bounds [of "lf_Limit f"] show "length rows \<le> 500" by fastforce
next
  fix rows next' assume "ListBumps lib f st = Inr (rows, next')"
  then obtain page where "list_page lib bump_key (bump_wanted f) (lf_Limit f) (lf_After f) (bd_bumps (st_bumps st)) = Inr (page, next')"
    "rows = map bump_row page" by (auto simp: ListBumps_def map_sum_def split: sum.splits)
  with page_size page_limit_bounds [of "lf_Limit f"] show "length rows \<le> 500" by fastforce
qed

subsection \<open>A store of three cases of one instant, in pages of one\<close>

definition unary :: CursorLib where
  "unary = \<lparr>cl_format = (\<lambda>t. replicate (nat \<bar>t\<bar>) (if t < 0 then CHR ''-'' else CHR ''+'')),
     cl_parse = (\<lambda>s. Some (if CHR ''-'' \<in> set s then - int (length s) else int (length s))),
     cl_uuid = (\<lambda>i. i \<noteq> '''')\<rparr>"

definition listed_case :: "string \<Rightarrow> int \<Rightarrow> Snapshot" where
  "listed_case i n = \<lparr>sn_ID = i, sn_Repository = ''o/r'', sn_Number = n,
     sn_Requester = \<lparr>rq_Login = ''me'', rq_Association = AssociationOwner, rq_Trust = Trusted\<rparr>,
     sn_State = Received, sn_ReceivedAt = 4, sn_Triage = None, sn_Approvals = [], sn_Attempts = [],
     sn_Transitions = [], sn_Closure = None\<rparr>"

definition listed_store :: Store where
  "listed_store = \<lparr>st_cases = \<lparr>db_cases = [listed_case ''b'' 7, listed_case ''c'' 8, listed_case ''a'' 9],
       db_approval_deliveries = [], db_closure_deliveries = [], db_run_ids = [], db_webhooks = [], db_fresh = 0\<rparr>,
     st_bumps = \<lparr>bd_bumps = [], bd_watches = [], bd_closure_deliveries = [], bd_run_ids = [], bd_webhooks = [], bd_fresh = 0\<rparr>,
     st_repos = [], st_labels = [], st_deliveries = [], st_processed = [], st_triage_comments = [], st_outcome_comments = [],
     st_comments = [], st_posted = []\<rparr>"

lemma unary_ok: "cursor_lib_ok unary"
  by (auto simp: cursor_lib_ok_def unary_def)

theorem listings_show_every_row_once_witness:
  "map_option (map cr_Number) (follow 4 (\<lambda>after. ListCases unary
     \<lparr>lf_State = ''received'', lf_Repository = '''', lf_Limit = 1, lf_After = after\<rparr> listed_store) '''') = Some [8, 7, 9] \<and>
   (\<exists>ss. map sn_Number ss = [8, 7, 9] \<and> mset ss = mset (db_cases (st_cases listed_store)))"
proof -
  let ?f = "\<lparr>lf_State = ''received'', lf_Repository = '''', lf_Limit = 1, lf_After = ''''\<rparr>"
  have run: "map_option (map cr_Number) (follow 4 (\<lambda>after. ListCases unary
     \<lparr>lf_State = ''received'', lf_Repository = '''', lf_Limit = 1, lf_After = after\<rparr> listed_store) '''') = Some [8, 7, 9]"
    by code_simp
  have "distinct (map sn_ID (db_cases (st_cases listed_store)))" "\<forall>s \<in> set (db_cases (st_cases listed_store)). cl_uuid unary (sn_ID s)"
    "distinct (map bs_ID (bd_bumps (st_bumps listed_store)))" "\<forall>b \<in> set (bd_bumps (st_bumps listed_store)). cl_uuid unary (bs_ID b)"
    and n: "length (db_cases (st_cases listed_store)) = 3"
    by (simp_all add: listed_store_def listed_case_def unary_def)
  from listings_show_every_row_once [OF unary_ok this(1-4), of ?f]
  obtain ss where ss: "follow 4 (\<lambda>after. ListCases unary (?f\<lparr>lf_After := after\<rparr>) listed_store) '''' = Some (map case_row ss)"
    "mset ss = mset (filter (case_wanted ?f) (db_cases (st_cases listed_store)))" by (auto simp: n numeral_eq_Suc)
  have "filter (case_wanted ?f) (db_cases (st_cases listed_store)) = db_cases (st_cases listed_store)"
    by (simp add: listed_store_def case_wanted_def listed_case_def)
  moreover have "map sn_Number ss = [8, 7, 9]" using run ss(1) by (simp add: comp_def case_row_def)
  ultimately have "map sn_Number ss = [8, 7, 9] \<and> mset ss = mset (db_cases (st_cases listed_store))"
    using ss(2) by simp
  then show ?thesis by (intro conjI run exI [of _ ss]) simp_all
qed

subsection \<open>Cursors nobody gave out\<close>

text \<open>Only the time of a cursor is checked; one whose id is no UUID reaches the database and fails there.\<close>

lemma cursor_of_bad_id_is_internal:
  assumes "cursor_lib_ok lib" "\<not> cl_uuid lib i" "lf_After f = cl_format lib t @ ''|'' @ i"
  shows "ListCases lib f st = Inl ListDb"
proof -
  have "parse_after lib (lf_After f) = Inl ListDb"
    using assms by (simp add: parse_after_def cursor_lib_ok_def Cut_first)
  then show ?thesis by (simp add: ListCases_def list_page_def)
qed

end
