(* ===== verification/ApiRoutes.thy ===== *)
theory ApiRoutes
  imports OperatorApi ApiBodies ListingsInv
begin

section \<open>The API's routes\<close>

text \<open>
  \<^verbatim>\<open>internal/api/api.go\<close>: the routing table, the guard in front of every operator endpoint, and
  the handlers behind it. A request's path is the list of its decoded segments; its other parts
  are as the library reads them. The deploy handler (theory Deploy) answers \<open>sv_deploy\<close>, the
  metrics endpoint's text and the embedded web pages are left out. A nil \<^verbatim>\<open>Sweep\<close> starts none;
  the counter of started sweeps grows either way.
\<close>

subsection \<open>The table\<close>

datatype seg = Lit string | Wild

datatype Endpoint =
    EpHealthz | EpMint | EpWhoami | EpWebhook | EpDeploy | EpStatus | EpCases | EpCase | EpRun | EpAttempt | EpStop
  | EpWhy | EpBumps | EpBump | EpRetry | EpRepair | EpStopRepair | EpWhyRepair | EpWatch | EpWatchAll | EpUnwatch | EpMetrics

record Deps =
  dp_Webhook :: bool
  dp_Deploy :: bool
  dp_Store :: bool

type_synonym route = "string \<times> seg list \<times> bool \<times> Endpoint"

definition open_routes :: "Deps \<Rightarrow> route list" where
  "open_routes d =
     [(''GET'', [Lit ''healthz''], False, EpHealthz), (''POST'', [Lit ''api'', Lit ''auth'', Lit ''mint''], False, EpMint),
      (''GET'', [Lit ''api'', Lit ''whoami''], True, EpWhoami)] @
     (if dp_Webhook d then [(''POST'', [Lit ''webhook'', Lit ''github''], False, EpWebhook)] else []) @
     (if dp_Deploy d then [(''POST'', [Lit ''webhook'', Lit ''deploy''], False, EpDeploy)] else [])"

definition store_routes :: "route list" where
  "store_routes =
     [(''GET'', [Lit ''api'', Lit ''status''], True, EpStatus),
      (''GET'', [Lit ''api'', Lit ''cases''], True, EpCases),
      (''GET'', [Lit ''api'', Lit ''cases'', Wild, Wild, Wild], True, EpCase),
      (''POST'', [Lit ''api'', Lit ''cases'', Wild, Wild, Wild, Lit ''run''], True, EpRun),
      (''GET'', [Lit ''api'', Lit ''attempts'', Wild], True, EpAttempt),
      (''POST'', [Lit ''api'', Lit ''attempts'', Wild, Lit ''stop''], True, EpStop),
      (''GET'', [Lit ''api'', Lit ''attempts'', Wild, Lit ''why''], True, EpWhy),
      (''GET'', [Lit ''api'', Lit ''bumps''], True, EpBumps),
      (''GET'', [Lit ''api'', Lit ''bumps'', Wild, Wild, Wild], True, EpBump),
      (''POST'', [Lit ''api'', Lit ''bumps'', Wild, Wild, Wild, Lit ''retry''], True, EpRetry),
      (''GET'', [Lit ''api'', Lit ''repairs'', Wild], True, EpRepair),
      (''POST'', [Lit ''api'', Lit ''repairs'', Wild, Lit ''stop''], True, EpStopRepair),
      (''GET'', [Lit ''api'', Lit ''repairs'', Wild, Lit ''why''], True, EpWhyRepair),
      (''POST'', [Lit ''api'', Lit ''repositories'', Wild, Wild, Lit ''watch''], True, EpWatch),
      (''POST'', [Lit ''api'', Lit ''repositories'', Lit ''watch-all''], True, EpWatchAll),
      (''POST'', [Lit ''api'', Lit ''repositories'', Wild, Wild, Lit ''unwatch''], True, EpUnwatch),
      (''GET'', [Lit ''metrics''], False, EpMetrics)]"

definition routes :: "Deps \<Rightarrow> route list" where
  "routes d = open_routes d @ (if dp_Store d then store_routes else [])"

text \<open>\<^verbatim>\<open>ServeMux\<close>: a wildcard takes one segment that is not empty; \<^verbatim>\<open>GET\<close> serves \<^verbatim>\<open>HEAD\<close> too.\<close>

fun path_match :: "seg list \<Rightarrow> string list \<Rightarrow> string list option" where
  "path_match [] [] = Some []"
| "path_match (Lit l # ps) (s # ss) = (if s = l then path_match ps ss else None)"
| "path_match (Wild # ps) (s # ss) = (if s = '''' then None else map_option (Cons s) (path_match ps ss))"
| "path_match _ _ = None"

definition method_matches :: "string \<Rightarrow> string \<Rightarrow> bool" where
  "method_matches m asked = (m = asked \<or> (m = ''GET'' \<and> asked = ''HEAD''))"

subsection \<open>Reading endpoints\<close>

definition parse_limit :: "string \<Rightarrow> apierr + int" where
  "parse_limit v =
     (if v = '''' then Inr 0
      else case Atoi v of None \<Rightarrow> Inl errInvalidRequest
        | Some n \<Rightarrow> if n \<le> 0 then Inl errInvalidRequest else Inr n)"

definition list_err :: "lerr \<Rightarrow> apierr" where
  "list_err e = (if e = ErrBadCursor then errInvalidRequest else ApiOther)"

definition listCases :: "CursorLib \<Rightarrow> (string \<Rightarrow> string) \<Rightarrow> Store \<Rightarrow> apierr + CaseRow list \<times> string" where
  "listCases lib q st =
     (if q ''state'' \<noteq> '''' \<and> isl (ParseCaseState (CaseState_of (q ''state''))) then Inl errInvalidRequest
      else case parse_limit (q ''limit'') of Inl e \<Rightarrow> Inl e
        | Inr n \<Rightarrow> map_sum list_err id (ListCases lib
            \<lparr>lf_State = q ''state'', lf_Repository = q ''repository'', lf_Limit = n, lf_After = q ''cursor''\<rparr> st))"

definition listBumps :: "CursorLib \<Rightarrow> (string \<Rightarrow> string) \<Rightarrow> Store \<Rightarrow> apierr + BumpRow list \<times> string" where
  "listBumps lib q st =
     (if q ''state'' \<noteq> '''' \<and> isl (ParseBumpState (BumpState_of (q ''state''))) then Inl errInvalidRequest
      else case parse_limit (q ''limit'') of Inl e \<Rightarrow> Inl e
        | Inr n \<Rightarrow> map_sum list_err id (ListBumps lib
            \<lparr>lf_State = q ''state'', lf_Repository = q ''repository'', lf_Limit = n, lf_After = q ''cursor''\<rparr> st))"

definition case_row_json :: "CaseRow \<Rightarrow> json" where
  "case_row_json c = JObj [(''repository'', JStr (cr_Repository c)), (''number'', JInt (cr_Number c)),
     (''state'', JStr (cr_State c)), (''requester_login'', JStr (cr_RequesterLogin c)),
     (''requester_trust'', JStr (cr_RequesterTrust c)), (''received_at'', JTime (cr_ReceivedAt c)),
     (''latest_outcome_kind'', JStr (cr_LatestOutcomeKind c))]"

definition bump_row_json :: "BumpRow \<Rightarrow> json" where
  "bump_row_json b = JObj [(''repository'', JStr (br_Repository b)), (''number'', JInt (br_Number b)),
     (''branch'', JStr (br_Branch b)), (''state'', JStr (br_State b)), (''head_sha'', JStr (br_HeadSha b)),
     (''rounds'', JInt (int (br_Rounds b))), (''latest_conclusion'', JStr (br_LatestConclusion b)),
     (''opened_at'', JTime (br_OpenedAt b))]"

definition key_json :: "string \<Rightarrow> int \<Rightarrow> (string \<times> json) list" where
  "key_json repo n = [(''repository'', JStr repo), (''number'', JInt n)]"

definition getAttempt :: "(Duration \<Rightarrow> string) \<Rightarrow> string \<Rightarrow> Store \<Rightarrow> apierr + json" where
  "getAttempt dur i st =
     (case GetCaseByAttempt i (st_cases st) of Inl e \<Rightarrow> Inl (ApiStore e)
      | Inr c \<Rightarrow>
        (case find (\<lambda>a. at_ID a = i) (cs_attempts c) of
           Some a \<Rightarrow> Inr (put_field ''case'' (JObj (key_json (cs_repository c) (cs_number c))) (attemptJSON dur a))
         | None \<Rightarrow> Inl (ApiDomain (Refused ''attempt not on its case''))))"

definition getRepair :: "(Duration \<Rightarrow> int) \<Rightarrow> string \<Rightarrow> Store \<Rightarrow> apierr + json" where
  "getRepair secs i st =
     (case GetBumpByRepair i (st_bumps st) of Inl e \<Rightarrow> Inl (ApiStore e)
      | Inr b \<Rightarrow>
        (case find (\<lambda>a. ra_ID a = i) (bp_attempts b) of
           Some a \<Rightarrow> Inr (repairJSON secs b a) | None \<Rightarrow> Inl (ApiStore ErrNotFound)))"

text \<open>The ledger answers a run's chain, rendered, or an error; \<open>None\<close> is no ledger.\<close>

type_synonym ledger = "(string \<Rightarrow> string + json) option"

definition last_run :: "('a \<Rightarrow> string) \<Rightarrow> ('a \<Rightarrow> Run option) \<Rightarrow> string \<Rightarrow> 'a list \<Rightarrow> string" where
  "last_run ident got i xs =
     (case rev (filter (\<lambda>a. ident a = i \<and> got a \<noteq> None) xs) of [] \<Rightarrow> '''' | a # _ \<Rightarrow> rn_RunID (the (got a)))"

definition chain_of :: "ledger \<Rightarrow> string \<Rightarrow> string \<Rightarrow> string \<Rightarrow> apierr + json" where
  "chain_of ledger label i runID =
     (if runID = '''' then Inl (ApiStore ErrNotFound)
      else case ledger of None \<Rightarrow> Inl (ApiStore ErrNotFound)
        | Some render \<Rightarrow> (case render runID of Inl _ \<Rightarrow> Inl ApiOther
            | Inr j \<Rightarrow> Inr (JObj [(label, JStr i), (''run_id'', JStr runID), (''chain'', j)])))"

definition why :: "ledger \<Rightarrow> string \<Rightarrow> Store \<Rightarrow> apierr + json" where
  "why ledger i st =
     (case GetCaseByAttempt i (st_cases st) of Inl e \<Rightarrow> Inl (ApiStore e)
      | Inr c \<Rightarrow> chain_of ledger ''attempt_id'' i (last_run at_ID at_Run i (cs_attempts c)))"

definition whyRepair :: "ledger \<Rightarrow> string \<Rightarrow> Store \<Rightarrow> apierr + json" where
  "whyRepair ledger i st =
     (case GetBumpByRepair i (st_bumps st) of Inl e \<Rightarrow> Inl (ApiStore e)
      | Inr b \<Rightarrow> chain_of ledger ''repair_id'' i (last_run ra_ID ra_Run i (bp_attempts b)))"

subsection \<open>Serving a request\<close>

record HttpRequest =
  ht_Method :: string
  ht_Path :: "string list"
  ht_Authorization :: string
  ht_Loopback :: bool
  ht_Header :: "string \<Rightarrow> string"
  ht_Query :: "string \<Rightarrow> string"
  ht_Webhook :: WebhookRequest

record ServeEnv =
  sv_deps :: Deps
  sv_api :: ApiEnv
  sv_hash :: "string \<Rightarrow> string"
  sv_mint :: MintEnv
  sv_lib :: CursorLib
  sv_dur :: "Duration \<Rightarrow> string"
  sv_secs :: "Duration \<Rightarrow> int"
  sv_ledger :: ledger
  sv_deploy :: int
  sv_Version :: string
  sv_StartedAt :: Time
  sv_Concurrency :: int

record Served =
  sd_api :: Api
  sd_token :: "string + string option"

type_synonym answer = "int \<times> json option"

definition err_kind :: "int \<Rightarrow> string" where
  "err_kind code =
     (if code = 404 then ''not_found'' else if code = 409 then ''conflict'' else if code = 403 then ''forbidden''
      else if code = 400 then ''invalid_request'' else if code = 502 then ''upstream_unavailable'' else ''internal'')"

definition reply :: "int \<Rightarrow> ('a \<Rightarrow> json) \<Rightarrow> apierr + 'a \<Rightarrow> answer" where
  "reply ok show' r =
     (case r of Inl e \<Rightarrow> (writeErr e, Some (JObj [(''error'', JStr (err_kind (writeErr e)))]))
      | Inr x \<Rightarrow> (ok, Some (show' x)))"

definition act :: "int \<Rightarrow> ('a \<Rightarrow> json) \<Rightarrow> Served \<Rightarrow> Api \<times> (apierr + 'a) \<Rightarrow> Served \<times> answer" where
  "act ok show' d pr = (d\<lparr>sd_api := fst pr\<rparr>, reply ok show' (snd pr))"

definition read_only :: "Served \<Rightarrow> apierr + json \<Rightarrow> Served \<times> answer" where
  "read_only d r = (d, reply 200 id r)"

definition by_key :: "string list \<Rightarrow> (string \<Rightarrow> int \<Rightarrow> serr + 'a) \<Rightarrow> apierr + 'a" where
  "by_key args get =
     (case caseKey (args ! 0) (args ! 1) (args ! 2) of Inl e \<Rightarrow> Inl e
      | Inr (repo, n) \<Rightarrow> map_sum ApiStore id (get repo n))"

definition state_json :: "string list \<Rightarrow> string \<Rightarrow> json" where
  "state_json args s = JObj [(''repository'', JStr (args ! 0 @ ''/'' @ args ! 1)),
     (''number'', (case Atoi (args ! 2) of Some n \<Rightarrow> JInt n | None \<Rightarrow> JNull)), (''state'', JStr s)]"

definition handle :: "ServeEnv \<Rightarrow> Endpoint \<Rightarrow> string list \<Rightarrow> HttpRequest \<Rightarrow> Served \<Rightarrow> Served \<times> answer" where
  "handle env ep args r d =
     (let st = pi_store (sd_api d); a = sv_api env; now = ae_now a in
      case ep of
        EpHealthz \<Rightarrow> (d, 200, None)
      | EpWhoami \<Rightarrow> (d, 200, Some (JObj [(''authenticated'', JBool True)]))
      | EpMint \<Rightarrow>
          (case api_mint (sv_hash env) (ht_Loopback r) (ht_Header r) (sv_mint env) (sd_token d) of
             (stored, res) \<Rightarrow> (d\<lparr>sd_token := stored\<rparr>, reply 200 (\<lambda>t. JObj [(''token'', JStr t)]) res))
      | EpWebhook \<Rightarrow>
          (case WebhookHandler now (ht_Webhook r) st of
             (st', code, dup) \<Rightarrow> (d\<lparr>sd_api := api_with_store st' (sd_api d)\<rparr>, code, None))
      | EpDeploy \<Rightarrow> (d, sv_deploy env, None)
      | EpStatus \<Rightarrow> (d, 200, Some (api_status (sv_secs env) (sv_Version env) (sv_StartedAt env) (sv_Concurrency env) now st))
      | EpCases \<Rightarrow> read_only d (map_sum id (\<lambda>(rows, next). JObj [(''cases'', JList (map case_row_json rows)),
            (''next_cursor'', JStr next)]) (listCases (sv_lib env) (ht_Query r) st))
      | EpBumps \<Rightarrow> read_only d (map_sum id (\<lambda>(rows, next). JObj [(''bumps'', JList (map bump_row_json rows)),
            (''next_cursor'', JStr next)]) (listBumps (sv_lib env) (ht_Query r) st))
      | EpCase \<Rightarrow> read_only d (map_sum id (caseJSON (sv_dur env)) (by_key args (\<lambda>repo n. GetCase repo n (st_cases st))))
      | EpBump \<Rightarrow> read_only d (map_sum id (bumpJSON (sv_secs env)) (by_key args (\<lambda>repo n. GetBump repo n (st_bumps st))))
      | EpRun \<Rightarrow> act 202 (\<lambda>s. state_json args (CaseState_string s)) d (api_run a (args ! 0) (args ! 1) (args ! 2) (sd_api d))
      | EpRetry \<Rightarrow> act 202 (\<lambda>s. state_json args (BumpState_string s)) d (api_retryBump a (args ! 0) (args ! 1) (args ! 2) (sd_api d))
      | EpAttempt \<Rightarrow> read_only d (getAttempt (sv_dur env) (args ! 0) st)
      | EpRepair \<Rightarrow> read_only d (getRepair (sv_secs env) (args ! 0) st)
      | EpStop \<Rightarrow> act 202 (\<lambda>c. JObj [(''attempt_id'', JStr (args ! 0)),
            (''case'', JObj (key_json (cs_repository c) (cs_number c))), (''state'', JStr (CaseState_string (cs_state c)))]) d
            (api_stop (args ! 0) (sd_api d))
      | EpStopRepair \<Rightarrow> act 202 (\<lambda>b. JObj [(''repair_id'', JStr (args ! 0)),
            (''bump'', JObj (key_json (bp_repository b) (bp_number b))), (''state'', JStr (BumpState_string (bp_state b)))]) d
            (api_stopRepair (args ! 0) (sd_api d))
      | EpWhy \<Rightarrow> read_only d (why (sv_ledger env) (args ! 0) st)
      | EpWhyRepair \<Rightarrow> read_only d (whyRepair (sv_ledger env) (args ! 0) st)
      | EpWatch \<Rightarrow> act 200 (\<lambda>_. JObj [(''repository'', JStr (args ! 0 @ ''/'' @ args ! 1)), (''watched_at'', JTime now)]) d
            (api_watch a (args ! 0) (args ! 1) (sd_api d))
      | EpWatchAll \<Rightarrow> act 200 (\<lambda>_. JObj [(''watched'', JList (map JStr (EnrolledRepositories st)))]) d (api_watchAll a (sd_api d))
      | EpUnwatch \<Rightarrow> act 200 (\<lambda>_. JObj [(''repository'', JStr (args ! 0 @ ''/'' @ args ! 1)), (''watched'', JBool False)]) d
            (api_unwatch (args ! 0) (args ! 1) (sd_api d))
      | EpMetrics \<Rightarrow> (d, 200, None))"

definition serve :: "ServeEnv \<Rightarrow> HttpRequest \<Rightarrow> Served \<Rightarrow> Served \<times> answer" where
  "serve env r d =
     (case find (\<lambda>(m, pat, _, _). method_matches m (ht_Method r) \<and> path_match pat (ht_Path r) \<noteq> None) (routes (sv_deps env)) of
        None \<Rightarrow> (d, if list_ex (\<lambda>(_, pat, _, _). path_match pat (ht_Path r) \<noteq> None) (routes (sv_deps env)) then 405 else 404, None)
      | Some (_, pat, guarded, ep) \<Rightarrow>
          let go = (\<lambda>_. handle env ep (the (path_match pat (ht_Path r))) r d) in
          if \<not> guarded then go ()
          else (case Auth_Middleware (sv_hash env) (sd_token d) (ht_Authorization r) () of
              Inl code \<Rightarrow> (d, code, None)
            | Inr u \<Rightarrow> go u))"

end
