(* ===== verification/ApiRoutesInv.thy ===== *)
theory ApiRoutesInv
  imports ApiRoutes
begin

section \<open>What a request can do\<close>

text \<open>
  The rows of the routing table no guard stands in front of, and that whatever is asked of the
  others without the token changes nothing and is answered the same.
\<close>

lemma path_match_literal: "path_match (map Lit ls) ss = Some args \<Longrightarrow> ss = ls"
proof (induction ls arbitrary: ss args)
  case Nil
  then show ?case by (cases ss) simp_all
next
  case (Cons l ls)
  then show ?case by (cases ss) (auto split: if_splits)
qed

text \<open>The endpoints in front of which no guard stands.\<close>

definition unguarded :: "route \<Rightarrow> bool" where
  "unguarded row = (case row of (_, _, g, _) \<Rightarrow> \<not> g)"

lemma unguarded_rows:
  "filter unguarded store_routes = [(''GET'', [Lit ''metrics''], False, EpMetrics)]"
  "filter unguarded (open_routes deps) =
     [(''GET'', [Lit ''healthz''], False, EpHealthz), (''POST'', [Lit ''api'', Lit ''auth'', Lit ''mint''], False, EpMint)] @
     (if dp_Webhook deps then [(''POST'', [Lit ''webhook'', Lit ''github''], False, EpWebhook)] else []) @
     (if dp_Deploy deps then [(''POST'', [Lit ''webhook'', Lit ''deploy''], False, EpDeploy)] else [])"
  unfolding store_routes_def open_routes_def by (simp_all add: unguarded_def)

lemma unguarded_routes:
  assumes "(m, pat, False, ep) \<in> set (routes deps)"
  shows "(m, pat, ep) \<in> {(''GET'', map Lit [''healthz''], EpHealthz), (''POST'', map Lit [''api'', ''auth'', ''mint''], EpMint),
    (''POST'', map Lit [''webhook'', ''github''], EpWebhook), (''POST'', map Lit [''webhook'', ''deploy''], EpDeploy),
    (''GET'', map Lit [''metrics''], EpMetrics)}"
proof -
  have "(m, pat, False, ep) \<in> set (filter unguarded (routes deps))" using assms by (simp add: unguarded_def)
  then have "(m, pat, False, ep) \<in> set (filter unguarded (open_routes deps)) \<or> (m, pat, False, ep) \<in> set (filter unguarded store_routes)"
    by (cases "dp_Store deps") (auto simp add: routes_def simp del: filter.simps)
  then show ?thesis unfolding unguarded_rows by (cases "dp_Webhook deps"; cases "dp_Deploy deps") auto
qed

lemma serve_found:
  assumes "find (\<lambda>(m, pat, _, _). method_matches m (ht_Method r) \<and> path_match pat (ht_Path r) \<noteq> None) (routes deps) = Some (m, pat, g, ep)"
  shows "(m, pat, g, ep) \<in> set (routes deps) \<and> method_matches m (ht_Method r) \<and> path_match pat (ht_Path r) \<noteq> None"
  using assms by (auto simp: find_Some_iff in_set_conv_nth)

lemma mint_guard:
  "fst (api_mint hash loopback header env stored) \<noteq> stored \<Longrightarrow> loopback \<and> (\<forall>h \<in> set proxyHeaders. header h = '''')"
  by (auto simp: api_mint_def list_ex_iff split: if_splits)

lemma webhook_guard:
  assumes "WebhookHandler now w st = (st', code, dup)"
  shows "st' = st \<or> (code = 202 \<and> wr_MediaType w = Some ''application/json'' \<and> wr_Signature256 w \<noteq> '''' \<and>
    (\<exists>payload. wr_payload w = Inr payload \<and>
      StoreDelivery \<lparr>dl_ID = wr_DeliveryID w, dl_Event = wr_Event w, dl_Action = wr_Action w,
        dl_SenderLogin = wr_Sender w, dl_Payload = payload, dl_ReceivedAt = now\<rparr> st = Inr (st', dup)))"
  using assms by (auto simp: WebhookHandler_def split: if_splits sum.splits prod.splits)

text \<open>C18. A request without the token the stored hash was made of changes nothing, and no operator
  endpoint answers it with more than a status: it is refused. The exceptions are the two a
  request may use unasked: a delivery posted to the webhook, as JSON and with a SHA-256
  signature the library accepted, is stored; and a token is minted for a caller on this
  machine that no proxy stands in front of.\<close>
theorem only_authenticated_requests_act:
  assumes "Auth_Validate (sv_hash env) (sd_token d) (TrimPrefix (ht_Authorization r) ''Bearer '') \<noteq> Inr True"
    and "serve env r d = (d', code, body)"
  shows "(d' = d \<or>
      (ht_Method r = ''POST'' \<and> ht_Path r = [''webhook'', ''github''] \<and> code = 202 \<and> sd_token d' = sd_token d \<and>
       wr_MediaType (ht_Webhook r) = Some ''application/json'' \<and> wr_Signature256 (ht_Webhook r) \<noteq> '''' \<and>
       (\<exists>payload st' dup. wr_payload (ht_Webhook r) = Inr payload \<and> sd_api d' = api_with_store st' (sd_api d) \<and>
          StoreDelivery \<lparr>dl_ID = wr_DeliveryID (ht_Webhook r), dl_Event = wr_Event (ht_Webhook r),
            dl_Action = wr_Action (ht_Webhook r), dl_SenderLogin = wr_Sender (ht_Webhook r), dl_Payload = payload,
            dl_ReceivedAt = ae_now (sv_api env)\<rparr> (pi_store (sd_api d)) = Inr (st', dup))) \<or>
      (ht_Method r = ''POST'' \<and> ht_Path r = [''api'', ''auth'', ''mint''] \<and> sd_api d' = sd_api d \<and>
       ht_Loopback r \<and> (\<forall>h \<in> set proxyHeaders. ht_Header r h = ''''))) \<and>
    (take 1 (ht_Path r) = [''api''] \<and> ht_Path r \<noteq> [''api'', ''auth'', ''mint''] \<longrightarrow>
       code \<in> {401, 404, 405, 500} \<and> body = None)"
proof (cases "find (\<lambda>(m, pat, _, _). method_matches m (ht_Method r) \<and> path_match pat (ht_Path r) \<noteq> None) (routes (sv_deps env))")
  case None
  with assms(2) show ?thesis by (auto simp: serve_def split: if_splits)
next
  case (Some row)
  obtain m pat g ep where row: "row = (m, pat, g, ep)" by (cases row)
  note found = serve_found [OF Some [unfolded row]]
  show ?thesis
  proof (cases g)
    case True
    have "Auth_Middleware (sv_hash env) (sd_token d) (ht_Authorization r) () = Inl 500 \<or>
        Auth_Middleware (sv_hash env) (sd_token d) (ht_Authorization r) () = Inl 401"
      using assms(1) by (auto simp: Auth_Middleware_def split: sum.splits)
    with assms(2) Some row True show ?thesis by (auto simp: serve_def)
  next
    case False
    with found have "(m, pat, False, ep) \<in> set (routes (sv_deps env))" by simp
    then have u: "(m, pat, ep) \<in> {(''GET'', map Lit [''healthz''], EpHealthz), (''POST'', map Lit [''api'', ''auth'', ''mint''], EpMint),
        (''POST'', map Lit [''webhook'', ''github''], EpWebhook), (''POST'', map Lit [''webhook'', ''deploy''], EpDeploy),
        (''GET'', map Lit [''metrics''], EpMetrics)}" by (rule unguarded_routes)
    have h: "handle env ep (the (path_match pat (ht_Path r))) r d = (d', code, body)"
      using assms(2) Some row False by (simp add: serve_def)
    have path: "\<And>ls. pat = map Lit ls \<Longrightarrow> ht_Path r = ls" using found path_match_literal by blast
    from u consider "ep = EpHealthz" "pat = map Lit [''healthz'']" | "ep = EpMint" "m = ''POST''" "pat = map Lit [''api'', ''auth'', ''mint'']"
      | "ep = EpWebhook" "m = ''POST''" "pat = map Lit [''webhook'', ''github'']" | "ep = EpDeploy" "pat = map Lit [''webhook'', ''deploy'']"
      | "ep = EpMetrics" "pat = map Lit [''metrics'']" by blast
    then show ?thesis
    proof cases
      case 2
      have "ht_Method r = ''POST''" using found 2 by (simp add: method_matches_def)
      with 2 path [OF 2(3)] h mint_guard [of "sv_hash env" "ht_Loopback r" "ht_Header r" "sv_mint env" "sd_token d"]
      show ?thesis by (cases "fst (api_mint (sv_hash env) (ht_Loopback r) (ht_Header r) (sv_mint env) (sd_token d)) = sd_token d")
          (auto simp: handle_def Let_def split: prod.splits)
    next
      case 3
      have "ht_Method r = ''POST''" using found 3 by (simp add: method_matches_def)
      obtain st' code' dup where w: "WebhookHandler (ae_now (sv_api env)) (ht_Webhook r) (pi_store (sd_api d)) = (st', code', dup)"
        by (rule prod_cases3)
      have d': "d' = d\<lparr>sd_api := api_with_store st' (sd_api d)\<rparr>" "code = code'"
        using h 3 w by (simp_all add: handle_def Let_def)
      show ?thesis
      proof (cases "st' = pi_store (sd_api d)")
        case True
        with d' path [OF 3(3)] show ?thesis by (simp add: api_with_store_def)
      next
        case False
        with webhook_guard [OF w] d' path [OF 3(3)] \<open>ht_Method r = ''POST''\<close> show ?thesis by auto
      qed
    next
      case 1
      with path [OF 1(2)] h show ?thesis by (simp add: handle_def Let_def)
    next
      case 4
      with path [OF 4(2)] h show ?thesis by (simp add: handle_def Let_def)
    next
      case 5
      with path [OF 5(2)] h show ?thesis by (simp add: handle_def Let_def)
    qed
  qed
qed

subsection \<open>An operator with a stale token\<close>

definition idle_env :: ServeEnv where
  "idle_env = \<lparr>sv_deps = \<lparr>dp_Webhook = True, dp_Deploy = False, dp_Store = True\<rparr>,
     sv_api = \<lparr>ae_getIssue = (\<lambda>_ _. Inl IssueError), ae_OperatorLogin = ''me'', ae_now = 9\<rparr>,
     sv_hash = rev, sv_mint = \<lparr>me_token = Inr ''new'', me_mkdir = None, me_write = None\<rparr>, sv_lib = unary,
     sv_dur = (\<lambda>_. ''1s''), sv_secs = (\<lambda>_. 1), sv_ledger = None, sv_deploy = 202, sv_Version = ''v1'',
     sv_StartedAt = 0, sv_Concurrency = 2\<rparr>"

definition stale_run :: HttpRequest where
  "stale_run = \<lparr>ht_Method = ''POST'', ht_Path = [''api'', ''cases'', ''o'', ''r'', ''7'', ''run''],
     ht_Authorization = ''Bearer old'', ht_Loopback = True, ht_Header = (\<lambda>_. ''''), ht_Query = (\<lambda>_. ''''),
     ht_Webhook = \<lparr>wr_MediaType = None, wr_Signature256 = '''', wr_payload = Inl False, wr_Event = '''',
       wr_DeliveryID = '''', wr_Action = '''', wr_Sender = ''''\<rparr>\<rparr>"

definition idle_daemon :: Served where
  "idle_daemon = \<lparr>sd_api = \<lparr>pi_store = listed_store, pi_running = \<lparr>rg_running = Map.empty, rg_slots = [], rg_gauge = 0\<rparr>, pi_rounds = None, pi_sweeps = 0\<rparr>,
     sd_token = Inr (Some ''wen'')\<rparr>"

theorem only_authenticated_requests_act_witness:
  "serve idle_env stale_run idle_daemon = (idle_daemon, 401, None)"
proof -
  have v: "Auth_Validate (sv_hash idle_env) (sd_token idle_daemon) (TrimPrefix (ht_Authorization stale_run) ''Bearer '') \<noteq> Inr True"
    by (simp add: Auth_Validate_def idle_env_def idle_daemon_def stale_run_def TrimPrefix_def HasPrefix_def)
  obtain d' code body where e: "serve idle_env stale_run idle_daemon = (d', code, body)" by (rule prod_cases3)
  have "snd (serve idle_env stale_run idle_daemon) = (401, None)" by code_simp
  with only_authenticated_requests_act [OF v e] e show ?thesis by (simp add: stale_run_def)
qed

end
