(* ===== verification/Commands.thy ===== *)
theory Commands
  imports ApiRoutesInv Configuration "HOL-Library.Monad_Syntax"
begin

section \<open>The operator's command line\<close>

text \<open>
  \<^verbatim>\<open>cmd/autophage\<close>: the commands over the operator API. The client library is \<open>Client\<close>: the
  stored token, and what a call answers, the decoded JSON or an error's text. A command answers
  the calls it made and what it prints, or its error. Decoding into a struct takes the fields the
  source names, \<open>None\<close> for a value of another type, which the client reports; how a time is
  written and JSON indented are the client's too. Help texts and flag parsing are cobra's.
\<close>

subsection \<open>Calls\<close>

record Call =
  cl_Method :: string
  cl_Path :: string
  cl_Query :: "(string \<times> string) list"

record Client =
  cn_token :: "string + string"
  cn_call :: "string \<Rightarrow> Call \<Rightarrow> string + json"
  cn_time :: "Time \<Rightarrow> string"
  cn_indent :: "json \<Rightarrow> string"

type_synonym outcome = "Call list \<times> (string + string)"

definition GetCall :: "string \<Rightarrow> (string \<times> string) list \<Rightarrow> Call" where
  "GetCall path q = \<lparr>cl_Method = ''GET'', cl_Path = path, cl_Query = q\<rparr>"

definition PostCall :: "string \<Rightarrow> Call" where
  "PostCall path = \<lparr>cl_Method = ''POST'', cl_Path = path, cl_Query = []\<rparr>"

definition ask :: "Client \<Rightarrow> string \<Rightarrow> Call \<Rightarrow> (json \<Rightarrow> string option) \<Rightarrow> outcome" where
  "ask cl tok c print =
     ([c], case cn_call cl tok c of Inl e \<Rightarrow> Inl e
       | Inr j \<Rightarrow> (case print j of None \<Rightarrow> Inl ''json: cannot unmarshal'' | Some out' \<Rightarrow> Inr out'))"

definition apiClient :: "Client \<Rightarrow> (string \<Rightarrow> outcome) \<Rightarrow> outcome" where
  "apiClient cl f = (case cn_token cl of Inl e \<Rightarrow> ([], Inl e) | Inr tok \<Rightarrow> f tok)"

subsection \<open>Decoding\<close>

definition struct :: "json \<Rightarrow> json option" where
  "struct j = (case j of JObj _ \<Rightarrow> Some j | JNull \<Rightarrow> Some (JObj []) | _ \<Rightarrow> None)"

definition text_field :: "Client \<Rightarrow> string \<Rightarrow> json \<Rightarrow> string option" where
  "text_field cl k j =
     (case field k j of None \<Rightarrow> Some '''' | Some JNull \<Rightarrow> Some '''' | Some (JStr s) \<Rightarrow> Some s
      | Some (JTime t) \<Rightarrow> Some (cn_time cl t) | Some _ \<Rightarrow> None)"

definition int_field :: "string \<Rightarrow> json \<Rightarrow> int option" where
  "int_field k j = (case field k j of None \<Rightarrow> Some 0 | Some JNull \<Rightarrow> Some 0 | Some (JInt n) \<Rightarrow> Some n | Some _ \<Rightarrow> None)"

definition struct_field :: "string \<Rightarrow> json \<Rightarrow> json option" where
  "struct_field k j = (case field k j of None \<Rightarrow> Some (JObj []) | Some v \<Rightarrow> struct v)"

definition pointer_field :: "string \<Rightarrow> json \<Rightarrow> json option option" where
  "pointer_field k j =
     (case field k j of None \<Rightarrow> Some None | Some JNull \<Rightarrow> Some None | Some v \<Rightarrow> map_option Some (struct v))"

definition list_field :: "string \<Rightarrow> json \<Rightarrow> json list option" where
  "list_field k j =
     (case field k j of None \<Rightarrow> Some [] | Some JNull \<Rightarrow> Some [] | Some (JList vs) \<Rightarrow> Some vs | Some _ \<Rightarrow> None)"

definition each :: "(json \<Rightarrow> 'a option) \<Rightarrow> json list \<Rightarrow> 'a list option" where
  "each f vs = those (map f vs)"

subsection \<open>References and addresses\<close>

definition ref_text :: "string \<Rightarrow> int \<Rightarrow> string" where
  "ref_text repo n = repo @ ''#'' @ show_int n"

definition parseRef :: "string \<Rightarrow> string + string \<times> int" where
  "parseRef s =
     (let bad = Inl (''want owner/repo#N, got '' @ s) in
      case Cut s CHR ''#'' of (repo, n, ok) \<Rightarrow>
        if \<not> ok \<or> \<not> Contains repo ''/'' then bad
        else (case Atoi n of None \<Rightarrow> bad | Some k \<Rightarrow> if k < 1 then bad else Inr (repo, k)))"

definition parseRepo :: "string \<Rightarrow> string + string" where
  "parseRepo s =
     (case Cut s CHR ''/'' of (owner, name, ok) \<Rightarrow>
       if \<not> ok \<or> owner = '''' \<or> name = '''' \<or> Contains name ''/'' then Inl (''want owner/repo, got '' @ s) else Inr s)"

definition daemonAddr :: "string \<Rightarrow> string" where
  "daemonAddr listen = (if listen = '''' then ''http://127.0.0.1:8080'' else ''http://'' @ listen)"

definition TrimRightSlash :: "string \<Rightarrow> string" where
  "TrimRightSlash s = rev (dropWhile (\<lambda>c. c = CHR ''/'') (rev s))"

text \<open>\<open>load\<close> is what reading the daemon's configuration file gives.\<close>

definition configuredAddr :: "string \<Rightarrow> string + Config \<Rightarrow> string" where
  "configuredAddr env load =
     (let v = TrimRightSlash (TrimSpace env) in
      if v \<noteq> '''' then (if Contains v ''://'' then v else ''http://'' @ v)
      else case load of Inl _ \<Rightarrow> ''http://127.0.0.1:8080'' | Inr cfg \<Rightarrow> daemonAddr (cf_Listen cfg))"

text \<open>\<^verbatim>\<open>%-ns\<close> pads with blanks to \<open>n\<close> runes.\<close>

definition pad :: "nat \<Rightarrow> string \<Rightarrow> string" where
  "pad n s = s @ replicate (n - length (runes s)) CHR '' ''"

definition short :: "string \<Rightarrow> string" where
  "short sha = (if length sha \<le> 7 then sha else take 7 sha)"

subsection \<open>Listings\<close>

definition list_query :: "string \<Rightarrow> string \<Rightarrow> int \<Rightarrow> (string \<times> string) list" where
  "list_query state repo limit =
     (if state \<noteq> '''' then [(''state'', state)] else []) @
     (if repo \<noteq> '''' then [(''repository'', repo)] else []) @
     (if limit > 0 then [(''limit'', show_int limit)] else [])"

definition more_line :: "Client \<Rightarrow> json \<Rightarrow> string option" where
  "more_line cl j = do { cursor \<leftarrow> text_field cl ''next_cursor'' j;
     Some (if cursor \<noteq> '''' then ''(more; raise --limit)'' @ NL else '''') }"

definition case_line :: "Client \<Rightarrow> json \<Rightarrow> string option" where
  "case_line cl v = do { c \<leftarrow> struct v; repo \<leftarrow> text_field cl ''repository'' c; n \<leftarrow> int_field ''number'' c;
     state \<leftarrow> text_field cl ''state'' c; _ \<leftarrow> text_field cl ''requester_login'' c;
     trust \<leftarrow> text_field cl ''requester_trust'' c; kind \<leftarrow> text_field cl ''latest_outcome_kind'' c;
     Some (pad 40 (ref_text repo n) @ '' '' @ pad 18 state @ '' '' @ pad 12 trust @ '' '' @ kind @ NL) }"

definition cases_cmd :: "Client \<Rightarrow> string \<Rightarrow> string \<Rightarrow> int \<Rightarrow> outcome" where
  "cases_cmd cl state repo limit = apiClient cl (\<lambda>tok. ask cl tok (GetCall ''/api/cases'' (list_query state repo limit))
     (\<lambda>v. do { j \<leftarrow> struct v; cs \<leftarrow> list_field ''cases'' j; lines \<leftarrow> each (case_line cl) cs; more \<leftarrow> more_line cl j;
        Some (concat lines @ more) }))"

definition bump_line :: "Client \<Rightarrow> json \<Rightarrow> string option" where
  "bump_line cl v = do { b \<leftarrow> struct v; repo \<leftarrow> text_field cl ''repository'' b; n \<leftarrow> int_field ''number'' b;
     branch \<leftarrow> text_field cl ''branch'' b; state \<leftarrow> text_field cl ''state'' b; rounds \<leftarrow> int_field ''rounds'' b;
     concl \<leftarrow> text_field cl ''latest_conclusion'' b;
     Some (pad 24 (ref_text repo n) @ '' '' @ pad 18 state @ '' '' @ pad 9 concl @ '' rounds '' @ show_int rounds @
       ''  '' @ branch @ NL) }"

definition bumps_cmd :: "Client \<Rightarrow> string \<Rightarrow> string \<Rightarrow> int \<Rightarrow> outcome" where
  "bumps_cmd cl state repo limit = apiClient cl (\<lambda>tok. ask cl tok (GetCall ''/api/bumps'' (list_query state repo limit))
     (\<lambda>v. do { j \<leftarrow> struct v; bs \<leftarrow> list_field ''bumps'' j; lines \<leftarrow> each (bump_line cl) bs; more \<leftarrow> more_line cl j;
        Some (concat lines @ more) }))"

subsection \<open>One case, one bump\<close>

text \<open>The commands that name an issue or a pull request: the reference is read before the token.\<close>

definition on_ref :: "Client \<Rightarrow> string \<Rightarrow> (string \<Rightarrow> int \<Rightarrow> Call) \<Rightarrow> (json \<Rightarrow> string option) \<Rightarrow> outcome" where
  "on_ref cl ref c print =
     (case parseRef ref of Inl e \<Rightarrow> ([], Inl e)
      | Inr (repo, n) \<Rightarrow> apiClient cl (\<lambda>tok. ask cl tok (c repo n) print))"

definition ref_path :: "string \<Rightarrow> string \<Rightarrow> int \<Rightarrow> string" where
  "ref_path kind repo n = ''/api/'' @ kind @ ''/'' @ repo @ ''/'' @ show_int n"

definition printJSON :: "Client \<Rightarrow> json \<Rightarrow> string option" where
  "printJSON cl j = (case j of JObj _ \<Rightarrow> Some (cn_indent cl j @ NL) | JNull \<Rightarrow> Some (cn_indent cl j @ NL) | _ \<Rightarrow> None)"

definition case_cmd :: "Client \<Rightarrow> string \<Rightarrow> outcome" where
  "case_cmd cl ref = on_ref cl ref (\<lambda>repo n. GetCall (ref_path ''cases'' repo n) []) (printJSON cl)"

text \<open>What \<^verbatim>\<open>run\<close> and \<^verbatim>\<open>retry\<close> print.\<close>

definition state_line :: "Client \<Rightarrow> json \<Rightarrow> string option" where
  "state_line cl v = do { j \<leftarrow> struct v; repo \<leftarrow> text_field cl ''repository'' j; n \<leftarrow> int_field ''number'' j;
     state \<leftarrow> text_field cl ''state'' j; Some (ref_text repo n @ '': '' @ state @ NL) }"

definition run_cmd :: "Client \<Rightarrow> string \<Rightarrow> outcome" where
  "run_cmd cl ref = on_ref cl ref (\<lambda>repo n. PostCall (ref_path ''cases'' repo n @ ''/run'')) (state_line cl)"

definition retry_cmd :: "Client \<Rightarrow> string \<Rightarrow> outcome" where
  "retry_cmd cl ref = on_ref cl ref (\<lambda>repo n. PostCall (ref_path ''bumps'' repo n @ ''/retry'')) (state_line cl)"

definition verdict_line :: "Client \<Rightarrow> json \<Rightarrow> string option" where
  "verdict_line cl x = do { v \<leftarrow> struct x; sha \<leftarrow> text_field cl ''head_sha'' v; concl \<leftarrow> text_field cl ''conclusion'' v;
     failing \<leftarrow> text_field cl ''failing_contexts'' v;
     Some (''  checks '' @ concl @ '' on '' @ short sha @
       (if failing \<noteq> '''' then '': '' @ ReplaceAll failing NL '', '' else '''') @ NL) }"

definition round_line :: "Client \<Rightarrow> json \<Rightarrow> string option" where
  "round_line cl x = do { r \<leftarrow> struct x; i \<leftarrow> text_field cl ''repair_id'' r; n \<leftarrow> int_field ''round'' r;
     sha \<leftarrow> text_field cl ''base_sha'' r; oc \<leftarrow> pointer_field ''outcome'' r;
     kind \<leftarrow> (case oc of None \<Rightarrow> Some ''running''
       | Some ou \<Rightarrow> do { k \<leftarrow> text_field cl ''kind'' ou; _ \<leftarrow> text_field cl ''summary'' ou; Some k });
     Some (''  round '' @ show_int n @ '' from '' @ short sha @ '': '' @ pad 16 kind @ '' '' @ i @ NL) }"

definition bump_text :: "Client \<Rightarrow> json \<Rightarrow> string option" where
  "bump_text cl v = do { j \<leftarrow> struct v; repo \<leftarrow> text_field cl ''repository'' j; n \<leftarrow> int_field ''number'' j;
     branch \<leftarrow> text_field cl ''branch'' j; base \<leftarrow> text_field cl ''base_branch'' j; sha \<leftarrow> text_field cl ''head_sha'' j;
     state \<leftarrow> text_field cl ''state'' j;
     vs \<leftarrow> list_field ''verdicts'' j; verdicts \<leftarrow> each (verdict_line cl) vs;
     rs \<leftarrow> list_field ''rounds'' j; rounds \<leftarrow> each (round_line cl) rs;
     ab \<leftarrow> pointer_field ''abandonment'' j;
     gave \<leftarrow> (case ab of None \<Rightarrow> Some ''''
       | Some a \<Rightarrow> do { r \<leftarrow> text_field cl ''reason'' a; d \<leftarrow> text_field cl ''detail'' a;
           Some (''gave up ('' @ r @ ''): '' @ d @ NL) });
     co \<leftarrow> pointer_field ''closure'' j;
     closed \<leftarrow> (case co of None \<Rightarrow> Some ''''
       | Some c \<Rightarrow> do { k \<leftarrow> text_field cl ''kind'' c; Some (''pull request '' @ k @ NL) });
     Some (ref_text repo n @ ''  '' @ state @ NL @ ''branch '' @ branch @ '' onto '' @ base @ '' at '' @ short sha @ NL @
       concat verdicts @ concat rounds @ gave @ closed) }"

definition bump_cmd :: "Client \<Rightarrow> string \<Rightarrow> outcome" where
  "bump_cmd cl ref = on_ref cl ref (\<lambda>repo n. GetCall (ref_path ''bumps'' repo n) []) (bump_text cl)"

subsection \<open>Attempts and rounds\<close>

definition stopped_line :: "Client \<Rightarrow> string \<Rightarrow> string \<Rightarrow> json \<Rightarrow> string option" where
  "stopped_line cl ident owner v = do { j \<leftarrow> struct v; i \<leftarrow> text_field cl ident j; c \<leftarrow> struct_field owner j;
     repo \<leftarrow> text_field cl ''repository'' c; n \<leftarrow> int_field ''number'' c; state \<leftarrow> text_field cl ''state'' j;
     Some (''stopped '' @ i @ '' ('' @ ref_text repo n @ ''): '' @ state @ NL) }"

definition stop_cmd :: "Client \<Rightarrow> string \<Rightarrow> outcome" where
  "stop_cmd cl i = apiClient cl (\<lambda>tok. ask cl tok (PostCall (''/api/attempts/'' @ i @ ''/stop''))
     (stopped_line cl ''attempt_id'' ''case''))"

definition stop_repair_cmd :: "Client \<Rightarrow> string \<Rightarrow> outcome" where
  "stop_repair_cmd cl i = apiClient cl (\<lambda>tok. ask cl tok (PostCall (''/api/repairs/'' @ i @ ''/stop''))
     (stopped_line cl ''repair_id'' ''bump''))"

definition why_cmd :: "Client \<Rightarrow> string \<Rightarrow> outcome" where
  "why_cmd cl i = apiClient cl (\<lambda>tok. ask cl tok (GetCall (''/api/attempts/'' @ i @ ''/why'') []) (printJSON cl))"

definition status_cmd :: "Client \<Rightarrow> outcome" where
  "status_cmd cl = apiClient cl (\<lambda>tok. ask cl tok (GetCall ''/api/status'' []) (printJSON cl))"

definition whoami_cmd :: "Client \<Rightarrow> outcome" where
  "whoami_cmd cl = apiClient cl (\<lambda>tok. ask cl tok (GetCall ''/api/whoami'' []) (printJSON cl))"

subsection \<open>Watching\<close>

definition repo_path :: "string \<Rightarrow> string" where
  "repo_path repo = ''/api/repositories/'' @ repo"

definition watch_cmd :: "Client \<Rightarrow> string option \<Rightarrow> outcome" where
  "watch_cmd cl arg = apiClient cl (\<lambda>tok.
     (case arg of
        None \<Rightarrow> ask cl tok (PostCall (repo_path ''watch-all'')) (\<lambda>v. do { j \<leftarrow> struct v; ws \<leftarrow> list_field ''watched'' j;
          rs \<leftarrow> each (\<lambda>x. case x of JStr s \<Rightarrow> Some s | JNull \<Rightarrow> Some '''' | _ \<Rightarrow> None) ws;
          Some (concat (map (\<lambda>r. ''watching '' @ r @ NL) rs) @ show_nat (length rs) @ '' repositories watched'' @ NL) })
      | Some a \<Rightarrow> (case parseRepo a of Inl e \<Rightarrow> ([], Inl e)
          | Inr repo \<Rightarrow> ask cl tok (PostCall (repo_path repo @ ''/watch'')) (\<lambda>v. do { j \<leftarrow> struct v;
              r \<leftarrow> text_field cl ''repository'' j; w \<leftarrow> text_field cl ''watched_at'' j;
              Some (''watching '' @ r @ '' since '' @ w @ NL) }))))"

definition unwatch_cmd :: "Client \<Rightarrow> string \<Rightarrow> outcome" where
  "unwatch_cmd cl a =
     (case parseRepo a of Inl e \<Rightarrow> ([], Inl e)
      | Inr repo \<Rightarrow> apiClient cl (\<lambda>tok. ask cl tok (PostCall (repo_path repo @ ''/unwatch''))
          (\<lambda>v. do { j \<leftarrow> struct v; r \<leftarrow> text_field cl ''repository'' j; Some (''no longer watching '' @ r @ NL) })))"

subsection \<open>The token\<close>

text \<open>
  The token's file: its path, the error of making its directory, what a write that fails leaves
  in it with its error, and the error of a removal with whether it says the file does not exist.
\<close>

record TokenFile =
  tf_path :: "string + string"
  tf_mkdir :: "string option"
  tf_write :: "(string option \<times> string) option"
  tf_remove :: "(bool \<times> string) option"

definition auth_login :: "Client \<Rightarrow> TokenFile \<Rightarrow> string option \<Rightarrow> string option \<times> outcome" where
  "auth_login cl f stored =
     (let c = PostCall ''/api/auth/mint'' in
      case cn_call cl '''' c of Inl e \<Rightarrow> (stored, [c], Inl e)
      | Inr v \<Rightarrow>
        (case (do { j \<leftarrow> struct v; text_field cl ''token'' j }) of
           None \<Rightarrow> (stored, [c], Inl ''json: cannot unmarshal'')
         | Some token \<Rightarrow>
           (case tf_path f of Inl e \<Rightarrow> (stored, [c], Inl e)
            | Inr path \<Rightarrow>
              (case tf_mkdir f of Some e \<Rightarrow> (stored, [c], Inl e)
               | None \<Rightarrow>
                 (case tf_write f of Some (left, e) \<Rightarrow> (left, [c], Inl e)
                  | None \<Rightarrow> (Some token, [c], Inr (''token written to '' @ path @ NL)))))))"

definition auth_logout :: "TokenFile \<Rightarrow> string option \<Rightarrow> string option \<times> outcome" where
  "auth_logout f stored =
     (case tf_path f of Inl e \<Rightarrow> (stored, [], Inl e)
      | Inr _ \<Rightarrow>
        (case tf_remove f of
           Some (missing, e) \<Rightarrow> if missing then (stored, [], Inr (''logged out'' @ NL)) else (stored, [], Inl e)
         | None \<Rightarrow> (None, [], Inr (''logged out'' @ NL))))"

end
