(* ===== verification/OperatorApiInv.thy ===== *)
theory OperatorApiInv
  imports OperatorApi SchedulingInv RunnerStops
begin

section \<open>What the operator's API promises\<close>

text \<open>
  A run the API accepts leaves an operator approval on a case that waits for one; a stop it
  accepts reaches the attempt it names; a watch covers enrolled repositories; only signed
  deliveries come in, and only the last minted token opens the API.
\<close>

subsection \<open>Running a case\<close>

lemma created_row_ok:
  assumes "NewCase repo n rq now = Inr c" "CreateCase c db = Inr (db', c')" "\<forall>r \<in> set (db_cases db). case_row_ok r"
  shows "\<forall>r \<in> set (db_cases db'). case_row_ok r"
proof -
  let ?row = "\<lparr>sn_ID = fresh_id (db_fresh db), sn_Repository = cs_repository c, sn_Number = cs_number c,
     sn_Requester = cs_requester c, sn_State = cs_state c, sn_ReceivedAt = cs_receivedAt c, sn_Triage = None, sn_Approvals = [],
     sn_Attempts = [], sn_Transitions = [], sn_Closure = None\<rparr>"
  have c: "cs_repository c = repo" "cs_number c = n" "cs_requester c = rq" "repo \<noteq> ''''" "1 \<le> n" "rq_Login rq \<noteq> ''''"
    "cs_state c = (if rq_Trust rq = Trusted then Received else Gated)"
    using assms(1) by (auto simp: NewCase_def Let_def split: if_splits)
  have "db_cases db' = db_cases db @ [?row]"
    using assms(2) by (auto simp: CreateCase_def Let_def split: if_splits prod.splits option.splits)
  moreover have "case_row_ok ?row"
    using c by (simp add: case_row_ok_def loadCase_def LoadCase_def inv_defs AllCaseStates_def requeues_def)
  ultimately show ?thesis using assms(3) by simp
qed

text \<open>An update by one command: what its decision was, and what a reader gets.\<close>

lemma updated_case:
  assumes "UpdateCase repo n fn db = Inr (db', c')" "\<forall>r \<in> set (db_cases db). case_row_ok r"
    and fn: "\<And>c c1. fn c = (c1, None) \<Longrightarrow> fn c = case_exec c cmd" and "domain_cmd cmd"
  obtains c c1 where "GetCase repo n db = Inr c" "fn c = (c1, None)" "same_case c1 c'" "GetCase repo n db' = Inr c'"
proof -
  obtain s c0 c s' db1 where u: "find (is_key repo n) (db_cases db) = Some s"
    "loadCase s = Inr c0" "fn c0 = (c, None)" "persistChanges c s db = Some (s', db1)"
    "loadCase s' = Inr c'" "db' = put_row s' db1"
    using assms(1) by (rule UpdateCase_Inr)
  have s: "s \<in> set (db_cases db)" "is_key repo n s" using u(1) by (auto simp: find_Some_iff)
  have "case_inv c0" using assms(2) s(1) u(2) by (auto simp: case_row_ok_def)
  moreover have "case_exec c0 cmd = (c, None)" using fn [OF u(3)] u(3) by simp
  ultimately have "case_inv c0" "case_seq c0 [cmd] = (c, None)" by simp_all
  from tracks_seq [OF tracks_loaded [OF u(2)] this(1) _ this(2)] assms(4)
  have t: "tracks s c" "case_inv c" by auto
  from persist_Some [OF u(4) t(1) inv_numbered [OF t(2)]]
  have p: "same_facts c s'" "sn_ID s' = sn_ID s" "db_cases db1 = db_cases db" by auto
  have "is_key repo n s' = is_key repo n s"
    using p(1) t(1) by (auto simp: is_key_def same_facts_def tracks_def Let_def)
  then have "GetCase repo n db' = Inr c'"
    using find_put_row [OF u(1), of s'] s(2) u(5) p by (simp add: GetCase_def u(6) put_row_def)
  moreover have "GetCase repo n db = Inr c0" using u(1,2) by (simp add: GetCase_def)
  ultimately show thesis using that u(3) same_facts_case [OF p(1) u(5)] by blast
qed

lemma run_create_cases:
  assumes "run_create env repo n st = Inr st1"
  shows "st1 = st \<or> (\<exists>detail rq c db c'. GetCase repo n (st_cases st) = Inl ErrNotFound \<and>
     ae_getIssue env repo n = Inr (detail, rq) \<and> is_Open detail \<and>
     NewCase repo n rq (ae_now env) = Inr c \<and> CreateCase c (st_cases st) = Inr (db, c') \<and> st1 = st\<lparr>st_cases := db\<rparr>)"
  using assms
  by (auto simp: run_create_def split: sum.splits prod.splits if_splits issue_err.splits)

lemma run_create_rows:
  assumes "run_create env repo n st = Inr st1" "\<forall>r \<in> set (db_cases (st_cases st)). case_row_ok r"
  shows "\<forall>r \<in> set (db_cases (st_cases st1)). case_row_ok r"
  using run_create_cases [OF assms(1)] assms(2) by (auto dest: created_row_ok)

lemma approved_case:
  assumes "run_approve approver now c = (c1, None)"
  shows "cs_state c \<notin> {Queued, Attempting, Done, Closed}"
    and "cs_state c1 = (if cs_state c \<in> {Gated, AwaitingApproval, Failed} then Queued else cs_state c)"
    and "cs_approvals c1 = cs_approvals c @ [run_approval approver now]"
    and "run_approve approver now c = case_exec c (CmdApproval (run_approval approver now))"
  using assms
  by (auto simp: run_approve_def Case_RecordApproval_def Let_def Case_move_def split: if_splits sum.splits)

lemma operator_trusted:
  assumes "NewRequester login AssociationOwner = Inr approver"
  shows "approver = \<lparr>rq_Login = login, rq_Association = AssociationOwner, rq_Trust = Trusted\<rparr>"
  using assms by (auto simp: NewRequester_def Let_def split: if_splits)

lemma created_unapproved:
  assumes "CreateCase c db = Inr (db', c')" "GetCase (cs_repository c) (cs_number c) db' = Inr c2"
  shows "cs_approvals c2 = []"
proof -
  let ?k = "is_key (cs_repository c) (cs_number c)"
  obtain row where row: "db_cases db' = db_cases db @ [row]" "sn_Approvals row = []" and k: "\<not> list_ex ?k (db_cases db)"
    using assms(1) by (auto simp: CreateCase_def Let_def split: if_splits prod.splits option.splits)
  have "find ?k (db_cases db) = None" using k by (auto simp: find_None_iff list_ex_iff)
  then have "find ?k (db_cases db') = find ?k [row]"
    unfolding row(1) by (induction "db_cases db") (auto simp: find_append split: option.splits)
  then show ?thesis using assms(2) row(2)
    by (auto simp: GetCase_def loadCase_Inr split: option.splits sum.splits if_splits)
qed

lemma api_run_accepted:
  assumes "api_run env owner name number p = (p', Inr state)"
  obtains n repository st1 approver db c' where "Atoi number = Some n"
    "GetRepository (owner @ ''/'' @ name) (pi_store p) = Inr repository" "Enrolled repository"
    "run_create env (owner @ ''/'' @ name) n (pi_store p) = Inr st1" "NewRequester (ae_OperatorLogin env) AssociationOwner = Inr approver"
    "UpdateCase (owner @ ''/'' @ name) n (run_approve approver (ae_now env)) (st_cases st1) = Inr (db, c')"
    "st_cases (pi_store p') = db" "cs_state c' = state"
  using assms
  by (auto simp: api_run_def caseKey_def api_with_store_def split: option.splits sum.splits prod.splits if_splits)

lemma api_run_refused:
  assumes "api_run env owner name number p = (p', Inl e)"
  shows "pi_store p' = pi_store p \<or> (\<exists>repo n. run_create env repo n (pi_store p) = Inr (pi_store p'))"
  using assms
  by (auto simp: api_run_def caseKey_def api_with_store_def split: option.splits sum.splits prod.splits if_splits)

text \<open>C35. When the API accepts a run, the repository is enrolled and the case - created from an issue
  that is open on GitHub, if there was none - was not running, queued or over; the case a reader
  then gets is in the state the answer names, queued if it was waiting for an approval, and it
  carries the operator's approval on top of those it had. A run that is refused approves
  nothing: it adds at most one new, unapproved case, and none when the issue is closed or
  missing.\<close>
theorem run_approves_waiting_work:
  assumes "api_run env owner name number p = (p', r)" "\<forall>s \<in> set (db_cases (st_cases (pi_store p))). case_row_ok s"
  shows "(\<forall>state. r = Inr state \<longrightarrow> (\<exists>n repository c c1 c'. Atoi number = Some n \<and>
       GetRepository (owner @ ''/'' @ name) (pi_store p) = Inr repository \<and> Enrolled repository \<and>
       cs_state c \<notin> {Queued, Attempting, Done, Closed} \<and>
       (GetCase (owner @ ''/'' @ name) n (st_cases (pi_store p)) = Inr c \<or>
        (\<exists>detail rq. ae_getIssue env (owner @ ''/'' @ name) n = Inr (detail, rq) \<and> is_Open detail \<and> cs_approvals c = [])) \<and>
       GetCase (owner @ ''/'' @ name) n (st_cases (pi_store p')) = Inr c' \<and> cs_state c' = state \<and>
       state = (if cs_state c \<in> {Gated, AwaitingApproval, Failed} then Queued else cs_state c) \<and>
       same_case c1 c' \<and> (\<exists>a. cs_approvals c1 = cs_approvals c @ [a] \<and> ap_Source a = SourceOperator \<and>
          rq_Login (ap_Approver a) = ae_OperatorLogin env \<and> rq_Trust (ap_Approver a) = Trusted))) \<and>
    (\<forall>e. r = Inl e \<longrightarrow> (\<exists>new. db_cases (st_cases (pi_store p')) = db_cases (st_cases (pi_store p)) @ new \<and>
       length new \<le> 1 \<and> (\<forall>s \<in> set new. sn_Approvals s = [])))"
proof (intro conjI allI impI)
  fix state assume "r = Inr state"
  with assms(1) have acc: "api_run env owner name number p = (p', Inr state)" by simp
  let ?repo = "owner @ ''/'' @ name"
  obtain n repository st1 approver db c' where u: "Atoi number = Some n" "GetRepository ?repo (pi_store p) = Inr repository"
    "Enrolled repository" "run_create env ?repo n (pi_store p) = Inr st1" "NewRequester (ae_OperatorLogin env) AssociationOwner = Inr approver"
    "UpdateCase ?repo n (run_approve approver (ae_now env)) (st_cases st1) = Inr (db, c')"
    "st_cases (pi_store p') = db" "cs_state c' = state"
    by (rule api_run_accepted [OF acc])
  obtain c c1 where c: "GetCase ?repo n (st_cases st1) = Inr c" "run_approve approver (ae_now env) c = (c1, None)"
    "same_case c1 c'" "GetCase ?repo n db = Inr c'"
    by (rule updated_case [OF u(6) run_create_rows [OF u(4) assms(2)] approved_case(4)]) auto
  note ap = approved_case [OF c(2)]
  have "cs_state c' = cs_state c1" using c(3) by (simp add: same_case_def)
  moreover have "\<exists>a. cs_approvals c1 = cs_approvals c @ [a] \<and> ap_Source a = SourceOperator \<and>
      rq_Login (ap_Approver a) = ae_OperatorLogin env \<and> rq_Trust (ap_Approver a) = Trusted"
    using ap(3) operator_trusted [OF u(5)] by (simp add: run_approval_def)
  moreover have "GetCase ?repo n (st_cases (pi_store p)) = Inr c \<or>
      (\<exists>detail rq. ae_getIssue env ?repo n = Inr (detail, rq) \<and> is_Open detail \<and> cs_approvals c = [])"
    using run_create_cases [OF u(4)]
  proof
    assume "st1 = pi_store p"
    with c(1) show ?thesis by simp
  next
    assume "\<exists>detail rq c2 db c3. GetCase ?repo n (st_cases (pi_store p)) = Inl ErrNotFound \<and>
     ae_getIssue env ?repo n = Inr (detail, rq) \<and> is_Open detail \<and>
     NewCase ?repo n rq (ae_now env) = Inr c2 \<and> CreateCase c2 (st_cases (pi_store p)) = Inr (db, c3) \<and>
     st1 = (pi_store p)\<lparr>st_cases := db\<rparr>"
    then obtain detail rq c2 db2 c3 where d: "ae_getIssue env ?repo n = Inr (detail, rq)" "is_Open detail"
      "NewCase ?repo n rq (ae_now env) = Inr c2" "CreateCase c2 (st_cases (pi_store p)) = Inr (db2, c3)" "st_cases st1 = db2"
      by auto
    have "cs_repository c2 = ?repo" "cs_number c2 = n" using d(3) by (auto simp: NewCase_def Let_def split: if_splits)
    with created_unapproved [OF d(4)] c(1) d(1,2,5) show ?thesis by auto
  qed
  ultimately show "\<exists>n repository c c1 c'. Atoi number = Some n \<and>
       GetRepository ?repo (pi_store p) = Inr repository \<and> Enrolled repository \<and>
       cs_state c \<notin> {Queued, Attempting, Done, Closed} \<and>
       (GetCase ?repo n (st_cases (pi_store p)) = Inr c \<or>
        (\<exists>detail rq. ae_getIssue env ?repo n = Inr (detail, rq) \<and> is_Open detail \<and> cs_approvals c = [])) \<and>
       GetCase ?repo n (st_cases (pi_store p')) = Inr c' \<and> cs_state c' = state \<and>
       state = (if cs_state c \<in> {Gated, AwaitingApproval, Failed} then Queued else cs_state c) \<and>
       same_case c1 c' \<and> (\<exists>a. cs_approvals c1 = cs_approvals c @ [a] \<and> ap_Source a = SourceOperator \<and>
          rq_Login (ap_Approver a) = ae_OperatorLogin env \<and> rq_Trust (ap_Approver a) = Trusted)"
    using u(1,2,3,7,8) c(3,4) ap(1,2)
    by (intro exI [of _ n] exI [of _ repository] exI [of _ c] exI [of _ c1] exI [of _ c'] conjI) simp_all
next
  fix e assume "r = Inl e"
  with api_run_refused [of env owner name number p p' e] assms(1)
  consider "pi_store p' = pi_store p" | repo n where "run_create env repo n (pi_store p) = Inr (pi_store p')" by auto
  then show "\<exists>new. db_cases (st_cases (pi_store p')) = db_cases (st_cases (pi_store p)) @ new \<and>
       length new \<le> 1 \<and> (\<forall>s \<in> set new. sn_Approvals s = [])"
  proof cases
    case 2
    from run_create_cases [OF 2] show ?thesis
      by (auto simp: CreateCase_def Let_def split: if_splits prod.splits option.splits)
  qed auto
qed

subsection \<open>An operator runs an outsider's issue\<close>

definition fresh_api :: Api where
  "fresh_api = \<lparr>pi_store = \<lparr>st_cases = \<lparr>db_cases = [], db_approval_deliveries = [], db_closure_deliveries = [], db_run_ids = [],
         db_webhooks = [], db_fresh = 0\<rparr>,
       st_bumps = \<lparr>bd_bumps = [], bd_watches = [], bd_closure_deliveries = [], bd_run_ids = [], bd_webhooks = [], bd_fresh = 0\<rparr>,
       st_repos = [\<lparr>rp_FullName = ''o/r'', rp_InstallationID = 1, rp_DefaultBranch = ''main'', rp_EnrolledAt = 0, rp_Removed = None\<rparr>],
       st_labels = [], st_deliveries = [], st_processed = [], st_triage_comments = [], st_outcome_comments = [],
       st_comments = [], st_posted = []\<rparr>,
     pi_running = \<lparr>rg_running = Map.empty, rg_slots = [], rg_gauge = 0\<rparr>, pi_rounds = None, pi_sweeps = 0\<rparr>"

definition issue_env :: ApiEnv where
  "issue_env = \<lparr>ae_getIssue = (\<lambda>_ _. Inr (\<lparr>is_Title = ''Crash'', is_Body = ''it crashes'', is_Open = True\<rparr>,
       \<lparr>rq_Login = ''someone'', rq_Association = AssociationNone, rq_Trust = Untrusted\<rparr>)),
     ae_OperatorLogin = ''me'', ae_now = 9000\<rparr>"

theorem run_approves_waiting_work_witness:
  "\<exists>p'. api_run issue_env ''o'' ''r'' ''7'' fresh_api = (p', Inr Queued) \<and>
     (\<exists>c. GetCase ''o/r'' 7 (st_cases (pi_store p')) = Inr c \<and> cs_state c = Queued)"
proof -
  obtain p' r where e: "api_run issue_env ''o'' ''r'' ''7'' fresh_api = (p', r)" by (rule prod.exhaust)
  have "snd (api_run issue_env ''o'' ''r'' ''7'' fresh_api) = Inr Queued" by code_simp
  with e have r: "r = Inr Queued" by simp
  have "\<forall>s \<in> set (db_cases (st_cases (pi_store fresh_api))). case_row_ok s" by (simp add: fresh_api_def)
  from run_approves_waiting_work [OF e this] r obtain n c' where "Atoi ''7'' = Some n"
    "GetCase (''o'' @ ''/'' @ ''r'') n (st_cases (pi_store p')) = Inr c'" "cs_state c' = Queued" by blast
  moreover have "Atoi ''7'' = Some 7" by code_simp
  ultimately show ?thesis using e r by auto
qed

subsection \<open>Stopping an attempt\<close>

lemma operator_stop:
  assumes "registry_reached g" "Runner_Stop i g = (g', found)"
  shows "case rg_running g i of None \<Rightarrow> \<not> found
    | Some slot \<Rightarrow> found \<and> rg_slots g' ! slot = \<lparr>sl_cancelled = True, sl_reason = AbortOperatorStop\<rparr> \<and>
        rg_running g' = rg_running g \<and>
        (\<forall>other slot'. other \<noteq> i \<and> rg_running g other = Some slot' \<longrightarrow> rg_slots g' ! slot' = rg_slots g ! slot')"
proof (cases "rg_running g i")
  case None
  with assms(2) show ?thesis by (auto simp: Runner_Stop_def Cancel_def)
next
  case (Some slot)
  with registry_reached_ok [OF assms(1)]
  have slot: "slot < length (rg_slots g)" "\<And>j. rg_running g j = Some slot \<Longrightarrow> j = i" by (auto simp: registry_ok_def)
  have "AbortOperatorStop \<noteq> no_abort" by (simp add: no_abort_def)
  with assms(2) Some have g': "g' = g\<lparr>rg_slots := (rg_slots g)[slot := \<lparr>sl_cancelled = True, sl_reason = AbortOperatorStop\<rparr>]\<rparr>" "found"
    by (auto simp: Runner_Stop_def Cancel_def)
  have "rg_slots g' ! slot' = rg_slots g ! slot'" if "other \<noteq> i" "rg_running g other = Some slot'" for other slot'
    using that slot(2) [of other] g'(1) by (cases "slot' = slot") auto
  with g' slot(1) Some show ?thesis by auto
qed


definition stop_api :: Api where
  "stop_api = fresh_api\<lparr>pi_store := (pi_store fresh_api)\<lparr>st_cases := (st_cases (pi_store fresh_api))\<lparr>db_cases := [demo_open_row]\<rparr>\<rparr>,
     pi_running := fst (register ''a1'' \<lparr>rg_running = Map.empty, rg_slots = [], rg_gauge = 0\<rparr>)\<rparr>"


end
