(* ===== verification/CommandsInv.thy ===== *)
theory CommandsInv
  imports Commands OperatorApiInv
begin

section \<open>Commands and daemon together\<close>

text \<open>
  References the command line prints are references it reads; a command that names an issue or a
  pull request reaches the handler of that one and no other; and a login leaves the token the
  guard asks for.
\<close>

subsection \<open>Numbers and references\<close>

lemma digits_val_append: "digits_val acc (a @ b) = Option.bind (digits_val acc a) (\<lambda>v. digits_val v b)"
  by (induction a arbitrary: acc) (simp_all split: Option.bind_split)

lemma digit_val_char: "d < 10 \<Longrightarrow> digit_val (digit_char d) = Some (int d)"
  by (simp add: digit_val_def digit_char_def)

lemma digits_val_show: "digits_val 0 (show_nat n) = Some (int n)"
proof (induction n rule: show_nat.induct)
  case (1 n)
  show ?case
  proof (cases "n < 10")
    case True
    then show ?thesis by (simp add: show_nat.simps [of n] digit_val_char)
  next
    case False
    have "int (n div 10) * 10 + int (n mod 10) = int n"
      by (metis div_mult_mod_eq of_nat_add of_nat_mult of_nat_numeral)
    with 1 False show ?thesis by (simp add: show_nat.simps [of n] digits_val_append digit_val_char)
  qed
qed

lemma show_nat_nonempty: "show_nat n \<noteq> []"
  by (simp add: show_nat.simps [of n])

lemma Atoi_show:
  assumes "0 \<le> n" "n < 2 ^ 63"
  shows "Atoi (show_int n) = Some n"
proof -
  obtain c t where s: "show_nat (nat n) = c # t" using show_nat_nonempty by (cases "show_nat (nat n)") auto
  then have "48 \<le> (of_char c :: nat)" using show_nat_digit [of c "nat n"] by simp
  then have "c \<noteq> CHR ''-''" "c \<noteq> CHR ''+''" by auto
  with assms s digits_val_show [of "nat n"] show ?thesis by (simp add: Atoi_def show_int_def Let_def)
qed

lemma Atoi_range: "Atoi s = Some n \<Longrightarrow> n < 2 ^ 63"
  by (auto simp: Atoi_def Let_def split: if_splits prod.splits option.splits)

lemma Cut_at: "c \<notin> set a \<Longrightarrow> Cut (a @ c # b) c = (a, b, True)"
  by (induction a) auto

lemma Cut_parts: "Cut s c = (a, b, True) \<Longrightarrow> s = a @ c # b \<and> c \<notin> set a"
  by (induction s arbitrary: a) (auto split: if_splits prod.splits)

lemma Split_never_empty: "Split s c \<noteq> []"
  by (induction s) (auto split: list.splits)

lemma Split_one: "Split s c = [a] \<Longrightarrow> s = a"
  by (induction s arbitrary: a) (auto simp: Split_never_empty split: if_splits list.splits)

lemma Split_two: "Split s c = [a, b] \<Longrightarrow> s = a @ c # b"
  by (induction s arbitrary: a) (auto simp: Split_never_empty split: if_splits list.splits dest: Split_one)

lemma parseRef_ok:
  assumes "parseRef ref = Inr (repo, n)"
  shows "1 \<le> n \<and> n < 2 ^ 63 \<and> CHR ''#'' \<notin> set repo \<and> Contains repo ''/''"
proof -
  obtain a b ok where c: "Cut ref CHR ''#'' = (a, b, ok)" by (cases "Cut ref CHR ''#''")
  then have "ok \<and> a = repo \<and> Contains a ''/'' \<and> Atoi b = Some n \<and> \<not> n < 1"
    using assms by (auto simp: parseRef_def Let_def split: if_splits option.splits)
  with c Cut_parts [of ref "CHR ''#''" a b] Atoi_range [of b n] show ?thesis by auto
qed

text \<open>What a command prints for an issue names it again.\<close>

lemma parseRef_ref_text:
  assumes "1 \<le> n" "n < 2 ^ 63" "CHR ''#'' \<notin> set repo" "Contains repo ''/''"
  shows "parseRef (ref_text repo n) = Inr (repo, n)"
  using assms Cut_at [of "CHR ''#''" repo "show_int n"] Atoi_show [of n] by (simp add: parseRef_def ref_text_def)

subsection \<open>From the command to the handler\<close>

text \<open>
  How the client's request arrives: a path of segments that need no escaping is decoded as it is;
  and what the client makes of an answer: the body of a status 2xx, an error otherwise.
\<close>

definition unreserved :: "char \<Rightarrow> bool" where
  "unreserved c =
     (let n = (of_char c :: nat) in (48 \<le> n \<and> n \<le> 57) \<or> (65 \<le> n \<and> n \<le> 90) \<or> (97 \<le> n \<and> n \<le> 122) \<or> c \<in> {CHR ''-'', CHR ''.'', CHR ''_'', CHR ''~''})"

definition plain_segment :: "string \<Rightarrow> bool" where
  "plain_segment s = (list_all unreserved s \<and> s \<notin> {'''', ''.'', ''..''})"

definition sent_as :: "string \<Rightarrow> Call \<Rightarrow> HttpRequest \<Rightarrow> bool" where
  "sent_as tok c r =
     (ht_Method r = cl_Method c \<and> ht_Authorization r = ''Bearer '' @ tok \<and>
      (let segs = Split (drop 1 (cl_Path c)) CHR ''/'' in list_all plain_segment segs \<longrightarrow> ht_Path r = segs))"

definition relays :: "ServeEnv \<Rightarrow> HttpRequest \<Rightarrow> Served \<Rightarrow> string + json \<Rightarrow> bool" where
  "relays env r d ans =
     (case snd (serve env r d) of (code, body) \<Rightarrow>
        if code div 100 = 2 then (case body of None \<Rightarrow> isl ans | Some j \<Rightarrow> ans = Inr j) else isl ans)"

lemma show_int_plain:
  assumes "1 \<le> n"
  shows "plain_segment (show_int n)"
proof -
  have d: "unreserved (digit_char m)" if "m < 10" for m using that by (auto simp: unreserved_def digit_char_def Let_def)
  have u: "list_all unreserved (show_nat k)" for k
  proof (induction k rule: show_nat.induct)
    case (1 k)
    then show ?case using d [of k] d [of "k mod 10"] by (cases "k < 10") (simp_all add: show_nat.simps [of k])
  qed
  have "CHR ''.'' \<notin> set (show_nat k)" for k using show_nat_digit [of "CHR ''.''" k] by auto
  then have "show_nat k \<notin> {'''', ''.'', ''..''}" for k using show_nat_nonempty [of k] by (metis insertE list.set_intros(1) singletonD)
  with u assms show ?thesis by (simp add: plain_segment_def show_int_def)
qed

lemma path_of_ref:
  assumes "Split repo CHR ''/'' = [owner, name]" "plain_segment owner" "plain_segment name" "1 \<le> n"
    and "CHR ''/'' \<notin> set kind"
  shows "Split (drop 1 (ref_path kind repo n)) CHR ''/'' = [''api'', kind, owner, name, show_int n]"
    and "CHR ''/'' \<notin> set tail \<Longrightarrow> Split (drop 1 (ref_path kind repo n @ CHR ''/'' # tail)) CHR ''/'' =
      [''api'', kind, owner, name, show_int n, tail]"
proof -
  have slash: "CHR ''/'' \<notin> set s" if "plain_segment s" for s
    using that by (auto simp: plain_segment_def list_all_iff unreserved_def)
  have "repo = owner @ CHR ''/'' # name" using assms(1) by (rule Split_two)
  then show "Split (drop 1 (ref_path kind repo n)) CHR ''/'' = [''api'', kind, owner, name, show_int n]"
    and "CHR ''/'' \<notin> set tail \<Longrightarrow> Split (drop 1 (ref_path kind repo n @ CHR ''/'' # tail)) CHR ''/'' =
      [''api'', kind, owner, name, show_int n, tail]"
    using slash [OF assms(2)] slash [OF assms(3)] slash [OF show_int_plain [OF assms(4)]] assms(5)
    by (simp_all add: ref_path_def Split_append Split_no_sep)
qed

text \<open>The calls of the commands that name an issue or a pull request, with their endpoints.\<close>

definition ref_calls :: "string \<Rightarrow> int \<Rightarrow> (Call \<times> Endpoint) list" where
  "ref_calls repo n =
     [(GetCall (ref_path ''cases'' repo n) [], EpCase), (PostCall (ref_path ''cases'' repo n @ ''/run''), EpRun),
      (GetCall (ref_path ''bumps'' repo n) [], EpBump), (PostCall (ref_path ''bumps'' repo n @ ''/retry''), EpRetry)]"

lemma serve_guarded:
  assumes "find (\<lambda>(m, pat, _, _). method_matches m (ht_Method r) \<and> path_match pat (ht_Path r) \<noteq> None) (routes (sv_deps env)) =
      Some (m, pat, True, ep)" "path_match pat (ht_Path r) = Some args"
    and "Auth_Validate (sv_hash env) (sd_token d) tok = Inr True" "ht_Authorization r = ''Bearer '' @ tok"
  shows "serve env r d = handle env ep args r d"
proof -
  have "Auth_Middleware (sv_hash env) (sd_token d) (ht_Authorization r) u = Inr u" for u :: unit
    unfolding Auth_Middleware_def assms(4) using assms(3) by (simp add: TrimPrefix_def)
  then show ?thesis unfolding serve_def assms(1) by (simp add: assms(2))
qed

definition finds :: "Deps \<Rightarrow> string \<Rightarrow> string list \<Rightarrow> string list \<Rightarrow> Endpoint \<Rightarrow> bool" where
  "finds deps m path args ep =
     (\<exists>pat. find (\<lambda>(m', pat, _, _). method_matches m' m \<and> path_match pat path \<noteq> None) (routes deps) = Some (m, pat, True, ep) \<and>
       path_match pat path = Some args)"

lemma finds_ref:
  assumes "dp_Store deps" "owner \<noteq> ''''" "name \<noteq> ''''" "num \<noteq> ''''"
  shows "finds deps ''GET'' [''api'', ''cases'', owner, name, num] [owner, name, num] EpCase"
    and "finds deps ''POST'' [''api'', ''cases'', owner, name, num, ''run''] [owner, name, num] EpRun"
    and "finds deps ''GET'' [''api'', ''bumps'', owner, name, num] [owner, name, num] EpBump"
    and "finds deps ''POST'' [''api'', ''bumps'', owner, name, num, ''retry''] [owner, name, num] EpRetry"
  using assms unfolding finds_def
  by (cases "dp_Webhook deps"; cases "dp_Deploy deps"; simp add: routes_def open_routes_def store_routes_def method_matches_def)+

lemma finds_serve:
  assumes "finds (sv_deps env) (ht_Method r) (ht_Path r) args ep"
    and "Auth_Validate (sv_hash env) (sd_token d) tok = Inr True" "ht_Authorization r = ''Bearer '' @ tok"
  shows "serve env r d = handle env ep args r d"
  using assms serve_guarded unfolding finds_def by blast

lemma sent_path:
  "sent_as tok c r \<Longrightarrow> Split (drop 1 (cl_Path c)) CHR ''/'' = segs \<Longrightarrow> list_all plain_segment segs \<Longrightarrow>
    ht_Method r = cl_Method c \<and> ht_Path r = segs \<and> ht_Authorization r = ''Bearer '' @ tok"
  by (simp add: sent_as_def)

lemma plain_words: "plain_segment ''api''" "plain_segment ''cases''" "plain_segment ''bumps''" "plain_segment ''run''" "plain_segment ''retry''"
  by (simp_all add: plain_segment_def unreserved_def Let_def)

lemma ref_call_served:
  assumes "(c, ep) \<in> set (ref_calls repo n)" "Split repo CHR ''/'' = [owner, name]" "plain_segment owner" "plain_segment name" "1 \<le> n"
    and "sent_as tok c r" "dp_Store (sv_deps env)" "Auth_Validate (sv_hash env) (sd_token d) tok = Inr True"
  shows "serve env r d = handle env ep [owner, name, show_int n] r d"
proof -
  define num where "num = show_int n"
  have p: "plain_segment num" using show_int_plain assms(5) by (simp add: num_def)
  then have ne: "owner \<noteq> ''''" "name \<noteq> ''''" "num \<noteq> ''''" using assms(3,4) by (auto simp: plain_segment_def)
  note paths = path_of_ref [OF assms(2-5), folded num_def] and f = finds_ref [OF assms(7) ne]
  have go: ?thesis if "Split (drop 1 (cl_Path c)) CHR ''/'' = segs" "list_all plain_segment segs"
    "finds (sv_deps env) (cl_Method c) segs [owner, name, num] ep" for segs
    using finds_serve [OF _ assms(8)] sent_path [OF assms(6) that(1,2)] that(3) unfolding num_def by simp
  from assms(1) consider
      "c = GetCall (ref_path ''cases'' repo n) []" "ep = EpCase" | "c = PostCall (ref_path ''cases'' repo n @ ''/run'')" "ep = EpRun"
    | "c = GetCall (ref_path ''bumps'' repo n) []" "ep = EpBump" | "c = PostCall (ref_path ''bumps'' repo n @ ''/retry'')" "ep = EpRetry"
    unfolding ref_calls_def by auto
  then show ?thesis
  proof cases
    case 1
    then show ?thesis using go [of "[''api'', ''cases'', owner, name, num]"] paths(1) [of "''cases''"] f(1) assms(3,4) p plain_words
      by (simp add: GetCall_def)
  next
    case 2
    then show ?thesis using go [of "[''api'', ''cases'', owner, name, num, ''run'']"] paths(2) [of "''cases''" "''run''"] f(2) assms(3,4) p plain_words
      by (simp add: PostCall_def)
  next
    case 3
    then show ?thesis using go [of "[''api'', ''bumps'', owner, name, num]"] paths(1) [of "''bumps''"] f(3) assms(3,4) p plain_words
      by (simp add: GetCall_def)
  next
    case 4
    then show ?thesis using go [of "[''api'', ''bumps'', owner, name, num, ''retry'']"] paths(2) [of "''bumps''" "''retry''"] f(4) assms(3,4) p plain_words
      by (simp add: PostCall_def)
  qed
qed

lemma caseKey_ref:
  assumes "parseRef ref = Inr (repo, n)" "Split repo CHR ''/'' = [owner, name]"
  shows "caseKey owner name (show_int n) = Inr (repo, n)"
proof -
  have r: "repo = owner @ CHR ''/'' # name" using assms(2) by (rule Split_two)
  have n: "1 \<le> n" "Atoi (show_int n) = Some n" using parseRef_ok [OF assms(1)] Atoi_show by auto
  show ?thesis using n unfolding caseKey_def r by simp
qed

subsection \<open>Logging in and running\<close>

definition login_call :: Call where
  "login_call = PostCall ''/api/auth/mint''"

definition run_call :: "string \<Rightarrow> int \<Rightarrow> Call" where
  "run_call repo n = PostCall (ref_path ''cases'' repo n @ ''/run'')"

lemma serve_mint:
  assumes "ht_Method r = ''POST''" "ht_Path r = [''api'', ''auth'', ''mint'']"
  shows "serve env r d = handle env EpMint [] r d"
proof -
  have "find (\<lambda>(m, pat, _, _). method_matches m (ht_Method r) \<and> path_match pat (ht_Path r) \<noteq> None) (routes (sv_deps env)) =
      Some (''POST'', [Lit ''api'', Lit ''auth'', Lit ''mint''], False, EpMint)"
    using assms by (simp add: routes_def open_routes_def method_matches_def)
  then show ?thesis using assms by (simp add: serve_def)
qed

lemma mint_stores_its_token:
  assumes "api_mint hash loopback header env stored = (stored', Inr token)"
  shows "Auth_Validate hash stored' token = Inr True \<and> loopback"
  using assms by (auto simp: api_mint_def Auth_Mint_def Auth_Validate_def split: if_splits sum.splits option.splits)

lemma login_leaves_the_token:
  assumes "ht_Method r = ''POST''" "ht_Path r = [''api'', ''auth'', ''mint'']"
    and "relays env r d (cn_call cl '''' login_call)" "auth_login cl f stored = (stored', cs, Inr msg)"
  shows "\<exists>tok. stored' = Some tok \<and> Auth_Validate (sv_hash env) (sd_token (fst (serve env r d))) tok = Inr True \<and> ht_Loopback r"
proof -
  obtain st' res where m: "api_mint (sv_hash env) (ht_Loopback r) (ht_Header r) (sv_mint env) (sd_token d) = (st', res)"
    by (rule prod.exhaust)
  have s: "serve env r d = (d\<lparr>sd_token := st'\<rparr>, reply 200 (\<lambda>t. JObj [(''token'', JStr t)]) res)"
    using serve_mint [OF assms(1,2)] m by (simp add: handle_def)
  have ok: "\<exists>v tok. cn_call cl '''' login_call = Inr v \<and> Option.bind (struct v) (text_field cl ''token'') = Some tok \<and> stored' = Some tok"
    using assms(4) by (auto simp: auth_login_def login_call_def Let_def split: sum.splits option.splits)
  show ?thesis
  proof (cases res)
    case (Inl e)
    have "writeErr e \<in> {400, 403, 404, 409, 500, 502}" by (cases e) (auto simp: writeErr_def split: serr.splits derr.splits)
    then show ?thesis using assms(3) ok by (auto simp: relays_def s reply_def Inl isl_def)
  next
    case (Inr t)
    then have "cn_call cl '''' login_call = Inr (JObj [(''token'', JStr t)])" using assms(3) by (simp add: relays_def s reply_def)
    with ok have "stored' = Some t" by (simp add: struct_def text_field_def field_def)
    with mint_stores_its_token [OF m [unfolded Inr]] show ?thesis by (simp add: s)
  qed
qed

text \<open>C39. The operator's way in works end to end. A login that succeeds was made on the daemon's machine
  and leaves in the token file the token the daemon's guard asks for. With that token, until
  another is minted, a run of an issue reaches the run handler of exactly that issue, whatever
  else the daemon serves; it succeeds on the command line exactly if the handler accepts it, and
  what it prints is the issue, by a reference the command line reads back, with the state the
  handler left its case in. Asked of the client library: a path that needs no escaping
  arrives as its segments, an answer of status 2xx is its body and any other an error.\<close>
theorem login_opens_the_command_line:
  assumes "ht_Method r0 = ''POST''" "ht_Path r0 = [''api'', ''auth'', ''mint'']"
    and "relays env r0 d0 (cn_call cl '''' login_call)" "auth_login cl f stored = (Some tok, cs, Inr msg)"
    and "cn_token cl = Inr tok" "sd_token d = sd_token (fst (serve env r0 d0))" "dp_Store (sv_deps env)"
    and "parseRef ref = Inr (repo, n)" "Split repo CHR ''/'' = [owner, name]" "plain_segment owner" "plain_segment name"
    and "sent_as tok (run_call repo n) r" "relays env r d (cn_call cl tok (run_call repo n))"
  shows "ht_Loopback r0 \<and>
    serve env r d = handle env EpRun [owner, name, show_int n] r d \<and>
    caseKey owner name (show_int n) = Inr (repo, n) \<and>
    (case snd (api_run (sv_api env) owner name (show_int n) (sd_api d)) of
       Inl _ \<Rightarrow> \<exists>e. run_cmd cl ref = ([run_call repo n], Inl e)
     | Inr s \<Rightarrow> run_cmd cl ref = ([run_call repo n], Inr (ref_text repo n @ '': '' @ CaseState_string s @ NL)) \<and>
         parseRef (ref_text repo n) = Inr (repo, n))"
proof -
  have tok: "Auth_Validate (sv_hash env) (sd_token d) tok = Inr True" "ht_Loopback r0"
    using login_leaves_the_token [OF assms(1-4)] assms(6) by auto
  have n: "1 \<le> n" "n < 2 ^ 63" "CHR ''#'' \<notin> set repo" "Contains repo ''/''" using parseRef_ok [OF assms(8)] by auto
  have "(run_call repo n, EpRun) \<in> set (ref_calls repo n)" by (simp add: ref_calls_def run_call_def)
  from ref_call_served [OF this assms(9-11) n(1) assms(12,7) tok(1)]
  have h: "serve env r d = handle env EpRun [owner, name, show_int n] r d" .
  have repo: "repo = owner @ CHR ''/'' # name" using assms(9) by (rule Split_two)
  have cmd: "run_cmd cl ref = ask cl tok (run_call repo n) (state_line cl)"
    using assms(5,8) by (simp add: run_cmd_def on_ref_def apiClient_def run_call_def)
  have out: "snd (serve env r d) = reply 202 (\<lambda>s. state_json [owner, name, show_int n] (CaseState_string s))
      (snd (api_run (sv_api env) owner name (show_int n) (sd_api d)))"
    unfolding h by (simp add: handle_def act_def Let_def)
  have "case snd (api_run (sv_api env) owner name (show_int n) (sd_api d)) of
       Inl _ \<Rightarrow> \<exists>e. run_cmd cl ref = ([run_call repo n], Inl e)
     | Inr s \<Rightarrow> run_cmd cl ref = ([run_call repo n], Inr (ref_text repo n @ '': '' @ CaseState_string s @ NL)) \<and>
         parseRef (ref_text repo n) = Inr (repo, n)"
  proof (cases "snd (api_run (sv_api env) owner name (show_int n) (sd_api d))")
    case (Inl e)
    have "writeErr e \<in> {400, 403, 404, 409, 500, 502}" by (cases e) (auto simp: writeErr_def split: serr.splits derr.splits)
    then have "isl (cn_call cl tok (run_call repo n))" using assms(13) by (auto simp: relays_def out reply_def Inl isl_def)
    then show ?thesis by (auto simp: cmd ask_def Inl isl_def)
  next
    case (Inr s)
    then have "cn_call cl tok (run_call repo n) = Inr (state_json [owner, name, show_int n] (CaseState_string s))"
      using assms(13) by (simp add: relays_def out reply_def)
    then show ?thesis using Atoi_show [of n] n parseRef_ref_text [OF n]
      by (simp add: cmd ask_def Inr state_json_def state_line_def struct_def text_field_def int_field_def field_def repo)
  qed
  with tok(2) h caseKey_ref [OF assms(8,9)] show ?thesis by blast
qed

subsection \<open>An operator on the daemon's machine\<close>

definition on_wire :: "string \<Rightarrow> Call \<Rightarrow> HttpRequest" where
  "on_wire tok c = stale_run\<lparr>ht_Method := cl_Method c, ht_Path := Split (drop 1 (cl_Path c)) CHR ''/'',
     ht_Authorization := ''Bearer '' @ tok\<rparr>"

definition lab_env :: ServeEnv where
  "lab_env = idle_env\<lparr>sv_api := issue_env\<rparr>"

definition new_daemon :: Served where
  "new_daemon = \<lparr>sd_api = fresh_api, sd_token = Inr None\<rparr>"

definition minted_daemon :: Served where
  "minted_daemon = fst (serve lab_env (on_wire '''' login_call) new_daemon)"

definition answered :: "int \<times> json option \<Rightarrow> string + json" where
  "answered a = (case a of (code, body) \<Rightarrow> if code div 100 = 2 then (case body of None \<Rightarrow> Inl ''no body'' | Some j \<Rightarrow> Inr j) else Inl ''refused'')"

definition lab_client :: Client where
  "lab_client = \<lparr>cn_token = Inr ''new'',
     cn_call = (\<lambda>tok c. answered (snd (serve lab_env (on_wire tok c) (if tok = '''' then new_daemon else minted_daemon)))),
     cn_time = (\<lambda>_. ''now''), cn_indent = (\<lambda>_. ''{}'')\<rparr>"

definition lab_file :: TokenFile where
  "lab_file = \<lparr>tf_path = Inr ''/h/token'', tf_mkdir = None, tf_write = None, tf_remove = None\<rparr>"

lemma answered_relays: "relays env r d (answered (snd (serve env r d)))"
  by (auto simp: relays_def answered_def split: prod.splits option.splits)

theorem login_opens_the_command_line_witness:
  "snd (snd (auth_login lab_client lab_file None)) = Inr (''token written to /h/token'' @ NL) \<and>
   snd (run_cmd lab_client ''o/r#07'') = Inr (''o/r#7: queued'' @ NL)"
proof -
  have ref: "parseRef ''o/r#07'' = Inr (''o/r'', 7)" "Split ''o/r'' CHR ''/'' = [''o'', ''r'']" by code_simp+
  have plain: "plain_segment ''o''" "plain_segment ''r''" by (simp_all add: plain_segment_def unreserved_def Let_def)
  have req: "ht_Method (on_wire '''' login_call) = ''POST''" "ht_Path (on_wire '''' login_call) = [''api'', ''auth'', ''mint'']"
    by (simp_all add: on_wire_def login_call_def PostCall_def)
  have minted: "snd (serve lab_env (on_wire '''' login_call) new_daemon) = (200, Some (JObj [(''token'', JStr ''new'')]))"
    unfolding serve_mint [OF req]
    by (simp add: handle_def api_mint_def Auth_Mint_def reply_def lab_env_def idle_env_def new_daemon_def on_wire_def stale_run_def proxyHeaders_def Let_def)
  have login: "auth_login lab_client lab_file None = (Some ''new'', [login_call], Inr (''token written to /h/token'' @ NL))"
    using minted by (simp add: auth_login_def lab_client_def lab_file_def login_call_def answered_def struct_def text_field_def field_def)
  have one: "relays lab_env (on_wire '''' login_call) new_daemon (cn_call lab_client '''' login_call)"
    and two: "relays lab_env (on_wire ''new'' (run_call ''o/r'' 7)) minted_daemon (cn_call lab_client ''new'' (run_call ''o/r'' 7))"
    using answered_relays by (simp_all add: lab_client_def)
  have sent: "sent_as ''new'' (run_call ''o/r'' 7) (on_wire ''new'' (run_call ''o/r'' 7))"
    by (simp add: sent_as_def on_wire_def Let_def)
  have tok: "cn_token lab_client = Inr ''new''" "sd_token minted_daemon = sd_token (fst (serve lab_env (on_wire '''' login_call) new_daemon))"
    "dp_Store (sv_deps lab_env)" by (simp_all add: lab_client_def minted_daemon_def lab_env_def idle_env_def)
  have run: "snd (api_run (sv_api lab_env) ''o'' ''r'' (show_int 7) (sd_api minted_daemon)) = Inr Queued" by code_simp
  have line: "ref_text ''o/r'' 7 @ '': '' @ CaseState_string Queued @ NL = ''o/r#7: queued'' @ NL" by code_simp
  from login_opens_the_command_line [OF req one login tok ref plain sent two] login run line
  show ?thesis by simp
qed

end
