(* ===== verification/Metrics.thy ===== *)
theory Metrics
  imports Complex_Main ApiBodies
begin

section \<open>Metrics\<close>

text \<open>
  \<^verbatim>\<open>internal/api/metrics.go\<close>, \<^verbatim>\<open>metrics_hooks.go\<close>, \<^verbatim>\<open>metrics_runner.go\<close> and the interfaces of the
  packages that report. The Prometheus library is outside: what a hook asks of it is a list of
  emissions, and the library's conditions on one - a vector that is registered, as many label
  values as the vector has labels, a counter that only grows, or it panics - are the predicate
  \<open>emission_ok\<close>. A \<^verbatim>\<open>float64\<close> is a rational. Help texts and buckets are left out.
\<close>

subsection \<open>The vectors\<close>

datatype metric = Counter | Gauge | Histogram

type_synonym vector = "string \<times> metric \<times> string list"

definition AttemptsTotal :: vector where "AttemptsTotal = (''autophage_attempts_total'', Counter, [''kind'', ''outcome''])"
definition AttemptTokens :: vector where "AttemptTokens = (''autophage_attempt_tokens_total'', Counter, [''direction''])"
definition AttemptWallClock :: vector where "AttemptWallClock = (''autophage_attempt_wall_clock_seconds'', Histogram, [])"
definition DeliveriesTotal :: vector where "DeliveriesTotal = (''autophage_deliveries_total'', Counter, [''event'', ''result''])"
definition AttemptsRunning :: vector where "AttemptsRunning = (''autophage_attempts_running'', Gauge, [])"
definition AttemptStepSeconds :: vector where "AttemptStepSeconds = (''autophage_attempt_step_seconds'', Histogram, [''step''])"
definition AttemptStepErrors :: vector where "AttemptStepErrors = (''autophage_attempt_step_errors_total'', Counter, [''step''])"
definition AttemptToolCalls :: vector where "AttemptToolCalls = (''autophage_attempt_tool_calls_total'', Counter, [''tool'', ''result''])"
definition AttemptToolSeconds :: vector where "AttemptToolSeconds = (''autophage_attempt_tool_seconds'', Histogram, [''tool''])"
definition AttemptTurns :: vector where "AttemptTurns = (''autophage_attempt_turns'', Histogram, [])"
definition AttemptDiffLines :: vector where "AttemptDiffLines = (''autophage_attempt_diff_lines'', Histogram, [])"
definition AttemptStops :: vector where "AttemptStops = (''autophage_attempt_stops_total'', Counter, [''stop''])"
definition Sweeps :: vector where "Sweeps = (''autophage_sweeps_total'', Counter, [])"
definition SweepStepSeconds :: vector where "SweepStepSeconds = (''autophage_sweep_step_seconds'', Histogram, [''step''])"
definition SweepStepErrors :: vector where "SweepStepErrors = (''autophage_sweep_step_errors_total'', Counter, [''step''])"
definition Triages :: vector where "Triages = (''autophage_triages_total'', Counter, [''size'', ''result''])"
definition TriageSeconds :: vector where "TriageSeconds = (''autophage_triage_seconds'', Histogram, [])"
definition CommentPosts :: vector where "CommentPosts = (''autophage_comment_posts_total'', Counter, [''result''])"
definition GitHubRequests :: vector where "GitHubRequests = (''autophage_github_requests_total'', Counter, [''method'', ''status''])"
definition GitHubRequestSeconds :: vector where "GitHubRequestSeconds = (''autophage_github_request_seconds'', Histogram, [''method''])"
definition GitHubRetries :: vector where "GitHubRetries = (''autophage_github_retries_total'', Counter, [''reason''])"
definition GitHubRateLimitRemaining :: vector where "GitHubRateLimitRemaining = (''autophage_github_rate_limit_remaining'', Gauge, [])"
definition ModelRequests :: vector where "ModelRequests = (''autophage_model_requests_total'', Counter, [''model'', ''result''])"
definition ModelPromptTokens :: vector where "ModelPromptTokens = (''autophage_model_prompt_tokens'', Histogram, [''model''])"
definition ModelLatency :: vector where "ModelLatency = (''autophage_model_latency_seconds'', Histogram, [''model''])"
definition ModelTokens :: vector where "ModelTokens = (''autophage_model_tokens_total'', Counter, [''model'', ''direction''])"
definition ModelCost :: vector where "ModelCost = (''autophage_model_cost_usd_total'', Counter, [''model''])"
definition RepairsTotal :: vector where "RepairsTotal = (''autophage_repairs_total'', Counter, [''outcome''])"
definition RepairTokens :: vector where "RepairTokens = (''autophage_repair_tokens_total'', Counter, [''direction''])"
definition RepairWallClock :: vector where "RepairWallClock = (''autophage_repair_wall_clock_seconds'', Histogram, [])"

text \<open>What is computed on every scrape.\<close>

definition daemon_info :: vector where "daemon_info = (''autophage_daemon_info'', Gauge, [''version''])"
definition daemon_start :: vector where "daemon_start = (''autophage_daemon_start_time_seconds'', Gauge, [])"
definition last_delivery :: vector where "last_delivery = (''autophage_last_delivery_timestamp_seconds'', Gauge, [])"
definition queue_depth :: vector where "queue_depth = (''autophage_queue_depth'', Gauge, [])"
definition repair_queue_depth :: vector where "repair_queue_depth = (''autophage_repair_queue_depth'', Gauge, [])"
definition watched_repositories :: vector where "watched_repositories = (''autophage_watched_repositories'', Gauge, [])"
definition casesDesc :: vector where "casesDesc = (''autophage_cases'', Gauge, [''state''])"
definition bumpsDesc :: vector where "bumpsDesc = (''autophage_bumps'', Gauge, [''state''])"
definition verdictsDesc :: vector where "verdictsDesc = (''autophage_check_verdicts'', Gauge, [''conclusion''])"
definition abandonsDesc :: vector where "abandonsDesc = (''autophage_bump_abandonments'', Gauge, [''reason''])"

definition registered :: "vector list" where
  "registered =
     [AttemptsTotal, AttemptTokens, AttemptWallClock, DeliveriesTotal,
      AttemptsRunning, AttemptStepSeconds, AttemptStepErrors, AttemptToolCalls, AttemptToolSeconds, AttemptTurns, AttemptDiffLines, AttemptStops,
      Sweeps, SweepStepSeconds, SweepStepErrors, CommentPosts, Triages, TriageSeconds,
      GitHubRequests, GitHubRequestSeconds, GitHubRetries, GitHubRateLimitRemaining,
      ModelRequests, ModelLatency, ModelPromptTokens, ModelTokens, ModelCost,
      daemon_info, daemon_start, last_delivery, queue_depth, casesDesc,
      RepairsTotal, RepairTokens, RepairWallClock, repair_queue_depth, watched_repositories,
      bumpsDesc, verdictsDesc, abandonsDesc]"

subsection \<open>Emissions\<close>

datatype change = AddBy rat | SetTo rat | Observed rat

type_synonym emission = "vector \<times> string list \<times> change"

definition Inc :: "vector \<Rightarrow> string list \<Rightarrow> emission" where
  "Inc v ls = (v, ls, AddBy 1)"

definition emission_ok :: "emission \<Rightarrow> bool" where
  "emission_ok e =
     (case e of ((name, kind, labels), values, ch) \<Rightarrow>
        (name, kind, labels) \<in> set registered \<and> length values = length labels \<and>
        (case ch of AddBy x \<Rightarrow> kind = Gauge \<or> (kind = Counter \<and> 0 \<le> x) | SetTo _ \<Rightarrow> kind = Gauge | Observed _ \<Rightarrow> kind = Histogram))"

definition seconds :: "Duration \<Rightarrow> rat" where
  "seconds d = rat_of_int d / 1000000000"

definition resultOf :: "string option \<Rightarrow> string" where
  "resultOf err = (if err \<noteq> None then ''error'' else ''ok'')"

subsection \<open>Hooks of the services\<close>

definition sweep_hook :: "emission list" where
  "sweep_hook = [Inc Sweeps []]"

definition step_hook :: "string \<Rightarrow> Duration \<Rightarrow> string option \<Rightarrow> emission list" where
  "step_hook step d err =
     (SweepStepSeconds, [step], Observed (seconds d)) # (if err \<noteq> None then [Inc SweepStepErrors [step]] else [])"

definition triage_hook :: "string \<Rightarrow> string \<Rightarrow> Duration \<Rightarrow> emission list" where
  "triage_hook sz result d = [Inc Triages [sz, result], (TriageSeconds, [], Observed (seconds d))]"

definition post_hook :: "string \<Rightarrow> emission list" where
  "post_hook result = [Inc CommentPosts [result]]"

definition request_hook :: "string \<Rightarrow> string \<Rightarrow> Duration \<Rightarrow> emission list" where
  "request_hook meth status d = [Inc GitHubRequests [meth, status], (GitHubRequestSeconds, [meth], Observed (seconds d))]"

definition retry_hook :: "string \<Rightarrow> emission list" where
  "retry_hook reason = [Inc GitHubRetries [reason]]"

definition rate_limit_hook :: "int \<Rightarrow> emission list" where
  "rate_limit_hook n = [(GitHubRateLimitRemaining, [], SetTo (rat_of_int n))]"

definition delivery_hook :: "string \<Rightarrow> string \<Rightarrow> emission list" where
  "delivery_hook event result = [Inc DeliveriesTotal [event, result]]"

record ModelUsage =
  mu_Latency :: Duration
  mu_PromptTokens :: int
  mu_CompletionTokens :: int
  mu_ReasoningTokens :: int
  mu_CacheReadTokens :: int
  mu_CacheWriteTokens :: int
  mu_Cost :: rat

definition model_hook :: "string \<Rightarrow> ModelUsage \<Rightarrow> string option \<Rightarrow> emission list" where
  "model_hook model u err =
     Inc ModelRequests [model, resultOf err] #
     (if err \<noteq> None then []
      else [(ModelLatency, [model], Observed (seconds (mu_Latency u))),
        (ModelPromptTokens, [model], Observed (rat_of_int (i64 (i64 (mu_PromptTokens u + mu_CacheReadTokens u) + mu_CacheWriteTokens u)))),
        (ModelTokens, [model, ''prompt''], AddBy (rat_of_int (mu_PromptTokens u))),
        (ModelTokens, [model, ''completion''], AddBy (rat_of_int (mu_CompletionTokens u))),
        (ModelTokens, [model, ''reasoning''], AddBy (rat_of_int (mu_ReasoningTokens u))),
        (ModelTokens, [model, ''cache_read''], AddBy (rat_of_int (mu_CacheReadTokens u))),
        (ModelTokens, [model, ''cache_write''], AddBy (rat_of_int (mu_CacheWriteTokens u))),
        (ModelCost, [model], AddBy (mu_Cost u))])"

subsection \<open>Hooks of the runners\<close>

definition running_hook :: "int \<Rightarrow> emission list" where
  "running_hook delta = [(AttemptsRunning, [], AddBy (rat_of_int delta))]"

definition pipeline_hook :: "string \<Rightarrow> Duration \<Rightarrow> string option \<Rightarrow> emission list" where
  "pipeline_hook step d err =
     (AttemptStepSeconds, [step], Observed (seconds d)) # (if err \<noteq> None then [Inc AttemptStepErrors [step]] else [])"

definition tool_hook :: "string \<Rightarrow> Duration \<Rightarrow> string option \<Rightarrow> emission list" where
  "tool_hook tool d err = [(AttemptToolSeconds, [tool], Observed (seconds d)), Inc AttemptToolCalls [tool, resultOf err]]"

definition ended_hook :: "string \<Rightarrow> string \<Rightarrow> string \<Rightarrow> Usage \<Rightarrow> emission list" where
  "ended_hook kind outcome stop u =
     [Inc AttemptsTotal [kind, outcome], (AttemptTokens, [''input''], AddBy (rat_of_int (us_InputTokens u))),
      (AttemptTokens, [''output''], AddBy (rat_of_int (us_OutputTokens u))),
      (AttemptWallClock, [], Observed (seconds (us_WallClock u))), (AttemptTurns, [], Observed (rat_of_int (us_Turns u))),
      (AttemptDiffLines, [], Observed (rat_of_int (us_DiffLines u))), Inc AttemptStops [stop]]"

definition repair_ended_hook :: "string \<Rightarrow> Usage \<Rightarrow> emission list" where
  "repair_ended_hook outcome u =
     [Inc RepairsTotal [outcome], (RepairTokens, [''input''], AddBy (rat_of_int (us_InputTokens u))),
      (RepairTokens, [''output''], AddBy (rat_of_int (us_OutputTokens u))), (RepairWallClock, [], Observed (seconds (us_WallClock u)))]"

subsection \<open>A scrape\<close>

type_synonym sample = "vector \<times> string list \<times> rat"

definition counts_samples :: "vector \<Rightarrow> string list \<Rightarrow> (string \<rightharpoonup> nat) \<Rightarrow> sample list" where
  "counts_samples v labels m = concat (map (\<lambda>l. case m l of None \<Rightarrow> [] | Some n \<Rightarrow> [(v, [l], rat_of_nat n)]) labels)"

text \<open>
  \<open>zero_time\<close> is a start time that was never set; \<open>unix\<close> are the seconds of an instant. The
  database answers: a query that fails shows a zero, or no samples, and nothing else.
\<close>

definition scrape :: "(Time \<Rightarrow> int) \<Rightarrow> string \<Rightarrow> Time option \<Rightarrow> Store \<Rightarrow> sample list" where
  "scrape unix version startedAt st =
     [(daemon_info, [version], 1),
      (daemon_start, [], (case startedAt of None \<Rightarrow> 0 | Some t \<Rightarrow> rat_of_int (unix t))),
      (last_delivery, [], (case LastDeliveryAt st of None \<Rightarrow> 0 | Some t \<Rightarrow> rat_of_int (unix t))),
      (queue_depth, [], rat_of_nat (length (QueuedCases st)))] @
     counts_samples casesDesc (map CaseState_string AllCaseStates) (CountByState st) @
     [(repair_queue_depth, [], rat_of_nat (length (QueuedBumps (st_bumps st)))),
      (watched_repositories, [], rat_of_nat (length (WatchedRepositories (st_bumps st))))] @
     counts_samples bumpsDesc (map BumpState_string AllBumpStates) (CountBumpsByState st) @
     counts_samples verdictsDesc (map CheckConclusion_string AllCheckConclusions) (CountVerdictsByConclusion st) @
     counts_samples abandonsDesc (map AbandonReason_string AllAbandonReasons) (CountAbandonmentsByReason st)"

text \<open>One call of a hook, and the emissions it makes.\<close>

datatype Report =
    RSweep
  | RStep string Duration "string option"
  | RTriage string string Duration
  | RPost string
  | RRequest string string Duration
  | RRetry string
  | RRateLimit int
  | RDelivery string string
  | RModel string ModelUsage "string option"
  | RRunning int
  | RPipeline string Duration "string option"
  | RTool string Duration "string option"
  | REnded string string string Usage
  | RRepairEnded string Usage

fun emissions :: "Report \<Rightarrow> emission list" where
  "emissions RSweep = sweep_hook"
| "emissions (RStep step d err) = step_hook step d err"
| "emissions (RTriage sz result d) = triage_hook sz result d"
| "emissions (RPost result) = post_hook result"
| "emissions (RRequest meth status d) = request_hook meth status d"
| "emissions (RRetry reason) = retry_hook reason"
| "emissions (RRateLimit n) = rate_limit_hook n"
| "emissions (RDelivery event result) = delivery_hook event result"
| "emissions (RModel model u err) = model_hook model u err"
| "emissions (RRunning delta) = running_hook delta"
| "emissions (RPipeline step d err) = pipeline_hook step d err"
| "emissions (RTool tool d err) = tool_hook tool d err"
| "emissions (REnded kind outcome stop u) = ended_hook kind outcome stop u"
| "emissions (RRepairEnded outcome u) = repair_ended_hook outcome u"

text \<open>What a report must not carry: a count below zero.\<close>

fun report_ok :: "Report \<Rightarrow> bool" where
  "report_ok (RModel model u err) =
     (err = None \<longrightarrow> 0 \<le> mu_PromptTokens u \<and> 0 \<le> mu_CompletionTokens u \<and> 0 \<le> mu_ReasoningTokens u \<and>
        0 \<le> mu_CacheReadTokens u \<and> 0 \<le> mu_CacheWriteTokens u \<and> 0 \<le> mu_Cost u)"
| "report_ok (REnded kind outcome stop u) = (0 \<le> us_InputTokens u \<and> 0 \<le> us_OutputTokens u)"
| "report_ok (RRepairEnded outcome u) = (0 \<le> us_InputTokens u \<and> 0 \<le> us_OutputTokens u)"
| "report_ok _ = True"

lemmas vector_defs = AttemptsTotal_def AttemptTokens_def AttemptWallClock_def DeliveriesTotal_def AttemptsRunning_def
  AttemptStepSeconds_def AttemptStepErrors_def AttemptToolCalls_def AttemptToolSeconds_def AttemptTurns_def AttemptDiffLines_def
  AttemptStops_def Sweeps_def SweepStepSeconds_def SweepStepErrors_def Triages_def TriageSeconds_def CommentPosts_def
  GitHubRequests_def GitHubRequestSeconds_def GitHubRetries_def GitHubRateLimitRemaining_def ModelRequests_def
  ModelPromptTokens_def ModelLatency_def ModelTokens_def ModelCost_def RepairsTotal_def RepairTokens_def RepairWallClock_def
  daemon_info_def daemon_start_def last_delivery_def queue_depth_def repair_queue_depth_def watched_repositories_def
  casesDesc_def bumpsDesc_def verdictsDesc_def abandonsDesc_def

lemma registered_names: "distinct (map fst registered)"
  unfolding registered_def by code_simp

text \<open>An emission on a vector of the list is judged by the vector alone.\<close>

definition takes :: "vector \<Rightarrow> nat \<Rightarrow> change \<Rightarrow> bool" where
  "takes v n ch = (n = length (snd (snd v)) \<and>
     (case ch of AddBy x \<Rightarrow> fst (snd v) = Gauge \<or> (fst (snd v) = Counter \<and> 0 \<le> x)
      | SetTo _ \<Rightarrow> fst (snd v) = Gauge | Observed _ \<Rightarrow> fst (snd v) = Histogram))"

lemma emission_takes: "v \<in> set registered \<Longrightarrow> emission_ok (v, ls, ch) \<longleftrightarrow> takes v (length ls) ch"
  by (cases v; cases ch) (auto simp: emission_ok_def takes_def)

lemma vectors_registered:
  "set [AttemptsTotal, AttemptTokens, AttemptWallClock, DeliveriesTotal, AttemptsRunning, AttemptStepSeconds, AttemptStepErrors,
     AttemptToolCalls, AttemptToolSeconds, AttemptTurns, AttemptDiffLines, AttemptStops, Sweeps, SweepStepSeconds, SweepStepErrors,
     CommentPosts, Triages, TriageSeconds, GitHubRequests, GitHubRequestSeconds, GitHubRetries, GitHubRateLimitRemaining,
     ModelRequests, ModelLatency, ModelPromptTokens, ModelTokens, ModelCost, RepairsTotal, RepairTokens, RepairWallClock] \<subseteq> set registered"
  unfolding registered_def by auto

lemmas hooks = sweep_hook_def step_hook_def triage_hook_def post_hook_def request_hook_def retry_hook_def rate_limit_hook_def
  delivery_hook_def model_hook_def running_hook_def pipeline_hook_def tool_hook_def ended_hook_def repair_ended_hook_def Inc_def

lemma hooks_meet_the_library: "report_ok r \<Longrightarrow> e \<in> set (emissions r) \<Longrightarrow> emission_ok e"
proof -
  note reg = vectors_registered [simplified]
  assume "report_ok r" "e \<in> set (emissions r)"
  then show ?thesis
    by (cases r) (auto simp: hooks emission_takes reg split: if_splits; simp add: takes_def vector_defs)+
qed

subsection \<open>Counting rows\<close>

definition total :: "vector \<Rightarrow> sample list \<Rightarrow> rat" where
  "total v ss = sum_list (map (\<lambda>(w, _, x). if w = v then x else 0) ss)"

lemma total_append: "total v (a @ b) = total v a + total v b"
  by (simp add: total_def)

lemma total_Cons: "total v ((w, ls, x) # ss) = (if w = v then x else 0) + total v ss" "total v [] = 0"
  by (simp_all add: total_def)

lemma total_one: "total v [(w, ls, x)] = (if w = v then x else 0)"
  by (simp add: total_def)

definition count_of :: "(string \<rightharpoonup> nat) \<Rightarrow> string \<Rightarrow> nat" where
  "count_of m l = (case m l of None \<Rightarrow> 0 | Some n \<Rightarrow> n)"

lemma total_counts:
  "total v (counts_samples w labels m) = (if w = v then rat_of_nat (sum_list (map (count_of m) labels)) else 0)"
proof (induction labels)
  case (Cons l labels)
  have "counts_samples w (l # labels) m = (case m l of None \<Rightarrow> [] | Some n \<Rightarrow> [(w, [l], rat_of_nat n)]) @ counts_samples w labels m"
    by (simp add: counts_samples_def)
  moreover have "total v (case m l of None \<Rightarrow> [] | Some n \<Rightarrow> [(w, [l], rat_of_nat n)]) = (if w = v then rat_of_nat (count_of m l) else 0)"
    by (cases "m l") (simp_all add: total_def count_of_def)
  ultimately show ?case using Cons by (simp add: total_append)
qed (simp add: counts_samples_def total_def)

lemma count_group: "count_of (group_count xs label) l = length (filter (\<lambda>x. label x = l) xs)"
  by (simp add: count_of_def group_count_def Let_def)

lemma count_into: "count_of (countInto (seeded labels) m) l = count_of m l"
  by (simp add: count_of_def countInto_def seeded_def map_add_def split: option.splits)

lemma partition_length:
  assumes "distinct labels" "\<forall>x \<in> set xs. label x \<in> set labels"
  shows "sum_list (map (\<lambda>l. length (filter (\<lambda>x. label x = l) xs)) labels) = length xs"
  using assms(2)
proof (induction xs)
  case (Cons x xs)
  have zero: "sum_list (map (\<lambda>l. if a = l then 1 else 0) ls) = (0 :: nat)" if "a \<notin> set ls" for a ls
    using that by (induction ls) auto
  have indicator: "distinct ls \<Longrightarrow> a \<in> set ls \<Longrightarrow> sum_list (map (\<lambda>l. if a = l then 1 else 0) ls) = (1 :: nat)" for a ls
    by (induction ls) (auto simp: zero)
  have one: "sum_list (map (\<lambda>l. if label x = l then 1 else 0) labels) = (1 :: nat)"
    using indicator [OF assms(1)] Cons.prems by simp
  have "map (\<lambda>l. length (filter (\<lambda>y. label y = l) (x # xs))) labels =
      map (\<lambda>l. (if label x = l then 1 else 0) + length (filter (\<lambda>y. label y = l) xs)) labels" by simp
  then have "sum_list (map (\<lambda>l. length (filter (\<lambda>y. label y = l) (x # xs))) labels) =
      sum_list (map (\<lambda>l. if label x = l then 1 else 0) labels) + sum_list (map (\<lambda>l. length (filter (\<lambda>y. label y = l) xs)) labels)"
    by (simp only: sum_list_addf)
  with Cons one show ?case by simp
qed simp

text \<open>The vocabulary's strings are distinct, so no row is counted twice.\<close>

lemma vocabulary_strings:
  "distinct (map CaseState_string AllCaseStates)" "distinct (map BumpState_string AllBumpStates)"
  "distinct (map CheckConclusion_string AllCheckConclusions)" "distinct (map AbandonReason_string AllAbandonReasons)"
  by code_simp+

lemma group_total:
  assumes "distinct (map str vals)" "\<forall>x \<in> set xs. f x \<in> set vals"
  shows "sum_list (map (\<lambda>l. length (filter (\<lambda>x. str (f x) = l) xs)) (map str vals)) = length xs"
  using partition_length [OF assms(1), of xs "str \<circ> f"] assms(2) by auto

text \<open>A scrape shows the store as it is: every case is counted under one state, every bump, verdict and
  abandonment under one of its own, a label without rows shows no more than a zero, and every
  bump state, conclusion and reason is there whether or not there are any bumps.\<close>
theorem scrape_counts_the_store:
  assumes "\<forall>s \<in> set (db_cases (st_cases st)). sn_State s \<in> set AllCaseStates"
    and "\<forall>b \<in> set (bd_bumps (st_bumps st)). bs_State b \<in> set AllBumpStates \<and>
      (\<forall>v \<in> set (bs_Verdicts b). cv_Conclusion v \<in> set AllCheckConclusions) \<and>
      (\<forall>a. bs_Abandonment b = Some a \<longrightarrow> ab_Reason a \<in> set AllAbandonReasons)"
  shows "let ss = scrape unix version startedAt st in total casesDesc ss = rat_of_nat (length (db_cases (st_cases st))) \<and>
    total bumpsDesc ss = rat_of_nat (length (bd_bumps (st_bumps st))) \<and>
    total verdictsDesc ss = rat_of_nat (length (concat (map bs_Verdicts (bd_bumps (st_bumps st))))) \<and>
    total abandonsDesc ss = rat_of_nat (length (filter (\<lambda>b. bs_Abandonment b \<noteq> None) (bd_bumps (st_bumps st))))"
proof -
  define ss where "ss = scrape unix version startedAt st"
  have "total casesDesc ss = rat_of_nat (sum_list (map (count_of (CountByState st)) (map CaseState_string AllCaseStates)))"
    and "total bumpsDesc ss = rat_of_nat (sum_list (map (count_of (CountBumpsByState st)) (map BumpState_string AllBumpStates)))"
    and "total verdictsDesc ss = rat_of_nat (sum_list (map (count_of (CountVerdictsByConclusion st)) (map CheckConclusion_string AllCheckConclusions)))"
    and "total abandonsDesc ss = rat_of_nat (sum_list (map (count_of (CountAbandonmentsByReason st)) (map AbandonReason_string AllAbandonReasons)))"
    unfolding ss_def scrape_def by (simp_all add: total_append total_counts total_Cons vector_defs del: map_map list.map)
  note totals = this
  have ab: "length (List.map_filter bs_Abandonment bs) = length (filter (\<lambda>b. bs_Abandonment b \<noteq> None) bs)" for bs
    by (induction bs) (auto simp: List.map_filter_simps split: option.splits)
  have reasons: "\<forall>a \<in> set (List.map_filter bs_Abandonment (bd_bumps (st_bumps st))). ab_Reason a \<in> set AllAbandonReasons"
    using assms(2) by (auto simp: List.map_filter_def)
  have "sum_list (map (count_of (CountByState st)) (map CaseState_string AllCaseStates)) = length (db_cases (st_cases st))"
    unfolding CountByState_def count_group by (rule group_total [OF vocabulary_strings(1) assms(1)])
  moreover have "sum_list (map (count_of (CountBumpsByState st)) (map BumpState_string AllBumpStates)) = length (bd_bumps (st_bumps st))"
    unfolding CountBumpsByState_def count_into count_group by (rule group_total [OF vocabulary_strings(2)]) (use assms(2) in blast)
  moreover have "sum_list (map (count_of (CountVerdictsByConclusion st)) (map CheckConclusion_string AllCheckConclusions)) =
      length (concat (map bs_Verdicts (bd_bumps (st_bumps st))))"
    unfolding CountVerdictsByConclusion_def count_into count_group
    by (rule group_total [OF vocabulary_strings(3)]) (use assms(2) in auto)
  moreover have "sum_list (map (count_of (CountAbandonmentsByReason st)) (map AbandonReason_string AllAbandonReasons)) =
      length (filter (\<lambda>b. bs_Abandonment b \<noteq> None) (bd_bumps (st_bumps st)))"
    unfolding CountAbandonmentsByReason_def count_into count_group
    by (simp only: group_total [OF vocabulary_strings(4) reasons] ab)
  ultimately show ?thesis unfolding Let_def ss_def [symmetric] by (simp only: totals)
qed

subsection \<open>Labels\<close>

definition stopLabel :: "Stop \<Rightarrow> string" where
  "stopLabel stop = (if stop = StopNone then ''none'' else Stop_string stop)"

definition pipeline_steps :: "string list" where
  "pipeline_steps = [''mint'', ''prepare'', ''start'', ''tools'', ''run'', ''remint'', ''push'', ''conflicts'', ''pull_request'', ''teardown'']"

text \<open>\<^verbatim>\<open>timeStep\<close>: the step's answer is handed back, its time and error reported.\<close>

definition timeStep :: "string \<Rightarrow> Duration \<Rightarrow> string + 'a \<Rightarrow> (string + 'a) \<times> Report" where
  "timeStep name d r = (r, RPipeline name d (case r of Inl e \<Rightarrow> Some e | Inr _ \<Rightarrow> None))"

text \<open>The names of a sweep's steps in \<^verbatim>\<open>internal/app/dispatcher.go\<close>, and what the sweep reports.\<close>

definition sweep_steps :: "bool \<Rightarrow> string list" where
  "sweep_steps upkeep = [''translate'', ''cancel'', ''enroll'', ''triage'', ''comment'', ''schedule''] @
     (if upkeep then [''stale-checks'', ''cancel-repairs'', ''repair''] else [])"

definition sweep_reports :: "bool \<Rightarrow> (string \<Rightarrow> Duration \<times> string option) \<Rightarrow> Report list" where
  "sweep_reports upkeep took = RSweep # map (\<lambda>s. RStep s (fst (took s)) (snd (took s))) (sweep_steps upkeep)"

lemma stopLabel_never_empty: "stopLabel stop \<noteq> ''''"
  by (cases stop) (simp_all add: stopLabel_def)

text \<open>A sweep's reports are what the library takes. The interface's comment calls its six step
  names a closed vocabulary; with upkeep on the sweep reports three more.\<close>

lemma sweep_reports_ok: "r \<in> set (sweep_reports upkeep took) \<Longrightarrow> e \<in> set (emissions r) \<Longrightarrow> emission_ok e"
  by (rule hooks_meet_the_library) (auto simp: sweep_reports_def)

lemma sweep_steps_beyond_the_vocabulary:
  "set (sweep_steps True) - {''translate'', ''cancel'', ''enroll'', ''triage'', ''comment'', ''schedule''} =
    {''stale-checks'', ''cancel-repairs'', ''repair''}"
  by code_simp

end
