(* ===== verification/Toolbox.thy ===== *)
theory Toolbox
  imports ApiBodies
begin

section \<open>The toolbox\<close>

text \<open>
  \<^verbatim>\<open>internal/toolbox/server.go\<close>: what the process inside the container serves. The tools
  themselves (package agentcore) are \<open>ToolLib\<close>, one function of the work dir for each; what one
  does with its arguments, and whether it panics, is \<open>tl_Execute\<close>. The read state that read, write
  and edit share is an argument of theirs. The protocol is the MCP library's.
\<close>

datatype execution = Returns string | Errors string | Panics string

record Tool =
  to_Name :: string
  to_Description :: string
  to_Schema :: "(string \<times> json) list"
  to_ReadOnly :: "bool option"
  to_Execute :: "string \<Rightarrow> execution"

record 'state ToolLib =
  tb_state :: 'state
  tb_read :: "string \<Rightarrow> 'state \<Rightarrow> Tool"
  tb_write :: "string \<Rightarrow> 'state \<Rightarrow> Tool"
  tb_edit :: "string \<Rightarrow> 'state \<Rightarrow> Tool"
  tb_grep :: "string \<Rightarrow> Tool"
  tb_glob :: "string \<Rightarrow> Tool"
  tb_ls :: "string \<Rightarrow> Tool"
  tb_bash :: "string \<Rightarrow> Duration \<Rightarrow> Tool"

record Options =
  op_WorkDir :: string
  op_BashTimeout :: Duration
  op_Extra :: "Tool list"

record CallResult =
  ca_IsError :: bool
  ca_Text :: string

text \<open>A tool as it is served: name, description, schema, the hint that it only reads, its handler.\<close>

record ServedTool =
  se_Name :: string
  se_Description :: string
  se_Schema :: "(string \<times> json) list"
  se_ReadOnlyHint :: bool
  se_Handler :: "string \<Rightarrow> CallResult"

definition tool_handler :: "Tool \<Rightarrow> string \<Rightarrow> CallResult" where
  "tool_handler tool args =
     (case to_Execute tool (if args = '''' then ''{}'' else args) of
        Panics r \<Rightarrow> \<lparr>ca_IsError = True, ca_Text = ''error: tool panicked: '' @ r\<rparr>
      | Errors err \<Rightarrow> \<lparr>ca_IsError = True, ca_Text = err\<rparr>
      | Returns out' \<Rightarrow> \<lparr>ca_IsError = False, ca_Text = out'\<rparr>)"

definition serve_tool :: "Tool \<Rightarrow> ServedTool" where
  "serve_tool tool =
     \<lparr>se_Name = to_Name tool, se_Description = to_Description tool,
      se_Schema = (case map_of (to_Schema tool) ''type'' of
          None \<Rightarrow> (''type'', JStr ''object'') # to_Schema tool
        | Some v \<Rightarrow> if v = JNull then (''type'', JStr ''object'') # to_Schema tool else to_Schema tool),
      se_ReadOnlyHint = (to_ReadOnly tool = Some True), se_Handler = tool_handler tool\<rparr>"

definition NewToolbox :: "'state ToolLib \<Rightarrow> Options \<Rightarrow> string + ServedTool list" where
  "NewToolbox lib opts =
     (if op_WorkDir opts = '''' then Inl ''toolbox: work dir is required''
      else let wd = op_WorkDir opts; st = tb_state lib;
               timeout = (if op_BashTimeout opts \<le> 0 then 900000000000 else op_BashTimeout opts)
           in Inr (map serve_tool
             ([tb_read lib wd st, tb_write lib wd st, tb_edit lib wd st, tb_grep lib wd, tb_glob lib wd, tb_ls lib wd,
               tb_bash lib wd timeout] @ op_Extra opts)))"

text \<open>Whatever a tool does with its arguments, the call is answered; a panic is the model's to read.\<close>

lemma handler_answers:
  "ca_IsError (tool_handler tool args) = (\<nexists>out'. to_Execute tool (if args = '''' then ''{}'' else args) = Returns out')"
  by (simp add: tool_handler_def split: execution.splits)

text \<open>What is served has a schema whose type is set, and with the daemon's options it is the seven tools.\<close>

lemma served_schema:
  assumes "NewToolbox lib opts = Inr ts" "t \<in> set ts"
  shows "\<exists>v. map_of (se_Schema t) ''type'' = Some v \<and> v \<noteq> JNull"
proof -
  obtain tool where "t = serve_tool tool" using assms by (auto simp: NewToolbox_def Let_def split: if_splits)
  then show ?thesis by (auto simp: serve_tool_def split: option.splits)
qed

lemma seven_tools: "NewToolbox lib opts = Inr ts \<Longrightarrow> op_Extra opts = [] \<Longrightarrow> length ts = 7"
  by (auto simp: NewToolbox_def Let_def split: if_splits)

end
