(* ===== verification/Deploy.thy ===== *)
theory Deploy
  imports GoBase
begin

section \<open>The deploy webhook\<close>

text \<open>
  \<^verbatim>\<open>internal/deploy/deploy.go\<close>. Outside the code, and parameters here: the HTTP download of
  a URL (\<open>ev_get\<close>, \<open>None\<close> for an error or a status other than 200), SHA-256 in hex
  (\<open>ev_sha256\<close>), whether writing a temporary file and renaming it over a binary succeeds
  (\<open>ev_write\<close>), the platform's name, and what the GitHub library made of the request (its
  media type, whether the signature validated, the event type, the decoded event). The
  handler's state is its two mutex-guarded fields, the binaries in the install directory,
  the restarts asked for and the answers written; a client sees the first answer. Files
  are keyed by their name in the install directory. \<^verbatim>\<open>strings.Fields\<close> is over ASCII space.
\<close>

record Asset =
  as_Name :: string
  as_URL :: string

record ReleaseEvent =
  re_Action :: string
  re_TagName :: string
  re_Assets :: "Asset list"
  re_FullName :: string

record DeployConfig =
  dc_Repo :: string
  dc_HasSecret :: bool
  dc_Version :: string
  dc_AssetBase :: string
  dc_HasRestart :: bool

record DeployEnv =
  ev_platform :: string
  ev_get :: "string \<Rightarrow> string option"
  ev_sha256 :: "string \<Rightarrow> string"
  ev_write :: "string \<Rightarrow> bool"

record DeployRequest =
  dr_Method :: string
  dr_MediaType :: "string option"
  dr_Signature :: string
  dr_Validates :: bool
  dr_HookType :: string
  dr_Event :: "ReleaseEvent option"

record DeployHandler =
  dh_installed :: string
  dh_pending :: bool
  dh_files :: "string \<rightharpoonup> string"
  dh_restarts :: nat
  dh_answers :: "(nat \<times> string) list"

definition writeJSON :: "DeployHandler \<Rightarrow> nat \<Rightarrow> string \<Rightarrow> DeployHandler" where
  "writeJSON h code body = h\<lparr>dh_answers := dh_answers h @ [(code, body)]\<rparr>"

definition deploy_fail :: "DeployHandler \<Rightarrow> string \<Rightarrow> DeployHandler" where
  "deploy_fail h what = writeJSON h 500 (what @ '': '')"

subsection \<open>Tags\<close>

fun tag_digits :: "string \<Rightarrow> int \<Rightarrow> int option" where
  "tag_digits [] n = Some n"
| "tag_digits (c # p) n =
     (if (of_char c :: nat) < 48 \<or> (of_char c :: nat) > 57 then None
      else tag_digits p (i64 (i64 (n * 10) + int (of_char c - 48))))"

fun tag_parts :: "string list \<Rightarrow> int list option" where
  "tag_parts [] = Some []"
| "tag_parts (p # ps) =
     (case tag_digits p 0 of None \<Rightarrow> None
      | Some n \<Rightarrow> map_option (\<lambda>ns. n # ns) (tag_parts ps))"

definition parseTag :: "string \<Rightarrow> int list option" where
  "parseTag t =
     (if \<not> HasPrefix t ''v'' then None
      else let parts = Split (TrimPrefix t ''v'') CHR ''.'' in
           if length parts \<noteq> 3 then None else tag_parts parts)"

fun newer_parts :: "int list \<Rightarrow> int list \<Rightarrow> bool" where
  "newer_parts (x # xs) (y # ys) = (if x \<noteq> y then x > y else newer_parts xs ys)"
| "newer_parts _ _ = False"

definition tagNewer :: "string \<Rightarrow> string \<Rightarrow> bool" where
  "tagNewer a b =
     (case (parseTag a, parseTag b) of
        (Some pa, Some pb) \<Rightarrow> newer_parts pa pb
      | _ \<Rightarrow> True)"

subsection \<open>Assets\<close>

definition assetURLAllowed :: "string \<Rightarrow> string \<Rightarrow> bool" where
  "assetURLAllowed url prefix =
     (if \<not> HasPrefix url prefix then False
      else let rest = TrimPrefix url prefix in
           \<not> Contains rest ''/../'' \<and> \<not> HasSuffix rest ''/..'' \<and> \<not> Contains rest ''../'')"

definition is_space :: "char \<Rightarrow> bool" where
  "is_space c = (c \<in> {CHR '' '', CHR 0x09, CHR 0x0A, CHR 0x0B, CHR 0x0C, CHR 0x0D})"

fun ascii_fields :: "string \<Rightarrow> string \<Rightarrow> string list" where
  "ascii_fields [] w = (if w = [] then [] else [rev w])"
| "ascii_fields (c # s) w =
     (if is_space c then (if w = [] then ascii_fields s [] else rev w # ascii_fields s [])
      else ascii_fields s (c # w))"

definition map_get :: "(string \<rightharpoonup> string) \<Rightarrow> string \<Rightarrow> string" where
  "map_get mp k = (case mp k of None \<Rightarrow> '''' | Some v \<Rightarrow> v)"

definition fetchSums :: "DeployEnv \<Rightarrow> string \<Rightarrow> (string \<rightharpoonup> string) option" where
  "fetchSums env url =
     (case ev_get env url of None \<Rightarrow> None
      | Some body \<Rightarrow> Some (foldl (\<lambda>sums line.
          case ascii_fields line [] of [sm, name] \<Rightarrow> sums(name \<mapsto> sm) | _ \<Rightarrow> sums)
          Map.empty (Split body CHR 0x0A)))"

definition fetchVerifyInstall ::
    "DeployEnv \<Rightarrow> string \<Rightarrow> string \<Rightarrow> string \<Rightarrow> DeployHandler \<Rightarrow> DeployHandler option" where
  "fetchVerifyInstall env url sm dst h =
     (case ev_get env url of None \<Rightarrow> None
      | Some body \<Rightarrow>
          if ev_sha256 env body \<noteq> sm then None
          else if \<not> ev_write env dst then None
          else Some (h\<lparr>dh_files := (dh_files h)(dst \<mapsto> body)\<rparr>))"

text \<open>The first loop of \<^verbatim>\<open>install\<close>, \<open>Some\<close> with the answer that ends it, and the second.\<close>

fun check_assets ::
    "(string \<rightharpoonup> string) \<Rightarrow> string \<Rightarrow> string \<Rightarrow> string list \<Rightarrow> (nat \<times> string) option" where
  "check_assets assets cli prefix [] = None"
| "check_assets assets cli prefix (name # names) =
     (case assets name of
        None \<Rightarrow> if name = cli then check_assets assets cli prefix names
                else Some (500, ''release has no '' @ name)
      | Some url \<Rightarrow>
          if \<not> assetURLAllowed url prefix then Some (400, ''asset url outside the pinned repository'')
          else check_assets assets cli prefix names)"

fun install_assets ::
    "DeployEnv \<Rightarrow> (string \<rightharpoonup> string) \<Rightarrow> (string \<rightharpoonup> string) \<Rightarrow> string list \<Rightarrow> DeployHandler \<Rightarrow> DeployHandler \<times> bool" where
  "install_assets env assets sums [] h = (h, True)"
| "install_assets env assets sums (name # names) h =
     (case assets name of
        None \<Rightarrow> install_assets env assets sums names h
      | Some url \<Rightarrow>
        (case sums name of
           None \<Rightarrow> (writeJSON h 500 (name @ '' missing from checksums.txt''), False)
         | Some sm \<Rightarrow>
             let dst = take (length name - length (''-'' @ ev_platform env)) name in
             (case fetchVerifyInstall env url sm dst h of
                None \<Rightarrow> (deploy_fail h name, False)
              | Some h' \<Rightarrow> install_assets env assets sums names h')))"

definition want_names :: "DeployEnv \<Rightarrow> string list" where
  "want_names env = [''autophaged-'' @ ev_platform env, ''autophage-'' @ ev_platform env]"

definition asset_map :: "ReleaseEvent \<Rightarrow> (string \<rightharpoonup> string)" where
  "asset_map e = foldl (\<lambda>m a. m(as_Name a \<mapsto> as_URL a)) Map.empty (re_Assets e)"

definition asset_prefix :: "DeployConfig \<Rightarrow> string" where
  "asset_prefix cfg = (if dc_AssetBase cfg = '''' then ''https://github.com/'' else dc_AssetBase cfg) @
     dc_Repo cfg @ ''/releases/download/''"

definition deploy_install ::
    "DeployConfig \<Rightarrow> DeployEnv \<Rightarrow> string \<Rightarrow> ReleaseEvent \<Rightarrow> DeployHandler \<Rightarrow> DeployHandler" where
  "deploy_install cfg env tag e h =
     (let assets = asset_map e;
          want = want_names env
      in case check_assets assets (''autophage-'' @ ev_platform env) (asset_prefix cfg)
               (''checksums.txt'' # want) of
           Some (code, msg) \<Rightarrow> writeJSON h code msg
         | None \<Rightarrow>
          (case fetchSums env (map_get assets ''checksums.txt'') of
             None \<Rightarrow> deploy_fail h ''checksums''
           | Some sums \<Rightarrow>
              (case install_assets env assets sums want h of
                 (h', False) \<Rightarrow> h'
               | (h', True) \<Rightarrow> h'\<lparr>dh_installed := tag\<rparr>)))"

subsection \<open>Cutting over\<close>

text \<open>\<open>idle\<close> is \<open>None\<close> for a handler without an \<^verbatim>\<open>Idle\<close> function, and else its answer.\<close>

definition deploy_restart :: "DeployConfig \<Rightarrow> DeployHandler \<Rightarrow> DeployHandler" where
  "deploy_restart cfg h = (if dc_HasRestart cfg then h\<lparr>dh_restarts := dh_restarts h + 1\<rparr> else h)"

definition cutOver :: "DeployConfig \<Rightarrow> bool option \<Rightarrow> DeployHandler \<Rightarrow> DeployHandler" where
  "cutOver cfg idle h =
     (if idle = None \<or> idle = Some True
      then deploy_restart cfg (writeJSON (h\<lparr>dh_pending := False\<rparr>) 200 ''restarting'')
      else writeJSON (h\<lparr>dh_pending := True\<rparr>) 202 ''deferred until idle'')"

definition MaybeRestart :: "DeployConfig \<Rightarrow> bool option \<Rightarrow> DeployHandler \<Rightarrow> DeployHandler" where
  "MaybeRestart cfg idle h =
     (if \<not> dh_pending h \<or> idle = None \<or> idle = Some False then h
      else deploy_restart cfg (h\<lparr>dh_pending := False\<rparr>))"

subsection \<open>The handler\<close>

definition deploy_serve ::
    "DeployConfig \<Rightarrow> DeployEnv \<Rightarrow> bool option \<Rightarrow> DeployRequest \<Rightarrow> DeployHandler \<Rightarrow> DeployHandler" where
  "deploy_serve cfg env idle r h =
     (if dr_Method r \<noteq> ''POST'' then writeJSON h 405 ''post only''
      else if dr_MediaType r \<noteq> Some ''application/json'' then writeJSON h 400 ''invalid_request''
      else if dr_Signature r = '''' \<or> \<not> dc_HasSecret cfg then writeJSON h 401 ''unauthenticated''
      else if \<not> dr_Validates r then writeJSON h 401 ''unauthenticated''
      else if dr_HookType r \<noteq> ''release'' then writeJSON h 400 ''release events only''
      else case dr_Event r of
        None \<Rightarrow> writeJSON h 400 ''invalid_request''
      | Some e \<Rightarrow>
          if re_TagName e = '''' then writeJSON h 400 ''invalid_request''
          else if re_Action e \<noteq> ''published'' then writeJSON h 200 ''ignored''
          else if re_FullName e \<noteq> dc_Repo cfg then writeJSON h 403 ''wrong repository''
          else
            let tag = re_TagName e in
            if tag = dc_Version cfg then writeJSON h 200 ''current''
            else if tag \<noteq> dh_installed h \<and> dh_installed h \<noteq> '''' \<and> \<not> tagNewer tag (dh_installed h)
            then writeJSON h 200 ''older than installed''
            else cutOver cfg idle
                   (if tag \<noteq> dh_installed h then deploy_install cfg env tag e h else h))"

subsection \<open>Tags that parse as printed\<close>

definition version_tag :: "nat \<Rightarrow> nat \<Rightarrow> nat \<Rightarrow> string" where
  "version_tag a b c = ''v'' @ show_nat a @ ''.'' @ show_nat b @ ''.'' @ show_nat c"

lemma digit_char_code: "d < 10 \<Longrightarrow> (of_char (digit_char d) :: nat) = 48 + d"
  by (simp add: digit_char_def)

lemma tag_digits_append:
  "tag_digits (p @ q) n = (case tag_digits p n of None \<Rightarrow> None | Some m \<Rightarrow> tag_digits q m)"
  by (induction p arbitrary: n) auto

lemma show_nat_digits:
  "int n < 2 ^ 63 \<Longrightarrow> tag_digits (show_nat n) 0 = Some (int n)"
proof (induction n rule: show_nat.induct)
  case (1 n)
  show ?case
  proof (cases "n < 10")
    case True
    have "i64 0 = 0" "i64 (int n) = int n" using True by (auto intro: i64_id)
    with True show ?thesis by (subst show_nat.simps) (simp add: digit_char_code)
  next
    case False
    have d: "int (n div 10) < 2 ^ 63" using 1(2) by linarith
    have e: "int (n div 10) * 10 + int (n mod 10) = int n" by presburger
    have b: "i64 (int (n div 10) * 10) = int (n div 10) * 10" "i64 (int n) = int n"
      using 1(2) e by (intro i64_id; linarith)+
    have "show_nat n = show_nat (n div 10) @ [digit_char (n mod 10)]"
      using False by (subst show_nat.simps) simp
    then show ?thesis
      using 1(1) [OF False d] b e by (simp add: tag_digits_append digit_char_code)
  qed
qed

lemma show_nat_no_dot: "CHR ''.'' \<notin> set (show_nat n)"
proof (induction n rule: show_nat.induct)
  case (1 n)
  have d: "CHR ''.'' \<noteq> digit_char d" if "d < 10" for d
  proof
    assume "CHR ''.'' = digit_char d"
    then have "(of_char CHR ''.'' :: nat) = 48 + d" using digit_char_code [OF that] by metis
    then show False by simp
  qed
  show ?case
  proof (cases "n < 10")
    case True
    with d show ?thesis by (subst show_nat.simps) simp
  next
    case False
    with 1 d [of "n mod 10"] show ?thesis by (subst show_nat.simps) simp
  qed
qed

lemma Split_at_sep: "c \<notin> set p \<Longrightarrow> Split (p @ c # s) c = p # Split s c"
  by (induction p) auto

lemma Split_none: "c \<notin> set p \<Longrightarrow> Split p c = [p]"
  by (induction p) auto

lemma parseTag_version_tag:
  assumes "int a < 2 ^ 63" "int b < 2 ^ 63" "int c < 2 ^ 63"
  shows "parseTag (version_tag a b c) = Some [int a, int b, int c]"
proof -
  have "Split (show_nat a @ CHR ''.'' # show_nat b @ CHR ''.'' # show_nat c) CHR ''.'' =
      [show_nat a, show_nat b, show_nat c]"
    using show_nat_no_dot by (simp add: Split_at_sep Split_none)
  with assms show ?thesis
    by (simp add: parseTag_def version_tag_def TrimPrefix_def show_nat_digits)
qed

subsection \<open>Segments of an allowed URL\<close>

lemma Split_not_Nil: "Split s c \<noteq> []"
  by (induction s) (auto split: list.splits)

lemma Join_Split: "Join (Split s c) [c] = s"
proof (induction s)
  case (Cons x s)
  obtain p ps where ps: "Split s c = p # ps" using Split_not_Nil by (metis list.exhaust)
  with Cons show ?case by (cases ps) auto
qed simp

lemma Join_segment:
  "seg \<in> set ps \<Longrightarrow> \<exists>a b. Join ps [c] = a @ seg @ b \<and>
     (a = [] \<or> (\<exists>a'. a = a' @ [c])) \<and> (b = [] \<or> (\<exists>b'. b = c # b'))"
proof (induction ps "[c]" rule: Join.induct)
  case (3 p q ps)
  show ?case
  proof (cases "seg = p")
    case True
    then show ?thesis by (intro exI [of _ "[]"] exI [of _ "c # Join (q # ps) [c]"]) simp
  next
    case False
    then obtain a b where ab: "Join (q # ps) [c] = a @ seg @ b"
        "a = [] \<or> (\<exists>a'. a = a' @ [c])" "b = [] \<or> (\<exists>b'. b = c # b')"
      using 3 by auto
    have "p @ [c] @ a = [] \<or> (\<exists>a'. p @ [c] @ a = a' @ [c])"
      using ab(2) by auto
    with ab show ?thesis by (intro exI [of _ "p @ [c] @ a"] exI [of _ b]) simp
  qed
qed (auto intro!: exI [of _ "[]"])

lemma HasSuffix_iff: "HasSuffix s p \<longleftrightarrow> (\<exists>a. s = a @ p)"
  unfolding HasSuffix_def HasPrefix_iff by (metis rev_append rev_rev_ident)

lemma allowed_no_parent:
  assumes "assetURLAllowed url prefix"
  shows "\<exists>rest. url = prefix @ rest \<and> (''..'' \<in> set (Split rest CHR ''/'') \<longrightarrow> rest = ''..'')"
proof -
  from assms obtain rest where r: "url = prefix @ rest"
    by (auto simp: assetURLAllowed_def HasPrefix_iff split: if_splits)
  then have t: "TrimPrefix url prefix = rest" by (simp add: TrimPrefix_def)
  have n: "\<not> Contains rest ''../''" "\<not> HasSuffix rest ''/..''"
    using assms by (auto simp: assetURLAllowed_def t Let_def split: if_splits)
  have "rest = ''..''" if seg: "''..'' \<in> set (Split rest CHR ''/'')"
  proof -
    obtain a b where ab: "rest = a @ ''..'' @ b" "a = [] \<or> (\<exists>a'. a = a' @ ''/'')"
        "b = [] \<or> (\<exists>b'. b = CHR ''/'' # b')"
      using Join_segment [OF seg, of "CHR ''/''"] by (auto simp: Join_Split)
    have "b = []"
    proof (rule ccontr)
      assume "b \<noteq> []"
      with ab obtain b' where "rest = a @ ''../'' @ b'" by auto
      with n(1) show False by (auto simp: Contains_iff)
    qed
    moreover have "a = []"
    proof (rule ccontr)
      assume "a \<noteq> []"
      with ab \<open>b = []\<close> obtain a' where "rest = a' @ ''/..''" by auto
      with n(2) show False by (auto simp: HasSuffix_iff)
    qed
    ultimately show ?thesis using ab by simp
  qed
  with r show ?thesis by blast
qed

subsection \<open>What a request can write\<close>

definition verified_write ::
    "DeployConfig \<Rightarrow> DeployEnv \<Rightarrow> DeployRequest \<Rightarrow> string \<Rightarrow> string \<Rightarrow> bool" where
  "verified_write cfg env r dst body =
     (\<exists>e name url sums_url sums sm. dr_Method r = ''POST'' \<and> dc_HasSecret cfg \<and> dr_Validates r \<and>
        dr_HookType r = ''release'' \<and> dr_Event r = Some e \<and> re_Action e = ''published'' \<and>
        re_FullName e = dc_Repo cfg \<and> name \<in> set (want_names env) \<and>
        asset_map e ''checksums.txt'' = Some sums_url \<and> assetURLAllowed sums_url (asset_prefix cfg) \<and>
        fetchSums env sums_url = Some sums \<and> sums name = Some sm \<and>
        asset_map e name = Some url \<and> assetURLAllowed url (asset_prefix cfg) \<and>
        ev_get env url = Some body \<and> ev_sha256 env body = sm \<and>
        name = dst @ ''-'' @ ev_platform env)"

lemma check_assets_None:
  "check_assets assets cli prefix names = None \<Longrightarrow> name \<in> set names \<Longrightarrow> assets name = Some url \<Longrightarrow>
     assetURLAllowed url prefix"
  by (induction names) (auto split: option.splits if_splits)

lemma check_assets_required:
  "check_assets assets cli prefix names = None \<Longrightarrow> name \<in> set names \<Longrightarrow> name \<noteq> cli \<Longrightarrow>
     assets name \<noteq> None"
  by (induction names) (auto split: option.splits if_splits)

lemma install_assets_files:
  assumes "install_assets env assets sums names h = (h', ok)" "dh_files h' dst \<noteq> dh_files h dst"
  shows "\<exists>name \<in> set names. \<exists>url sm body. assets name = Some url \<and> sums name = Some sm \<and>
    ev_get env url = Some body \<and> ev_sha256 env body = sm \<and> dh_files h' dst = Some body \<and>
    dst = take (length name - length (''-'' @ ev_platform env)) name"
  using assms
proof (induction names arbitrary: h)
  case (Cons name names)
  show ?case
  proof (cases "assets name")
    case None
    with Cons show ?thesis by fastforce
  next
    case (Some url)
    show ?thesis
    proof (cases "sums name")
      case None
      with Cons.prems Some show ?thesis by (auto simp: writeJSON_def)
    next
      case sm: (Some sm)
      let ?dst = "take (length name - length (''-'' @ ev_platform env)) name"
      show ?thesis
      proof (cases "fetchVerifyInstall env url sm ?dst h")
        case None
        with Cons.prems Some sm show ?thesis by (auto simp: deploy_fail_def writeJSON_def Let_def)
      next
        case h1: (Some h1)
        then obtain body where body: "ev_get env url = Some body" "ev_sha256 env body = sm"
          "h1 = h\<lparr>dh_files := (dh_files h)(?dst \<mapsto> body)\<rparr>"
          by (auto simp: fetchVerifyInstall_def split: option.splits if_splits)
        have i: "install_assets env assets sums names h1 = (h', ok)"
          using Cons.prems(1) Some sm h1 by (simp add: Let_def)
        show ?thesis
        proof (cases "dh_files h' dst = dh_files h1 dst")
          case True
          then have "dst = ?dst" "dh_files h' dst = Some body"
            using Cons.prems(2) body(3) by (auto split: if_splits)
          with Some sm body show ?thesis by (intro bexI [of _ name]) auto
        next
          case False
          with Cons.IH [OF i] show ?thesis by auto
        qed
      qed
    qed
  qed
qed simp

lemma want_dst:
  assumes "name \<in> set (want_names env)"
  shows "take (length name - length (''-'' @ ev_platform env)) name @ ''-'' @ ev_platform env = name"
  using assms by (auto simp: want_names_def)

lemma cutOver_files [simp]: "dh_files (cutOver cfg idle h) = dh_files h"
  by (simp add: cutOver_def deploy_restart_def writeJSON_def)

lemma install_verified:
  assumes "dh_files (deploy_install cfg env tag e h) dst = Some body" "dh_files h dst \<noteq> Some body"
    "dr_Method r = ''POST''" "dc_HasSecret cfg" "dr_Validates r" "dr_HookType r = ''release''"
    "dr_Event r = Some e" "re_Action e = ''published''" "re_FullName e = dc_Repo cfg"
  shows "verified_write cfg env r dst body"
proof -
  let ?names = "''checksums.txt'' # want_names env"
  let ?cli = "''autophage-'' @ ev_platform env"
  have chk: "check_assets (asset_map e) ?cli (asset_prefix cfg) ?names = None"
    using assms(1,2) by (auto simp: deploy_install_def writeJSON_def Let_def split: option.splits)
  have "''checksums.txt'' \<noteq> ?cli" by simp
  then obtain su where su: "asset_map e ''checksums.txt'' = Some su" "assetURLAllowed su (asset_prefix cfg)"
    using check_assets_required [OF chk, of "''checksums.txt''"] check_assets_None [OF chk, of "''checksums.txt''"]
    by auto
  obtain sums where sums: "fetchSums env su = Some sums"
    using assms(1,2) chk su
    by (auto simp: deploy_install_def deploy_fail_def writeJSON_def Let_def map_get_def split: option.splits)
  obtain h' ok where i: "install_assets env (asset_map e) sums (want_names env) h = (h', ok)"
    by (cases "install_assets env (asset_map e) sums (want_names env) h")
  have "dh_files (deploy_install cfg env tag e h) = dh_files h'"
    using chk su sums i by (simp add: deploy_install_def Let_def map_get_def split: bool.splits)
  with assms(1,2) have f: "dh_files h' dst = Some body" "dh_files h' dst \<noteq> dh_files h dst" by auto
  from install_assets_files [OF i f(2)] f(1) obtain name url sm where
    n: "name \<in> set (want_names env)" "asset_map e name = Some url" "sums name = Some sm"
      "ev_get env url = Some body" "ev_sha256 env body = sm"
      "dst = take (length name - length (''-'' @ ev_platform env)) name"
    by auto
  have "assetURLAllowed url (asset_prefix cfg)"
    using check_assets_None [OF chk _ n(2)] n(1) by simp
  moreover have "name = dst @ ''-'' @ ev_platform env" using want_dst [OF n(1)] n(6) by simp
  ultimately show ?thesis
    unfolding verified_write_def using assms su sums n by blast
qed

definition demo_cfg :: DeployConfig where
  "demo_cfg = \<lparr>dc_Repo = ''o/r'', dc_HasSecret = True, dc_Version = ''v2.0.0'', dc_AssetBase = ''b/'',
     dc_HasRestart = True\<rparr>"

definition demo_env :: DeployEnv where
  "demo_env = \<lparr>ev_platform = ''x'', ev_get = (\<lambda>u. if HasSuffix u ''.txt'' then Some ''S autophaged-x'' else Some ''B''),
     ev_sha256 = (\<lambda>b. if b = ''B'' then ''S'' else ''T''), ev_write = (\<lambda>_. True)\<rparr>"

definition demo_release :: "string \<Rightarrow> DeployRequest" where
  "demo_release tag = \<lparr>dr_Method = ''POST'', dr_MediaType = Some ''application/json'',
     dr_Signature = ''s'', dr_Validates = True, dr_HookType = ''release'',
     dr_Event = Some \<lparr>re_Action = ''published'', re_TagName = tag,
       re_Assets = [\<lparr>as_Name = ''checksums.txt'', as_URL = ''b/o/r/releases/download/c.txt''\<rparr>,
                    \<lparr>as_Name = ''autophaged-x'', as_URL = ''b/o/r/releases/download/d''\<rparr>],
       re_FullName = ''o/r''\<rparr>\<rparr>"

definition fresh :: DeployHandler where
  "fresh = \<lparr>dh_installed = '''', dh_pending = False, dh_files = Map.empty, dh_restarts = 0, dh_answers = []\<rparr>"

lemmas deploy_eval = deploy_serve_def deploy_install_def cutOver_def deploy_restart_def writeJSON_def
  deploy_fail_def demo_cfg_def demo_env_def demo_release_def fresh_def asset_map_def asset_prefix_def
  want_names_def fetchSums_def map_get_def fetchVerifyInstall_def assetURLAllowed_def HasSuffix_def
  TrimPrefix_def is_space_def Let_def

lemma demo_install:
  "dh_files (deploy_serve demo_cfg demo_env (Some True) (demo_release ''v1.0.0'') fresh) ''autophaged'' = Some ''B''"
  "dh_installed (deploy_serve demo_cfg demo_env (Some True) (demo_release ''v1.0.0'') fresh) = ''v1.0.0''"
  "dh_restarts (deploy_serve demo_cfg demo_env (Some True) (demo_release ''v1.0.0'') fresh) = 1"
  by (simp_all add: deploy_eval)

subsection \<open>Properties\<close>

text \<open>C13. Only a verified release is installed. A file a delivery changed was written for a signed
  POST of a published release of the pinned repository; its content came from a URL under that
  repository's release downloads and hashes to the sum that the checksums file, itself from an
  allowed URL of the same release, lists for that asset.\<close>
theorem deploy_installs_only_verified:
  assumes "dh_files (deploy_serve cfg env idle r h) dst = Some body" "dh_files h dst \<noteq> Some body"
  shows "verified_write cfg env r dst body"
proof -
  from assms obtain e where e: "dr_Method r = ''POST''" "dc_HasSecret cfg" "dr_Validates r"
      "dr_HookType r = ''release''" "dr_Event r = Some e" "re_Action e = ''published''"
      "re_FullName e = dc_Repo cfg"
    and f: "dh_files (deploy_install cfg env (re_TagName e) e h) dst = Some body"
    by (auto simp: deploy_serve_def writeJSON_def Let_def split: if_splits option.splits)
  from install_verified [OF f assms(2) e] show ?thesis .
qed

theorem deploy_installs_only_verified_witness:
  "verified_write demo_cfg demo_env (demo_release ''v1.0.0'') ''autophaged'' ''B''"
  by (rule deploy_installs_only_verified [OF demo_install(1)]) (simp add: fresh_def)

text \<open>No allowed asset URL leaves the pinned repository's downloads through a parent segment:
  it is the prefix followed by a path none of whose segments is \<open>..\<close>, unless the path is
  that one segment and nothing else.\<close>
theorem deploy_url_stays_inside:
  assumes "assetURLAllowed url prefix"
  shows "\<exists>rest. url = prefix @ rest \<and> (''..'' \<in> set (Split rest CHR ''/'') \<longrightarrow> rest = ''..'')"
  using assms by (rule allowed_no_parent)

theorem deploy_url_stays_inside_witness:
  "\<exists>rest. ''b/r/v1/d'' = ''b/r/'' @ rest"
  using deploy_url_stays_inside [of "''b/r/v1/d''" "''b/r/''"]
  by (auto simp: assetURLAllowed_def TrimPrefix_def HasSuffix_def)

text \<open>Printing a version and parsing the tag gives the version back for components that fit 64
  bits, and one such tag is newer than another exactly when its version is greater
  lexicographically.\<close>
theorem deploy_tag_order:
  assumes "int a < 2 ^ 63" "int b < 2 ^ 63" "int c < 2 ^ 63"
    and "int a' < 2 ^ 63" "int b' < 2 ^ 63" "int c' < 2 ^ 63"
  shows "parseTag (version_tag a b c) = Some [int a, int b, int c] \<and>
    (tagNewer (version_tag a b c) (version_tag a' b' c') \<longleftrightarrow>
      a > a' \<or> (a = a' \<and> (b > b' \<or> (b = b' \<and> c > c'))))"
  using parseTag_version_tag [OF assms(1-3)] parseTag_version_tag [OF assms(4-6)]
  by (auto simp: tagNewer_def)

theorem deploy_tag_order_witness:
  "tagNewer (version_tag 1 10 0) (version_tag 1 9 3)"
  using deploy_tag_order [of 1 10 0 1 9 3] by simp

text \<open>A failed installation restarts the daemon. An idle handler answers a delivery whose
  checksums cannot be fetched with an error, installs nothing, and then cuts over: a second
  answer is written and the process is restarted into the binary it already runs.\<close>
theorem deploy_restarts_after_failed_install:
  "let env = demo_env\<lparr>ev_get := (\<lambda>_. None)\<rparr>;
       h = deploy_serve demo_cfg env (Some True) (demo_release ''v2.0.1'') fresh
   in dh_installed h = '''' \<and> dh_files h = dh_files fresh \<and> dh_restarts h = 1 \<and>
      dh_answers h = [(500, ''checksums: ''), (200, ''restarting'')]"
  by (simp add: deploy_eval)

text \<open>The guard against rolling the host back does not survive the restart it leads to: a
  daemon running v2.0.0 that has not installed anything since it started installs a
  redelivered v1.0.0 over it.\<close>
theorem deploy_rolls_back_after_restart:
  "dc_Version demo_cfg = ''v2.0.0'' \<and> tagNewer ''v2.0.0'' ''v1.0.0'' \<and>
   dh_installed (deploy_serve demo_cfg demo_env (Some True) (demo_release ''v1.0.0'') fresh) = ''v1.0.0'' \<and>
   dh_files (deploy_serve demo_cfg demo_env (Some True) (demo_release ''v1.0.0'') fresh) ''autophaged'' = Some ''B'' \<and>
   dh_restarts (deploy_serve demo_cfg demo_env (Some True) (demo_release ''v1.0.0'') fresh) = 1"
  using demo_install
  by (simp add: demo_cfg_def tagNewer_def parseTag_def TrimPrefix_def i64_def)

text \<open>A deferred restart happens, once: a delivery that finds the daemon busy leaves a restart
  pending, a busy moment keeps it pending, the first idle one restarts exactly once and a
  second does nothing.\<close>
theorem deploy_deferred_restart:
  "let h1 = cutOver cfg (Some False) h;
       h2 = MaybeRestart cfg (Some False) h1;
       h3 = MaybeRestart cfg (Some True) h2;
       h4 = MaybeRestart cfg (Some True) h3
   in dh_pending h1 \<and> h2 = h1 \<and> dh_restarts h1 = dh_restarts h \<and>
      dh_restarts h3 = dh_restarts h + (if dc_HasRestart cfg then 1 else 0) \<and> \<not> dh_pending h3 \<and> h4 = h3"
  by (simp add: cutOver_def MaybeRestart_def deploy_restart_def writeJSON_def Let_def)

end
