(* ===== verification/Spec2Isabelle.thy ===== *)
theory Spec2Isabelle
  imports SweepInv WakeUps Autophaged TriagePrompt CommandsInv Metrics Toolbox Deploy RepairerInv OperatorApiInv ApiRoutesInv Configuration
begin

text \<open>
  \<^bold>\<open>autophage, verified in parts.\<close>

  \<^verbatim>\<open>autophaged\<close> is a daemon that turns GitHub issues into pull requests and repairs failing
  dependabot pull requests. GitHub posts deliveries to a webhook; a translator makes them
  commands on two aggregates, the \<^emph>\<open>Case\<close> of an issue and the \<^emph>\<open>Bump\<close> of a pull request; a
  dispatcher sweeps over the store, triages new cases with one model call, posts comments,
  and starts attempts and repair rounds in a pool of sandboxes; a runner prepares a
  workspace, lets an agent work in a container under a budget, pushes and opens a pull
  request. An operator watches and intervenes through an HTTP API and a command line. Everything
  survives a restart in PostgreSQL.

  \<^bold>\<open>Conventions.\<close> A Go \<^verbatim>\<open>string\<close> is a list of 8 bit characters. A Go \<^verbatim>\<open>int\<close> that is stored and
  compared is an \<open>int\<close>; where the code computes, the 64 bit wrap-around is written out with
  \<open>i64\<close> (theory \<^verbatim>\<open>GoBase\<close>). Durations are nanoseconds. A pointer that may be nil is an \<open>option\<close>. A
  call that fails answers \<open>Inl\<close>, or a pair of the state it leaves and an error. A loop that might
  not end is a \<open>partial_function (option)\<close> with \<open>None\<close> for not returning. What is not in the
  repository - the model, the agent library, GitHub and its client library, git, podman, the
  database's answers, the clock, package time's formatting, the JSON and Prometheus libraries -
  is a parameter: a function argument, or a record of answers any value of which is allowed.

  \<^bold>\<open>The domain.\<close>
  \<^verbatim>\<open>ResVocab\<close> and \<^verbatim>\<open>UpVocab\<close> are the enumerations of \<^verbatim>\<open>internal/resolution/enums.go\<close> and
  \<^verbatim>\<open>internal/upkeep/enums.go\<close> with their parsers; \<^verbatim>\<open>Kernel\<close> holds the values of \<^verbatim>\<open>requester.go\<close>,
  \<^verbatim>\<open>repository.go\<close>, \<^verbatim>\<open>budget.go\<close> and \<^verbatim>\<open>facts.go\<close>. \<^verbatim>\<open>CaseAgg\<close> (\<^verbatim>\<open>resolution/case.go\<close>) and
  \<^verbatim>\<open>BumpAgg\<close> (\<^verbatim>\<open>upkeep/bump.go\<close>) are the two aggregates, one function per command. Both are
  instances of the locale of \<^verbatim>\<open>Machine\<close>, a state with a log of legal transitions. \<^verbatim>\<open>CaseInv\<close> and
  \<^verbatim>\<open>BumpInv\<close> prove their invariants for every sequence of commands, the trust gate, the cap on
  rounds, and that the log follows the documented diagrams. \<^verbatim>\<open>Briefs\<close> (\<^verbatim>\<open>brief.go\<close> of both
  packages) shows that what strangers wrote cannot leave its fence, and that the escaping loop
  returns for the tags the code passes; the fences are instances of the locale \<open>tag_fence\<close>.

  \<^bold>\<open>The store.\<close>
  \<^verbatim>\<open>StoreCases\<close>, \<^verbatim>\<open>StoreBumps\<close> and \<^verbatim>\<open>StoreWorld\<close> are \<^verbatim>\<open>internal/store\<close> over the tables of the
  migrations with their constraints; the rows of one aggregate are a snapshot. \<^verbatim>\<open>StoreCasesInv\<close>
  is the refinement: what a transaction commits is what the commands produced. \<^verbatim>\<open>Listings\<close> and
  \<^verbatim>\<open>ListingsInv\<close> are the paged listings and the counts; following cursors ends after as many
  pages as there are rows, which is the fuel of \<open>follow\<close>.

  \<^bold>\<open>The services.\<close>
  \<^verbatim>\<open>Translator\<close> (\<^verbatim>\<open>internal/github/translate.go\<close>, \<^verbatim>\<open>bumps.go\<close>) and \<^verbatim>\<open>TranslatorInv\<close>;
  \<^verbatim>\<open>CheckRollup\<close> (\<^verbatim>\<open>rollup.go\<close>), whose loop over pages is compared with the whole listing, for
  servers whose page links end; \<^verbatim>\<open>Sizing\<close> (\<^verbatim>\<open>internal/app/triage.go\<close>) and \<^verbatim>\<open>TriagePrompt\<close>
  (\<^verbatim>\<open>internal/agent/triage.go\<close>); \<^verbatim>\<open>Outbox\<close> (\<^verbatim>\<open>commenter.go\<close>, \<^verbatim>\<open>enrollment.go\<close>); \<^verbatim>\<open>Scheduling\<close>
  (\<^verbatim>\<open>scheduler.go\<close>, \<^verbatim>\<open>repairs.go\<close>, \<^verbatim>\<open>recovery.go\<close>) with the locale \<open>slot_scheduler\<close> in
  \<^verbatim>\<open>SchedulingInv\<close> both schedulers interpret. \<^verbatim>\<open>Sweep\<close> (\<^verbatim>\<open>dispatcher.go\<close>) composes them into one
  sweep, the boot and the step relation \<open>daemon_step\<close>, over which \<^verbatim>\<open>SweepInv\<close> proves that the
  pool is never overcommitted. \<^verbatim>\<open>WakeUps\<close> is the dispatcher's loop with \<^verbatim>\<open>store/listen.go\<close>: any
  interleaving of changes, notifications, dropped connections and ticks, and that no change is
  missed.

  \<^bold>\<open>The runners.\<close>
  \<^verbatim>\<open>AgentRun\<close> (\<^verbatim>\<open>run.go\<close>, \<^verbatim>\<open>budget_tool.go\<close>, \<^verbatim>\<open>ledger.go\<close>) is one budgeted run over any sequence of
  the agent's hooks; \<^verbatim>\<open>Runner\<close> (\<^verbatim>\<open>runner.go\<close>) and \<^verbatim>\<open>Repairer\<close> (\<^verbatim>\<open>repair.go\<close>) are the two
  pipelines over any answers of the services, as lists of effects in order; \<^verbatim>\<open>RunnerInv\<close>,
  \<^verbatim>\<open>RunnerStops\<close> and \<^verbatim>\<open>RepairerInv\<close> show that every run ends with an outcome the store
  accepts, tears its container down and pushes or opens nothing unfinished. \<^verbatim>\<open>Closing\<close> is the
  pull request body's closing keywords. \<^verbatim>\<open>Sandbox\<close>, \<^verbatim>\<open>SandboxOps\<close> and \<^verbatim>\<open>SandboxInv\<close>
  (\<^verbatim>\<open>internal/sandbox\<close>) are the git and podman commands with the workspace locks, over a host that
  may answer anything, and a small program logic for what is sent to it. \<^verbatim>\<open>Toolbox\<close>
  (\<^verbatim>\<open>internal/toolbox\<close>) is what runs inside the container.

  \<^bold>\<open>The edges.\<close>
  \<^verbatim>\<open>GitHubClient\<close> (\<^verbatim>\<open>internal/github/client.go\<close>) is the retrying transport, the cache of scoped
  tokens and every call; its retries are bounded by three sends. \<^verbatim>\<open>Routing\<close>
  (\<^verbatim>\<open>internal/routing\<close>, \<^verbatim>\<open>agent/models.go\<close>) chooses a model. \<^verbatim>\<open>Configuration\<close>
  (\<^verbatim>\<open>internal/config\<close>) and \<^verbatim>\<open>Autophaged\<close> (\<^verbatim>\<open>cmd/autophaged\<close>) wire the daemon from its file.
  \<^verbatim>\<open>OperatorApi\<close>, \<^verbatim>\<open>ApiBodies\<close>, \<^verbatim>\<open>ApiRoutes\<close> with their \<^verbatim>\<open>Inv\<close> theories are
  \<^verbatim>\<open>internal/api\<close>, \<^verbatim>\<open>internal/auth\<close> and the webhook: routing table, guard, handlers, bodies.
  \<^verbatim>\<open>Commands\<close> and \<^verbatim>\<open>CommandsInv\<close> (\<^verbatim>\<open>cmd/autophage\<close>) are the command line, composed with the
  API. \<^verbatim>\<open>Deploy\<close> (\<^verbatim>\<open>internal/deploy\<close>) installs releases. \<^verbatim>\<open>Metrics\<close> are the vectors and hooks.
  \<^verbatim>\<open>GoBase\<close>, \<^verbatim>\<open>GoText\<close> and \<^verbatim>\<open>GoPath\<close> are what the code uses of Go's standard library.

  \<^bold>\<open>How the parts meet.\<close> The dispatcher's sweep calls the services on one \<open>Store\<close>; the two runners
  write their outcomes to the same store through the aggregates' commands, and the operator's API
  does too, in between, as steps of \<open>daemon_step\<close>. The runners use the sandbox's interface, whose
  answers \<open>RunnerEnv\<close> and \<open>RepairEnv\<close> leave open; \<^verbatim>\<open>SandboxOps\<close> is what implements it. The registry
  of running attempts connects the API's stop to the run it cancels.

  \<^bold>\<open>Behaviour worth knowing\<close> that lemmas here show: a failed install restarts the daemon, and after
  a restart an older release is installed (\<^verbatim>\<open>Deploy\<close>); a stale push can leave a green bump without
  a verdict (\<^verbatim>\<open>BumpInv\<close>); a lost post row posts a comment twice (\<^verbatim>\<open>Outbox\<close>); a doubled closing
  keyword survives (\<^verbatim>\<open>Closing\<close>); rounds that a shutdown left open hold their slots for ever when
  upkeep is then switched off (\<^verbatim>\<open>Autophaged\<close>); the API hides the pull request of an attempt that
  ran out of budget (\<^verbatim>\<open>ApiBodies\<close>); a repair's finished summary is taken for unfinished
  (\<^verbatim>\<open>AgentRunInv\<close>).

  \<^bold>\<open>Not modelled.\<close> Logging, timeouts and the waits for running goroutines at shutdown. The connection
  pool, the migrations and the test support of the store: library calls. SQL text: the
  statements are functions on the tables. The HTTP server's own limits, the parsing of a remote
  address and the embedded pages. Flags and help texts of the commands. The wording of errors
  that only reach a log, and the arguments of \<^verbatim>\<open>%q\<close> in those that people see. Metrics are not
  part of the services' models: their hooks stand on their own in \<^verbatim>\<open>Metrics\<close>.
\<close>

end
